(* ===== verification/Prelude.thy ===== *)
theory Prelude
  imports Main "HOL-Library.Word" "HOL-Library.Monad_Syntax"
begin

unbundle bit_operations_syntax

text \<open>
  Shared vocabulary of the development: the fixed-width integer types of the C sources
  (\<open>u8\<close>, \<open>u16\<close>, \<open>u32\<close>, \<open>u64\<close>), byte strings, memory accesses with an explicit
  out-of-bounds outcome, and the interfaces (locales) that several components meet.

  Conventions. A C object of bytes is a list; a pointer into a NUL terminated string is the
  list of the bytes from the pointer on, the terminator included. Every access is checked: the
  outcome \<open>None\<close> of an access (type \<open>'a ub\<close>) stands for a read or write outside the
  object, which is undefined behaviour in C. An error return of the C function is an ordinary
  value (\<open>-1\<close>, NULL) under \<open>Some\<close>.
\<close>

section \<open>Types\<close>

type_synonym u8 = "8 word"
type_synonym u16 = "16 word"
type_synonym u32 = "32 word"
type_synonym u64 = "64 word"
type_synonym bytes = "u8 list"

type_synonym 'a ub = "'a option"

text \<open>The conversion of an integer to the 32-bit type \<open>int\<close>, modulo \<open>2 ^ 32\<close> as the compilers define it.\<close>

definition c_int :: "int \<Rightarrow> int" where
  "c_int x = signed_take_bit 31 x"

lemma c_int_id: "- (2 ^ 31) \<le> x \<Longrightarrow> x < 2 ^ 31 \<Longrightarrow> c_int x = x"
  unfolding c_int_def by (rule signed_take_bit_int_eq_self) simp_all

text \<open>The conversion of a length to the 32-bit type \<open>unsigned\<close>.\<close>

definition c_unsigned :: "nat \<Rightarrow> nat" where
  "c_unsigned n = unat (word_of_nat n :: u32)"

lemma c_unsigned_le: "c_unsigned n \<le> n"
  by (simp add: c_unsigned_def unat_of_nat)

named_theorems access_simps \<open>rewriting of checked memory accesses\<close>

section \<open>Checked memory accesses\<close>

text \<open>\<open>*p\<close> for a pointer \<open>p\<close>: the first byte, undefined past the end of the object.\<close>

definition deref :: "'a list \<Rightarrow> 'a ub" where
  "deref p = (case p of [] \<Rightarrow> None | c # _ \<Rightarrow> Some c)"

text \<open>\<open>p + n\<close>: pointers may point one past the end of an object, and no further.\<close>

definition advance :: "nat \<Rightarrow> 'a list \<Rightarrow> 'a list ub" where
  "advance n p = (if n \<le> length p then Some (drop n p) else None)"

text \<open>\<open>buf[i]\<close> and \<open>buf[i] = v\<close> with a signed index.\<close>

definition peek :: "'a list \<Rightarrow> int \<Rightarrow> 'a ub" where
  "peek buf i = (if 0 \<le> i \<and> i < int (length buf) then Some (buf ! nat i) else None)"

definition poke :: "'a list \<Rightarrow> int \<Rightarrow> 'a \<Rightarrow> 'a list ub" where
  "poke buf i v = (if 0 \<le> i \<and> i < int (length buf) then Some (buf[nat i := v]) else None)"

text \<open>\<open>memcpy (buf + i, src, length src)\<close>.\<close>

definition memcpy_at :: "'a list \<Rightarrow> nat \<Rightarrow> 'a list \<Rightarrow> 'a list ub" where
  "memcpy_at buf i src =
     (if i + length src \<le> length buf
      then Some (take i buf @ src @ drop (i + length src) buf) else None)"

text \<open>A NUL terminated string, terminator included.\<close>

definition cstring :: "bytes \<Rightarrow> bool" where
  "cstring s \<longleftrightarrow> s \<noteq> [] \<and> last s = 0 \<and> 0 \<notin> set (butlast s)"

definition to_cstring :: "bytes \<Rightarrow> bytes" where
  "to_cstring t = t @ [0]"

text \<open>\<open>strlen\<close> of the string at a pointer: undefined when there is no terminator.\<close>

fun strlen :: "bytes \<Rightarrow> nat ub" where
  "strlen [] = None"
| "strlen (c # cs) = (if c = 0 then Some 0 else map_option Suc (strlen cs))"

lemma deref_simps [simp, access_simps]:
  "deref [] = None" "deref (c # cs) = Some c"
  by (simp_all add: deref_def)

lemma advance_0 [simp, access_simps]: "advance 0 p = Some p"
  by (simp add: advance_def)

lemma advance_Suc_Cons [simp, access_simps]: "advance (Suc n) (c # cs) = advance n cs"
  by (simp add: advance_def)

lemma advance_1_Cons [simp, access_simps]: "advance 1 (c # cs) = Some cs"
  by (simp add: advance_def)

lemma advance_length_append [simp, access_simps]: "advance (length p) (p @ q) = Some q"
  by (simp add: advance_def)

lemma poke_length: "poke buf i v = Some buf' \<Longrightarrow> length buf' = length buf"
  by (auto simp: poke_def split: if_splits)

lemma memcpy_at_length: "memcpy_at buf i src = Some buf' \<Longrightarrow> length buf' = length buf"
  by (auto simp: memcpy_at_def split: if_splits)

lemma memcpy_at_take:
  "memcpy_at buf i src = Some buf' \<Longrightarrow> take (i + length src) buf' = take i buf @ src"
  by (auto simp: memcpy_at_def split: if_splits)

lemma cstring_to_cstring: "0 \<notin> set t \<Longrightarrow> cstring (to_cstring t)"
  by (simp add: cstring_def to_cstring_def)

lemma cstring_exhaust:
  assumes "cstring s"
  obtains t where "s = to_cstring t" "0 \<notin> set t"
  using assms by (metis append_butlast_last_id cstring_def to_cstring_def)

lemma cstring_Cons_iff: "cstring (c # cs) \<longleftrightarrow> (if c = 0 then cs = [] else cstring cs)"
  by (auto simp: cstring_def)

lemma cstring_Nil [simp]: "\<not> cstring []"
  by (simp add: cstring_def)

lemma strlen_to_cstring [simp]: "0 \<notin> set t \<Longrightarrow> strlen (to_cstring t) = Some (length t)"
  by (induction t) (auto simp: to_cstring_def)

section \<open>Bytes\<close>

lemma u8_exhaust:
  assumes "\<And>n. n < 256 \<Longrightarrow> P (word_of_nat n :: u8)"
  shows "P x"
proof -
  have "unat x < 256" using unsigned_less [of x, where ?'a = nat] by simp
  then have "P (word_of_nat (unat x))" by (rule assms)
  then show ?thesis by simp
qed

text \<open>A decidable property of all bytes, by evaluation over the 256 cases.\<close>

definition all_u8 :: "(u8 \<Rightarrow> bool) \<Rightarrow> bool" where
  "all_u8 P = list_all (\<lambda>n. P (word_of_nat n)) [0..<256]"

lemma all_u8_D: "all_u8 P \<Longrightarrow> P x"
  by (rule u8_exhaust) (simp add: all_u8_def list_all_iff)

lemma unat_u8_256 [simp]: "unat (x::u8) < 256"
  using unsigned_less [of x, where ?'a = nat] by simp

text \<open>A table indexed by a byte.\<close>

lemma peek_uint: "peek xs (uint c) = (if unat c < length xs then Some (xs ! unat c) else None)"
  for c :: "'a::len word"
proof -
  have "uint c < int (length xs) \<longleftrightarrow> unat c < length xs" by (metis of_nat_less_iff uint_nat)
  then show ?thesis by (simp add: peek_def)
qed

text \<open>Lists three elements at a time.\<close>

lemma list3_induct [case_names Nil One Two Three]:
  assumes "P []" "\<And>a. P [a]" "\<And>a b. P [a, b]" "\<And>a b c xs. P xs \<Longrightarrow> P (a # b # c # xs)"
  shows "P xs"
proof (induction xs rule: length_induct)
  case (1 xs)
  show ?case
  proof (cases xs rule: remdups_adj.cases)
    case (3 a b ys)
    then show ?thesis using 1 assms(3,4) by (cases ys) auto
  qed (use assms in auto)
qed

section \<open>Interfaces shared by the components\<close>

text \<open>
  An encoder and its decoder: decoding what was encoded gives the value back. The client
  lemmas (an encoding determines its value, equal encodings are of equal values, and the
  decoder accepts every encoding) are proved here once.
\<close>

locale codec =
  fixes valid :: "'a \<Rightarrow> bool"
    and enc :: "'a \<Rightarrow> 'b"
    and dec :: "'b \<Rightarrow> 'a option"
  assumes dec_enc: "valid x \<Longrightarrow> dec (enc x) = Some x"
begin

lemma enc_inject: "valid x \<Longrightarrow> valid y \<Longrightarrow> enc x = enc y \<longleftrightarrow> x = y"
  by (metis dec_enc option.inject)

lemma enc_inj_on: "inj_on enc {x. valid x}"
  by (rule inj_onI) (simp add: enc_inject)

lemma dec_total_on_image: "b \<in> enc ` {x. valid x} \<Longrightarrow> \<exists>x. valid x \<and> dec b = Some x \<and> enc x = b"
  by (auto simp: dec_enc)

end

text \<open>A codec whose encodings have one length, so that a field can sit inside a record.\<close>

locale fixed_codec = codec valid enc dec
  for valid :: "'a \<Rightarrow> bool" and enc :: "'a \<Rightarrow> bytes" and dec :: "bytes \<Rightarrow> 'a option" +
  fixes width :: nat
  assumes enc_width: "length (enc x) = width"
begin

lemma field_at_front: "valid x \<Longrightarrow> dec (take width (enc x @ rest)) = Some x"
  using enc_width [of x] dec_enc [of x] by simp

lemma field_behind:
  assumes "valid x" shows "dec (take width (drop (length pre) (pre @ enc x @ rest))) = Some x"
  using assms by (simp del: take_append add: field_at_front)

lemma concat_width: "length (concat (map enc xs)) = width * length xs"
  by (induction xs) (simp_all add: enc_width)

end

end
