(* ===== verification/Byte_Order.thy ===== *)
theory Byte_Order
  imports Prelude
begin

unbundle bit_operations_syntax

text \<open>
  The unaligned big- and little-endian accessors of \<open>src/utils/common.h\<close>
  (\<open>WPA_GET_BE16\<close> to \<open>WPA_PUT_LE64\<close>). A \<open>WPA_PUT\<close> is given by the bytes it stores,
  a \<open>WPA_GET\<close> reads the bytes at its pointer and is undefined when there are too few.
  The accessors of one width and byte order meet the interface \<open>fixed_codec\<close>.
\<close>

section \<open>Accessors\<close>

definition WPA_PUT_BE16 :: "u16 \<Rightarrow> bytes" where
  "WPA_PUT_BE16 val = [ucast (drop_bit 8 val), ucast (val AND 0xff)]"

definition WPA_GET_BE16 :: "bytes \<Rightarrow> u16 ub" where
  "WPA_GET_BE16 a = do {
     a0 \<leftarrow> peek a 0; a1 \<leftarrow> peek a 1;
     Some (push_bit 8 (ucast a0) OR ucast a1) }"

definition WPA_PUT_LE16 :: "u16 \<Rightarrow> bytes" where
  "WPA_PUT_LE16 val = [ucast (val AND 0xff), ucast (drop_bit 8 val)]"

definition WPA_GET_LE16 :: "bytes \<Rightarrow> u16 ub" where
  "WPA_GET_LE16 a = do {
     a1 \<leftarrow> peek a 1; a0 \<leftarrow> peek a 0;
     Some (push_bit 8 (ucast a1) OR ucast a0) }"

definition WPA_PUT_BE24 :: "u32 \<Rightarrow> bytes" where
  "WPA_PUT_BE24 val =
     [ucast (drop_bit 16 val AND 0xff), ucast (drop_bit 8 val AND 0xff), ucast (val AND 0xff)]"

definition WPA_GET_BE24 :: "bytes \<Rightarrow> u32 ub" where
  "WPA_GET_BE24 a = do {
     a0 \<leftarrow> peek a 0; a1 \<leftarrow> peek a 1; a2 \<leftarrow> peek a 2;
     Some (push_bit 16 (ucast a0) OR push_bit 8 (ucast a1) OR ucast a2) }"

definition WPA_PUT_BE32 :: "u32 \<Rightarrow> bytes" where
  "WPA_PUT_BE32 val =
     [ucast (drop_bit 24 val AND 0xff), ucast (drop_bit 16 val AND 0xff),
      ucast (drop_bit 8 val AND 0xff), ucast (val AND 0xff)]"

definition WPA_GET_BE32 :: "bytes \<Rightarrow> u32 ub" where
  "WPA_GET_BE32 a = do {
     a0 \<leftarrow> peek a 0; a1 \<leftarrow> peek a 1; a2 \<leftarrow> peek a 2; a3 \<leftarrow> peek a 3;
     Some (push_bit 24 (ucast a0) OR push_bit 16 (ucast a1) OR push_bit 8 (ucast a2)
           OR ucast a3) }"

definition WPA_PUT_LE32 :: "u32 \<Rightarrow> bytes" where
  "WPA_PUT_LE32 val =
     [ucast (val AND 0xff), ucast (drop_bit 8 val AND 0xff),
      ucast (drop_bit 16 val AND 0xff), ucast (drop_bit 24 val AND 0xff)]"

definition WPA_GET_LE32 :: "bytes \<Rightarrow> u32 ub" where
  "WPA_GET_LE32 a = do {
     a3 \<leftarrow> peek a 3; a2 \<leftarrow> peek a 2; a1 \<leftarrow> peek a 1; a0 \<leftarrow> peek a 0;
     Some (push_bit 24 (ucast a3) OR push_bit 16 (ucast a2) OR push_bit 8 (ucast a1)
           OR ucast a0) }"

definition WPA_PUT_BE64 :: "u64 \<Rightarrow> bytes" where
  "WPA_PUT_BE64 val =
     [ucast (drop_bit 56 val), ucast (drop_bit 48 val), ucast (drop_bit 40 val),
      ucast (drop_bit 32 val), ucast (drop_bit 24 val), ucast (drop_bit 16 val),
      ucast (drop_bit 8 val), ucast (val AND 0xff)]"

definition WPA_GET_BE64 :: "bytes \<Rightarrow> u64 ub" where
  "WPA_GET_BE64 a = do {
     a0 \<leftarrow> peek a 0; a1 \<leftarrow> peek a 1; a2 \<leftarrow> peek a 2; a3 \<leftarrow> peek a 3;
     a4 \<leftarrow> peek a 4; a5 \<leftarrow> peek a 5; a6 \<leftarrow> peek a 6; a7 \<leftarrow> peek a 7;
     Some (push_bit 56 (ucast a0) OR push_bit 48 (ucast a1) OR push_bit 40 (ucast a2)
           OR push_bit 32 (ucast a3) OR push_bit 24 (ucast a4) OR push_bit 16 (ucast a5)
           OR push_bit 8 (ucast a6) OR ucast a7) }"

definition WPA_PUT_LE64 :: "u64 \<Rightarrow> bytes" where
  "WPA_PUT_LE64 val =
     [ucast (val AND 0xff), ucast (drop_bit 8 val), ucast (drop_bit 16 val),
      ucast (drop_bit 24 val), ucast (drop_bit 32 val), ucast (drop_bit 40 val),
      ucast (drop_bit 48 val), ucast (drop_bit 56 val)]"

definition WPA_GET_LE64 :: "bytes \<Rightarrow> u64 ub" where
  "WPA_GET_LE64 a = do {
     a7 \<leftarrow> peek a 7; a6 \<leftarrow> peek a 6; a5 \<leftarrow> peek a 5; a4 \<leftarrow> peek a 4;
     a3 \<leftarrow> peek a 3; a2 \<leftarrow> peek a 2; a1 \<leftarrow> peek a 1; a0 \<leftarrow> peek a 0;
     Some (push_bit 56 (ucast a7) OR push_bit 48 (ucast a6) OR push_bit 40 (ucast a5)
           OR push_bit 32 (ucast a4) OR push_bit 24 (ucast a3) OR push_bit 16 (ucast a2)
           OR push_bit 8 (ucast a1) OR ucast a0) }"

section \<open>Bytes of a word\<close>

lemma ucast_and_ff: "ucast (x AND 0xff) = (ucast x :: u8)" for x :: "'a::len word"
proof -
  have "(0xff :: 'a word) = mask 8" by (simp add: mask_eq_exp_minus_1)
  then have "ucast (x AND 0xff) = (ucast (take_bit 8 x) :: u8)"
    by (simp add: take_bit_eq_mask)
  also have "\<dots> = ucast x"
    by (rule bit_word_eqI) (use bit_imp_le_length in \<open>auto simp: bit_simps\<close>)
  finally show ?thesis .
qed

lemma ucast_u8_ucast: "ucast (ucast x :: u8) = take_bit 8 x" for x :: "'a::len word"
  by (rule bit_word_eqI) (auto simp: bit_simps)

lemma bit_byte_at:
  "bit (push_bit k (take_bit 8 (drop_bit k x))) n \<longleftrightarrow> k \<le> n \<and> n < k + 8 \<and> bit x n"
  for x :: "'a::len word"
  by (auto simp: bit_simps dest: bit_imp_le_length)

lemma bit_byte_0: "bit (take_bit 8 x) n \<longleftrightarrow> n < 8 \<and> bit x n" for x :: "'a::len word"
  by (auto simp: bit_simps)

lemmas byte_order_simps = peek_def ucast_and_ff ucast_u8_ucast
lemmas byte_bits = bit_or_iff bit_byte_at bit_byte_0

lemma u64_byte_bit: "x < (64::nat) \<Longrightarrow> x < 8 \<or> 8 \<le> x \<and> x < 16 \<or> 16 \<le> x \<and> x < 24 \<or> 24 \<le> x \<and> x < 32
    \<or> 32 \<le> x \<and> x < 40 \<or> 40 \<le> x \<and> x < 48 \<or> 48 \<le> x \<and> x < 56 \<or> 56 \<le> x \<and> x < 64"
  by arith

section \<open>Each accessor pair is a codec\<close>

lemma get_put_be16: "WPA_GET_BE16 (WPA_PUT_BE16 v @ rest) = Some v"
  by (simp add: WPA_GET_BE16_def WPA_PUT_BE16_def byte_order_simps)
     (rule bit_word_eqI, simp add: byte_bits, arith)

lemma get_put_le16: "WPA_GET_LE16 (WPA_PUT_LE16 v @ rest) = Some v"
  by (simp add: WPA_GET_LE16_def WPA_PUT_LE16_def byte_order_simps)
     (rule bit_word_eqI, simp add: byte_bits, arith)

lemma get_put_be24: "take_bit 24 v = v \<Longrightarrow> WPA_GET_BE24 (WPA_PUT_BE24 v @ rest) = Some v"
proof -
  assume v: "take_bit 24 v = v"
  have "bit v n \<Longrightarrow> n < 24" for n by (subst (asm) v [symmetric]) (simp add: bit_simps)
  then show ?thesis
    by (simp add: WPA_GET_BE24_def WPA_PUT_BE24_def byte_order_simps)
       (rule bit_word_eqI, simp add: byte_bits, force)
qed

lemma get_put_be32: "WPA_GET_BE32 (WPA_PUT_BE32 v @ rest) = Some v"
  by (simp add: WPA_GET_BE32_def WPA_PUT_BE32_def byte_order_simps)
     (rule bit_word_eqI, simp add: byte_bits, arith)

lemma get_put_le32: "WPA_GET_LE32 (WPA_PUT_LE32 v @ rest) = Some v"
  by (simp add: WPA_GET_LE32_def WPA_PUT_LE32_def byte_order_simps)
     (rule bit_word_eqI, simp add: byte_bits, arith)

lemma get_put_be64: "WPA_GET_BE64 (WPA_PUT_BE64 v @ rest) = Some v"
  by (simp add: WPA_GET_BE64_def WPA_PUT_BE64_def byte_order_simps)
     (rule bit_word_eqI, simp add: byte_bits, drule u64_byte_bit, blast)

lemma get_put_le64: "WPA_GET_LE64 (WPA_PUT_LE64 v @ rest) = Some v"
  by (simp add: WPA_GET_LE64_def WPA_PUT_LE64_def byte_order_simps)
     (rule bit_word_eqI, simp add: byte_bits, drule u64_byte_bit, blast)

interpretation be16: fixed_codec "\<lambda>_. True" WPA_PUT_BE16 WPA_GET_BE16 2
  using get_put_be16 [where rest = "[]"] by unfold_locales (auto simp: WPA_PUT_BE16_def)

interpretation le16: fixed_codec "\<lambda>_. True" WPA_PUT_LE16 WPA_GET_LE16 2
  using get_put_le16 [where rest = "[]"] by unfold_locales (auto simp: WPA_PUT_LE16_def)

interpretation be24: fixed_codec "\<lambda>v. take_bit 24 v = v" WPA_PUT_BE24 WPA_GET_BE24 3
  using get_put_be24 [where rest = "[]"] by unfold_locales (auto simp: WPA_PUT_BE24_def)

interpretation be32: fixed_codec "\<lambda>_. True" WPA_PUT_BE32 WPA_GET_BE32 4
  using get_put_be32 [where rest = "[]"] by unfold_locales (auto simp: WPA_PUT_BE32_def)

interpretation le32: fixed_codec "\<lambda>_. True" WPA_PUT_LE32 WPA_GET_LE32 4
  using get_put_le32 [where rest = "[]"] by unfold_locales (auto simp: WPA_PUT_LE32_def)

interpretation be64: fixed_codec "\<lambda>_. True" WPA_PUT_BE64 WPA_GET_BE64 8
  using get_put_be64 [where rest = "[]"] by unfold_locales (auto simp: WPA_PUT_BE64_def)

interpretation le64: fixed_codec "\<lambda>_. True" WPA_PUT_LE64 WPA_GET_LE64 8
  using get_put_le64 [where rest = "[]"] by unfold_locales (auto simp: WPA_PUT_LE64_def)

end
