(* ===== verification/Hex_Strings.thy ===== *)
theory Hex_Strings
  imports Prelude
begin

unbundle bit_operations_syntax

text \<open>
  The hexadecimal text conversions of \<open>src/utils/common.c\<close>: digits and bytes
  (\<open>hex2num\<close>, \<open>hex2byte\<close>), MAC addresses (\<open>hwaddr_parse\<close> and its callers), hex
  strings (\<open>hexstr2bin\<close>) and the printing counterparts (\<open>_wpa_snprintf_hex\<close>,
  \<open>wpa_snprintf_hex_sep\<close>, \<open>hwaddr_mask_txt\<close>). Strings are NUL terminated byte lists;
  output buffers are byte lists and every write is checked against their size.
\<close>

section \<open>Formatted output\<close>

text \<open>
  The C library's \<open>snprintf\<close> at offset \<open>pos\<close> with \<open>sz\<close> bytes allowed and the formatted
  text \<open>txt\<close>: at most \<open>sz - 1\<close> characters and a terminator are stored, the length of the
  whole text is returned.
\<close>

definition os_snprintf :: "bytes \<Rightarrow> nat \<Rightarrow> nat \<Rightarrow> bytes \<Rightarrow> (bytes \<times> int) ub" where
  "os_snprintf buf pos sz txt =
     (if sz = 0 then Some (buf, int (length txt))
      else do { buf \<leftarrow> memcpy_at buf pos (take (sz - 1) txt @ [0]);
                Some (buf, int (length txt)) })"

definition os_snprintf_error :: "nat \<Rightarrow> int \<Rightarrow> bool" where
  "os_snprintf_error sz res \<longleftrightarrow> res < 0 \<or> int sz \<le> res"

text \<open>The digits \<open>%x\<close> and \<open>%X\<close> print, and the two-digit formats \<open>%02x\<close> and \<open>%02X\<close>.\<close>

definition hex_digit :: "bool \<Rightarrow> nat \<Rightarrow> u8" where
  "hex_digit uppercase n =
     (if n < 10 then word_of_nat (0x30 + n)
      else if uppercase then word_of_nat (0x41 + (n - 10))
      else word_of_nat (0x61 + (n - 10)))"

definition fmt_02x :: "bool \<Rightarrow> u8 \<Rightarrow> bytes" where
  "fmt_02x uppercase b = [hex_digit uppercase (unat b div 16), hex_digit uppercase (unat b mod 16)]"

section \<open>Digits and bytes\<close>

definition hex2num :: "u8 \<Rightarrow> int" where
  "hex2num c =
     (if 0x30 \<le> c \<and> c \<le> 0x39 then uint c - 0x30
      else if 0x61 \<le> c \<and> c \<le> 0x66 then uint c - 0x61 + 10
      else if 0x41 \<le> c \<and> c \<le> 0x46 then uint c - 0x41 + 10
      else -1)"

definition hex2byte :: "bytes \<Rightarrow> int ub" where
  "hex2byte hex = do {
     c \<leftarrow> deref hex; hex \<leftarrow> advance 1 hex;
     let a = hex2num c;
     if a < 0 then Some (-1)
     else do {
       d \<leftarrow> deref hex;
       let b = hex2num d;
       if b < 0 then Some (-1) else Some (push_bit 4 a OR b) } }"

section \<open>MAC addresses\<close>

definition ETH_ALEN :: nat where "ETH_ALEN = 6"

text \<open>
  The loop of \<open>hwaddr_parse\<close> with \<open>n\<close> rounds to go at index \<open>i\<close>. The result is the address
  buffer as written so far and the pointer behind the address (NULL on a syntax error).
\<close>

fun hwaddr_parse_loop :: "nat \<Rightarrow> nat \<Rightarrow> bytes \<Rightarrow> bytes \<Rightarrow> (bytes \<times> bytes option) ub" where
  "hwaddr_parse_loop 0 i txt addr = Some (addr, Some txt)"
| "hwaddr_parse_loop (Suc n) i txt addr = do {
     a \<leftarrow> hex2byte txt;
     if a < 0 then Some (addr, None)
     else do {
       txt \<leftarrow> advance 2 txt;
       addr \<leftarrow> poke addr (int i) (word_of_int a);
       if i < ETH_ALEN - 1
       then do {
         c \<leftarrow> deref txt; txt \<leftarrow> advance 1 txt;
         if c \<noteq> 0x3a then Some (addr, None) else hwaddr_parse_loop n (Suc i) txt addr }
       else hwaddr_parse_loop n (Suc i) txt addr } }"

definition hwaddr_parse :: "bytes \<Rightarrow> bytes \<Rightarrow> (bytes \<times> bytes option) ub" where
  "hwaddr_parse txt addr = hwaddr_parse_loop ETH_ALEN 0 txt addr"

definition hwaddr_aton :: "bytes \<Rightarrow> bytes \<Rightarrow> (int \<times> bytes) ub" where
  "hwaddr_aton txt addr = do {
     (addr, r) \<leftarrow> hwaddr_parse txt addr;
     Some (if r \<noteq> None then 0 else -1, addr) }"

text \<open>\<open>isspace\<close> of the C locale.\<close>

definition isspace :: "u8 \<Rightarrow> bool" where
  "isspace c \<longleftrightarrow> c = 0x20 \<or> (0x09 \<le> c \<and> c \<le> 0x0d)"

definition hwaddr_masked_aton ::
    "bytes \<Rightarrow> bytes \<Rightarrow> bytes \<Rightarrow> bool \<Rightarrow> (int \<times> bytes \<times> bytes) ub" where
  "hwaddr_masked_aton txt addr msk maskable = do {
     (addr, r) \<leftarrow> hwaddr_parse txt addr;
     case r of None \<Rightarrow> Some (-1, addr, msk)
     | Some r \<Rightarrow> do {
         c \<leftarrow> deref r;
         if c = 0 \<or> isspace c
         then do { msk \<leftarrow> memcpy_at msk 0 (replicate ETH_ALEN 0xff); Some (0, addr, msk) }
         else if maskable \<and> c = 0x2f
         then do {
           r1 \<leftarrow> advance 1 r;
           (msk, r2) \<leftarrow> hwaddr_parse r1 msk;
           Some (if r2 = None then -1 else 0, addr, msk) }
         else Some (-1, addr, msk) } }"

fun hwaddr_compact_loop :: "nat \<Rightarrow> nat \<Rightarrow> bytes \<Rightarrow> bytes \<Rightarrow> (int \<times> bytes) ub" where
  "hwaddr_compact_loop 0 i txt addr = Some (0, addr)"
| "hwaddr_compact_loop (Suc n) i txt addr = do {
     c \<leftarrow> deref txt; txt \<leftarrow> advance 1 txt;
     let a = hex2num c;
     if a < 0 then Some (-1, addr)
     else do {
       d \<leftarrow> deref txt; txt \<leftarrow> advance 1 txt;
       let b = hex2num d;
       if b < 0 then Some (-1, addr)
       else do {
         addr \<leftarrow> poke addr (int i) (word_of_int (push_bit 4 a OR b));
         hwaddr_compact_loop n (Suc i) txt addr } } }"

definition hwaddr_compact_aton :: "bytes \<Rightarrow> bytes \<Rightarrow> (int \<times> bytes) ub" where
  "hwaddr_compact_aton txt addr = hwaddr_compact_loop 6 0 txt addr"

text \<open>
  \<open>hwaddr_aton2\<close> skips any run of colons, dots and dashes before each byte and returns the
  number of characters used.
\<close>

fun skip_delims :: "bytes \<Rightarrow> bytes ub" where
  "skip_delims [] = None"
| "skip_delims (c # cs) = (if c = 0x3a \<or> c = 0x2e \<or> c = 0x2d then skip_delims cs else Some (c # cs))"

fun hwaddr_aton2_loop :: "nat \<Rightarrow> nat \<Rightarrow> nat \<Rightarrow> bytes \<Rightarrow> bytes \<Rightarrow> (int \<times> bytes) ub" where
  "hwaddr_aton2_loop 0 i tlen pos addr = Some (int tlen - int (length pos), addr)"
| "hwaddr_aton2_loop (Suc n) i tlen pos addr = do {
     pos \<leftarrow> skip_delims pos;
     c \<leftarrow> deref pos; pos \<leftarrow> advance 1 pos;
     let a = hex2num c;
     if a < 0 then Some (-1, addr)
     else do {
       d \<leftarrow> deref pos; pos \<leftarrow> advance 1 pos;
       let b = hex2num d;
       if b < 0 then Some (-1, addr)
       else do {
         addr \<leftarrow> poke addr (int i) (word_of_int (push_bit 4 a OR b));
         hwaddr_aton2_loop n (Suc i) tlen pos addr } } }"

definition hwaddr_aton2 :: "bytes \<Rightarrow> bytes \<Rightarrow> (int \<times> bytes) ub" where
  "hwaddr_aton2 txt addr = hwaddr_aton2_loop 6 0 (length txt) txt addr"

section \<open>Hex strings\<close>

fun hexstr2bin_loop :: "nat \<Rightarrow> nat \<Rightarrow> bytes \<Rightarrow> bytes \<Rightarrow> (int \<times> bytes) ub" where
  "hexstr2bin_loop 0 opos ipos buf = Some (0, buf)"
| "hexstr2bin_loop (Suc n) opos ipos buf = do {
     a \<leftarrow> hex2byte ipos;
     if a < 0 then Some (-1, buf)
     else do {
       buf \<leftarrow> poke buf (int opos) (word_of_int a);
       ipos \<leftarrow> advance 2 ipos;
       hexstr2bin_loop n (Suc opos) ipos buf } }"

definition hexstr2bin :: "bytes \<Rightarrow> bytes \<Rightarrow> nat \<Rightarrow> (int \<times> bytes) ub" where
  "hexstr2bin hex buf len = hexstr2bin_loop len 0 hex buf"

text \<open>\<open>MACSTR\<close> applied to \<open>MAC2STR(addr)\<close>.\<close>

definition fmt_macstr :: "bytes \<Rightarrow> bytes ub" where
  "fmt_macstr a = do {
     a0 \<leftarrow> peek a 0; a1 \<leftarrow> peek a 1; a2 \<leftarrow> peek a 2;
     a3 \<leftarrow> peek a 3; a4 \<leftarrow> peek a 4; a5 \<leftarrow> peek a 5;
     Some (fmt_02x False a0 @ 0x3a # fmt_02x False a1 @ 0x3a # fmt_02x False a2 @ 0x3a #
           fmt_02x False a3 @ 0x3a # fmt_02x False a4 @ 0x3a # fmt_02x False a5) }"

fun print_mask_loop :: "nat \<Rightarrow> nat \<Rightarrow> bytes \<Rightarrow> bool ub" where
  "print_mask_loop 0 i msk = Some False"
| "print_mask_loop (Suc n) i msk = do {
     m \<leftarrow> peek msk (int i);
     if m \<noteq> 0xff then Some True else print_mask_loop n (Suc i) msk }"

definition hwaddr_mask_txt :: "bytes \<Rightarrow> nat \<Rightarrow> bytes \<Rightarrow> bytes \<Rightarrow> (int \<times> bytes) ub" where
  "hwaddr_mask_txt buf len addr msk = do {
     print_mask \<leftarrow> print_mask_loop ETH_ALEN 0 msk;
     a \<leftarrow> fmt_macstr addr;
     (buf, res) \<leftarrow>
       (if print_mask then do { m \<leftarrow> fmt_macstr msk; os_snprintf buf 0 len (a @ 0x2f # m) }
        else os_snprintf buf 0 len a);
     Some (if os_snprintf_error len res then -1 else res, buf) }"

text \<open>
  \<open>_wpa_snprintf_hex\<close>: the loop at offset \<open>pos\<close> of the output buffer. Both exits store a
  terminator in the last byte of the buffer.
\<close>

fun snprintf_hex_loop :: "bool \<Rightarrow> nat \<Rightarrow> bytes \<Rightarrow> nat \<Rightarrow> bytes \<Rightarrow> (int \<times> bytes) ub" where
  "snprintf_hex_loop uppercase buf_size buf pos [] = do {
     buf \<leftarrow> poke buf (int buf_size - 1) 0;
     Some (int pos, buf) }"
| "snprintf_hex_loop uppercase buf_size buf pos (d # data) = do {
     (buf, ret) \<leftarrow> os_snprintf buf pos (buf_size - pos) (fmt_02x uppercase d);
     if os_snprintf_error (buf_size - pos) ret
     then do { buf \<leftarrow> poke buf (int buf_size - 1) 0; Some (int pos, buf) }
     else snprintf_hex_loop uppercase buf_size buf (pos + nat ret) data }"

definition wpa_snprintf_hex_gen :: "bool \<Rightarrow> bytes \<Rightarrow> nat \<Rightarrow> bytes \<Rightarrow> (int \<times> bytes) ub" where
  "wpa_snprintf_hex_gen uppercase buf buf_size data =
     (if buf_size = 0 then Some (0, buf)
      else map_option (apfst c_int) (snprintf_hex_loop uppercase buf_size buf 0 data))"

definition wpa_snprintf_hex :: "bytes \<Rightarrow> nat \<Rightarrow> bytes \<Rightarrow> (int \<times> bytes) ub" where
  "wpa_snprintf_hex = wpa_snprintf_hex_gen False"

definition wpa_snprintf_hex_uppercase :: "bytes \<Rightarrow> nat \<Rightarrow> bytes \<Rightarrow> (int \<times> bytes) ub" where
  "wpa_snprintf_hex_uppercase = wpa_snprintf_hex_gen True"

text \<open>\<open>wpa_snprintf_hex_sep\<close>: the terminator replaces the last separator, at \<open>pos[-1]\<close>.\<close>

fun snprintf_hex_sep_loop :: "u8 \<Rightarrow> nat \<Rightarrow> bytes \<Rightarrow> nat \<Rightarrow> bytes \<Rightarrow> (int \<times> bytes) ub" where
  "snprintf_hex_sep_loop sep buf_size buf pos [] = do {
     buf \<leftarrow> poke buf (int pos - 1) 0;
     Some (int pos, buf) }"
| "snprintf_hex_sep_loop sep buf_size buf pos (d # data) = do {
     (buf, ret) \<leftarrow> os_snprintf buf pos (buf_size - pos) (fmt_02x False d @ [sep]);
     if os_snprintf_error (buf_size - pos) ret
     then do { buf \<leftarrow> poke buf (int buf_size - 1) 0; Some (int pos, buf) }
     else snprintf_hex_sep_loop sep buf_size buf (pos + nat ret) data }"

definition wpa_snprintf_hex_sep :: "bytes \<Rightarrow> nat \<Rightarrow> bytes \<Rightarrow> u8 \<Rightarrow> (int \<times> bytes) ub" where
  "wpa_snprintf_hex_sep buf buf_size data sep =
     (if buf_size = 0 then Some (0, buf)
      else map_option (apfst c_int) (snprintf_hex_sep_loop sep buf_size buf 0 data))"

section \<open>Digits\<close>

lemma uint_u8_of_nat: "k < 256 \<Longrightarrow> uint (word_of_nat k :: u8) = int k"
  by (simp add: unsigned_of_nat take_bit_nat_eq_self uint_nat)

lemma uint_hex_digit:
  "n < 16 \<Longrightarrow> uint (hex_digit u n) =
     (if n < 10 then 0x30 + int n else if u then 0x41 + int n - 10 else 0x61 + int n - 10)"
  unfolding hex_digit_def by (simp add: uint_u8_of_nat del: of_nat_add of_nat_diff)
lemma hex2num_hex_digit [simp]: "n < 16 \<Longrightarrow> hex2num (hex_digit u n) = int n"
  by (simp add: hex2num_def word_le_def uint_hex_digit)

lemma hex_digit_nonzero [simp]: "n < 16 \<Longrightarrow> hex_digit u n \<noteq> 0" "n < 16 \<Longrightarrow> 0 \<noteq> hex_digit u n"
  using uint_hex_digit [of n u] by (auto split: if_splits)

lemma push_nibble_or: "0 \<le> b \<Longrightarrow> b < 16 \<Longrightarrow> push_bit 4 a OR b = 16 * a + (b::int)"
proof -
  assume "0 \<le> b" "b < 16"
  then have b: "take_bit 4 b = b" by (simp add: take_bit_eq_mod)
  have "push_bit 4 a AND take_bit 4 b = 0"
    by (rule bit_eqI) (simp add: bit_simps)
  then show ?thesis
    by (simp add: b disjunctive_add_eq_or [symmetric] push_bit_eq_mult)
qed

lemma unat_u8_div16 [simp]: "unat (b::u8) div 16 < 16"
  using unat_u8_256 [of b] by (simp only: less_mult_imp_div_less)

lemma fmt_02x_nonzero [simp]: "0 \<notin> set (fmt_02x u b)"
  by (simp add: fmt_02x_def)

lemma length_fmt_02x [simp]: "length (fmt_02x u b) = 2"
  by (simp add: fmt_02x_def)

lemma hex2byte_fmt [simp]: "hex2byte (fmt_02x u b @ rest) = Some (uint b)"
proof -
  have "16 * int (unat b div 16) + int (unat b mod 16) = int (unat b)" by presburger
  then show ?thesis by (simp add: hex2byte_def fmt_02x_def push_nibble_or)
qed

lemma hex2num_bounds: "hex2num c = -1 \<or> 0 \<le> hex2num c \<and> hex2num c < 16"
  by (auto simp: hex2num_def word_le_def)
lemma hex2num_0 [simp]: "hex2num 0 = -1" by (simp add: hex2num_def)


lemma hex2byte_cases:
  assumes "cstring p"
  obtains "hex2byte p = Some (-1)"
  | c d q where "p = c # d # q" "cstring q" "hex2byte p = Some (16 * hex2num c + hex2num d)"
      "0 \<le> hex2num c" "hex2num c < 16" "0 \<le> hex2num d" "hex2num d < 16"
proof -
  obtain c p' where p: "p = c # p'" using assms by (cases p) auto
  show thesis
  proof (cases "hex2num c < 0")
    case True
    then show ?thesis by (intro that(1)) (simp add: hex2byte_def p)
  next
    case False
    then have "c \<noteq> 0" by auto
    then obtain d q where q: "p' = d # q" using assms p by (cases p') (auto simp: cstring_Cons_iff)
    show ?thesis
    proof (cases "hex2num d < 0")
      case True
      with False show ?thesis by (intro that(1)) (simp add: hex2byte_def p q)
    next
      case d: False
      then have "d \<noteq> 0" by auto
      with assms \<open>c \<noteq> 0\<close> have "cstring q" by (simp add: p q cstring_Cons_iff)
      with False d hex2num_bounds [of c] hex2num_bounds [of d] show ?thesis
        by (intro that(2) [of c d q]) (auto simp: hex2byte_def p q push_nibble_or)
    qed
  qed
qed

section \<open>Parsing stays inside the string\<close>

lemma hwaddr_parse_loop_safe:
  assumes "cstring p" "length addr = ETH_ALEN" "i + n \<le> ETH_ALEN"
  shows "\<exists>addr' r. hwaddr_parse_loop n i p addr = Some (addr', r) \<and> length addr' = ETH_ALEN
           \<and> (\<forall>q. r = Some q \<longrightarrow> cstring q)"
  using assms
proof (induction n arbitrary: i p addr)
  case 0
  then show ?case by simp
next
  case (Suc n)
  note IH = Suc.IH
  from Suc.prems(1) show ?case
  proof (cases rule: hex2byte_cases)
    case 1
    with Suc.prems show ?thesis by simp
  next
    case (2 c d q)
    let ?addr = "addr[i := word_of_int (16 * hex2num c + hex2num d)]"
    have len: "length ?addr = ETH_ALEN" "Suc i + n \<le> ETH_ALEN" "i < length addr"
      using Suc.prems by simp_all
    obtain e q' where q: "q = e # q'" using 2(2) by (cases q) auto
    show ?thesis
    proof (cases "i < ETH_ALEN - 1")
      case True
      show ?thesis
      proof (cases "e = 0x3a")
        case e: True
        then have "cstring q'" using 2(2) q by (simp add: cstring_Cons_iff)
        from IH [OF this len(1,2)] show ?thesis
          using True e 2 len(3) by (simp add: q poke_def advance_def numeral_2_eq_2)
      qed (use True 2 len in \<open>simp add: q poke_def advance_def\<close>)
    next
      case False
      from IH [OF 2(2) len(1,2)] show ?thesis using False 2 len(3)
        by (simp add: poke_def advance_def)
    qed
  qed
qed

lemma hwaddr_parse_safe:
  assumes "cstring p" "length addr = ETH_ALEN"
  shows "\<exists>addr' r. hwaddr_parse p addr = Some (addr', r) \<and> length addr' = ETH_ALEN
           \<and> (\<forall>q. r = Some q \<longrightarrow> cstring q)"
  unfolding hwaddr_parse_def by (rule hwaddr_parse_loop_safe) (use assms in simp_all)


section \<open>What the printers store\<close>

lemma os_snprintf_fits:
  assumes "pos < sz" "sz \<le> length buf"
  shows "\<exists>buf'. os_snprintf buf pos (sz - pos) t = Some (buf', int (length t)) \<and> length buf' = length buf
     \<and> take pos buf' = take pos buf
     \<and> (length t < sz - pos \<longrightarrow> take (pos + length t) buf' = take pos buf @ t \<and> buf' ! (pos + length t) = 0)"
proof -
  let ?t = "take (sz - pos - 1) t @ [0]"
  let ?b = "take pos buf @ ?t @ drop (pos + length ?t) buf"
  have le: "pos + length ?t \<le> length buf" using assms by simp
  have "os_snprintf buf pos (sz - pos) t = Some (?b, int (length t))"
    using assms le by (simp add: os_snprintf_def memcpy_at_def)
  moreover have "length ?b = length buf" "take pos ?b = take pos buf" using le by simp_all
  moreover have "take (pos + length t) ?b = take pos buf @ t \<and> ?b ! (pos + length t) = 0"
    if "length t < sz - pos" using that le by (simp add: nth_append)
  ultimately show ?thesis by blast
qed

lemma poke_last:
  assumes "0 < sz" "sz \<le> length buf" "n < sz"
  shows "\<exists>buf'. poke buf (int sz - 1) 0 = Some buf' \<and> length buf' = length buf
     \<and> take n buf' = take n buf \<and> (buf ! n = 0 \<longrightarrow> buf' ! n = (0::u8))"
  using assms by (auto simp: poke_def nth_list_update)

lemma snprintf_hex_loop_spec:
  assumes "pos < sz" "sz \<le> length buf" and k: "k = min (length data) ((sz - pos - 1) div 2)"
  shows "\<exists>buf'. snprintf_hex_loop u sz buf pos data = Some (int (pos + 2 * k), buf')
     \<and> length buf' = length buf
     \<and> take (pos + 2 * k) buf' = take pos buf @ concat (map (fmt_02x u) (take k data))
     \<and> (k = length data \<longrightarrow> data \<noteq> [] \<or> buf ! pos = 0 \<longrightarrow> buf' ! (pos + 2 * k) = 0)"
  using assms(1,2) unfolding k
proof (induction data arbitrary: buf pos)
  case Nil
  then show ?case using poke_last [of sz buf pos] by auto
next
  case (Cons d data)
  let ?k = "min (length (d # data)) ((sz - pos - 1) div 2)"
  obtain b1 where b1: "os_snprintf buf pos (sz - pos) (fmt_02x u d) = Some (b1, 2)"
    and b1_len: "length b1 = length buf" and b1_pos: "take pos b1 = take pos buf"
    and b1_txt: "2 < sz - pos \<Longrightarrow> take (pos + 2) b1 = take pos buf @ fmt_02x u d \<and> b1 ! (pos + 2) = 0"
    using os_snprintf_fits [OF Cons.prems, of "fmt_02x u d"] by auto
  show ?case
  proof (cases "2 < sz - pos")
    case False
    then have k0: "?k = 0" by auto
    obtain b2 where "poke b1 (int sz - 1) 0 = Some b2" "length b2 = length b1" "take pos b2 = take pos b1"
      using poke_last [of sz b1 pos] Cons.prems b1_len by auto
    with False b1 b1_len b1_pos show ?thesis
      unfolding k0 by (simp add: os_snprintf_error_def)
  next
    case True
    let ?k' = "min (length data) ((sz - (pos + 2) - 1) div 2)"
    have k: "?k = Suc ?k'" using True by auto
    have "pos + 2 < sz" "sz \<le> length b1" using True Cons.prems b1_len by auto
    from Cons.IH [OF this] obtain b2 where
      b2: "snprintf_hex_loop u sz b1 (pos + 2) data = Some (int (pos + 2 + 2 * ?k'), b2)"
        "length b2 = length b1"
        "take (pos + 2 + 2 * ?k') b2 = take (pos + 2) b1 @ concat (map (fmt_02x u) (take ?k' data))"
        "?k' = length data \<longrightarrow> data \<noteq> [] \<or> b1 ! (pos + 2) = 0 \<longrightarrow> b2 ! (pos + 2 + 2 * ?k') = 0"
      by blast
    have "\<not> os_snprintf_error (sz - pos) 2" using True by (simp add: os_snprintf_error_def)
    then have "snprintf_hex_loop u sz buf pos (d # data) = Some (int (pos + 2 * ?k), b2)"
      unfolding k using b1 b2(1) by simp
    moreover have "take (pos + 2 * ?k) b2 = take pos buf @ concat (map (fmt_02x u) (take ?k (d # data)))"
      unfolding k using b2(3) b1_txt [OF True] by simp
    moreover have "?k = length (d # data) \<longrightarrow> b2 ! (pos + 2 * ?k) = 0"
      using b2(4) b1_txt [OF True] k by simp
    ultimately show ?thesis using b2(2) b1_len by auto
  qed
qed

lemma hexstr2bin_loop_fmt:
  assumes "n + length data \<le> length buf"
  shows "hexstr2bin_loop (length data) n (concat (map (fmt_02x u) data) @ rest) buf
    = Some (0, take n buf @ data @ drop (n + length data) buf)"
  using assms
proof (induction data arbitrary: n buf)
  case Nil
  then show ?case by simp
next
  case (Cons d data)
  let ?tail = "concat (map (fmt_02x u) data) @ rest"
  have adv: "advance 2 (fmt_02x u d @ ?tail) = Some ?tail"
    using advance_length_append [of "fmt_02x u d" ?tail] by simp
  have "hexstr2bin_loop (length data) (Suc n) ?tail (buf[n := d])
      = Some (0, take (Suc n) (buf[n := d]) @ data @ drop (Suc n + length data) (buf[n := d]))"
    by (rule Cons.IH) (use Cons.prems in simp)
  also have "take (Suc n) (buf[n := d]) = take n buf @ [d]"
    using Cons.prems by (simp add: take_Suc_conv_app_nth)
  finally show ?case using Cons.prems adv by (simp add: poke_def)
qed


lemma wpa_snprintf_hex_gen_spec:
  assumes "buf_size \<le> length buf" "0 < buf_size"
    and "k = min (length data) ((buf_size - 1) div 2)"
  shows "\<exists>buf'. wpa_snprintf_hex_gen u buf buf_size data = Some (c_int (2 * int k), buf')
     \<and> length buf' = length buf
     \<and> take (2 * k) buf' = concat (map (fmt_02x u) (take k data))
     \<and> (k = length data \<longrightarrow> data \<noteq> [] \<longrightarrow> buf' ! (2 * k) = 0)"
  using snprintf_hex_loop_spec [of 0 buf_size buf k data u] assms
  by (auto simp: wpa_snprintf_hex_gen_def apfst_def)

lemma length_concat_fmt_02x: "length (concat (map (fmt_02x u) data)) = 2 * length data"
  by (induction data) simp_all

lemma concat_fmt_02x_nonzero: "0 \<notin> set (concat (map (fmt_02x u) data))"
  by (induction data) simp_all

lemma list_take_Suc_nth: "n < length xs \<Longrightarrow> xs = take n xs @ xs ! n # drop (Suc n) xs"
  by (simp add: id_take_nth_drop)

text \<open>
  C39. \<open>wpa_snprintf_hex\<close> into a buffer of at least \<open>2 * len + 1\<close> bytes prints a NUL
  terminated string of \<open>2 * len\<close> digits and returns their number, converted to \<open>int\<close>; and \<open>hexstr2bin\<close> on that string returns success
  and the printed bytes, leaving the rest of its output buffer alone.
\<close>

theorem wpa_snprintf_hex_roundtrip:
  assumes "2 * length data + 1 \<le> buf_size" "buf_size \<le> length buf" "data \<noteq> []"
    and "length data \<le> length out"
  shows "\<exists>buf'. wpa_snprintf_hex buf buf_size data = Some (c_int (2 * int (length data)), buf')
     \<and> cstring (take (2 * length data + 1) buf')
     \<and> hexstr2bin buf' out (length data) = Some (0, data @ drop (length data) out)"
proof -
  let ?h = "concat (map (fmt_02x False) data)"
  have k: "length data = min (length data) ((buf_size - 1) div 2)" using assms(1) by auto
  obtain buf' where b: "wpa_snprintf_hex buf buf_size data = Some (c_int (2 * int (length data)), buf')"
    "length buf' = length buf" "take (2 * length data) buf' = ?h" "buf' ! (2 * length data) = 0"
    using wpa_snprintf_hex_gen_spec [OF assms(2) _ k, of False] assms
    by (auto simp: wpa_snprintf_hex_def)
  have split: "buf' = ?h @ 0 # drop (Suc (2 * length data)) buf'"
    using list_take_Suc_nth [of "2 * length data" buf'] b assms by simp
  then have "take (2 * length data + 1) buf' = to_cstring ?h"
    using b(2,3,4) assms by (simp add: take_Suc_conv_app_nth to_cstring_def)
  then have "cstring (take (2 * length data + 1) buf')"
    using cstring_to_cstring [OF concat_fmt_02x_nonzero, of False data] by simp
  moreover have "hexstr2bin buf' out (length data) = Some (0, data @ drop (length data) out)"
    unfolding hexstr2bin_def
    by (subst split, subst hexstr2bin_loop_fmt) (use assms in simp_all)
  ultimately show ?thesis using b(1) by blast
qed


section \<open>Addresses\<close>

lemma len6_exhaust:
  assumes "length xs = ETH_ALEN" obtains a b c d e f where "xs = [a, b, c, d, e, f]"
  using assms that by (auto simp: ETH_ALEN_def length_Suc_conv eval_nat_numeral)

lemma fmt_macstr_len: "length a = ETH_ALEN \<Longrightarrow> \<exists>t. fmt_macstr a = Some t \<and> length t = 17 \<and> 0 \<notin> set t"
  by (erule len6_exhaust) (simp add: fmt_macstr_def peek_def)

lemma advance_fmt [simp]: "advance 2 (fmt_02x u b @ rest) = Some rest"
  using advance_length_append [of "fmt_02x u b" rest] by simp

lemma hwaddr_parse_macstr:
  assumes "length mac = ETH_ALEN" "fmt_macstr mac = Some t" "length addr = ETH_ALEN"
  shows "hwaddr_parse (t @ rest) addr = Some (mac, Some rest)"
proof -
  obtain a b c d e f where mac: "mac = [a, b, c, d, e, f]" using assms(1) by (rule len6_exhaust)
  obtain a' b' c' d' e' f' where addr: "addr = [a', b', c', d', e', f']" using assms(3) by (rule len6_exhaust)
  have t: "t @ rest = fmt_02x False a @ 0x3a # fmt_02x False b @ 0x3a # fmt_02x False c @ 0x3a #
      fmt_02x False d @ 0x3a # fmt_02x False e @ 0x3a # fmt_02x False f @ rest"
    using assms(2) by (auto simp: mac fmt_macstr_def peek_def)
  have six: "ETH_ALEN = Suc (Suc (Suc (Suc (Suc (Suc 0)))))" by (simp add: ETH_ALEN_def)
  show ?thesis
    unfolding hwaddr_parse_def t mac addr by (simp add: six poke_def)
qed

lemma print_mask_loop_eq:
  "i + n \<le> length m \<Longrightarrow> print_mask_loop n i m = Some (list_ex (\<lambda>b. b \<noteq> 0xff) (take n (drop i m)))"
proof (induction n arbitrary: i)
  case (Suc n)
  then have "drop i m = m ! i # drop (Suc i) m" by (simp add: Cons_nth_drop_Suc)
  with Suc show ?case by (simp add: peek_def)
qed simp

lemma mask_all_ones:
  "length m = ETH_ALEN \<Longrightarrow> \<not> list_ex (\<lambda>b. b \<noteq> 0xff) m \<Longrightarrow> m = replicate ETH_ALEN (0xff :: u8)"
  by (auto simp: list_ex_iff intro: replicate_eqI [symmetric] simp flip: replicate_length_same) (metis replicate_length_same)

lemma hwaddr_masked_aton_plain:
  assumes "length mac = ETH_ALEN" "fmt_macstr mac = Some t" "length a0 = ETH_ALEN" "length m0 = ETH_ALEN"
  shows "hwaddr_masked_aton (t @ 0 # rest) a0 m0 maskable = Some (0, mac, replicate ETH_ALEN 0xff)"
  using assms by (simp add: hwaddr_masked_aton_def hwaddr_parse_macstr memcpy_at_def)

lemma hwaddr_masked_aton_masked:
  assumes "length mac = ETH_ALEN" "fmt_macstr mac = Some t" "length m = ETH_ALEN" "fmt_macstr m = Some tm"
    and "length a0 = ETH_ALEN" "length m0 = ETH_ALEN"
  shows "hwaddr_masked_aton (t @ 0x2f # tm @ rest) a0 m0 True = Some (0, mac, m)"
  using assms by (simp add: hwaddr_masked_aton_def hwaddr_parse_macstr isspace_def)

text \<open>
  An address and mask printed by \<open>hwaddr_mask_txt\<close> (the mask left out when it is all
  ones) are parsed back to the same address and mask by \<open>hwaddr_masked_aton\<close>.
\<close>

lemma hwaddr_mask_roundtrip:
  assumes "length addr = ETH_ALEN" "length m = ETH_ALEN" "36 \<le> len" "len \<le> length buf"
    and "length a0 = ETH_ALEN" "length m0 = ETH_ALEN"
  shows "\<exists>res buf'. hwaddr_mask_txt buf len addr m = Some (res, buf') \<and> 0 \<le> res
     \<and> hwaddr_masked_aton buf' a0 m0 True = Some (0, addr, m)"
proof -
  obtain ta tm where ta: "fmt_macstr addr = Some ta" "length ta = 17"
    and tm: "fmt_macstr m = Some tm" "length tm = 17"
    using fmt_macstr_len assms(1,2) by metis
  let ?pm = "list_ex (\<lambda>b. b \<noteq> 0xff) m"
  let ?t = "if ?pm then ta @ 0x2f # tm else ta"
  have pm: "print_mask_loop ETH_ALEN 0 m = Some ?pm"
    using print_mask_loop_eq [of 0 ETH_ALEN m] assms(2) by simp
  obtain buf' where b: "os_snprintf buf 0 len ?t = Some (buf', int (length ?t))" "length buf' = length buf"
      "take (length ?t) buf' = ?t" "buf' ! length ?t = 0"
    using os_snprintf_fits [of 0 len buf ?t] assms ta(2) tm(2) by (auto split: if_splits)
  have res: "hwaddr_mask_txt buf len addr m = Some (int (length ?t), buf')"
    using b(1) ta tm pm assms(3) by (auto simp: hwaddr_mask_txt_def os_snprintf_error_def split: if_splits)
  have "length ?t < length buf'" using ta(2) tm(2) assms b(2) by auto
  then have buf': "buf' = ?t @ 0 # drop (Suc (length ?t)) buf'"
    using list_take_Suc_nth [of "length ?t" buf'] b(3,4) by simp
  have "hwaddr_masked_aton buf' a0 m0 True = Some (0, addr, m)"
  proof (cases ?pm)
    case True
    then have "buf' = ta @ 0x2f # tm @ (0 # drop (Suc (length ?t)) buf')" using buf' by simp
    then show ?thesis
      using hwaddr_masked_aton_masked [OF assms(1) ta(1) assms(2) tm(1) assms(5,6)] by metis
  next
    case False
    then have "buf' = ta @ 0 # drop (Suc (length ?t)) buf'" using buf' by simp
    moreover have "m = replicate ETH_ALEN 0xff" using False assms(2) by (simp add: mask_all_ones)
    ultimately show ?thesis
      using hwaddr_masked_aton_plain [OF assms(1) ta(1) assms(5,6)] by metis
  qed
  with res show ?thesis by auto
qed

lemma hex_sep_loop_safe:
  assumes "pos < sz" "sz \<le> length buf" "0 < pos \<or> data \<noteq> []"
  shows "snprintf_hex_sep_loop sep sz buf pos data \<noteq> None"
  using assms
proof (induction data arbitrary: buf pos)
  case Nil
  then show ?case by (simp add: poke_def)
next
  case (Cons d data)
  obtain b1 where b1: "os_snprintf buf pos (sz - pos) (fmt_02x False d @ [sep]) = Some (b1, 3)"
    "length b1 = length buf"
    using os_snprintf_fits [OF Cons.prems(1,2), of "fmt_02x False d @ [sep]"] by auto
  show ?case
  proof (cases "3 < sz - pos")
    case True
    then have "snprintf_hex_sep_loop sep sz b1 (pos + 3) data \<noteq> None"
      using Cons.prems b1(2) by (intro Cons.IH) auto
    moreover have "\<not> os_snprintf_error (sz - pos) 3" using True by (simp add: os_snprintf_error_def)
    ultimately show ?thesis using b1(1) by simp
  next
    case False
    then have "os_snprintf_error (sz - pos) 3" by (auto simp: os_snprintf_error_def)
    then show ?thesis using b1 Cons.prems by (simp add: poke_def)
  qed
qed

text \<open>
  C40. \<open>wpa_snprintf_hex_sep\<close> accesses memory outside its buffer exactly when it is asked
  to print no data into a non-empty buffer: the terminator then goes to \<open>buf[-1]\<close>.
\<close>

theorem wpa_snprintf_hex_sep_fault:
  "buf_size \<le> length buf \<Longrightarrow>
    wpa_snprintf_hex_sep buf buf_size data sep = None \<longleftrightarrow> data = [] \<and> 0 < buf_size"
  using hex_sep_loop_safe [of 0 buf_size buf data sep]
  by (cases "data = []") (auto simp: wpa_snprintf_hex_sep_def poke_def)

lemma hwaddr_text_safe:
  assumes "cstring s" "length addr = ETH_ALEN" "length m = ETH_ALEN"
  shows "\<exists>r addr' m'. hwaddr_masked_aton s addr m mk = Some (r, addr', m') \<and> r \<in> {0, -1}
      \<and> length addr' = ETH_ALEN \<and> length m' = ETH_ALEN"
proof -
  obtain addr' r where p: "hwaddr_parse s addr = Some (addr', r)" "length addr' = ETH_ALEN"
    "\<And>q. r = Some q \<Longrightarrow> cstring q"
    using hwaddr_parse_safe [OF assms(1,2)] by auto
  show ?thesis
  proof (cases r)
    case None
    with p assms(3) show ?thesis by (simp add: hwaddr_masked_aton_def)
  next
    case (Some q)
    then obtain c q' where q: "q = c # q'" "c \<noteq> 0 \<Longrightarrow> cstring q'" using p(3) by (cases q) (auto simp: cstring_Cons_iff)
    show ?thesis
    proof (cases "c = 0 \<or> isspace c \<or> \<not> (mk \<and> c = 0x2f)")
      case True
      then show ?thesis using p(1,2) assms(3) Some q by (auto simp: hwaddr_masked_aton_def memcpy_at_def)
    next
      case False
      with hwaddr_parse_safe [OF q(2) assms(3)] obtain m' r' where
        "hwaddr_parse q' m = Some (m', r')" "length m' = ETH_ALEN" by auto
      with False p(1,2) Some q show ?thesis by (auto simp: hwaddr_masked_aton_def)
    qed
  qed
qed


section \<open>Witnesses\<close>

lemma wpa_snprintf_hex_roundtrip_witness:
  "\<exists>buf'. wpa_snprintf_hex (replicate 8 7) 8 [0x01, 0xab] = Some (4, buf')
     \<and> cstring (take 5 buf') \<and> hexstr2bin buf' [9, 9, 9] 2 = Some (0, [0x01, 0xab, 9])"
  using wpa_snprintf_hex_roundtrip [of "[0x01, 0xab]" 8 "replicate 8 7" "[9, 9, 9]"]
  by (simp add: eval_nat_numeral c_int_id)

lemma hwaddr_mask_roundtrip_witness:
  "\<exists>res buf'. hwaddr_mask_txt (replicate 40 0) 40 [2, 0, 0, 0x1a, 0xff, 1] [0xff, 0xff, 0, 0, 0, 0]
       = Some (res, buf') \<and> 0 \<le> res
     \<and> hwaddr_masked_aton buf' [0, 0, 0, 0, 0, 0] [0, 0, 0, 0, 0, 0] True
       = Some (0, [2, 0, 0, 0x1a, 0xff, 1], [0xff, 0xff, 0, 0, 0, 0])"
  by (rule hwaddr_mask_roundtrip) (simp_all add: ETH_ALEN_def)

lemma wpa_snprintf_hex_sep_fault_witness:
  "wpa_snprintf_hex_sep (replicate 4 0) 4 [] 0x3a = None"
  using wpa_snprintf_hex_sep_fault [of 4 "replicate 4 0" "[]" "0x3a"] by simp

end
