(* ===== verification/Base64.thy ===== *)
theory Base64
  imports Prelude
begin

unbundle bit_operations_syntax

text \<open>
  Base64 encoding and decoding of \<open>src/utils/base64.c\<close>, for the standard and the URL safe
  alphabet, with optional padding and line feeds. The output of the encoder and of the decoder
  is built in a buffer of the size the C code computes, each store checked against it. The
  argument \<open>malloc\<close> of a definition answers whether an allocation of a size succeeds; a NULL
  result of the C function is \<open>Some None\<close>. The counter \<open>line_len\<close> is a C \<open>int\<close> that wraps around; it is
  only read when line feeds are asked for, and then stays below 76.

  The laws of an alphabet are the locale \<open>base64_alphabet\<close>; the round trip is proved in it
  once and used through its interpretations on the two tables.
\<close>

section \<open>Model\<close>

definition SIZE_MAX :: int where "SIZE_MAX = 2 ^ 64 - 1"

definition BASE64_PAD :: u32 where "BASE64_PAD = 1"

definition BASE64_LF :: u32 where "BASE64_LF = 2"

definition base64_table :: bytes where
  "base64_table = map word_of_nat ([0x41..<0x5b] @ [0x61..<0x7b] @ [0x30..<0x3a] @ [0x2b, 0x2f])"

definition base64_url_table :: bytes where
  "base64_url_table =
     map word_of_nat ([0x41..<0x5b] @ [0x61..<0x7b] @ [0x30..<0x3a] @ [0x2d, 0x5f])"

text \<open>\<open>*pos++ = c\<close> in an output buffer of \<open>cap\<close> bytes.\<close>

definition emit :: "nat \<Rightarrow> u8 \<Rightarrow> bytes \<Rightarrow> bytes ub" where
  "emit cap c out = (if length out < cap then Some (out @ [c]) else None)"

text \<open>\<open>*pos++ = table[idx]\<close>.\<close>

definition emit_tab :: "nat \<Rightarrow> bytes \<Rightarrow> u8 \<Rightarrow> bytes \<Rightarrow> bytes ub" where
  "emit_tab cap table idx out = do { c \<leftarrow> peek table (uint idx); emit cap c out }"

fun base64_encode_loop ::
    "bytes \<Rightarrow> bool \<Rightarrow> nat \<Rightarrow> bytes \<Rightarrow> bytes \<Rightarrow> int \<Rightarrow> (bytes \<times> bytes \<times> int) ub" where
  "base64_encode_loop table lf cap (in0 # in1 # in2 # inp) out line_len = do {
     out \<leftarrow> emit_tab cap table (drop_bit 2 in0 AND 0x3f) out;
     out \<leftarrow> emit_tab cap table ((push_bit 4 (in0 AND 0x03) OR drop_bit 4 in1) AND 0x3f) out;
     out \<leftarrow> emit_tab cap table ((push_bit 2 (in1 AND 0x0f) OR drop_bit 6 in2) AND 0x3f) out;
     out \<leftarrow> emit_tab cap table (in2 AND 0x3f) out;
     let line_len = c_int (line_len + 4);
     if lf \<and> line_len \<ge> 72
     then do { out \<leftarrow> emit cap 0x0a out; base64_encode_loop table lf cap inp out 0 }
     else base64_encode_loop table lf cap inp out line_len }"
| "base64_encode_loop table lf cap inp out line_len = Some (inp, out, line_len)"

definition base64_encode_tail ::
    "bytes \<Rightarrow> bool \<Rightarrow> nat \<Rightarrow> bytes \<Rightarrow> bytes \<Rightarrow> int \<Rightarrow> (bytes \<times> int) ub" where
  "base64_encode_tail table pad cap inp out line_len =
     (case inp of
        [] \<Rightarrow> Some (out, line_len)
      | in0 # rest \<Rightarrow> do {
          out \<leftarrow> emit_tab cap table (drop_bit 2 in0 AND 0x3f) out;
          out \<leftarrow>
            (case rest of
               [] \<Rightarrow> do {
                 out \<leftarrow> emit_tab cap table (push_bit 4 (in0 AND 0x03) AND 0x3f) out;
                 if pad then emit cap 0x3d out else Some out }
             | in1 # _ \<Rightarrow> do {
                 out \<leftarrow> emit_tab cap table
                         ((push_bit 4 (in0 AND 0x03) OR drop_bit 4 in1) AND 0x3f) out;
                 emit_tab cap table (push_bit 2 (in1 AND 0x0f) AND 0x3f) out });
          out \<leftarrow> (if pad then emit cap 0x3d out else Some out);
          Some (out, c_int (line_len + 4)) })"

definition base64_gen_encode ::
    "(nat \<Rightarrow> bool) \<Rightarrow> bytes \<Rightarrow> bytes \<Rightarrow> u32 \<Rightarrow> bytes option ub" where
  "base64_gen_encode malloc src table add_pad =
     (let len = length src; lf = (add_pad AND BASE64_LF \<noteq> 0); pad = (add_pad AND BASE64_PAD \<noteq> 0)
      in if int len \<ge> SIZE_MAX div 4 then Some None
      else
        let olen = len * 4 div 3 + 4;
            olen = (if lf then olen + olen div 72 else olen);
            olen = olen + 1
        in if olen < len then Some None
        else if \<not> malloc olen then Some None
        else do {
          (inp, out, line_len) \<leftarrow> base64_encode_loop table lf olen src [] 0;
          (out, line_len) \<leftarrow> base64_encode_tail table pad olen inp out line_len;
          out \<leftarrow> (if lf \<and> line_len \<noteq> 0 then emit olen 0x0a out else Some out);
          _ \<leftarrow> emit olen 0 out;
          Some (Some out) })"

text \<open>The inverse table: 0x80 marks the characters outside the alphabet.\<close>

definition base64_dtable :: "bytes \<Rightarrow> bytes" where
  "base64_dtable table =
     (foldl (\<lambda>dtable i. dtable[unat (table ! i) := word_of_nat i]) (replicate 256 0x80) [0..<64])
       [0x3d := 0]"

fun base64_decode_loop ::
    "bytes \<Rightarrow> nat \<Rightarrow> bytes \<Rightarrow> bytes \<Rightarrow> bytes \<Rightarrow> nat \<Rightarrow> bytes option ub" where
  "base64_decode_loop dtable cap [] out block pad = Some (Some out)"
| "base64_decode_loop dtable cap (val # src) out block pad = do {
     tmp \<leftarrow> peek dtable (uint val);
     if tmp = 0x80 then base64_decode_loop dtable cap src out block pad
     else
       let pad = (if val = 0x3d then pad + 1 else pad);
           block = block @ [tmp]
       in if length block = 4
       then do {
         out \<leftarrow> emit cap (push_bit 2 (block ! 0) OR drop_bit 4 (block ! 1)) out;
         out \<leftarrow> emit cap (push_bit 4 (block ! 1) OR drop_bit 2 (block ! 2)) out;
         out \<leftarrow> emit cap (push_bit 6 (block ! 2) OR block ! 3) out;
         if pad \<noteq> 0
         then (if pad = 1 then Some (Some (take (length out - 1) out))
               else if pad = 2 then Some (Some (take (length out - 2) out))
               else Some None)
         else base64_decode_loop dtable cap src out [] pad }
       else base64_decode_loop dtable cap src out block pad }"

definition base64_gen_decode ::
    "(nat \<Rightarrow> bool) \<Rightarrow> bytes \<Rightarrow> bytes \<Rightarrow> bytes option ub" where
  "base64_gen_decode malloc src table =
     (let dtable = base64_dtable table;
          count = length (filter (\<lambda>c. dtable ! unat c \<noteq> 0x80) src)
      in if count = 0 then Some None
      else
        let extra_pad = (4 - count mod 4) mod 4;
            olen = (count + extra_pad) div 4 * 3
        in if \<not> malloc olen then Some None
        else base64_decode_loop dtable olen (src @ replicate extra_pad 0x3d) [] [] 0)"

definition base64_encode :: "(nat \<Rightarrow> bool) \<Rightarrow> bytes \<Rightarrow> bytes option ub" where
  "base64_encode malloc src = base64_gen_encode malloc src base64_table (BASE64_PAD OR BASE64_LF)"

definition base64_encode_no_lf :: "(nat \<Rightarrow> bool) \<Rightarrow> bytes \<Rightarrow> bytes option ub" where
  "base64_encode_no_lf malloc src = base64_gen_encode malloc src base64_table BASE64_PAD"

definition base64_url_encode :: "(nat \<Rightarrow> bool) \<Rightarrow> bytes \<Rightarrow> bytes option ub" where
  "base64_url_encode malloc src = base64_gen_encode malloc src base64_url_table 0"

definition base64_decode :: "(nat \<Rightarrow> bool) \<Rightarrow> bytes \<Rightarrow> bytes option ub" where
  "base64_decode malloc src = base64_gen_decode malloc src base64_table"

definition base64_url_decode :: "(nat \<Rightarrow> bool) \<Rightarrow> bytes \<Rightarrow> bytes option ub" where
  "base64_url_decode malloc src = base64_gen_decode malloc src base64_url_table"

section \<open>Six bit groups\<close>

lemma mask_numerals: "(0x03::u8) = mask 2" "(0x0f::u8) = mask 4" "(0x3f::u8) = mask 6"
  by (simp_all add: mask_eq_exp_minus_1)

lemma u8_eqI:
  assumes "bit x 0 = bit y 0" "bit x 1 = bit y 1" "bit x 2 = bit y 2" "bit x 3 = bit y 3"
    "bit x 4 = bit y 4" "bit x 5 = bit y 5" "bit x 6 = bit y 6" "bit x 7 = bit y 7"
  shows "x = (y :: u8)"
proof (rule bit_word_eqI)
  fix n assume "n < LENGTH(8)"
  then have "n = 0 \<or> n = 1 \<or> n = 2 \<or> n = 3 \<or> n = 4 \<or> n = 5 \<or> n = 6 \<or> n = 7" by auto
  with assms show "bit x n = bit y n" by auto
qed

definition sextet :: "u8 \<Rightarrow> u8" where
  "sextet x = x AND 0x3f"

lemma block_identity:
  fixes a b c :: u8
  shows "push_bit 2 (sextet (drop_bit 2 a))
      OR drop_bit 4 (sextet (push_bit 4 (a AND 0x03) OR drop_bit 4 b)) = a"
    and "push_bit 4 (sextet (push_bit 4 (a AND 0x03) OR drop_bit 4 b))
      OR drop_bit 2 (sextet (push_bit 2 (b AND 0x0f) OR drop_bit 6 c)) = b"
    and "push_bit 6 (sextet (push_bit 2 (b AND 0x0f) OR drop_bit 6 c)) OR sextet c = c"
    and "push_bit 2 (sextet (drop_bit 2 a)) OR drop_bit 4 (sextet (push_bit 4 (a AND 0x03))) = a"
    and "push_bit 4 (sextet (push_bit 4 (a AND 0x03) OR drop_bit 4 b))
      OR drop_bit 2 (sextet (push_bit 2 (b AND 0x0f))) = b"
  unfolding sextet_def mask_numerals by (rule u8_eqI; simp add: bit_simps)+

lemma and_3f_less: "uint ((x::u8) AND 0x3f) < 64"
proof -
  have "uint (x AND 0x3f) = take_bit 6 (uint x)"
    unfolding mask_numerals by (simp add: unsigned_and_eq flip: take_bit_eq_mask)
       (simp add: unsigned_take_bit_eq)
  then show ?thesis by (simp add: take_bit_eq_mod)
qed

section \<open>Alphabets\<close>

lemma foldl_update_nth:
  assumes "inj_on k {..<n}" "\<And>i. i < n \<Longrightarrow> k i < length d"
  shows "length (foldl (\<lambda>dt i. dt[k i := v i]) d [0..<n]) = length d"
    and "j < n \<Longrightarrow> foldl (\<lambda>dt i. dt[k i := v i]) d [0..<n] ! k j = v j"
    and "m \<notin> k ` {..<n} \<Longrightarrow> foldl (\<lambda>dt i. dt[k i := v i]) d [0..<n] ! m = d ! m"
proof -
  have "length (foldl (\<lambda>dt i. dt[k i := v i]) d [0..<n]) = length d
    \<and> (\<forall>j < n. foldl (\<lambda>dt i. dt[k i := v i]) d [0..<n] ! k j = v j)
    \<and> (\<forall>m. m \<notin> k ` {..<n} \<longrightarrow> foldl (\<lambda>dt i. dt[k i := v i]) d [0..<n] ! m = d ! m)"
    using assms
  proof (induction n)
    case (Suc n)
    then have "inj_on k {..<n}" by (auto simp: inj_on_def)
    with Suc have IH: "length (foldl (\<lambda>dt i. dt[k i := v i]) d [0..<n]) = length d"
       "\<forall>j < n. foldl (\<lambda>dt i. dt[k i := v i]) d [0..<n] ! k j = v j"
       "\<forall>m. m \<notin> k ` {..<n} \<longrightarrow> foldl (\<lambda>dt i. dt[k i := v i]) d [0..<n] ! m = d ! m" by auto
    have ne: "k j \<noteq> k n" if "j < n" for j using Suc.prems(1) that by (auto simp: inj_on_def)
    then have ne': "k n \<noteq> k j" if "j < n" for j using that by metis
    show ?case using IH ne ne' Suc.prems(2) by (auto simp: less_Suc_eq nth_list_update lessThan_Suc)
  qed simp
  then show "length (foldl (\<lambda>dt i. dt[k i := v i]) d [0..<n]) = length d"
    and "j < n \<Longrightarrow> foldl (\<lambda>dt i. dt[k i := v i]) d [0..<n] ! k j = v j"
    and "m \<notin> k ` {..<n} \<Longrightarrow> foldl (\<lambda>dt i. dt[k i := v i]) d [0..<n] ! m = d ! m" by auto
qed

text \<open>
  The text of RFC 4648, without line feeds: four characters for three bytes, and a last group
  of two or three characters, padded to four when \<open>pad\<close> is set.
\<close>

definition b64_char :: "bytes \<Rightarrow> u8 \<Rightarrow> u8" where
  "b64_char table idx = table ! unat (sextet idx)"

fun base64_text :: "bytes \<Rightarrow> bool \<Rightarrow> bytes \<Rightarrow> bytes" where
  "base64_text table pad (a # b # c # src) =
     [b64_char table (drop_bit 2 a), b64_char table (push_bit 4 (a AND 0x03) OR drop_bit 4 b),
      b64_char table (push_bit 2 (b AND 0x0f) OR drop_bit 6 c), b64_char table c]
     @ base64_text table pad src"
| "base64_text table pad [a, b] =
     [b64_char table (drop_bit 2 a), b64_char table (push_bit 4 (a AND 0x03) OR drop_bit 4 b),
      b64_char table (push_bit 2 (b AND 0x0f))] @ (if pad then [0x3d] else [])"
| "base64_text table pad [a] =
     [b64_char table (drop_bit 2 a), b64_char table (push_bit 4 (a AND 0x03))]
     @ (if pad then [0x3d, 0x3d] else [])"
| "base64_text table pad [] = []"

locale base64_alphabet =
  fixes table :: bytes
  assumes table_length: "length table = 64"
    and table_distinct: "distinct table"
    and table_no_pad: "0x3d \<notin> set table"
    and table_no_lf: "0x0a \<notin> set table"
begin

lemma key_inj: "inj_on (\<lambda>i. unat (table ! i)) {..<64}"
  using table_length table_distinct
  by (auto simp: inj_on_def nth_eq_iff_index_eq simp flip: word_unat_eq_iff)

lemma table_unat: "c \<notin> set table \<Longrightarrow> unat c \<notin> (\<lambda>i. unat (table ! i)) ` {..<64}"
  using table_length by (auto simp flip: word_unat_eq_iff)

lemma dtable_length [simp]: "length (base64_dtable table) = 256"
  unfolding base64_dtable_def
  using foldl_update_nth(1) [OF key_inj, of "replicate 256 0x80"] by simp

lemma dtable_entry:
  assumes "i < 64" shows "base64_dtable table ! unat (table ! i) = word_of_nat i"
proof -
  have "table ! i \<noteq> 0x3d" using assms table_length table_no_pad by (metis nth_mem)
  then have "unat (table ! i) \<noteq> 0x3d" by (simp add: word_unat_eq_iff)
  then show ?thesis
    unfolding base64_dtable_def
    using foldl_update_nth(2) [OF key_inj, of "replicate 256 0x80" i] assms by simp
qed

lemma dtable_pad [simp]: "base64_dtable table ! 0x3d = 0"
  unfolding base64_dtable_def
  using foldl_update_nth(1) [OF key_inj, of "replicate 256 (0x80::u8)" word_of_nat] by simp

lemma dtable_lf [simp]: "base64_dtable table ! 0x0a = 0x80"
  unfolding base64_dtable_def
  using foldl_update_nth(3) [OF key_inj, of "replicate 256 0x80" "unat (0x0a::u8)"]
    table_unat [OF table_no_lf] by simp

lemma unat_and_3f: "unat (sextet x) < 64"
  using and_3f_less [of x] unfolding sextet_def by (metis of_nat_less_iff of_nat_numeral uint_nat)

lemma char_in_table: "b64_char table x \<in> set table"
  using unat_and_3f [of x] table_length by (simp add: b64_char_def)

lemma char_not_special [simp]: "b64_char table x \<noteq> 0x3d" "b64_char table x \<noteq> 0x0a"
  using char_in_table [of x] table_no_pad table_no_lf by metis+

lemma emit_tab_char [simp]: "emit_tab cap table (x AND 0x3f) out = emit cap (b64_char table x) out"
  using unat_and_3f [of x] table_length by (simp add: emit_tab_def peek_uint b64_char_def sextet_def)

lemma peek_dtable [simp]: "peek (base64_dtable table) (uint (b64_char table x)) = Some (sextet x)"
  using dtable_entry [OF unat_and_3f [of x]] by (simp add: peek_uint b64_char_def)

lemma sextet_not_80 [simp]: "sextet x \<noteq> 0x80"
  using unat_and_3f [of x] by (auto simp: word_unat_eq_iff)

lemma peek_dtable_pad [simp]: "peek (base64_dtable table) 0x3d = Some 0"
  by (simp add: peek_def)

lemma encode_loop_spec:
  assumes "length out + 4 * (length inp div 3) + (if lf then (k + length inp div 3) div 18 else 0) \<le> cap"
    and "lf \<Longrightarrow> ll = 4 * int k \<and> k < 18"
  shows "\<exists>rest out' ll'. base64_encode_loop table lf cap inp out ll = Some (rest, out @ out', ll')
    \<and> length rest = length inp mod 3
    \<and> length out' = 4 * (length inp div 3) + (if lf then (k + length inp div 3) div 18 else 0)
    \<and> filter (\<lambda>c. c \<noteq> 0x0a) out' @ base64_text table pad rest = base64_text table pad inp"
  using assms
proof (induction inp arbitrary: out ll k rule: list3_induct)
  case (Three a b c src)
  let ?cs = "[b64_char table (drop_bit 2 a), b64_char table (push_bit 4 (a AND 0x03) OR drop_bit 4 b),
      b64_char table (push_bit 2 (b AND 0x0f) OR drop_bit 6 c), b64_char table c]"
  have c: "lf \<Longrightarrow> c_int (ll + 4) = 4 * int (Suc k)" using Three.prems(2) by (simp add: c_int_id)
  have n3: "length (a # b # c # src) div 3 = Suc (length src div 3)"
    "length (a # b # c # src) mod 3 = length src mod 3" by simp_all
  show ?case
  proof (cases "lf \<and> 72 \<le> c_int (ll + 4)")
    case True
    then have k: "k = 17" using Three.prems(2) c by simp
    have d18: "(17 + Suc (length src div 3)) div 18 = Suc (length src div 3 div 18)" by presburger
    have cap: "length (out @ ?cs @ [0x0a]) + 4 * (length src div 3)
      + (if lf then (0 + length src div 3) div 18 else 0) \<le> cap"
      using Three.prems(1) True unfolding n3 k by (simp add: d18)
    from Three.IH [OF this, of 0] obtain rest out' ll' where IH:
      "base64_encode_loop table lf cap src (out @ ?cs @ [0x0a]) 0 = Some (rest, (out @ ?cs @ [0x0a]) @ out', ll')"
      "length rest = length src mod 3"
      "length out' = 4 * (length src div 3) + (if lf then (0 + length src div 3) div 18 else 0)"
      "filter (\<lambda>c. c \<noteq> 0x0a) out' @ base64_text table pad rest = base64_text table pad src" by auto
    have "base64_encode_loop table lf cap (a # b # c # src) out ll = Some (rest, out @ (?cs @ [0x0a] @ out'), ll')"
      using cap IH(1) True by (simp add: emit_def)
    then show ?thesis using IH(2-) True unfolding n3 k
      by (intro exI [of _ rest] exI [of _ "?cs @ [0x0a] @ out'"] exI [of _ ll']) (simp add: d18)
  next
    case False
    have d4: "Suc k + length src div 3 = k + Suc (length src div 3)" by simp
    have cap: "length (out @ ?cs) + 4 * (length src div 3)
      + (if lf then (Suc k + length src div 3) div 18 else 0) \<le> cap"
      using Three.prems(1) unfolding n3 d4 by simp
    have "lf \<Longrightarrow> c_int (ll + 4) = 4 * int (Suc k) \<and> Suc k < 18" using False c by simp
    from Three.IH [OF cap this] obtain rest out' ll' where IH:
      "base64_encode_loop table lf cap src (out @ ?cs) (c_int (ll + 4)) = Some (rest, (out @ ?cs) @ out', ll')"
      "length rest = length src mod 3"
      "length out' = 4 * (length src div 3) + (if lf then (Suc k + length src div 3) div 18 else 0)"
      "filter (\<lambda>c. c \<noteq> 0x0a) out' @ base64_text table pad rest = base64_text table pad src" by blast
    have "base64_encode_loop table lf cap (a # b # c # src) out ll = Some (rest, out @ (?cs @ out'), ll')"
      using cap IH(1) False by (auto simp: emit_def)
    then show ?thesis using IH(2-) unfolding n3 d4
      by (intro exI [of _ rest] exI [of _ "?cs @ out'"] exI [of _ ll']) simp
  qed
qed (auto simp flip: div_mult2_eq)

lemma encode_tail_spec:
  assumes "length inp < 3" "inp \<noteq> [] \<Longrightarrow> length out + 4 \<le> cap"
  shows "base64_encode_tail table pad cap inp out ll
     = Some (out @ base64_text table pad inp, if inp = [] then ll else c_int (ll + 4))"
proof (cases "(table, pad, inp)" rule: base64_text.cases)
  case (1 table pad a b c src)
  then show ?thesis using assms by simp
qed (use assms in \<open>auto simp: base64_encode_tail_def emit_def\<close>)

lemma text_length: "length inp < 3 \<Longrightarrow> inp \<noteq> [] \<Longrightarrow> length (base64_text table pad inp) \<le> 4"
  by (cases "(table, pad, inp)" rule: base64_text.cases) auto

lemma text_no_lf: "filter (\<lambda>c. c \<noteq> 0x0a) (base64_text table pad inp) = base64_text table pad inp"
  by (induction inp rule: list3_induct) auto

text \<open>The allocation is large enough; for one byte in the last group, exactly.\<close>

lemma encode_olen:
  fixes n :: nat
  assumes "olen = (if lf then n * 4 div 3 + 4 + (n * 4 div 3 + 4) div 72 else n * 4 div 3 + 4) + 1"
  shows "4 * (n div 3) + (if lf then n div 3 div 18 else 0)
    + (if n mod 3 = 0 then 0 else 4) + (if lf then 1 else 0) + 1 \<le> olen" 
proof -
  obtain q r where n: "n = 3 * q + r" "r < 3" "n div 3 = q" "n mod 3 = r"
    by (metis mod_less_divisor mult_div_mod_eq zero_less_numeral)
  then have m: "n * 4 div 3 = 4 * q + 4 * r div 3" by simp
  have "r = 0 \<or> r = 1 \<or> r = 2" using n(2) by auto
  then show ?thesis using n(3,4) unfolding assms m by auto
qed

lemma encode_spec:
  assumes "int (length src) < SIZE_MAX div 4" "\<And>n. malloc n"
  shows "\<exists>out. base64_gen_encode malloc src table add_pad = Some (Some out)
    \<and> filter (\<lambda>c. c \<noteq> 0x0a) out = base64_text table (add_pad AND BASE64_PAD \<noteq> 0) src"
proof -
  let ?n = "length src"
  define lf where "lf = (add_pad AND BASE64_LF \<noteq> 0)"
  define pad where "pad = (add_pad AND BASE64_PAD \<noteq> 0)"
  define olen where "olen = (if lf then ?n * 4 div 3 + 4 + (?n * 4 div 3 + 4) div 72 else ?n * 4 div 3 + 4) + 1"
  note bound = encode_olen [OF olen_def]
  have "\<exists>rest out' ll'. base64_encode_loop table lf olen src [] 0 = Some (rest, [] @ out', ll')
    \<and> length rest = ?n mod 3
    \<and> length out' = 4 * (?n div 3) + (if lf then (0 + ?n div 3) div 18 else 0)
    \<and> filter (\<lambda>c. c \<noteq> 0x0a) out' @ base64_text table pad rest = base64_text table pad src"
    by (rule encode_loop_spec) (use bound in \<open>auto split: if_splits\<close>)
  then obtain rest out' ll' where L: "base64_encode_loop table lf olen src [] 0 = Some (rest, out', ll')"
    "length rest = ?n mod 3" "length out' = 4 * (?n div 3) + (if lf then ?n div 3 div 18 else 0)"
    "filter (\<lambda>c. c \<noteq> 0x0a) out' @ base64_text table pad rest = base64_text table pad src" by auto
  let ?out = "out' @ base64_text table pad rest"
  let ?ll = "if rest = [] then ll' else c_int (ll' + 4)"
  have T: "base64_encode_tail table pad olen rest out' ll' = Some (?out, ?ll)"
    by (rule encode_tail_spec) (use L(2,3) bound in \<open>auto split: if_splits\<close>)
  have len: "length ?out + (if lf then 1 else 0) < olen"
    using bound L(2,3) text_length [of rest pad] by (cases "rest = []") (auto split: if_splits)
  have le: "\<not> olen < ?n" unfolding olen_def by auto
  have "base64_gen_encode malloc src table add_pad
     = Some (Some (if lf \<and> ?ll \<noteq> 0 then ?out @ [0x0a] else ?out))"
    using assms L(1) T len le
    unfolding base64_gen_encode_def Let_def lf_def [symmetric] pad_def [symmetric] olen_def [symmetric]
    by (auto simp: emit_def split: if_splits)
  then show ?thesis using L(4) unfolding pad_def [symmetric] by (simp add: text_no_lf)
qed

section \<open>Decoding\<close>

lemma decode_loop_filter:
  "base64_decode_loop (base64_dtable table) cap xs out block pad
   = base64_decode_loop (base64_dtable table) cap
       (filter (\<lambda>c. base64_dtable table ! unat c \<noteq> 0x80) xs) out block pad"
proof (induction xs arbitrary: out block pad)
  case (Cons v xs)
  show ?case by (simp add: peek_uint Let_def Cons.IH [symmetric] cong: if_cong)
qed simp

lemma decode_text:
  assumes "length out + 3 * ((length inp + 2) div 3) \<le> cap"
  shows "base64_decode_loop (base64_dtable table) cap (base64_text table True inp) out [] 0
    = Some (Some (out @ inp))"
  using assms
proof (induction inp arbitrary: out rule: list3_induct)
  case (Three a b c src)
  have n: "(length (a # b # c # src) + 2) div 3 = Suc ((length src + 2) div 3)" by simp
  with Three have "base64_decode_loop (base64_dtable table) cap (base64_text table True src) (out @ [a, b, c]) [] 0
    = Some (Some ((out @ [a, b, c]) @ src))" by (intro Three.IH) simp
  then show ?case using Three.prems unfolding n by (simp add: emit_def block_identity [simplified])
qed (simp_all add: emit_def block_identity [simplified])

lemma text_all_valid:
  "filter (\<lambda>c. base64_dtable table ! unat c \<noteq> 0x80) (base64_text table pad inp) = base64_text table pad inp"
proof -
  have "base64_dtable table ! unat (b64_char table x) \<noteq> 0x80" for x
    using peek_dtable [of x] by (auto simp: peek_uint)
  then show ?thesis by (induction inp rule: list3_induct) auto
qed

lemma length_text: "length (base64_text table pad inp) =
   (if pad then 4 * ((length inp + 2) div 3) else 4 * (length inp div 3) + (if length inp mod 3 = 0 then 0 else length inp mod 3 + 1))"
proof (induction inp rule: list3_induct)
  case (Three a b c xs)
  have "(length (a # b # c # xs) + 2) div 3 = Suc ((length xs + 2) div 3)"
    "length (a # b # c # xs) div 3 = Suc (length xs div 3)"
    "length (a # b # c # xs) mod 3 = length xs mod 3" by simp_all
  with Three show ?case by simp
qed auto

lemma text_padded: 
  "base64_text table pad inp @ replicate ((4 - length (base64_text table pad inp) mod 4) mod 4) 0x3d = base64_text table True inp"
proof (induction inp rule: list3_induct)
  case (Three a b c xs)
  then show ?case by simp
qed (auto simp: numeral_2_eq_2)

lemma decode_encoded:
  assumes "filter (\<lambda>c. c \<noteq> 0x0a) t0 = base64_text table pad src" "src \<noteq> []" "\<And>n. malloc n"
  shows "base64_gen_decode malloc t0 table = Some (Some src)"
proof -
  let ?valid = "\<lambda>c. base64_dtable table ! unat c \<noteq> 0x80"
  let ?t = "base64_text table pad src"
  let ?ep = "(4 - length ?t mod 4) mod 4"
  have "filter ?valid t0 = filter ?valid (filter (\<lambda>c. c \<noteq> 0x0a) t0)"
    by (auto intro!: filter_cong)
  then have ft: "filter ?valid t0 = ?t" by (simp add: assms(1) text_all_valid)
  have ne: "length ?t \<noteq> 0" using assms(2) by (cases "(table, pad, src)" rule: base64_text.cases) auto
  have pt: "filter ?valid (t0 @ replicate ?ep 0x3d) = base64_text table True src"
    using text_padded [of pad src] by (simp add: ft)
  have len: "(length ?t + ?ep) div 4 * 3 = 3 * ((length src + 2) div 3)"
    using arg_cong [OF text_padded [of pad src], of length] by (simp add: length_text)
  have "base64_decode_loop (base64_dtable table) (3 * ((length src + 2) div 3)) (t0 @ replicate ?ep 0x3d) [] [] 0
     = Some (Some src)"
    by (subst decode_loop_filter, subst pt, subst decode_text) simp_all
  then show ?thesis using ne assms(3) len unfolding base64_gen_decode_def Let_def ft
    by (simp add: mult.commute)
qed

end

interpretation std: base64_alphabet base64_table
  by unfold_locales code_simp+

interpretation url: base64_alphabet base64_url_table
  by unfold_locales code_simp+

section \<open>Memory safety\<close>

lemma foldl_update_length: "length (foldl (\<lambda>dt i. dt[k i := v i]) d is) = length d"
  by (induction "is" arbitrary: d) simp_all

lemma dtable_length_any: "length (base64_dtable table) = 256"
  by (simp add: base64_dtable_def foldl_update_length)

lemma decode_loop_safe:
  assumes "length dtable = 256" "length block < 4"
    and "length out + 3 * ((length block + length (filter (\<lambda>c. dtable ! unat c \<noteq> 0x80) xs)) div 4) \<le> cap"
  shows "base64_decode_loop dtable cap xs out block pad \<noteq> None"
  using assms
proof (induction xs arbitrary: out block pad)
  case Nil
  then show ?case by simp
next
  case (Cons v xs)
  show ?case
  proof (cases "dtable ! unat v = 0x80")
    case True
    then show ?thesis using Cons by (simp add: peek_uint)
  next
    case False
    let ?n = "length (filter (\<lambda>c. dtable ! unat c \<noteq> 0x80) xs)"
    show ?thesis
    proof (cases "length block = 3")
      case b3: True
      then have "length out + 3 + 3 * (?n div 4) \<le> cap" using Cons.prems(3) False by (simp add: div_add_self1)
      moreover have "base64_decode_loop dtable cap xs (out @ [p, q, r]) [] pad \<noteq> None" for p q r pad
        by (rule Cons.IH) (use calculation Cons.prems in simp_all)
      ultimately show ?thesis using False b3 Cons.prems(1) by (simp add: peek_uint emit_def Let_def)
    next
      case b3: False
      moreover have "base64_decode_loop dtable cap xs out (block @ [dtable ! unat v]) p \<noteq> None" for p
        by (rule Cons.IH) (use b3 False Cons.prems in simp_all)
      ultimately show ?thesis using False Cons.prems(1,2) by (simp add: peek_uint Let_def)
    qed
  qed
qed

lemma base64_gen_decode_safe: "base64_gen_decode malloc src table \<noteq> None"
proof -
  let ?dt = "base64_dtable table"
  let ?v = "\<lambda>c. ?dt ! unat c \<noteq> 0x80"
  let ?c = "length (filter ?v src)"
  let ?ep = "(4 - ?c mod 4) mod 4"
  have "?dt ! unat (0x3d::u8) = 0"
    using dtable_length_any [of table] by (simp add: base64_dtable_def)
  then have len: "length (filter ?v (src @ replicate ?ep 0x3d)) = ?c + ?ep" by simp
  have "base64_decode_loop ?dt ((?c + ?ep) div 4 * 3) (src @ replicate ?ep 0x3d) [] [] 0 \<noteq> None"
    by (rule decode_loop_safe) (use len in \<open>simp_all add: dtable_length_any\<close>)
  then show ?thesis by (simp add: base64_gen_decode_def Let_def)
qed

lemma base64_gen_encode_malloc:
  "base64_gen_encode malloc src table add_pad \<in> {Some None, base64_gen_encode (\<lambda>_. True) src table add_pad}"
  by (auto simp: base64_gen_encode_def Let_def)

context base64_alphabet
begin

lemma base64_gen_encode_safe: "base64_gen_encode malloc src table add_pad \<noteq> None"
proof (cases "int (length src) < SIZE_MAX div 4")
  case True
  then show ?thesis
    using base64_gen_encode_malloc [of malloc src table add_pad] encode_spec [of src "\<lambda>_. True" add_pad] by auto
next
  case False
  then show ?thesis by (simp add: base64_gen_encode_def)
qed

lemma gen_roundtrip:
  assumes "src \<noteq> []" "int (length src) < SIZE_MAX div 4" "\<And>n. malloc n"
  shows "\<exists>t. base64_gen_encode malloc src table add_pad = Some (Some t)
      \<and> base64_gen_decode malloc t table = Some (Some src)"
  using encode_spec [of src malloc add_pad, OF assms(2,3)] decode_encoded [where malloc = malloc, OF _ assms(1,3)] by blast

end

text \<open>
  C38. Round trip: for every non-empty input below the size limit, decoding the output of each
  of the three encoders (with padding and line feeds, with padding only, URL safe without
  padding) returns the input.
\<close>

theorem base64_roundtrip:
  assumes "src \<noteq> []" "int (length src) < SIZE_MAX div 4" "\<And>n. malloc n"
  shows "(\<exists>t. base64_encode malloc src = Some (Some t) \<and> base64_decode malloc t = Some (Some src))
    \<and> (\<exists>t. base64_encode_no_lf malloc src = Some (Some t) \<and> base64_decode malloc t = Some (Some src))
    \<and> (\<exists>t. base64_url_encode malloc src = Some (Some t) \<and> base64_url_decode malloc t = Some (Some src))"
  unfolding base64_encode_def base64_encode_no_lf_def base64_url_encode_def
    base64_decode_def base64_url_decode_def
  by (intro conjI std.gen_roundtrip url.gen_roundtrip assms)

text \<open>
  Memory safety, for every input and every behaviour of the allocator: the encoders never
  write past the buffer of the size they computed (line feeds, padding and terminator
  included), and the decoders never read or write outside their buffers.
\<close>

lemma base64_memory_safe:
  "base64_encode malloc src \<noteq> None \<and> base64_encode_no_lf malloc src \<noteq> None
   \<and> base64_url_encode malloc src \<noteq> None
   \<and> base64_decode malloc src \<noteq> None \<and> base64_url_decode malloc src \<noteq> None"
  unfolding base64_encode_def base64_encode_no_lf_def base64_url_encode_def
    base64_decode_def base64_url_decode_def
  by (intro conjI std.base64_gen_encode_safe url.base64_gen_encode_safe base64_gen_decode_safe)

lemma base64_roundtrip_witness:
  "\<exists>t. base64_url_encode (\<lambda>_. True) [0xff, 0x00, 0x7f, 0x80] = Some (Some t)
     \<and> base64_url_decode (\<lambda>_. True) t = Some (Some [0xff, 0x00, 0x7f, 0x80])"
  using base64_roundtrip [of "[0xff, 0x00, 0x7f, 0x80]" "\<lambda>_. True"] by (simp add: SIZE_MAX_def)

end
