(* ===== verification/Wpabuf.thy ===== *)
theory Wpabuf
  imports Prelude Byte_Order Hex_Strings
begin

unbundle bit_operations_syntax

text \<open>
  The dynamic data buffer of \<open>src/utils/wpabuf.c\<close> and \<open>wpabuf.h\<close>, built without
  \<open>WPA_TRACE\<close>. Sizes are 64-bit words, so that the additions wrap as \<open>size_t\<close> does.
  A write that would pass the end of the allocated bytes is the outcome \<open>Fault\<close>; the
  deliberate \<open>abort()\<close> of \<open>wpabuf_overflow\<close> is the outcome \<open>Abort\<close>.
  The contract of a buffer that is appended to is the locale \<open>append_buffer\<close>; the lemmas on
  sequences of puts are proved in it and used through its interpretation on \<open>wpabuf\<close>.
\<close>

section \<open>Outcomes\<close>

datatype 'a run = Fault | Abort | Ok 'a

primrec bindR :: "'a run \<Rightarrow> ('a \<Rightarrow> 'b run) \<Rightarrow> 'b run" where
  "bindR Fault f = Fault"
| "bindR Abort f = Abort"
| "bindR (Ok x) f = f x"

primrec of_ub :: "'a ub \<Rightarrow> 'a run" where
  "of_ub None = Fault"
| "of_ub (Some x) = Ok x"

lemma bindR_eq_Ok: "bindR r f = Ok y \<longleftrightarrow> (\<exists>x. r = Ok x \<and> f x = Ok y)"
  by (cases r) simp_all

section \<open>The buffer and its operations\<close>

record wpabuf =
  bsize :: u64
  used :: u64
  bdata :: bytes
  bflags :: u32

definition WPABUF_FLAG_EXT_DATA :: u32 where "WPABUF_FLAG_EXT_DATA = 1"

text \<open>The size of the header in front of the data in one allocation.\<close>

definition sizeof_wpabuf :: u64 where "sizeof_wpabuf = 32"

definition wpabuf_size :: "wpabuf \<Rightarrow> u64" where "wpabuf_size buf = bsize buf"
definition wpabuf_len :: "wpabuf \<Rightarrow> u64" where "wpabuf_len buf = used buf"
definition wpabuf_tailroom :: "wpabuf \<Rightarrow> u64" where "wpabuf_tailroom buf = bsize buf - used buf"
definition wpabuf_head :: "wpabuf \<Rightarrow> bytes" where "wpabuf_head buf = bdata buf"

text \<open>The bytes a reader gets: \<open>wpabuf_len\<close> bytes from \<open>wpabuf_head\<close>.\<close>

definition wpabuf_content :: "wpabuf \<Rightarrow> bytes" where
  "wpabuf_content buf = take (unat (wpabuf_len buf)) (wpabuf_head buf)"

definition wpabuf_alloc :: "(nat \<Rightarrow> bool) \<Rightarrow> u64 \<Rightarrow> wpabuf option" where
  "wpabuf_alloc malloc len =
     (let n = unat (sizeof_wpabuf + len) in
      if malloc n then Some \<lparr>bsize = len, used = 0, bdata = replicate (n - unat sizeof_wpabuf) 0, bflags = 0\<rparr>
      else None)"

definition wpabuf_alloc_ext_data :: "(nat \<Rightarrow> bool) \<Rightarrow> bytes \<Rightarrow> u64 \<Rightarrow> wpabuf option" where
  "wpabuf_alloc_ext_data malloc data len =
     (if malloc (unat sizeof_wpabuf)
      then Some \<lparr>bsize = len, used = len, bdata = data, bflags = WPABUF_FLAG_EXT_DATA\<rparr> else None)"

text \<open>The pointer \<open>wpabuf_put\<close> returns is the offset of the reserved bytes.\<close>

definition wpabuf_put :: "wpabuf \<Rightarrow> u64 \<Rightarrow> (wpabuf \<times> nat) run" where
  "wpabuf_put buf len =
     (let tmp = unat (wpabuf_len buf); buf = buf\<lparr>used := used buf + len\<rparr> in
      if used buf > bsize buf then Abort else Ok (buf, tmp))"

definition put_at :: "wpabuf \<Rightarrow> nat \<Rightarrow> bytes \<Rightarrow> wpabuf run" where
  "put_at buf pos data = bindR (of_ub (memcpy_at (bdata buf) pos data)) (\<lambda>d. Ok (buf\<lparr>bdata := d\<rparr>))"

definition wpabuf_put_u8 :: "wpabuf \<Rightarrow> u8 \<Rightarrow> wpabuf run" where
  "wpabuf_put_u8 buf data = bindR (wpabuf_put buf 1) (\<lambda>(buf, pos). put_at buf pos [data])"

definition wpabuf_put_le16 :: "wpabuf \<Rightarrow> u16 \<Rightarrow> wpabuf run" where
  "wpabuf_put_le16 buf data = bindR (wpabuf_put buf 2) (\<lambda>(buf, pos). put_at buf pos (WPA_PUT_LE16 data))"

definition wpabuf_put_le32 :: "wpabuf \<Rightarrow> u32 \<Rightarrow> wpabuf run" where
  "wpabuf_put_le32 buf data = bindR (wpabuf_put buf 4) (\<lambda>(buf, pos). put_at buf pos (WPA_PUT_LE32 data))"

definition wpabuf_put_le64 :: "wpabuf \<Rightarrow> u64 \<Rightarrow> wpabuf run" where
  "wpabuf_put_le64 buf data = bindR (wpabuf_put buf 8) (\<lambda>(buf, pos). put_at buf pos (WPA_PUT_LE64 data))"

definition wpabuf_put_be16 :: "wpabuf \<Rightarrow> u16 \<Rightarrow> wpabuf run" where
  "wpabuf_put_be16 buf data = bindR (wpabuf_put buf 2) (\<lambda>(buf, pos). put_at buf pos (WPA_PUT_BE16 data))"

definition wpabuf_put_be24 :: "wpabuf \<Rightarrow> u32 \<Rightarrow> wpabuf run" where
  "wpabuf_put_be24 buf data = bindR (wpabuf_put buf 3) (\<lambda>(buf, pos). put_at buf pos (WPA_PUT_BE24 data))"

definition wpabuf_put_be32 :: "wpabuf \<Rightarrow> u32 \<Rightarrow> wpabuf run" where
  "wpabuf_put_be32 buf data = bindR (wpabuf_put buf 4) (\<lambda>(buf, pos). put_at buf pos (WPA_PUT_BE32 data))"

definition wpabuf_put_be64 :: "wpabuf \<Rightarrow> u64 \<Rightarrow> wpabuf run" where
  "wpabuf_put_be64 buf data = bindR (wpabuf_put buf 8) (\<lambda>(buf, pos). put_at buf pos (WPA_PUT_BE64 data))"

text \<open>\<open>wpabuf_put_data (buf, data, length data)\<close> with a non-NULL \<open>data\<close>.\<close>

definition wpabuf_put_data :: "wpabuf \<Rightarrow> bytes \<Rightarrow> wpabuf run" where
  "wpabuf_put_data buf data =
     bindR (wpabuf_put buf (word_of_nat (length data))) (\<lambda>(buf, pos). put_at buf pos data)"

definition wpabuf_put_buf :: "wpabuf \<Rightarrow> wpabuf \<Rightarrow> wpabuf run" where
  "wpabuf_put_buf dst src = wpabuf_put_data dst (wpabuf_content src)"

definition wpabuf_set :: "wpabuf \<Rightarrow> bytes \<Rightarrow> u64 \<Rightarrow> wpabuf" where
  "wpabuf_set buf data len = buf\<lparr>bdata := data, bflags := WPABUF_FLAG_EXT_DATA, bsize := len, used := len\<rparr>"

definition wpabuf_put_str :: "wpabuf \<Rightarrow> bytes \<Rightarrow> wpabuf run" where
  "wpabuf_put_str dst str = bindR (of_ub (strlen str)) (\<lambda>n. wpabuf_put_data dst (take n str))"

text \<open>
  \<open>memcmp\<close> over the allocated size of both buffers: 0 when they agree. Only the sign of a
  mismatch is fixed by C; it is that of the first difference.
\<close>

fun os_memcmp :: "bytes \<Rightarrow> bytes \<Rightarrow> nat \<Rightarrow> int ub" where
  "os_memcmp a b 0 = Some 0"
| "os_memcmp (x # a) (y # b) (Suc n) = (if x = y then os_memcmp a b n else Some (uint x - uint y))"
| "os_memcmp _ _ (Suc n) = None"

text \<open>\<open>os_memcmp (a, b, n) == 0\<close>.\<close>

definition mem_equal :: "bytes \<Rightarrow> bytes \<Rightarrow> nat \<Rightarrow> bool ub" where
  "mem_equal a b n = map_option (\<lambda>r. r = 0) (os_memcmp a b n)"

definition wpabuf_cmp :: "wpabuf option \<Rightarrow> wpabuf option \<Rightarrow> int run" where
  "wpabuf_cmp a b =
     (case (a, b) of
        (None, None) \<Rightarrow> Ok 0
      | (Some a, Some b) \<Rightarrow>
          if wpabuf_size a = wpabuf_size b
          then of_ub (os_memcmp (bdata a) (bdata b) (unat (wpabuf_size a))) else Ok (-1)
      | _ \<Rightarrow> Ok (-1))"

definition wpabuf_alloc_copy :: "(nat \<Rightarrow> bool) \<Rightarrow> bytes \<Rightarrow> wpabuf option run" where
  "wpabuf_alloc_copy malloc data =
     (case wpabuf_alloc malloc (word_of_nat (length data)) of
        None \<Rightarrow> Ok None
      | Some buf \<Rightarrow> bindR (wpabuf_put_data buf data) (\<lambda>buf. Ok (Some buf)))"

definition wpabuf_dup :: "(nat \<Rightarrow> bool) \<Rightarrow> wpabuf \<Rightarrow> wpabuf option run" where
  "wpabuf_dup malloc src =
     (case wpabuf_alloc malloc (wpabuf_len src) of
        None \<Rightarrow> Ok None
      | Some buf \<Rightarrow> bindR (wpabuf_put_data buf (wpabuf_content src)) (\<lambda>buf. Ok (Some buf)))"

definition wpabuf_concat :: "(nat \<Rightarrow> bool) \<Rightarrow> wpabuf option \<Rightarrow> wpabuf option \<Rightarrow> wpabuf option run" where
  "wpabuf_concat malloc a b =
     (case b of
        None \<Rightarrow> Ok a
      | Some b \<Rightarrow>
        let len = (case a of None \<Rightarrow> 0 | Some a \<Rightarrow> wpabuf_len a) + wpabuf_len b in
        case wpabuf_alloc malloc len of
          None \<Rightarrow> Ok None
        | Some n \<Rightarrow>
          bindR (case a of None \<Rightarrow> Ok n | Some a \<Rightarrow> wpabuf_put_buf n a)
            (\<lambda>n. bindR (wpabuf_put_buf n b) (\<lambda>n. Ok (Some n))))"

definition wpabuf_zeropad :: "(nat \<Rightarrow> bool) \<Rightarrow> wpabuf option \<Rightarrow> u64 \<Rightarrow> wpabuf option run" where
  "wpabuf_zeropad malloc buf len =
     (case buf of
        None \<Rightarrow> Ok None
      | Some buf \<Rightarrow>
        let blen = wpabuf_len buf in
        if blen \<ge> len then Ok (Some buf)
        else case wpabuf_alloc malloc len of
          None \<Rightarrow> Ok None
        | Some ret \<Rightarrow>
          bindR (wpabuf_put ret (len - blen)) (\<lambda>(ret, pos).
          bindR (put_at ret pos (replicate (unat (len - blen)) 0)) (\<lambda>ret.
          bindR (wpabuf_put_buf ret buf) (\<lambda>ret. Ok (Some ret)))))"

text \<open>
  \<open>realloc\<close> keeps the old bytes up to the new size; the bytes past them are indeterminate and
  given here by \<open>junk\<close>.
\<close>

definition os_realloc :: "(nat \<Rightarrow> bool) \<Rightarrow> (nat \<Rightarrow> bytes) \<Rightarrow> bytes \<Rightarrow> nat \<Rightarrow> nat \<Rightarrow> bytes option" where
  "os_realloc malloc junk old hdr n =
     (if malloc n then Some (take (n - hdr) (old @ take (n - hdr - length old) (junk n) @
        replicate (n - hdr - length old - length (junk n)) 0)) else None)"

definition wpabuf_resize ::
  "(nat \<Rightarrow> bool) \<Rightarrow> (nat \<Rightarrow> bytes) \<Rightarrow> wpabuf option \<Rightarrow> u64 \<Rightarrow> (int \<times> wpabuf option) run" where
  "wpabuf_resize malloc junk buf add_len =
     (case buf of
        None \<Rightarrow> (case wpabuf_alloc malloc add_len of None \<Rightarrow> Ok (-1, None) | Some b \<Rightarrow> Ok (0, Some b))
      | Some b \<Rightarrow>
        if used b + add_len > bsize b then
          let hdr = (if bflags b AND WPABUF_FLAG_EXT_DATA \<noteq> 0 then 0 else sizeof_wpabuf) in
          case os_realloc malloc junk (bdata b) (unat hdr) (unat (hdr + used b + add_len)) of
            None \<Rightarrow> Ok (-1, Some b)
          | Some nbuf \<Rightarrow>
            bindR (of_ub (memcpy_at nbuf (unat (used b)) (replicate (unat add_len) 0)))
              (\<lambda>d. Ok (0, Some (b\<lparr>bdata := d, bsize := used b + add_len\<rparr>)))
        else Ok (0, Some b))"

text \<open>\<open>wpabuf_printf\<close> with the formatted text; \<open>vsnprintf\<close> returns the length of the text.\<close>

definition wpabuf_printf :: "wpabuf \<Rightarrow> bytes \<Rightarrow> wpabuf run" where
  "wpabuf_printf buf text =
     bindR (of_ub (os_snprintf (bdata buf) (unat (wpabuf_len buf)) (unat (bsize buf - used buf)) text))
       (\<lambda>(d, res).
          if res < 0 \<or> res \<ge> uint (bsize buf - used buf) then Abort
          else Ok (buf\<lparr>bdata := d, used := used buf + word_of_int res\<rparr>))"

definition wpabuf_parse_bin :: "(nat \<Rightarrow> bool) \<Rightarrow> bytes \<Rightarrow> wpabuf option run" where
  "wpabuf_parse_bin malloc buf =
     bindR (of_ub (strlen buf)) (\<lambda>len.
       if odd len then Ok None
       else case wpabuf_alloc malloc (word_of_nat (len div 2)) of
         None \<Rightarrow> Ok None
       | Some ret \<Rightarrow>
         bindR (wpabuf_put ret (word_of_nat (len div 2))) (\<lambda>(ret, pos).
         bindR (of_ub (hexstr2bin buf (drop pos (bdata ret)) (len div 2))) (\<lambda>(r, d).
           if r \<noteq> 0 then Ok None else Ok (Some (ret\<lparr>bdata := take pos (bdata ret) @ d\<rparr>)))))"

section \<open>Well-formed buffers and the append contract\<close>

text \<open>C objects have at most \<open>PTRDIFF_MAX\<close> bytes.\<close>

definition PTRDIFF_LIMIT :: nat where "PTRDIFF_LIMIT = 2 ^ 63"

definition wf_wpabuf :: "wpabuf \<Rightarrow> bool" where
  "wf_wpabuf b \<longleftrightarrow> length (bdata b) = unat (bsize b) \<and> used b \<le> bsize b \<and> unat (bsize b) < PTRDIFF_LIMIT"

locale append_buffer =
  fixes wf :: "'b \<Rightarrow> bool"
    and content :: "'b \<Rightarrow> bytes"
    and room :: "'b \<Rightarrow> nat"
    and put :: "'b \<Rightarrow> bytes \<Rightarrow> 'b run"
  assumes put_fits: "wf b \<Longrightarrow> length xs \<le> room b \<Longrightarrow>
      \<exists>b'. put b xs = Ok b' \<and> wf b' \<and> content b' = content b @ xs \<and> room b' + length xs = room b"
    and put_over: "wf b \<Longrightarrow> room b < length xs \<Longrightarrow> length xs < PTRDIFF_LIMIT \<Longrightarrow> put b xs = Abort"
begin

primrec puts :: "'b \<Rightarrow> bytes list \<Rightarrow> 'b run" where
  "puts b [] = Ok b"
| "puts b (x # xs) = bindR (put b x) (\<lambda>b. puts b xs)"

lemma puts_fits:
  "wf b \<Longrightarrow> length (concat xss) \<le> room b \<Longrightarrow>
    \<exists>b'. puts b xss = Ok b' \<and> wf b' \<and> content b' = content b @ concat xss
       \<and> room b' + length (concat xss) = room b"
proof (induction xss arbitrary: b)
  case (Cons x xss)
  then obtain b1 where "put b x = Ok b1" "wf b1" "content b1 = content b @ x" "room b1 + length x = room b"
    using put_fits [of b x] by auto
  with Cons.IH [of b1] Cons.prems(2) show ?case by auto
qed simp

lemma puts_over:
  "wf b \<Longrightarrow> room b < length (concat xss) \<Longrightarrow> \<forall>x \<in> set xss. length x < PTRDIFF_LIMIT \<Longrightarrow> puts b xss = Abort"
proof (induction xss arbitrary: b)
  case (Cons x xss)
  show ?case
  proof (cases "length x \<le> room b")
    case True
    then obtain b1 where "put b x = Ok b1" "wf b1" "room b1 + length x = room b"
      using put_fits [of b x] Cons.prems by auto
    with Cons show ?thesis by auto
  next
    case False
    then show ?thesis using put_over [of b x] Cons.prems by simp
  qed
qed simp

end

lemma mem_equal_iff: "length a = n \<Longrightarrow> length b = n \<Longrightarrow> mem_equal a b n = Some (a = b)"
proof (induction n arbitrary: a b)
  case (Suc n)
  then obtain x a' y b' where "a = x # a'" "b = y # b'" "length a' = n" "length b' = n" by (metis length_Suc_conv)
  then show ?case using Suc.IH [of a' b'] by (auto simp: mem_equal_def word_uint_eq_iff)
qed (simp add: mem_equal_def)

lemma unat_word_of_nat_small: "n < PTRDIFF_LIMIT \<Longrightarrow> unat (word_of_nat n :: u64) = n"
  by (simp add: unat_of_nat PTRDIFF_LIMIT_def)

lemma used_add_small:
  assumes "wf_wpabuf b" "n < PTRDIFF_LIMIT"
  shows "unat (used b + word_of_nat n) = unat (used b) + n"
proof -
  have "unat (used b) < PTRDIFF_LIMIT" using assms(1) by (auto simp: wf_wpabuf_def word_le_nat_alt)
  then have "unat (used b) + unat (word_of_nat n :: u64) < 2 ^ LENGTH(64)"
    using assms(2) by (simp add: unat_word_of_nat_small) (simp add: PTRDIFF_LIMIT_def)
  then have "unat (used b + word_of_nat n) = unat (used b) + unat (word_of_nat n :: u64)"
    by (rule iffD1 [OF unat_add_lem])
  then show ?thesis using assms(2) by (simp add: unat_word_of_nat_small)
qed

lemma room_eq: "wf_wpabuf b \<Longrightarrow> unat (wpabuf_tailroom b) = unat (bsize b) - unat (used b)"
  by (simp add: wf_wpabuf_def wpabuf_tailroom_def unat_sub)

lemma wpabuf_put_fits:
  assumes "wf_wpabuf b" "n \<le> unat (wpabuf_tailroom b)"
  shows "wpabuf_put b (word_of_nat n) = Ok (b\<lparr>used := used b + word_of_nat n\<rparr>, unat (used b))"
    "unat (used b + word_of_nat n) = unat (used b) + n" "used b + word_of_nat n \<le> bsize b"
proof -
  have le: "unat (used b) \<le> unat (bsize b)" and lim: "unat (bsize b) < PTRDIFF_LIMIT"
    using assms(1) by (auto simp: wf_wpabuf_def word_le_nat_alt)
  have n: "n \<le> unat (bsize b) - unat (used b)" using assms room_eq by simp
  then show u: "unat (used b + word_of_nat n) = unat (used b) + n"
    using used_add_small [OF assms(1), of n] lim by simp
  then show "used b + word_of_nat n \<le> bsize b" using n le by (simp add: word_le_nat_alt)
  then show "wpabuf_put b (word_of_nat n) = Ok (b\<lparr>used := used b + word_of_nat n\<rparr>, unat (used b))"
    by (simp add: wpabuf_put_def wpabuf_len_def Let_def not_less [symmetric])
qed

lemma wpabuf_put_over:
  assumes "wf_wpabuf b" "unat (wpabuf_tailroom b) < n" "n < PTRDIFF_LIMIT"
  shows "wpabuf_put b (word_of_nat n) = Abort"
  using assms used_add_small [OF assms(1,3)] room_eq [OF assms(1)]
  by (simp add: wpabuf_put_def Let_def word_less_nat_alt)

interpretation wb: append_buffer wf_wpabuf wpabuf_content "\<lambda>b. unat (wpabuf_tailroom b)" wpabuf_put_data
proof
  fix b :: wpabuf and xs :: bytes
  assume wf: "wf_wpabuf b" and le: "length xs \<le> unat (wpabuf_tailroom b)"
  note put = wpabuf_put_fits [OF wf le]
  have fit: "unat (used b) + length xs \<le> length (bdata b)"
    using wf le room_eq [OF wf] by (auto simp: wf_wpabuf_def word_le_nat_alt)
  let ?d = "take (unat (used b)) (bdata b) @ xs @ drop (unat (used b) + length xs) (bdata b)"
  let ?b = "b\<lparr>used := used b + word_of_nat (length xs), bdata := ?d\<rparr>"
  have "wpabuf_put_data b xs = Ok ?b"
    using put(1) fit by (simp add: wpabuf_put_data_def put_at_def memcpy_at_def)
  moreover have "wf_wpabuf ?b" using wf put(3) fit by (simp add: wf_wpabuf_def)
  moreover have "wpabuf_content ?b = wpabuf_content b @ xs"
    using put(2) fit by (simp add: wpabuf_content_def wpabuf_len_def wpabuf_head_def)
  moreover have "unat (wpabuf_tailroom ?b) + length xs = unat (wpabuf_tailroom b)"
    using room_eq [OF wf] room_eq [OF \<open>wf_wpabuf ?b\<close>] put(2) fit wf by (simp add: wf_wpabuf_def)
  ultimately show "\<exists>b'. wpabuf_put_data b xs = Ok b' \<and> wf_wpabuf b' \<and> wpabuf_content b' = wpabuf_content b @ xs
      \<and> unat (wpabuf_tailroom b') + length xs = unat (wpabuf_tailroom b)" by blast
next
  fix b :: wpabuf and xs :: bytes
  assume "wf_wpabuf b" "unat (wpabuf_tailroom b) < length xs" "length xs < PTRDIFF_LIMIT"
  then show "wpabuf_put_data b xs = Abort" by (simp add: wpabuf_put_data_def wpabuf_put_over)
qed

text \<open>The typed puts are puts of the encoded bytes.\<close>

lemma put_word_lengths [simp]:
  "length (WPA_PUT_LE16 v) = 2" "length (WPA_PUT_BE16 v) = 2" "length (WPA_PUT_BE24 w) = 3"
  "length (WPA_PUT_LE32 w) = 4" "length (WPA_PUT_BE32 w) = 4" "length (WPA_PUT_LE64 x) = 8" "length (WPA_PUT_BE64 x) = 8"
  by (simp_all add: WPA_PUT_LE16_def WPA_PUT_BE16_def WPA_PUT_BE24_def WPA_PUT_LE32_def WPA_PUT_BE32_def
      WPA_PUT_LE64_def WPA_PUT_BE64_def)

lemma typed_puts:
  "wpabuf_put_u8 b c = wpabuf_put_data b [c]"
  "wpabuf_put_le16 b v = wpabuf_put_data b (WPA_PUT_LE16 v)"
  "wpabuf_put_be16 b v = wpabuf_put_data b (WPA_PUT_BE16 v)"
  "wpabuf_put_be24 b w = wpabuf_put_data b (WPA_PUT_BE24 w)"
  "wpabuf_put_le32 b w = wpabuf_put_data b (WPA_PUT_LE32 w)"
  "wpabuf_put_be32 b w = wpabuf_put_data b (WPA_PUT_BE32 w)"
  "wpabuf_put_le64 b x = wpabuf_put_data b (WPA_PUT_LE64 x)"
  "wpabuf_put_be64 b x = wpabuf_put_data b (WPA_PUT_BE64 x)"
  by (simp_all add: wpabuf_put_data_def wpabuf_put_u8_def wpabuf_put_le16_def wpabuf_put_be16_def
      wpabuf_put_be24_def wpabuf_put_le32_def wpabuf_put_be32_def wpabuf_put_le64_def wpabuf_put_be64_def)

section \<open>Allocating operations\<close>

lemma unat_hdr_add:
  assumes "unat (len :: u64) < PTRDIFF_LIMIT" shows "unat (sizeof_wpabuf + len) = 32 + unat len"
proof -
  have "unat sizeof_wpabuf + unat len < 2 ^ LENGTH(64)"
    using assms by (simp add: PTRDIFF_LIMIT_def sizeof_wpabuf_def)
  then have "unat (sizeof_wpabuf + len) = unat sizeof_wpabuf + unat len" by (rule iffD1 [OF unat_add_lem])
  then show ?thesis by (simp add: sizeof_wpabuf_def)
qed

lemma unat_sizeof_wpabuf [simp]: "unat sizeof_wpabuf = 32"
  by (simp add: sizeof_wpabuf_def)

lemma wpabuf_alloc_Some:
  assumes "wpabuf_alloc malloc len = Some b" "unat len < PTRDIFF_LIMIT"
  shows "wf_wpabuf b" "wpabuf_content b = []" "unat (wpabuf_tailroom b) = unat len" "bsize b = len"
    "used b = 0" "bflags b = 0"
  using assms by (auto simp: wpabuf_alloc_def Let_def wf_wpabuf_def wpabuf_content_def wpabuf_len_def
      wpabuf_tailroom_def unat_hdr_add split: if_splits)

lemma wpabuf_alloc_eq_None: "unat len < PTRDIFF_LIMIT \<Longrightarrow> wpabuf_alloc malloc len = None \<longleftrightarrow> \<not> malloc (32 + unat len)"
  by (simp add: wpabuf_alloc_def Let_def unat_hdr_add)

text \<open>A new buffer filled by puts of exactly its size.\<close>

lemma alloc_and_puts:
  assumes "unat len = length (concat xss)" "unat len < PTRDIFF_LIMIT" "wpabuf_alloc malloc len = Some n"
  shows "\<exists>b. wb.puts n xss = Ok b \<and> wf_wpabuf b \<and> wpabuf_content b = concat xss \<and> wpabuf_tailroom b = 0"
  using wb.puts_fits [of n xss] wpabuf_alloc_Some [OF assms(3,2)] assms(1) by (auto simp: unat_eq_zero)

lemma content_length: "wf_wpabuf b \<Longrightarrow> length (wpabuf_content b) = unat (wpabuf_len b)"
  by (simp add: wf_wpabuf_def wpabuf_content_def wpabuf_head_def wpabuf_len_def word_le_nat_alt)

lemma len_small: "wf_wpabuf b \<Longrightarrow> unat (wpabuf_len b) < PTRDIFF_LIMIT"
  by (simp add: wf_wpabuf_def wpabuf_len_def word_le_nat_alt)

lemma wpabuf_dup_content:
  assumes "wf_wpabuf src"
  shows "\<exists>r. wpabuf_dup malloc src = Ok r \<and> (r = None \<longleftrightarrow> \<not> malloc (32 + unat (wpabuf_len src)))
    \<and> (\<forall>b. r = Some b \<longrightarrow> wf_wpabuf b \<and> wpabuf_content b = wpabuf_content src)"
proof (cases "wpabuf_alloc malloc (wpabuf_len src)")
  case None
  moreover from None have "\<not> malloc (32 + unat (wpabuf_len src))"
    using wpabuf_alloc_eq_None [OF len_small [OF assms]] by blast
  ultimately show ?thesis by (simp add: wpabuf_dup_def)
next
  case (Some n)
  with alloc_and_puts [of "wpabuf_len src" "[wpabuf_content src]" malloc n] content_length [OF assms] len_small [OF assms]
  obtain b where "wpabuf_put_data n (wpabuf_content src) = Ok b" "wf_wpabuf b" "wpabuf_content b = wpabuf_content src"
    by (auto simp: bindR_eq_Ok)
  with Some wpabuf_alloc_eq_None [OF len_small [OF assms], of malloc] show ?thesis by (simp add: wpabuf_dup_def)
qed

definition content_opt :: "wpabuf option \<Rightarrow> bytes" where
  "content_opt b = (case b of None \<Rightarrow> [] | Some b \<Rightarrow> wpabuf_content b)"

lemma wpabuf_concat_content:
  assumes "\<And>x. a = Some x \<Longrightarrow> wf_wpabuf x" "wf_wpabuf b"
    and small: "length (content_opt a) + length (wpabuf_content b) < PTRDIFF_LIMIT"
    and "wpabuf_concat malloc a (Some b) = r"
  shows "r \<noteq> Fault \<and> r \<noteq> Abort \<and>
    (\<forall>n. r = Ok (Some n) \<longrightarrow> wf_wpabuf n \<and> wpabuf_content n = content_opt a @ wpabuf_content b)"
proof -
  let ?len = "(case a of None \<Rightarrow> 0 | Some a \<Rightarrow> wpabuf_len a) + wpabuf_len b"
  have len: "unat ?len = length (concat [content_opt a, wpabuf_content b])"
  proof (cases a)
    case (Some x)
    then have "unat (wpabuf_len x) + unat (wpabuf_len b) < 2 ^ LENGTH(64)"
      using small content_length [OF assms(2)] content_length [OF assms(1) [OF Some]]
      by (simp add: content_opt_def PTRDIFF_LIMIT_def)
    then have "unat (wpabuf_len x + wpabuf_len b) = unat (wpabuf_len x) + unat (wpabuf_len b)"
      by (rule iffD1 [OF unat_add_lem])
    then show ?thesis using Some content_length [OF assms(2)] content_length [OF assms(1) [OF Some]]
      by (simp add: content_opt_def)
  qed (simp add: content_opt_def content_length assms(2))
  show ?thesis
  proof (cases "wpabuf_alloc malloc ?len")
    case None
    then show ?thesis using assms(4) by (auto simp: wpabuf_concat_def Let_def)
  next
    case (Some n)
    show ?thesis
    proof (cases a)
      case None
      then show ?thesis using alloc_and_puts [of ?len "[wpabuf_content b]" malloc n] Some assms(4) len small
        by (auto simp: wpabuf_concat_def wpabuf_put_buf_def content_opt_def bindR_eq_Ok)
    next
      case (Some x)
      then show ?thesis
        using alloc_and_puts [of ?len "[wpabuf_content x, wpabuf_content b]" malloc n] \<open>wpabuf_alloc malloc ?len = Some n\<close> assms(4) len small
        by (auto simp: wpabuf_concat_def wpabuf_put_buf_def content_opt_def bindR_eq_Ok)
    qed
  qed
qed

lemma wpabuf_zeropad_content:
  assumes "wf_wpabuf b" "unat len < PTRDIFF_LIMIT" "wpabuf_zeropad malloc (Some b) len = r"
  shows "r \<noteq> Fault \<and> r \<noteq> Abort \<and>
    (\<forall>n. r = Ok (Some n) \<longrightarrow> wf_wpabuf n \<and>
       wpabuf_content n = replicate (unat len - length (wpabuf_content b)) 0 @ wpabuf_content b)"
proof (cases "wpabuf_len b \<ge> len")
  case True
  then show ?thesis using assms content_length [OF assms(1)]
    by (auto simp: wpabuf_zeropad_def Let_def word_le_nat_alt)
next
  case False
  let ?z = "replicate (unat (len - wpabuf_len b)) (0::u8)"
  have d: "unat (len - wpabuf_len b) = unat len - unat (wpabuf_len b)" using False by (simp add: unat_sub)
  have l: "unat len = length (concat [?z, wpabuf_content b])"
    using False content_length [OF assms(1)] d by (simp add: word_le_nat_alt)
  have pz: "bindR (wpabuf_put ret (len - wpabuf_len b)) (\<lambda>(ret, pos). bindR (put_at ret pos ?z) g)
      = bindR (wpabuf_put_data ret ?z) g" for ret g
    by (cases "wpabuf_put ret (len - wpabuf_len b)") (auto simp: wpabuf_put_data_def)
  show ?thesis
  proof (cases "wpabuf_alloc malloc len")
    case None
    then show ?thesis using assms False by (auto simp: wpabuf_zeropad_def Let_def)
  next
    case (Some n)
    have r: "r = bindR (wpabuf_put_data n ?z) (\<lambda>ret. bindR (wpabuf_put_data ret (wpabuf_content b)) (\<lambda>ret. Ok (Some ret)))"
      using assms(3) False Some by (simp only: wpabuf_zeropad_def Let_def wpabuf_put_buf_def pz option.case if_False)
    show ?thesis using alloc_and_puts [OF l assms(2) Some] content_length [OF assms(1)]
      unfolding r by (auto simp: bindR_eq_Ok d)
  qed
qed

lemma unat_add3:
  assumes "unat (h :: u64) \<le> 32" "unat u + unat a + 32 < PTRDIFF_LIMIT"
  shows "unat (u + a) = unat u + unat a" "unat (h + u + a) = unat h + unat u + unat a"
proof -
  have "unat u + unat a < 2 ^ LENGTH(64)" using assms(2) by (simp add: PTRDIFF_LIMIT_def)
  then show u: "unat (u + a) = unat u + unat a" by (rule iffD1 [OF unat_add_lem])
  have "unat h + unat (u + a) < 2 ^ LENGTH(64)" using assms unfolding u by (simp add: PTRDIFF_LIMIT_def)
  then have "unat (h + (u + a)) = unat h + unat (u + a)" by (rule iffD1 [OF unat_add_lem])
  then show "unat (h + u + a) = unat h + unat u + unat a" using u by (simp add: ac_simps)
qed

text \<open>After a successful resize the new bytes fit and the content is as before.\<close>

lemma wpabuf_resize_spec:
  assumes wf: "wf_wpabuf b" and small: "unat (used b) + unat add_len + 32 < PTRDIFF_LIMIT"
  shows "(\<exists>b'. wpabuf_resize malloc junk (Some b) add_len = Ok (0, Some b') \<and> wf_wpabuf b'
      \<and> wpabuf_content b' = wpabuf_content b \<and> unat add_len \<le> unat (wpabuf_tailroom b'))
    \<or> wpabuf_resize malloc junk (Some b) add_len = Ok (-1, Some b)"
proof (cases "used b + add_len > bsize b")
  case False
  then have "unat (used b) + unat add_len \<le> unat (bsize b)"
    using unat_add3(1) [of 0, OF _ small] by (simp add: word_less_nat_alt)
  then show ?thesis using False wf room_eq [OF wf] by (simp add: wpabuf_resize_def)
next
  case True
  define hdr :: u64 where "hdr = (if bflags b AND WPABUF_FLAG_EXT_DATA \<noteq> 0 then 0 else sizeof_wpabuf)"
  define n where "n = unat (hdr + used b + add_len)"
  have h: "unat hdr \<le> 32" by (simp add: hdr_def)
  have k: "n - unat hdr = unat (used b) + unat add_len" using unat_add3(2) [OF h small] by (simp add: n_def)
  have len: "length (bdata b) \<le> unat (used b) + unat add_len"
    using True wf unat_add3(1) [OF h small] by (simp add: wf_wpabuf_def word_less_nat_alt)
  show ?thesis
  proof (cases "os_realloc malloc junk (bdata b) (unat hdr) n")
    case None
    then show ?thesis using True by (simp add: wpabuf_resize_def hdr_def n_def)
  next
    case (Some nbuf)
    have lb: "length nbuf = unat (used b) + unat add_len" and
      tk: "take (unat (used b)) nbuf = take (unat (used b)) (bdata b)"
      using Some len wf unfolding os_realloc_def k
      by (auto simp: wf_wpabuf_def word_le_nat_alt split: if_splits)
    let ?d = "take (unat (used b)) nbuf @ replicate (unat add_len) 0"
    let ?b = "b\<lparr>bdata := ?d, bsize := used b + add_len\<rparr>"
    have "wpabuf_resize malloc junk (Some b) add_len = Ok (0, Some ?b)"
      using True Some lb by (simp add: wpabuf_resize_def hdr_def n_def memcpy_at_def)
    moreover have wf': "wf_wpabuf ?b" and "wpabuf_content ?b = wpabuf_content b"
      using wf lb tk small unat_add3(1) [OF h small]
      by (auto simp: wf_wpabuf_def wpabuf_content_def wpabuf_head_def wpabuf_len_def word_le_nat_alt)
    moreover have "unat add_len \<le> unat (wpabuf_tailroom ?b)"
      using room_eq [OF wf'] unat_add3(1) [OF h small] by simp
    ultimately show ?thesis by blast
  qed
qed

section \<open>Properties\<close>

text \<open>What a put of \<open>xs\<close> has to do: append when there is room, and abort otherwise.\<close>

definition put_spec :: "wpabuf \<Rightarrow> bytes \<Rightarrow> wpabuf run \<Rightarrow> bool" where
  "put_spec b xs r =
     (if length xs \<le> unat (wpabuf_tailroom b)
      then case r of Ok b' \<Rightarrow> wf_wpabuf b' \<and> wpabuf_content b' = wpabuf_content b @ xs
             \<and> bsize b' = bsize b
           | _ \<Rightarrow> False
      else r = Abort)"

lemma put_data_bsize: "wpabuf_put_data b xs = Ok b' \<Longrightarrow> bsize b' = bsize b"
  by (auto simp: wpabuf_put_data_def wpabuf_put_def put_at_def bindR_eq_Ok Let_def split: if_splits)

text \<open>A sequence of puts, and the bytes each of them stands for.\<close>

datatype put_op =
    Put_U8 u8 | Put_LE16 u16 | Put_BE16 u16 | Put_BE24 u32 | Put_LE32 u32 | Put_BE32 u32 | Put_LE64 u64 | Put_BE64 u64
  | Put_Data bytes | Put_Buf wpabuf

fun run_put :: "wpabuf \<Rightarrow> put_op \<Rightarrow> wpabuf run" where
  "run_put b (Put_U8 v) = wpabuf_put_u8 b v"
| "run_put b (Put_LE16 v) = wpabuf_put_le16 b v"
| "run_put b (Put_BE16 v) = wpabuf_put_be16 b v"
| "run_put b (Put_BE24 v) = wpabuf_put_be24 b v"
| "run_put b (Put_LE32 v) = wpabuf_put_le32 b v"
| "run_put b (Put_BE32 v) = wpabuf_put_be32 b v"
| "run_put b (Put_LE64 v) = wpabuf_put_le64 b v"
| "run_put b (Put_BE64 v) = wpabuf_put_be64 b v"
| "run_put b (Put_Data d) = wpabuf_put_data b d"
| "run_put b (Put_Buf src) = wpabuf_put_buf b src"

primrec run_puts :: "wpabuf \<Rightarrow> put_op list \<Rightarrow> wpabuf run" where
  "run_puts b [] = Ok b"
| "run_puts b (p # ps) = bindR (run_put b p) (\<lambda>b. run_puts b ps)"

fun put_bytes :: "put_op \<Rightarrow> bytes" where
  "put_bytes (Put_U8 v) = [v]"
| "put_bytes (Put_LE16 v) = WPA_PUT_LE16 v"
| "put_bytes (Put_BE16 v) = WPA_PUT_BE16 v"
| "put_bytes (Put_BE24 v) = WPA_PUT_BE24 v"
| "put_bytes (Put_LE32 v) = WPA_PUT_LE32 v"
| "put_bytes (Put_BE32 v) = WPA_PUT_BE32 v"
| "put_bytes (Put_LE64 v) = WPA_PUT_LE64 v"
| "put_bytes (Put_BE64 v) = WPA_PUT_BE64 v"
| "put_bytes (Put_Data d) = d"
| "put_bytes (Put_Buf src) = wpabuf_content src"

text \<open>What is put is an object of the program: data and buffers are bounded as such.\<close>

fun put_ok :: "put_op \<Rightarrow> bool" where
  "put_ok (Put_Data d) \<longleftrightarrow> length d < PTRDIFF_LIMIT"
| "put_ok (Put_Buf src) \<longleftrightarrow> wf_wpabuf src"
| "put_ok _ \<longleftrightarrow> True"

lemma run_put_data: "run_put b p = wpabuf_put_data b (put_bytes p)"
  by (cases p) (simp_all only: run_put.simps put_bytes.simps typed_puts wpabuf_put_buf_def)

lemma run_puts_data: "run_puts b ps = wb.puts b (map put_bytes ps)"
  by (induction ps arbitrary: b) (simp_all add: run_put_data)

lemma run_puts_bsize: "run_puts b ps = Ok b' \<Longrightarrow> bsize b' = bsize b"
  by (induction ps arbitrary: b) (auto simp: bindR_eq_Ok run_put_data dest: put_data_bsize)

lemma put_bytes_small: "put_ok p \<Longrightarrow> length (put_bytes p) < PTRDIFF_LIMIT"
  using content_length len_small by (cases p) (simp_all add: PTRDIFF_LIMIT_def)

text \<open>
  C36. A sequence of puts of any kind (\<open>wpabuf_put_u8\<close> to \<open>wpabuf_put_be64\<close>, \<open>wpabuf_put_data\<close>, \<open>wpabuf_put_buf\<close>) on a
  well-formed buffer: when the bytes of all of them fit into the tail room, the sequence
  returns with exactly these bytes, in order, behind the content, and the size unchanged; otherwise
  it ends in the deliberate abort. No put writes outside the allocated bytes, which would be a
  \<open>Fault\<close>.
\<close>

theorem wpabuf_puts_append:
  assumes "wf_wpabuf b" "list_all put_ok ps"
  shows "put_spec b (concat (map put_bytes ps)) (run_puts b ps)"
proof -
  have small: "\<forall>x \<in> set (map put_bytes ps). length x < PTRDIFF_LIMIT" using assms(2) put_bytes_small by (auto simp: list_all_iff)
  show ?thesis
    using wb.puts_fits [OF assms(1), of "map put_bytes ps"] wb.puts_over [OF assms(1) _ small] run_puts_bsize [of b ps]
    by (auto simp: put_spec_def run_puts_data)
qed

text \<open>
  The allocating operations on well-formed buffers of less than \<open>PTRDIFF_LIMIT\<close> bytes end
  without a fault or an abort: \<open>wpabuf_concat\<close> returns NULL or the concatenation,
  \<open>wpabuf_zeropad\<close> NULL or the content padded in front with zeros to \<open>len\<close>,
  \<open>wpabuf_resize\<close> -1 with the buffer as it was or 0 with the same content and room for
  \<open>add_len\<close> more bytes.
\<close>

lemma wpabuf_reallocations:
  assumes "wf_wpabuf a" "wf_wpabuf b"
    and "length (wpabuf_content a) + length (wpabuf_content b) < PTRDIFF_LIMIT"
    and "unat len < PTRDIFF_LIMIT" "unat (used b) + unat add_len + 32 < PTRDIFF_LIMIT"
  shows "(wpabuf_concat malloc (Some a) (Some b) = Ok None \<or>
      (\<exists>n. wpabuf_concat malloc (Some a) (Some b) = Ok (Some n) \<and> wf_wpabuf n
         \<and> wpabuf_content n = wpabuf_content a @ wpabuf_content b))
    \<and> (wpabuf_zeropad malloc (Some b) len = Ok None \<or>
      (\<exists>n. wpabuf_zeropad malloc (Some b) len = Ok (Some n) \<and> wf_wpabuf n
         \<and> wpabuf_content n = replicate (unat len - length (wpabuf_content b)) 0 @ wpabuf_content b))
    \<and> (wpabuf_resize malloc junk (Some b) add_len = Ok (-1, Some b) \<or>
      (\<exists>n. wpabuf_resize malloc junk (Some b) add_len = Ok (0, Some n) \<and> wf_wpabuf n
         \<and> wpabuf_content n = wpabuf_content b \<and> unat add_len \<le> unat (wpabuf_tailroom n)))"
proof -
  have run: "r \<noteq> Fault \<and> r \<noteq> Abort \<and> (\<forall>n. r = Ok (Some n) \<longrightarrow> P n) \<Longrightarrow> r = Ok None \<or> (\<exists>n. r = Ok (Some n) \<and> P n)" for r :: "wpabuf option run" and P
    by (cases r) (metis option.exhaust)+
  show ?thesis
    using wpabuf_concat_content [of "Some a" b malloc] wpabuf_zeropad_content [OF assms(2,4)]
      wpabuf_resize_spec [OF assms(2,5)] assms(1-3)
    by (intro conjI run) (auto simp: content_opt_def)
qed

text \<open>
  C37. \<open>wpabuf_cmp\<close> compares the allocations and not the data: two buffers holding the same
  bytes compare as different when they were allocated with different sizes.
\<close>

theorem wpabuf_cmp_compares_allocation:
  assumes "wf_wpabuf a" "wf_wpabuf b"
  shows "wpabuf_cmp (Some a) (Some b) = Ok 0 \<longleftrightarrow> bdata a = bdata b"
proof -
  have cmp: "os_memcmp x y (length x) = Some 0 \<longleftrightarrow> x = y" if "length x = length y" for x y
    using that by (induction x y rule: list_induct2) (auto simp: word_uint_eq_iff)
  have ok: "of_ub r = Ok 0 \<longleftrightarrow> r = Some 0" for r :: "int ub" by (cases r) auto
  show ?thesis
  proof (cases "bsize a = bsize b")
    case True
    then have "length (bdata a) = length (bdata b)" using assms by (simp add: wf_wpabuf_def)
    from cmp [OF this] True assms show ?thesis
      by (simp add: wpabuf_cmp_def wpabuf_size_def ok wf_wpabuf_def)
  next
    case False
    then have "unat (bsize a) \<noteq> unat (bsize b)" by (simp add: word_unat_eq_iff)
    with False show ?thesis using assms by (auto simp: wpabuf_cmp_def wpabuf_size_def wf_wpabuf_def)
  qed
qed

text \<open>Witnesses.\<close>

definition wpabuf_ex :: "u64 \<Rightarrow> bytes \<Rightarrow> wpabuf" where
  "wpabuf_ex sz d = \<lparr>bsize = sz, used = 2, bdata = d, bflags = 0\<rparr>"

lemma wf_wpabuf_ex [simp]: "length d = unat sz \<Longrightarrow> 2 \<le> sz \<Longrightarrow> unat sz < 2 ^ 63 \<Longrightarrow> wf_wpabuf (wpabuf_ex sz d)"
  by (simp add: wf_wpabuf_def wpabuf_ex_def PTRDIFF_LIMIT_def)

lemma wpabuf_puts_append_witness:
  "(\<exists>b'. run_puts (wpabuf_ex 6 [1, 2, 0, 0, 0, 0]) [Put_U8 7, Put_BE16 0x0809, Put_Data [10]] = Ok b'
      \<and> wpabuf_content b' = [1, 2, 7, 8, 9, 10])
   \<and> run_puts (wpabuf_ex 6 [1, 2, 0, 0, 0, 0]) [Put_U8 7, Put_BE32 8] = Abort"
proof -
  let ?b = "wpabuf_ex 6 [1, 2, 0, 0, 0, 0]"
  have wf: "wf_wpabuf ?b" by simp
  have f: "unat (wpabuf_tailroom ?b) = 4" "wpabuf_content ?b = [1, 2]" by code_simp+
  have x: "concat (map put_bytes [Put_U8 7, Put_BE16 0x0809, Put_Data [10]]) = [7, 8, 9, 10]"
    "length (concat (map put_bytes [Put_U8 7, Put_BE32 8])) = 5" by code_simp+
  have o: "list_all put_ok [Put_U8 7, Put_BE16 0x0809, Put_Data [10]]" "list_all put_ok [Put_U8 7, Put_BE32 8]"
    by (simp_all add: PTRDIFF_LIMIT_def)
  show ?thesis
    using wpabuf_puts_append [OF wf o(1)] wpabuf_puts_append [OF wf o(2)] unfolding put_spec_def f x
    by (auto split: run.splits)
qed

lemma wpabuf_reallocations_witness:
  "wpabuf_concat (\<lambda>_. True) (Some (wpabuf_ex 2 [1, 2])) (Some (wpabuf_ex 3 [3, 4, 0])) = Ok None \<or>
   (\<exists>n. wpabuf_concat (\<lambda>_. True) (Some (wpabuf_ex 2 [1, 2])) (Some (wpabuf_ex 3 [3, 4, 0])) = Ok (Some n)
      \<and> wf_wpabuf n \<and> wpabuf_content n = [1, 2, 3, 4])"
  using wpabuf_reallocations [of "wpabuf_ex 2 [1, 2]" "wpabuf_ex 3 [3, 4, 0]" 4 1 "\<lambda>_. True" "\<lambda>_. []", THEN conjunct1]
  by (simp add: PTRDIFF_LIMIT_def wpabuf_content_def wpabuf_head_def wpabuf_len_def)
     (simp add: wpabuf_ex_def)

lemma wpabuf_cmp_compares_allocation_witness:
  "wpabuf_cmp (Some (wpabuf_ex 2 [1, 2])) (Some (wpabuf_ex 3 [1, 2, 0])) \<noteq> Ok 0
   \<and> wpabuf_content (wpabuf_ex 2 [1, 2]) = wpabuf_content (wpabuf_ex 3 [1, 2, 0])"
  using wpabuf_cmp_compares_allocation [of "wpabuf_ex 2 [1, 2]" "wpabuf_ex 3 [1, 2, 0]"]
  by simp (simp add: wpabuf_ex_def wpabuf_content_def wpabuf_len_def wpabuf_head_def)

end
