(* ===== verification/Eap_Common.thy ===== *)
theory Eap_Common
  imports Wpabuf
begin

unbundle bit_operations_syntax

text \<open>
  The EAP packet routines of \<open>src/eap_common/eap_common.c\<close> and the packet formats of
  \<open>eap_defs.h\<close>: validation of a received header (\<open>eap_hdr_len_valid\<close>,
  \<open>eap_hdr_validate\<close>), construction of a message (\<open>eap_msg_alloc\<close>,
  \<open>eap_update_len\<close>), the accessors, and the TLV parser of the re-authentication protocol
  (\<open>erp_parse_tlvs\<close>). A received message is the content of its \<open>wpabuf\<close>; pointers into it
  are offsets.
\<close>

section \<open>Constants\<close>

type_synonym eap_type = u32

definition EAP_CODE_REQUEST :: u8 where "EAP_CODE_REQUEST = 1"
definition EAP_CODE_RESPONSE :: u8 where "EAP_CODE_RESPONSE = 2"
definition EAP_CODE_SUCCESS :: u8 where "EAP_CODE_SUCCESS = 3"
definition EAP_CODE_FAILURE :: u8 where "EAP_CODE_FAILURE = 4"
definition EAP_CODE_INITIATE :: u8 where "EAP_CODE_INITIATE = 5"
definition EAP_CODE_FINISH :: u8 where "EAP_CODE_FINISH = 6"

definition EAP_TYPE_NONE :: eap_type where "EAP_TYPE_NONE = 0"
definition EAP_TYPE_IDENTITY :: eap_type where "EAP_TYPE_IDENTITY = 1"
definition EAP_TYPE_NOTIFICATION :: eap_type where "EAP_TYPE_NOTIFICATION = 2"
definition EAP_TYPE_NAK :: eap_type where "EAP_TYPE_NAK = 3"
definition EAP_TYPE_MD5 :: eap_type where "EAP_TYPE_MD5 = 4"
definition EAP_TYPE_EXPANDED :: eap_type where "EAP_TYPE_EXPANDED = 254"

definition EAP_VENDOR_IETF :: int where "EAP_VENDOR_IETF = 0"

text \<open>\<open>sizeof (struct eap_hdr)\<close>: code, identifier, 16-bit length.\<close>

definition sizeof_eap_hdr :: nat where "sizeof_eap_hdr = 4"

lemmas eap_consts = EAP_CODE_REQUEST_def EAP_CODE_RESPONSE_def EAP_CODE_SUCCESS_def EAP_CODE_FAILURE_def
  EAP_CODE_INITIATE_def EAP_CODE_FINISH_def EAP_TYPE_NONE_def EAP_TYPE_IDENTITY_def
  EAP_TYPE_NOTIFICATION_def EAP_TYPE_NAK_def EAP_TYPE_MD5_def EAP_TYPE_EXPANDED_def EAP_VENDOR_IETF_def
  sizeof_eap_hdr_def

section \<open>Header validation\<close>

text \<open>The length field of the header, in host byte order.\<close>

definition eap_hdr_length :: "bytes \<Rightarrow> nat ub" where
  "eap_hdr_length msg = map_option unat (WPA_GET_BE16 (drop 2 msg))"

definition eap_hdr_len_valid :: "bytes option \<Rightarrow> nat \<Rightarrow> bool ub" where
  "eap_hdr_len_valid msg min_payload =
     (case msg of
        None \<Rightarrow> Some False
      | Some msg \<Rightarrow>
        if length msg < sizeof_eap_hdr then Some False
        else do {
          len \<leftarrow> eap_hdr_length msg;
          if len < sizeof_eap_hdr + min_payload \<or> len > length msg then Some False else Some True })"

text \<open>The result is the offset of the payload and its length.\<close>

definition eap_hdr_validate :: "int \<Rightarrow> eap_type \<Rightarrow> bytes option \<Rightarrow> (nat \<times> nat) option ub" where
  "eap_hdr_validate vendor type msg = do {
     ok \<leftarrow> eap_hdr_len_valid msg 1;
     if \<not> ok then Some None
     else do {
       buf \<leftarrow> msg;
       len \<leftarrow> eap_hdr_length buf;
       t \<leftarrow> peek buf (int sizeof_eap_hdr);
       if (ucast t :: u32) = EAP_TYPE_EXPANDED then
         if len < sizeof_eap_hdr + 8 then Some None
         else do {
           exp_vendor \<leftarrow> WPA_GET_BE24 (drop (sizeof_eap_hdr + 1) buf);
           exp_type \<leftarrow> WPA_GET_BE32 (drop (sizeof_eap_hdr + 4) buf);
           if uint exp_vendor \<noteq> vendor \<or> exp_type \<noteq> type then Some None
           else Some (Some (sizeof_eap_hdr + 8, len - sizeof_eap_hdr - 8)) }
       else if vendor \<noteq> EAP_VENDOR_IETF \<or> (ucast t :: u32) \<noteq> type then Some None
       else Some (Some (sizeof_eap_hdr + 1, len - sizeof_eap_hdr - 1)) } }"

section \<open>Message construction\<close>

definition eap_msg_alloc ::
  "(nat \<Rightarrow> bool) \<Rightarrow> int \<Rightarrow> eap_type \<Rightarrow> u64 \<Rightarrow> u8 \<Rightarrow> u8 \<Rightarrow> wpabuf option run" where
  "eap_msg_alloc malloc vendor type payload_len code identifier =
     (let len = word_of_nat sizeof_eap_hdr + (if vendor = EAP_VENDOR_IETF then 1 else 8) + payload_len in
      case wpabuf_alloc malloc len of
        None \<Rightarrow> Ok None
      | Some buf \<Rightarrow>
        bindR (wpabuf_put buf (word_of_nat sizeof_eap_hdr)) (\<lambda>(buf, hdr).
        bindR (put_at buf hdr ([code, identifier] @ WPA_PUT_BE16 (ucast len))) (\<lambda>buf.
          if vendor = EAP_VENDOR_IETF
          then bindR (wpabuf_put_u8 buf (ucast type)) (\<lambda>buf. Ok (Some buf))
          else bindR (wpabuf_put_u8 buf (ucast EAP_TYPE_EXPANDED)) (\<lambda>buf.
               bindR (wpabuf_put_be24 buf (word_of_int vendor)) (\<lambda>buf.
               bindR (wpabuf_put_be32 buf type) (\<lambda>buf. Ok (Some buf)))))))"

definition eap_update_len :: "wpabuf \<Rightarrow> wpabuf run" where
  "eap_update_len msg =
     (if unat (wpabuf_len msg) < sizeof_eap_hdr then Ok msg
      else put_at msg 2 (WPA_PUT_BE16 (ucast (wpabuf_len msg))))"

definition eap_get_id :: "bytes \<Rightarrow> u8 ub" where
  "eap_get_id msg = (if length msg < sizeof_eap_hdr then Some 0 else peek msg 1)"

definition eap_get_type :: "bytes \<Rightarrow> eap_type ub" where
  "eap_get_type msg =
     (if length msg < sizeof_eap_hdr + 1 then Some EAP_TYPE_NONE
      else map_option ucast (peek msg (int sizeof_eap_hdr)))"

section \<open>TLVs of the re-authentication protocol\<close>

text \<open>Offset and length of an attribute inside the parsed buffer.\<close>

record erp_tlvs =
  keyname :: "(nat \<times> nat) option"
  domain :: "(nat \<times> nat) option"

definition EAP_ERP_TLV_KEYNAME_NAI :: u8 where "EAP_ERP_TLV_KEYNAME_NAI = 1"
definition EAP_ERP_TV_RRK_LIFETIME :: u8 where "EAP_ERP_TV_RRK_LIFETIME = 2"
definition EAP_ERP_TV_RMSK_LIFETIME :: u8 where "EAP_ERP_TV_RMSK_LIFETIME = 3"
definition EAP_ERP_TLV_DOMAIN_NAME :: u8 where "EAP_ERP_TLV_DOMAIN_NAME = 4"
definition EAP_ERP_TLV_CRYPTOSUITES :: u8 where "EAP_ERP_TLV_CRYPTOSUITES = 5"
definition EAP_ERP_TLV_AUTHORIZATION_INDICATION :: u8 where "EAP_ERP_TLV_AUTHORIZATION_INDICATION = 6"

definition erp_known_tlvs :: bytes where
  "erp_known_tlvs = [EAP_ERP_TLV_DOMAIN_NAME, EAP_ERP_TLV_KEYNAME_NAI, EAP_ERP_TLV_CRYPTOSUITES,
     EAP_ERP_TLV_AUTHORIZATION_INDICATION, 128, 129, 130, 131, 132]"

text \<open>The bytes between \<open>pos\<close> and \<open>end\<close> are \<open>buf\<close> from offset \<open>pos\<close> on.\<close>

function erp_parse_loop :: "bytes \<Rightarrow> nat \<Rightarrow> bool \<Rightarrow> erp_tlvs \<Rightarrow> (int \<times> erp_tlvs) ub" where
  "erp_parse_loop buf pos stop_at_keyname tlvs =
     (if pos \<ge> length buf then Some (0, tlvs)
      else case peek buf (int pos) of None \<Rightarrow> None | Some tlv_type \<Rightarrow>
        let pos = pos + 1 in
        if tlv_type = EAP_ERP_TV_RRK_LIFETIME \<or> tlv_type = EAP_ERP_TV_RMSK_LIFETIME then
          if pos + 4 > length buf then Some (-1, tlvs)
          else erp_parse_loop buf (pos + 4) stop_at_keyname tlvs
        else if tlv_type \<in> set erp_known_tlvs \<or> 128 \<le> tlv_type \<and> tlv_type \<le> 191 then
          if pos \<ge> length buf then Some (-1, tlvs)
          else case peek buf (int pos) of None \<Rightarrow> None | Some tlv_len \<Rightarrow>
            let pos = pos + 1 in
            if unat tlv_len > c_unsigned (length buf - pos) then Some (-1, tlvs)
            else if tlv_type = EAP_ERP_TLV_KEYNAME_NAI then
              if keyname tlvs \<noteq> None then Some (-1, tlvs)
              else let tlvs = tlvs\<lparr>keyname := Some (pos, unat tlv_len)\<rparr> in
                if stop_at_keyname then Some (0, tlvs)
                else erp_parse_loop buf (pos + unat tlv_len) stop_at_keyname tlvs
            else if tlv_type = EAP_ERP_TLV_DOMAIN_NAME then
              erp_parse_loop buf (pos + unat tlv_len) stop_at_keyname (tlvs\<lparr>domain := Some (pos, unat tlv_len)\<rparr>)
            else erp_parse_loop buf (pos + unat tlv_len) stop_at_keyname tlvs
        else Some (0, tlvs))"
  by pat_completeness auto
termination by (relation "measure (\<lambda>(buf, pos, _). length buf - pos)") auto

definition erp_parse_tlvs :: "bytes \<Rightarrow> bool \<Rightarrow> (int \<times> erp_tlvs) ub" where
  "erp_parse_tlvs buf stop_at_keyname = erp_parse_loop buf 0 stop_at_keyname \<lparr>keyname = None, domain = None\<rparr>"

declare erp_parse_loop.simps [simp del]

section \<open>Header lemmas\<close>

lemma get_be16_some: "2 \<le> length xs \<Longrightarrow> WPA_GET_BE16 xs \<noteq> None"
  by (auto simp: WPA_GET_BE16_def peek_def)

lemma get_be24_some: "3 \<le> length xs \<Longrightarrow> WPA_GET_BE24 xs \<noteq> None"
  by (auto simp: WPA_GET_BE24_def peek_def)

lemma get_be32_some: "4 \<le> length xs \<Longrightarrow> WPA_GET_BE32 xs \<noteq> None"
  by (auto simp: WPA_GET_BE32_def peek_def)

lemma eap_hdr_length_some: "sizeof_eap_hdr \<le> length msg \<Longrightarrow> \<exists>n. eap_hdr_length msg = Some n"
  using get_be16_some [of "drop 2 msg"] by (auto simp: eap_hdr_length_def sizeof_eap_hdr_def)

lemma eap_hdr_len_valid_Some:
  "sizeof_eap_hdr \<le> length m \<Longrightarrow> eap_hdr_length m = Some n \<Longrightarrow>
    eap_hdr_len_valid (Some m) k = Some (sizeof_eap_hdr + k \<le> n \<and> n \<le> length m)"
  by (auto simp: eap_hdr_len_valid_def)

lemma eap_hdr_len_valid_short: "length m < sizeof_eap_hdr \<Longrightarrow> eap_hdr_len_valid (Some m) k = Some False"
  by (simp add: eap_hdr_len_valid_def)

lemma eap_hdr_len_valid_cases:
  obtains (invalid) "eap_hdr_len_valid msg k = Some False"
  | (valid) m n where "eap_hdr_len_valid msg k = Some True" "msg = Some m" "sizeof_eap_hdr \<le> length m"
      "eap_hdr_length m = Some n" "sizeof_eap_hdr + k \<le> n" "n \<le> length m"
proof (cases msg)
  case None
  then show ?thesis using invalid by (simp add: eap_hdr_len_valid_def)
next
  case (Some m)
  show ?thesis
  proof (cases "sizeof_eap_hdr \<le> length m")
    case True
    with eap_hdr_length_some obtain n where n: "eap_hdr_length m = Some n" by blast
    with valid invalid Some True eap_hdr_len_valid_Some [OF True n, of k] show ?thesis
      by (cases "sizeof_eap_hdr + k \<le> n \<and> n \<le> length m") simp_all
  next
    case False
    then show ?thesis using invalid Some by (simp add: eap_hdr_len_valid_short)
  qed
qed

lemma eap_hdr_validate_cases:
  "eap_hdr_validate vendor type msg = Some None \<or>
   (\<exists>buf off plen. msg = Some buf \<and> eap_hdr_validate vendor type msg = Some (Some (off, plen))
      \<and> sizeof_eap_hdr < off \<and> off + plen \<le> length buf \<and> eap_hdr_length buf = Some (off + plen))"
proof (cases rule: eap_hdr_len_valid_cases [of msg 1])
  case invalid
  then show ?thesis by (simp add: eap_hdr_validate_def)
next
  case (valid m n)
  then obtain t where t: "peek m (int sizeof_eap_hdr) = Some t" by (simp add: peek_def)
  show ?thesis
  proof (cases "(ucast t :: u32) = EAP_TYPE_EXPANDED \<and> sizeof_eap_hdr + 8 \<le> n")
    case True
    then have "3 \<le> length (drop (sizeof_eap_hdr + 1) m)" "4 \<le> length (drop (sizeof_eap_hdr + 4) m)"
      using valid by auto
    then obtain v w where vw: "WPA_GET_BE24 (drop (sizeof_eap_hdr + 1) m) = Some v"
      "WPA_GET_BE32 (drop (sizeof_eap_hdr + 4) m) = Some w"
      using get_be24_some get_be32_some by blast
    show ?thesis
    proof (cases "uint v = vendor \<and> w = type")
      case T: True
      then show ?thesis using True valid t vw by (simp add: eap_hdr_validate_def)
    next
      case False
      then have "eap_hdr_validate vendor type msg = Some None" using True valid t vw by (simp add: eap_hdr_validate_def)
      then show ?thesis by blast
    qed
  next
    case False
    then show ?thesis using valid t
      by (cases "(ucast t :: u32) = EAP_TYPE_EXPANDED"; cases "vendor = EAP_VENDOR_IETF \<and> (ucast t :: u32) = type") (simp_all add: eap_hdr_validate_def)
  qed
qed

text \<open>
  On every message, NULL and truncated ones included, \<open>eap_hdr_validate\<close> reads only inside
  the buffer, and a payload it accepts lies inside the buffer and ends where the length field
  of the header says.
\<close>

lemma eap_hdr_validate_safe:
  "eap_hdr_validate vendor type msg = Some None \<or>
    (\<exists>buf off plen. msg = Some buf \<and> eap_hdr_validate vendor type msg = Some (Some (off, plen))
       \<and> off + plen \<le> length buf \<and> eap_hdr_length buf = Some (off + plen))"
  using eap_hdr_validate_cases [of vendor type msg] by auto

section \<open>Construction and validation\<close>

definition eap_header :: "int \<Rightarrow> eap_type \<Rightarrow> u16 \<Rightarrow> u8 \<Rightarrow> u8 \<Rightarrow> bytes" where
  "eap_header vendor type len code identifier =
     [code, identifier] @ WPA_PUT_BE16 len @
     (if vendor = EAP_VENDOR_IETF then [ucast type]
      else [ucast EAP_TYPE_EXPANDED] @ WPA_PUT_BE24 (word_of_int vendor) @ WPA_PUT_BE32 type)"

definition eap_hdr_size :: "int \<Rightarrow> nat" where
  "eap_hdr_size vendor = (if vendor = EAP_VENDOR_IETF then 5 else 12)"

lemma length_eap_header [simp]: "length (eap_header vendor type len code i) = eap_hdr_size vendor"
  by (simp add: eap_header_def eap_hdr_size_def)

lemma put_and_write:
  "n = word_of_nat (length xs) \<Longrightarrow>
    bindR (wpabuf_put b n) (\<lambda>(b, p). bindR (put_at b p xs) g) = bindR (wpabuf_put_data b xs) g"
  by (cases "wpabuf_put b n") (auto simp: wpabuf_put_data_def)

lemma bindR_Ok [simp]: "bindR r Ok = r"
  by (cases r) simp_all

lemma bindR_assoc: "bindR (bindR r f) g = bindR r (\<lambda>x. bindR (f x) g)"
  by (cases r) simp_all

lemma eap_msg_alloc_puts:
  assumes "wpabuf_alloc malloc (word_of_nat (eap_hdr_size vendor) + plen) = Some n"
  shows "eap_msg_alloc malloc vendor type plen code i =
    bindR (wb.puts n ([[code, i] @ WPA_PUT_BE16 (ucast (word_of_nat (eap_hdr_size vendor) + plen))] @
      (if vendor = EAP_VENDOR_IETF then [[ucast type]]
       else [[ucast EAP_TYPE_EXPANDED], WPA_PUT_BE24 (word_of_int vendor), WPA_PUT_BE32 type]))) (\<lambda>b. Ok (Some b))"
  using assms
  by (cases "vendor = EAP_VENDOR_IETF")
     (simp_all add: eap_msg_alloc_def Let_def sizeof_eap_hdr_def put_and_write typed_puts bindR_assoc eap_hdr_size_def)

lemma eap_msg_alloc_cases:
  assumes small: "eap_hdr_size vendor + unat plen < PTRDIFF_LIMIT"
  obtains (failed) "\<not> malloc (32 + eap_hdr_size vendor + unat plen)" "eap_msg_alloc malloc vendor type plen code i = Ok None"
  | (allocated) b where "eap_msg_alloc malloc vendor type plen code i = Ok (Some b)" "wf_wpabuf b"
      "wpabuf_content b = eap_header vendor type (ucast (word_of_nat (eap_hdr_size vendor) + plen)) code i"
      "unat (wpabuf_tailroom b) = unat plen"
proof -
  let ?len = "word_of_nat (eap_hdr_size vendor) + plen :: u64"
  have "unat (word_of_nat (eap_hdr_size vendor) :: u64) + unat plen < 2 ^ LENGTH(64)"
    using small by (simp add: eap_hdr_size_def PTRDIFF_LIMIT_def split: if_splits)
  then have len: "unat ?len = eap_hdr_size vendor + unat plen"
    unfolding unat_add_lem by (simp add: eap_hdr_size_def split: if_splits)
  have sm: "unat ?len < PTRDIFF_LIMIT" using len small by simp
  show ?thesis
  proof (cases "wpabuf_alloc malloc ?len")
    case None
    then have "eap_msg_alloc malloc vendor type plen code i = Ok None"
      by (simp add: eap_msg_alloc_def Let_def eap_hdr_size_def sizeof_eap_hdr_def split: if_splits)
    then show ?thesis using failed None wpabuf_alloc_eq_None [OF sm, of malloc] len by (simp add: ac_simps)
  next
    case (Some n)
    let ?xss = "[[code, i] @ WPA_PUT_BE16 (ucast ?len)] @
        (if vendor = EAP_VENDOR_IETF then [[ucast type]]
         else [[ucast EAP_TYPE_EXPANDED], WPA_PUT_BE24 (word_of_int vendor), WPA_PUT_BE32 type])"
    have "concat ?xss = eap_header vendor type (ucast ?len) code i" by (simp add: eap_header_def)
    then show ?thesis
      using wb.puts_fits [of n ?xss] wpabuf_alloc_Some [OF Some sm] len eap_msg_alloc_puts [OF Some, of type code i] allocated
      by (auto simp: bindR_eq_Ok)
  qed
qed

lemma eap_msg_alloc_spec:
  assumes malloc: "\<And>k. malloc k" and small: "eap_hdr_size vendor + unat plen < PTRDIFF_LIMIT"
  shows "\<exists>b. eap_msg_alloc malloc vendor type plen code i = Ok (Some b) \<and> wf_wpabuf b
    \<and> wpabuf_content b = eap_header vendor type (ucast (word_of_nat (eap_hdr_size vendor) + plen)) code i
    \<and> unat (wpabuf_tailroom b) = unat plen"
  using small by (cases rule: eap_msg_alloc_cases [where malloc = malloc and type = type and code = code and i = i]) (use malloc in auto)

lemma eap_hdr_length_header [simp]: "eap_hdr_length (eap_header v t len c i @ rest) = Some (unat len)"
  using get_put_be16 [of len] by (simp add: eap_hdr_length_def eap_header_def)

lemma eap_hdr_validate_header:
  assumes "0 \<le> vendor" "vendor < 2 ^ 24" "vendor = EAP_VENDOR_IETF \<Longrightarrow> unat type < 254"
    and len: "unat len = eap_hdr_size vendor + length payload"
  shows "eap_hdr_validate vendor type (Some (eap_header vendor type len c i @ payload)) =
    Some (Some (eap_hdr_size vendor, length payload))"
proof -
  let ?m = "eap_header vendor type len c i @ payload"
  have ok: "eap_hdr_len_valid (Some ?m) (Suc 0) = Some True"
    using eap_hdr_len_valid_Some [of ?m "unat len" 1] len by (auto simp: eap_hdr_size_def sizeof_eap_hdr_def)
  show ?thesis
  proof (cases "vendor = EAP_VENDOR_IETF")
    case True
    have t: "ucast (ucast type :: u8) = type" "type \<noteq> EAP_TYPE_EXPANDED"
      using assms(3) [OF True]
      by (auto simp: unsigned_ucast_eq word_unat_eq_iff EAP_TYPE_EXPANDED_def unsigned_take_bit_eq take_bit_nat_eq_self)
    have "peek ?m (int sizeof_eap_hdr) = Some (ucast type)"
      using True by (simp add: peek_def eap_header_def sizeof_eap_hdr_def WPA_PUT_BE16_def nth_append)
    then show ?thesis using True ok t len by (simp add: eap_hdr_validate_def eap_hdr_size_def sizeof_eap_hdr_def)
  next
    case False
    have p: "peek ?m (int sizeof_eap_hdr) = Some (ucast EAP_TYPE_EXPANDED)"
      using False by (simp add: peek_def eap_header_def sizeof_eap_hdr_def WPA_PUT_BE16_def nth_append)
    have d: "drop (sizeof_eap_hdr + 1) ?m = WPA_PUT_BE24 (word_of_int vendor) @ WPA_PUT_BE32 type @ payload"
      "drop (sizeof_eap_hdr + 4) ?m = WPA_PUT_BE32 type @ payload"
      using False by (simp_all add: eap_header_def sizeof_eap_hdr_def WPA_PUT_BE16_def WPA_PUT_BE24_def)
    have v: "take_bit 24 (word_of_int vendor :: u32) = word_of_int vendor"
      "uint (word_of_int vendor :: u32) = vendor"
      using assms(1,2) by (auto simp: word_uint_eq_iff unsigned_take_bit_eq uint_word_of_int_eq take_bit_int_eq_self)
    have "ucast (ucast EAP_TYPE_EXPANDED :: u8) = EAP_TYPE_EXPANDED" by (simp add: EAP_TYPE_EXPANDED_def)
    then show ?thesis using False ok p d v len get_put_be24 [OF v(1)] get_put_be32
      by (simp add: eap_hdr_validate_def eap_hdr_size_def sizeof_eap_hdr_def)
  qed
qed

text \<open>
  C34. A message made by \<open>eap_msg_alloc\<close> and filled with its payload is accepted by
  \<open>eap_hdr_validate\<close> for the same vendor and type, with exactly the payload, and carries the
  identifier; for IETF types the Type field is one octet (below 254, the code of the
  expanded header), otherwise the vendor has 24 bits. The whole message has less than 65536
  octets.
\<close>

theorem eap_msg_roundtrip:
  assumes "\<And>k. malloc k" "0 \<le> vendor" "vendor < 2 ^ 24" "vendor = EAP_VENDOR_IETF \<Longrightarrow> unat type < 254"
    and "eap_hdr_size vendor + length payload < 65536"
  shows "\<exists>b b'. eap_msg_alloc malloc vendor type (word_of_nat (length payload)) code i = Ok (Some b)
    \<and> wpabuf_put_data b payload = Ok b' \<and> wpabuf_tailroom b' = 0
    \<and> eap_hdr_validate vendor type (Some (wpabuf_content b')) = Some (Some (eap_hdr_size vendor, length payload))
    \<and> drop (eap_hdr_size vendor) (wpabuf_content b') = payload
    \<and> eap_get_id (wpabuf_content b') = Some i"
proof -
  let ?p = "word_of_nat (length payload) :: u64"
  let ?len = "ucast (word_of_nat (eap_hdr_size vendor) + ?p) :: u16"
  have p: "unat ?p = length payload"
    using assms(5) by (intro unat_word_of_nat_small) (simp add: PTRDIFF_LIMIT_def)
  have "word_of_nat (eap_hdr_size vendor) + ?p = word_of_nat (eap_hdr_size vendor + length payload)" by simp
  then have len: "unat ?len = eap_hdr_size vendor + length payload"
    using assms(5) by (simp only: unsigned_ucast_eq unat_of_nat) (simp add: take_bit_nat_eq_self)
  have "eap_hdr_size vendor + unat ?p < PTRDIFF_LIMIT" using assms(5) p by (simp add: PTRDIFF_LIMIT_def)
  from eap_msg_alloc_spec [of malloc, OF assms(1) this, of type code i] obtain b where
    b: "eap_msg_alloc malloc vendor type ?p code i = Ok (Some b)" "wf_wpabuf b"
      "wpabuf_content b = eap_header vendor type ?len code i" "unat (wpabuf_tailroom b) = unat ?p"
    by blast
  then obtain b' where b': "wpabuf_put_data b payload = Ok b'" "unat (wpabuf_tailroom b') = 0"
    "wpabuf_content b' = eap_header vendor type ?len code i @ payload"
    using wb.put_fits [of b payload] p by auto
  have "eap_get_id (eap_header vendor type ?len code i @ payload) = Some i"
    by (simp add: eap_get_id_def eap_header_def peek_def sizeof_eap_hdr_def)
  then show ?thesis using b b' eap_hdr_validate_header [OF assms(2-4) len, of code i] by (auto simp: unat_eq_zero)
qed

lemma eap_msg_roundtrip_witness:
  "\<exists>b b'. eap_msg_alloc (\<lambda>_. True) 0x9f68 1 (word_of_nat (length [0xaa, 0xbb :: u8])) EAP_CODE_REQUEST 7 = Ok (Some b)
    \<and> wpabuf_put_data b [0xaa, 0xbb] = Ok b' \<and> wpabuf_tailroom b' = 0
    \<and> eap_hdr_validate 0x9f68 1 (Some (wpabuf_content b')) = Some (Some (eap_hdr_size 0x9f68, length [0xaa, 0xbb :: u8]))
    \<and> drop (eap_hdr_size 0x9f68) (wpabuf_content b') = [0xaa, 0xbb]
    \<and> eap_get_id (wpabuf_content b') = Some 7"
  by (rule eap_msg_roundtrip) (simp_all add: EAP_VENDOR_IETF_def eap_hdr_size_def)

section \<open>The TLV parser\<close>

definition tlv_inside :: "bytes \<Rightarrow> (nat \<times> nat) option \<Rightarrow> bool" where
  "tlv_inside buf r = (case r of None \<Rightarrow> True | Some (off, len) \<Rightarrow> off + len \<le> length buf \<and> len < 256)"

lemma erp_parse_loop_safe:
  assumes "tlv_inside buf (keyname tlvs)" "tlv_inside buf (domain tlvs)"
  shows "\<exists>r t. erp_parse_loop buf pos stop tlvs = Some (r, t) \<and> r \<in> {0, -1}
    \<and> tlv_inside buf (keyname t) \<and> tlv_inside buf (domain t)"
  using assms
proof (induction buf pos stop tlvs rule: erp_parse_loop.induct)
  case (1 buf pos stop tlvs)
  show ?case
  proof (cases "pos \<ge> length buf")
    case True
    then show ?thesis using 1 by (simp add: erp_parse_loop.simps)
  next
    case False
    then have p: "peek buf (int pos) = Some (buf ! pos)" by (simp add: peek_def)
    have q: "\<not> Suc pos \<ge> length buf \<Longrightarrow> peek buf (1 + int pos) = Some (buf ! Suc pos)" by (simp add: peek_def nat_add_distrib)
    have l: "unat (buf ! Suc pos) \<le> c_unsigned (length buf - Suc (Suc pos)) \<Longrightarrow> \<not> Suc pos \<ge> length buf \<Longrightarrow>
      Suc (Suc (pos + unat (buf ! Suc pos))) \<le> length buf"
      using c_unsigned_le [of "length buf - Suc (Suc pos)"] by linarith
    show ?thesis using 1 False p q l
      by (subst erp_parse_loop.simps) (auto simp: Let_def tlv_inside_def)
  qed
qed

text \<open>
  C35. On every buffer the parser of the re-authentication TLVs ends, reads only inside the
  buffer and returns 0 or -1; the keyName-NAI and domain name it reports lie inside the
  buffer and have less than 256 octets.
\<close>

theorem erp_parse_tlvs_safe:
  "\<exists>r t. erp_parse_tlvs buf stop = Some (r, t) \<and> r \<in> {0, -1}
    \<and> tlv_inside buf (keyname t) \<and> tlv_inside buf (domain t)"
  unfolding erp_parse_tlvs_def by (rule erp_parse_loop_safe) (simp_all add: tlv_inside_def)

end
