(* ===== verification/Eap_Server.thy ===== *)
theory Eap_Server
  imports Eap_Common
begin

unbundle bit_operations_syntax

text \<open>
  The EAP full authenticator state machine of \<open>src/eap_server/eap_server.c\<close> (RFC 4137), built
  without \<open>CONFIG_ERP\<close>: the state of \<open>struct eap_sm\<close> and \<open>struct eap_eapol_interface\<close>, one
  definition per state entry action, the step function and its driver.

  Conventions. A message buffer is represented by its content (NULL is \<open>None\<close>), a key and a
  session identifier with their length by a byte list. \<open>None\<close> as the result of an action is
  undefined behaviour (a NULL pointer or an index out of bounds) or an endless loop. What
  the environment decides (allocation, \<open>rand\<close>, the user database, the callbacks of the lower
  layer) are functions in \<open>eap_env\<close> that get the number of environment calls made so far, the
  ghost field \<open>clk\<close>, so that every sequence of answers is possible. An EAP method is its
  table of operations, as in \<open>struct eap_method\<close>; the registered methods are part of the
  environment and a pointer to one is its vendor and type.
\<close>

section \<open>State\<close>

datatype eap_state =
    EAP_DISABLED | EAP_INITIALIZE | EAP_IDLE | EAP_RECEIVED | EAP_INTEGRITY_CHECK
  | EAP_METHOD_RESPONSE | EAP_METHOD_REQUEST | EAP_PROPOSE_METHOD | EAP_SELECT_ACTION
  | EAP_SEND_REQUEST | EAP_DISCARD | EAP_NAK | EAP_RETRANSMIT | EAP_SUCCESS | EAP_FAILURE
  | EAP_TIMEOUT_FAILURE | EAP_PICK_UP_METHOD | EAP_INITIALIZE_PASSTHROUGH | EAP_IDLE2
  | EAP_RETRANSMIT2 | EAP_RECEIVED2 | EAP_DISCARD2 | EAP_SEND_REQUEST2 | EAP_AAA_REQUEST
  | EAP_AAA_RESPONSE | EAP_AAA_IDLE | EAP_TIMEOUT_FAILURE2 | EAP_FAILURE2 | EAP_SUCCESS2
  | EAP_INITIATE_REAUTH_START | EAP_INITIATE_RECEIVED

datatype method_state = METHOD_PROPOSED | METHOD_CONTINUE | METHOD_END

datatype eap_decision =
  DECISION_SUCCESS | DECISION_FAILURE | DECISION_CONTINUE | DECISION_PASSTHROUGH | DECISION_INITIATE_REAUTH_START

datatype pending_state = METHOD_PENDING_NONE | METHOD_PENDING_WAIT | METHOD_PENDING_CONT

text \<open>
  The structures. Fields that only particular methods or the ERP build use (the hashed
  password and salt, IMSI, challenges, inner configuration, WPS and P2P elements, ERP keys)
  are left out.
\<close>

definition EAP_MAX_METHODS :: nat where "EAP_MAX_METHODS = 8"

record eap_user =
  u_methods :: "(int \<times> eap_type) list"
  u_password :: "bytes option"
  u_phase2 :: bool

record eap_eapol_interface =
  eapResp :: bool
  eapRespData :: "bytes option"
  portEnabled :: bool
  retransWhile :: int
  eapRestart :: bool
  eapSRTT :: int
  eapRTTVAR :: int
  eapReq :: bool
  eapNoReq :: bool
  eapSuccess :: bool
  eapFail :: bool
  eapTimeout :: bool
  eapReqData :: "bytes option"
  eapKeyData :: "bytes option"
  eapSessionId :: "bytes option"
  eapKeyAvailable :: bool
  aaaEapReq :: bool
  aaaEapNoReq :: bool
  aaaSuccess :: bool
  aaaFail :: bool
  aaaEapReqData :: "bytes option"
  aaaEapKeyData :: "bytes option"
  aaaEapKeyAvailable :: bool
  aaaMethodTimeout :: int
  aaaEapResp :: bool
  aaaEapRespData :: "bytes option"
  aaaTimeout :: bool

record 'p eap_sm =
  EAP_state :: eap_state
  MaxRetrans :: int
  eap_if :: eap_eapol_interface
  currentMethod :: eap_type
  currentId :: int
  methodState :: method_state
  retransCount :: int
  lastReqData :: "bytes option"
  methodTimeout :: int
  rxResp :: bool
  rxInitiate :: bool
  respId :: int
  respMethod :: eap_type
  respVendor :: int
  respVendorMethod :: u32
  sm_ignore :: bool
  sm_decision :: eap_decision
  sm_m :: "(int \<times> eap_type) option"
  sm_changed :: bool
  eap_method_priv :: "'p option"
  sm_identity :: "bytes option"
  serial_num :: "bytes option"
  lastId :: int
  sm_user :: "eap_user option"
  user_eap_method_index :: nat
  update_user :: bool
  num_rounds :: u32
  num_rounds_short :: u32
  method_pending :: pending_state
  start_reauth :: bool
  initiate_reauth_start_sent :: bool
  try_initiate_reauth :: bool
  clk :: nat

record 'p eap_method =
  m_vendor :: int
  m_method :: eap_type
  m_init :: "'p eap_sm \<Rightarrow> ('p option \<times> 'p eap_sm) ub"
  m_initPickUp :: "('p eap_sm \<Rightarrow> ('p option \<times> 'p eap_sm) ub) option"
  m_reset :: "'p eap_sm \<Rightarrow> 'p \<Rightarrow> 'p eap_sm ub"
  m_buildReq :: "'p eap_sm \<Rightarrow> 'p \<Rightarrow> u8 \<Rightarrow> (bytes option \<times> 'p \<times> 'p eap_sm) ub"
  m_getTimeout :: "('p eap_sm \<Rightarrow> 'p \<Rightarrow> (int \<times> 'p eap_sm) ub) option"
  m_check :: "('p eap_sm \<Rightarrow> 'p \<Rightarrow> bytes \<Rightarrow> bool ub) option"
  m_process :: "'p eap_sm \<Rightarrow> 'p \<Rightarrow> bytes \<Rightarrow> ('p \<times> 'p eap_sm) ub"
  m_isDone :: "'p eap_sm \<Rightarrow> 'p \<Rightarrow> bool"
  m_getKey :: "('p eap_sm \<Rightarrow> 'p \<Rightarrow> bytes option ub) option"
  m_isSuccess :: "'p eap_sm \<Rightarrow> 'p \<Rightarrow> bool"
  m_getSessionId :: "('p eap_sm \<Rightarrow> 'p \<Rightarrow> bytes option ub) option"

record eap_config =
  eap_server :: bool
  backend_auth :: bool
  max_auth_rounds :: u32
  max_auth_rounds_short :: u32

record 'p eap_env =
  cfg :: eap_config
  eap_methods :: "'p eap_method list"
  malloc_at :: "nat \<Rightarrow> nat \<Rightarrow> bool"
  rand_at :: "nat \<Rightarrow> nat"
  get_eap_user :: "(nat \<Rightarrow> bytes \<Rightarrow> bool \<Rightarrow> eap_user option) option"
  get_erp_send_reauth_start :: "(nat \<Rightarrow> int) option"
  get_erp_domain :: "(nat \<Rightarrow> bytes option) option"

text \<open>Updates of a field of the nested interface structure, and an environment call.\<close>

definition on_if :: "(eap_eapol_interface \<Rightarrow> eap_eapol_interface) \<Rightarrow> 'p eap_sm \<Rightarrow> 'p eap_sm" where
  "on_if f sm = sm\<lparr>eap_if := f (eap_if sm)\<rparr>"

definition tick :: "'p eap_sm \<Rightarrow> 'p eap_sm" where
  "tick sm = sm\<lparr>clk := clk sm + 1\<rparr>"

definition malloc_now :: "'p eap_env \<Rightarrow> 'p eap_sm \<Rightarrow> nat \<Rightarrow> bool" where
  "malloc_now env sm = malloc_at env (clk sm)"

section \<open>Helpers\<close>

definition eap_server_get_eap_method :: "'p eap_env \<Rightarrow> int \<Rightarrow> eap_type \<Rightarrow> 'p eap_method option" where
  "eap_server_get_eap_method env vendor type =
     find (\<lambda>m. m_vendor m = vendor \<and> m_method m = type) (eap_methods env)"

text \<open>\<open>sm->m\<close> dereferenced: undefined when the pointer is NULL.\<close>

definition the_method :: "'p eap_env \<Rightarrow> 'p eap_sm \<Rightarrow> 'p eap_method ub" where
  "the_method env sm = do { (vendor, type) \<leftarrow> sm_m sm; eap_server_get_eap_method env vendor type }"

definition eap_get_erp_send_reauth_start :: "'p eap_env \<Rightarrow> 'p eap_sm \<Rightarrow> int" where
  "eap_get_erp_send_reauth_start env sm =
     (case get_erp_send_reauth_start env of None \<Rightarrow> 0 | Some f \<Rightarrow> f (clk sm))"

definition eap_get_erp_domain :: "'p eap_env \<Rightarrow> 'p eap_sm \<Rightarrow> bytes option" where
  "eap_get_erp_domain env sm = (case get_erp_domain env of None \<Rightarrow> None | Some f \<Rightarrow> f (clk sm))"

definition msg_content :: "wpabuf option run \<Rightarrow> bytes option ub" where
  "msg_content r = (case r of Ok r \<Rightarrow> Some (map_option wpabuf_content r) | _ \<Rightarrow> None)"

definition eap_sm_buildInitiateReauthStart :: "'p eap_env \<Rightarrow> 'p eap_sm \<Rightarrow> u8 \<Rightarrow> bytes option ub" where
  "eap_sm_buildInitiateReauthStart env sm i =
     (let dom = eap_get_erp_domain env sm;
          plen = 1 + (case dom of None \<Rightarrow> 0 | Some d \<Rightarrow> 2 + word_of_nat (length d)) in
      msg_content
        (bindR (eap_msg_alloc (malloc_now env sm) EAP_VENDOR_IETF 1 plen EAP_CODE_INITIATE i)
          (\<lambda>msg. case msg of None \<Rightarrow> Ok None | Some msg \<Rightarrow>
             bindR (wpabuf_put_u8 msg 0) (\<lambda>msg.
             case dom of None \<Rightarrow> Ok (Some msg) | Some d \<Rightarrow>
               bindR (wpabuf_put_u8 msg EAP_ERP_TLV_DOMAIN_NAME) (\<lambda>msg.
               bindR (wpabuf_put_u8 msg (word_of_nat (length d))) (\<lambda>msg.
               bindR (wpabuf_put_data msg d) (\<lambda>msg. Ok (Some msg))))))))"

text \<open>\<open>eap_copy_buf (&dst, src)\<close>: the result code and the new value of \<open>*dst\<close>.\<close>

definition eap_copy_buf :: "(nat \<Rightarrow> bool) \<Rightarrow> bytes option \<Rightarrow> bytes option \<Rightarrow> int \<times> bytes option" where
  "eap_copy_buf malloc dst src =
     (case src of None \<Rightarrow> (-1, dst)
      | Some s \<Rightarrow> if malloc (unat sizeof_wpabuf + length s) then (0, Some s) else (-1, None))"

definition eap_copy_data :: "(nat \<Rightarrow> bool) \<Rightarrow> bytes option \<Rightarrow> bytes option \<Rightarrow> int \<times> bytes option" where
  "eap_copy_data malloc dst src =
     (case src of None \<Rightarrow> (-1, dst) | Some s \<Rightarrow> if malloc (length s) then (0, Some s) else (-1, None))"

text \<open>The allocation of the user structure, then the lookup.\<close>

definition sizeof_eap_user :: nat where "sizeof_eap_user = 136"

definition eap_user_get :: "'p eap_env \<Rightarrow> 'p eap_sm \<Rightarrow> bytes \<Rightarrow> bool \<Rightarrow> int \<times> 'p eap_sm" where
  "eap_user_get env sm identity phase2 =
     (case get_eap_user env of
        None \<Rightarrow> (-1, sm)
      | Some f \<Rightarrow>
        let sm = sm\<lparr>sm_user := None\<rparr> in
        if \<not> malloc_now env sm sizeof_eap_user then (-1, tick sm)
        else let sm = tick sm in
          case f (clk sm) identity phase2 of
            None \<Rightarrow> (-1, tick sm)
          | Some u \<Rightarrow> (0, tick (sm\<lparr>sm_user := Some u, user_eap_method_index := 0\<rparr>)))"

fun rto_loop :: "nat \<Rightarrow> int \<Rightarrow> int" where
  "rto_loop 0 rto = rto"
| "rto_loop (Suc n) rto = (let rto = rto * 2 in if rto \<ge> 20 then 20 else rto_loop n rto)"

definition eap_sm_calculateTimeout :: "'p eap_sm \<Rightarrow> int \<Rightarrow> int \<Rightarrow> int \<Rightarrow> int \<Rightarrow> int" where
  "eap_sm_calculateTimeout sm retransCnt srtt rttvar timeout =
     (if try_initiate_reauth sm then 1
      else if timeout \<noteq> 0 then timeout
      else rto_loop (nat retransCnt) 3)"

definition eap_sm_parseEapResp :: "'p eap_sm \<Rightarrow> bytes option \<Rightarrow> 'p eap_sm ub" where
  "eap_sm_parseEapResp sm resp =
     (let sm = sm\<lparr>rxResp := False, rxInitiate := False, respId := -1, respMethod := EAP_TYPE_NONE,
                  respVendor := EAP_VENDOR_IETF, respVendorMethod := EAP_TYPE_NONE\<rparr> in
      case resp of
        None \<Rightarrow> Some sm
      | Some buf \<Rightarrow>
        if length buf < sizeof_eap_hdr then Some sm
        else do {
          plen \<leftarrow> eap_hdr_length buf;
          if plen > length buf then Some sm
          else do {
            i \<leftarrow> peek buf 1;
            code \<leftarrow> peek buf 0;
            let sm = sm\<lparr>respId := uint i\<rparr>;
            let sm = (if code = EAP_CODE_RESPONSE then sm\<lparr>rxResp := True\<rparr>
                      else if code = EAP_CODE_INITIATE then sm\<lparr>rxInitiate := True\<rparr> else sm);
            if plen > sizeof_eap_hdr then do {
              t \<leftarrow> peek buf (int sizeof_eap_hdr);
              let sm = sm\<lparr>respMethod := ucast t\<rparr>;
              if respMethod sm = EAP_TYPE_EXPANDED then
                if plen < sizeof_eap_hdr + 8 then Some sm
                else do {
                  v \<leftarrow> WPA_GET_BE24 (drop (sizeof_eap_hdr + 1) buf);
                  vm \<leftarrow> WPA_GET_BE32 (drop (sizeof_eap_hdr + 4) buf);
                  Some (sm\<lparr>respVendor := uint v, respVendorMethod := vm\<rparr>) }
              else Some sm }
            else Some sm } })"

definition eap_sm_getId :: "bytes option \<Rightarrow> int ub" where
  "eap_sm_getId data =
     (case data of None \<Rightarrow> Some (-1)
      | Some d \<Rightarrow> if length d < sizeof_eap_hdr then Some (-1) else map_option uint (peek d 1))"

definition eap_sm_build_result :: "(nat \<Rightarrow> bool) \<Rightarrow> u8 \<Rightarrow> u8 \<Rightarrow> bytes option ub" where
  "eap_sm_build_result malloc code i =
     msg_content
       (case wpabuf_alloc malloc (word_of_nat sizeof_eap_hdr) of
          None \<Rightarrow> Ok None
        | Some msg \<Rightarrow>
          bindR (wpabuf_put msg (word_of_nat sizeof_eap_hdr)) (\<lambda>(msg, resp).
          bindR (put_at msg resp ([code, i] @ WPA_PUT_BE16 (word_of_nat sizeof_eap_hdr))) (\<lambda>msg. Ok (Some msg))))"

definition eap_sm_buildSuccess :: "'p eap_env \<Rightarrow> 'p eap_sm \<Rightarrow> u8 \<Rightarrow> bytes option ub" where
  "eap_sm_buildSuccess env sm i = eap_sm_build_result (malloc_now env sm) EAP_CODE_SUCCESS i"

definition eap_sm_buildFailure :: "'p eap_env \<Rightarrow> 'p eap_sm \<Rightarrow> u8 \<Rightarrow> bytes option ub" where
  "eap_sm_buildFailure env sm i = eap_sm_build_result (malloc_now env sm) EAP_CODE_FAILURE i"

definition eap_sm_nextId :: "'p eap_env \<Rightarrow> 'p eap_sm \<Rightarrow> int \<Rightarrow> int" where
  "eap_sm_nextId env sm i =
     (if i < 0 then
        let i = int (rand_at env (clk sm)) mod 256 in
        if i \<noteq> lastId sm then i else (i + 1) mod 256
      else (i + 1) mod 256)"

section \<open>Policy\<close>

text \<open>The end marker of the method list of a user.\<close>

abbreviation no_method :: "int \<times> eap_type" where
  "no_method \<equiv> (EAP_VENDOR_IETF, EAP_TYPE_NONE)"

text \<open>
  One entry of the configured list is kept when it is an IETF method that the peer's list
  has; otherwise the entries behind it move down and the last one becomes the end marker.
\<close>

definition nak_keeps :: "bytes \<Rightarrow> int \<times> eap_type \<Rightarrow> bool" where
  "nak_keeps nak_list m \<longleftrightarrow> fst m = EAP_VENDOR_IETF \<and> (\<exists>c \<in> set nak_list. ucast c = snd m)"

definition remove_method :: "nat \<Rightarrow> (int \<times> eap_type) list \<Rightarrow> (int \<times> eap_type) list" where
  "remove_method i ms = take i ms @ drop (i + 1) ms @ [no_method]"

lemma count_remove_method:
  "i < length ms \<Longrightarrow> ms ! i \<noteq> no_method \<Longrightarrow>
    length (filter (\<lambda>m. m \<noteq> no_method) (remove_method i ms)) < length (filter (\<lambda>m. m \<noteq> no_method) ms)"
  using arg_cong [OF id_take_nth_drop, of i ms "\<lambda>l. length (filter (\<lambda>m. m \<noteq> no_method) l)"]
  by (simp add: remove_method_def)

lemma length_remove_method [simp]: "i < length ms \<Longrightarrow> length (remove_method i ms) = length ms"
  by (simp add: remove_method_def)

function process_nak_loop :: "bytes \<Rightarrow> nat \<Rightarrow> (int \<times> eap_type) list \<Rightarrow> (int \<times> eap_type) list" where
  "process_nak_loop nak_list i ms =
     (if i < length ms \<and> ms ! i \<noteq> no_method then
        if nak_keeps nak_list (ms ! i) then process_nak_loop nak_list (i + 1) ms
        else process_nak_loop nak_list i (remove_method i ms)
      else ms)"
  by pat_completeness auto

termination
  by (relation "measures [\<lambda>(_, i, ms). length (filter (\<lambda>m. m \<noteq> no_method) ms), \<lambda>(_, i, ms). length ms - i]")
     (auto dest: count_remove_method)

declare process_nak_loop.simps [simp del]

definition eap_sm_process_nak :: "'p eap_sm \<Rightarrow> bytes \<Rightarrow> 'p eap_sm" where
  "eap_sm_process_nak sm nak_list =
     (case sm_user sm of
        None \<Rightarrow> sm
      | Some u \<Rightarrow>
        sm\<lparr>sm_user := Some (u\<lparr>u_methods := process_nak_loop nak_list (user_eap_method_index sm) (u_methods u)\<rparr>)\<rparr>)"

definition eap_sm_Policy_update :: "'p eap_sm \<Rightarrow> bytes option \<Rightarrow> 'p eap_sm" where
  "eap_sm_Policy_update sm nak_list =
     (case (nak_list, sm_user sm) of
        (Some l, Some u) \<Rightarrow>
          if u_phase2 u then sm\<lparr>sm_decision := DECISION_FAILURE\<rparr> else eap_sm_process_nak sm l
      | _ \<Rightarrow> sm)"

text \<open>Another method of the user at the index: the test of the code and the entry.\<close>

definition user_method_at :: "'p eap_sm \<Rightarrow> (int \<times> eap_type) option ub" where
  "user_method_at sm =
     (case sm_user sm of
        None \<Rightarrow> Some None
      | Some u \<Rightarrow>
        if user_eap_method_index sm < EAP_MAX_METHODS
        then do { mt \<leftarrow> peek (u_methods u) (int (user_eap_method_index sm));
                  Some (if mt \<noteq> no_method then Some mt else None) }
        else Some None)"

definition eap_sm_Policy_getNextMethod :: "'p eap_sm \<Rightarrow> ((int \<times> eap_type) \<times> 'p eap_sm) ub" where
  "eap_sm_Policy_getNextMethod sm =
     (if sm_identity sm = None \<or> currentId sm = -1
      then Some ((EAP_VENDOR_IETF, EAP_TYPE_IDENTITY), sm\<lparr>update_user := True\<rparr>)
      else do {
        r \<leftarrow> user_method_at sm;
        case r of
          Some mt \<Rightarrow> Some (mt, sm\<lparr>user_eap_method_index := user_eap_method_index sm + 1\<rparr>)
        | None \<Rightarrow> Some (no_method, sm) })"

text \<open>Does the first configured method of the user ask for the identity?\<close>

definition first_is_identity :: "eap_user option \<Rightarrow> bool ub" where
  "first_is_identity u =
     (case u of None \<Rightarrow> Some False
      | Some u \<Rightarrow> do { mt \<leftarrow> peek (u_methods u) 0; Some (mt = (EAP_VENDOR_IETF, EAP_TYPE_IDENTITY)) })"

text \<open>The tail of \<open>eap_sm_Policy_getDecision\<close> behind the refresh of the user.\<close>

definition getDecision_next :: "'p eap_env \<Rightarrow> 'p eap_sm \<Rightarrow> (eap_decision \<times> 'p eap_sm) ub" where
  "getDecision_next env sm = do {
     let sm = sm\<lparr>start_reauth := False\<rparr>;
     r \<leftarrow> user_method_at sm;
     if r \<noteq> None then Some (DECISION_CONTINUE, sm)
     else if sm_identity sm = None \<and> eap_get_erp_send_reauth_start env sm \<noteq> 0 \<and> \<not> initiate_reauth_start_sent sm
     then Some (DECISION_INITIATE_REAUTH_START, sm)
     else if sm_identity sm = None \<or> currentId sm = -1 then Some (DECISION_CONTINUE, sm)
     else Some (DECISION_FAILURE, sm) }"

text \<open>The part that looks the user up again.\<close>

definition getDecision_user :: "'p eap_env \<Rightarrow> 'p eap_sm \<Rightarrow> (eap_decision \<times> 'p eap_sm) ub" where
  "getDecision_user env sm =
     (case sm_identity sm of
        Some i \<Rightarrow>
          if (sm_user sm = None \<or> update_user sm) \<and> \<not> start_reauth sm then do {
            first \<leftarrow> (if currentMethod sm = EAP_TYPE_IDENTITY then first_is_identity (sm_user sm) else Some False);
            let (res, sm) = eap_user_get env sm i False;
            if res \<noteq> 0 then Some (DECISION_FAILURE, sm)
            else do {
              again \<leftarrow> (if first then first_is_identity (sm_user sm) else Some False);
              if again then Some (DECISION_FAILURE, sm\<lparr>update_user := True\<rparr>)
              else getDecision_next env (sm\<lparr>update_user := False\<rparr>) } }
          else getDecision_next env sm
      | None \<Rightarrow> getDecision_next env sm)"

definition eap_sm_Policy_getDecision :: "'p eap_env \<Rightarrow> 'p eap_sm \<Rightarrow> (eap_decision \<times> 'p eap_sm) ub" where
  "eap_sm_Policy_getDecision env sm =
     (if \<not> eap_server (cfg env) \<and> sm_identity sm \<noteq> None \<and> \<not> start_reauth sm
      then Some (DECISION_PASSTHROUGH, sm)
      else if sm_m sm = None then getDecision_user env sm
      else do {
        m \<leftarrow> the_method env sm;
        priv \<leftarrow> eap_method_priv sm;
        if currentMethod sm \<noteq> EAP_TYPE_IDENTITY \<and> m_isSuccess m sm priv
        then Some (DECISION_SUCCESS, sm\<lparr>update_user := True\<rparr>)
        else if m_isDone m sm priv \<and> \<not> m_isSuccess m sm priv
        then Some (DECISION_FAILURE, sm\<lparr>update_user := True\<rparr>)
        else getDecision_user env sm })"

definition eap_sm_Policy_doPickUp :: "eap_type \<Rightarrow> bool" where
  "eap_sm_Policy_doPickUp type \<longleftrightarrow> type = EAP_TYPE_IDENTITY"

definition eap_server_clear_identity :: "'p eap_sm \<Rightarrow> 'p eap_sm" where
  "eap_server_clear_identity sm = sm\<lparr>sm_identity := None\<rparr>"

section \<open>State entry actions\<close>

definition SM_ENTRY :: "eap_state \<Rightarrow> bool \<Rightarrow> 'p eap_sm \<Rightarrow> 'p eap_sm" where
  "SM_ENTRY st global sm =
     (if \<not> global \<or> EAP_state sm \<noteq> st then sm\<lparr>sm_changed := True\<rparr> else sm)\<lparr>EAP_state := st\<rparr>"

text \<open>\<open>sm->m->reset (sm, priv); sm->eap_method_priv = NULL\<close>.\<close>

definition reset_method :: "'p eap_env \<Rightarrow> 'p eap_sm \<Rightarrow> 'p eap_sm ub" where
  "reset_method env sm = do {
     m \<leftarrow> the_method env sm;
     priv \<leftarrow> eap_method_priv sm;
     sm \<leftarrow> m_reset m sm priv;
     Some (sm\<lparr>eap_method_priv := None\<rparr>) }"

text \<open>\<open>if (sm->m && sm->eap_method_priv)\<close> the same.\<close>

definition reset_method_if :: "'p eap_env \<Rightarrow> 'p eap_sm \<Rightarrow> 'p eap_sm ub" where
  "reset_method_if env sm =
     (if sm_m sm \<noteq> None \<and> eap_method_priv sm \<noteq> None then reset_method env sm else Some sm)"

definition enter_DISABLED :: "'p eap_env \<Rightarrow> bool \<Rightarrow> 'p eap_sm \<Rightarrow> 'p eap_sm ub" where
  "enter_DISABLED env global sm =
     Some ((SM_ENTRY EAP_DISABLED global sm)\<lparr>num_rounds := 0, num_rounds_short := 0\<rparr>)"

definition enter_INITIALIZE :: "'p eap_env \<Rightarrow> bool \<Rightarrow> 'p eap_sm \<Rightarrow> 'p eap_sm ub" where
  "enter_INITIALIZE env global sm = do {
     let sm = SM_ENTRY EAP_INITIALIZE global sm;
     let sm = (if eapRestart (eap_if sm) \<and> \<not> eap_server (cfg env) \<and> sm_identity sm \<noteq> None
               then eap_server_clear_identity sm else sm);
     let sm = sm\<lparr>try_initiate_reauth := False, currentId := -1\<rparr>;
     let sm = on_if (\<lambda>i. i\<lparr>eapSuccess := False, eapFail := False, eapTimeout := False, eapKeyData := None,
                eapSessionId := None, eapKeyAvailable := False, eapRestart := False\<rparr>) sm;
     sm \<leftarrow> reset_method_if env sm;
     let sm = sm\<lparr>sm_m := None, user_eap_method_index := 0\<rparr>;
     sm \<leftarrow> (if backend_auth (cfg env) then do {
              sm \<leftarrow> eap_sm_parseEapResp (sm\<lparr>currentMethod := EAP_TYPE_NONE\<rparr>) (eapRespData (eap_if sm));
              Some (if rxResp sm then sm\<lparr>currentId := respId sm\<rparr> else sm) }
            else Some sm);
     Some (sm\<lparr>num_rounds := 0, num_rounds_short := 0, method_pending := METHOD_PENDING_NONE\<rparr>) }"

definition enter_PICK_UP_METHOD :: "'p eap_env \<Rightarrow> bool \<Rightarrow> 'p eap_sm \<Rightarrow> 'p eap_sm ub" where
  "enter_PICK_UP_METHOD env global sm = do {
     let sm = SM_ENTRY EAP_PICK_UP_METHOD global sm;
     if eap_sm_Policy_doPickUp (respMethod sm) then do {
       let sm = sm\<lparr>currentMethod := respMethod sm\<rparr>;
       sm \<leftarrow> reset_method_if env sm;
       let none = (\<lambda>sm. sm\<lparr>sm_m := None, currentMethod := EAP_TYPE_NONE\<rparr>);
       case eap_server_get_eap_method env EAP_VENDOR_IETF (currentMethod sm) of
         None \<Rightarrow> Some (none sm)
       | Some m \<Rightarrow>
         (case m_initPickUp m of
            None \<Rightarrow> Some (none sm)
          | Some f \<Rightarrow> do {
              (priv, sm) \<leftarrow> f (sm\<lparr>sm_m := Some (EAP_VENDOR_IETF, currentMethod sm)\<rparr>);
              let sm = sm\<lparr>eap_method_priv := priv\<rparr>;
              Some (if priv = None then none sm else sm) }) }
     else Some sm }"

definition enter_IDLE_gen :: "eap_state \<Rightarrow> bool \<Rightarrow> 'p eap_sm \<Rightarrow> 'p eap_sm ub" where
  "enter_IDLE_gen st global sm =
     (let sm = SM_ENTRY st global sm in
      Some (on_if (\<lambda>i. i\<lparr>retransWhile :=
        eap_sm_calculateTimeout sm (retransCount sm) (eapSRTT i) (eapRTTVAR i) (methodTimeout sm)\<rparr>) sm))"

definition enter_IDLE :: "'p eap_env \<Rightarrow> bool \<Rightarrow> 'p eap_sm \<Rightarrow> 'p eap_sm ub" where
  "enter_IDLE env global sm = enter_IDLE_gen EAP_IDLE global sm"

definition enter_RETRANSMIT_gen :: "eap_state \<Rightarrow> 'p eap_env \<Rightarrow> bool \<Rightarrow> 'p eap_sm \<Rightarrow> 'p eap_sm ub" where
  "enter_RETRANSMIT_gen st env global sm =
     (let sm = SM_ENTRY st global sm; sm = sm\<lparr>retransCount := retransCount sm + 1\<rparr> in
      if retransCount sm \<le> MaxRetrans sm \<and> lastReqData sm \<noteq> None then
        let (res, d) = eap_copy_buf (malloc_now env sm) (eapReqData (eap_if sm)) (lastReqData sm);
            sm = tick (on_if (\<lambda>i. i\<lparr>eapReqData := d\<rparr>) sm) in
        Some (if res = 0 then on_if (\<lambda>i. i\<lparr>eapReq := True\<rparr>) sm else sm)
      else Some sm)"

definition enter_RETRANSMIT :: "'p eap_env \<Rightarrow> bool \<Rightarrow> 'p eap_sm \<Rightarrow> 'p eap_sm ub" where
  "enter_RETRANSMIT env global sm = enter_RETRANSMIT_gen EAP_RETRANSMIT env global sm"

definition enter_RECEIVED :: "'p eap_env \<Rightarrow> bool \<Rightarrow> 'p eap_sm \<Rightarrow> 'p eap_sm ub" where
  "enter_RECEIVED env global sm = do {
     let sm = SM_ENTRY EAP_RECEIVED global sm;
     sm \<leftarrow> eap_sm_parseEapResp sm (eapRespData (eap_if sm));
     let sm = sm\<lparr>num_rounds := num_rounds sm + 1\<rparr>;
     Some (case eapRespData (eap_if sm) of
             Some d \<Rightarrow> sm\<lparr>num_rounds_short := (if length d < 20 then num_rounds_short sm + 1 else 0)\<rparr>
           | None \<Rightarrow> sm\<lparr>num_rounds_short := num_rounds_short sm + 1\<rparr>) }"

definition enter_DISCARD_gen :: "eap_state \<Rightarrow> bool \<Rightarrow> 'p eap_sm \<Rightarrow> 'p eap_sm ub" where
  "enter_DISCARD_gen st global sm = Some (on_if (\<lambda>i. i\<lparr>eapResp := False, eapNoReq := True\<rparr>) (SM_ENTRY st global sm))"

definition enter_DISCARD :: "'p eap_env \<Rightarrow> bool \<Rightarrow> 'p eap_sm \<Rightarrow> 'p eap_sm ub" where
  "enter_DISCARD env global sm = enter_DISCARD_gen EAP_DISCARD global sm"

text \<open>The common part of \<open>SEND_REQUEST\<close> and \<open>SEND_REQUEST2\<close>.\<close>

definition send_request :: "'p eap_env \<Rightarrow> 'p eap_sm \<Rightarrow> 'p eap_sm" where
  "send_request env sm =
     (case eapReqData (eap_if sm) of
        Some d \<Rightarrow>
          let (res, l) = eap_copy_buf (malloc_now env sm) (lastReqData sm) (Some d);
              sm = tick (sm\<lparr>lastReqData := l\<rparr>) in
          on_if (\<lambda>i. i\<lparr>eapResp := False, eapReq := (res = 0)\<rparr>) sm
      | None \<Rightarrow> on_if (\<lambda>i. i\<lparr>eapResp := False, eapReq := False, eapNoReq := True\<rparr>) sm)"

definition enter_SEND_REQUEST :: "'p eap_env \<Rightarrow> bool \<Rightarrow> 'p eap_sm \<Rightarrow> 'p eap_sm ub" where
  "enter_SEND_REQUEST env global sm =
     (let sm = (SM_ENTRY EAP_SEND_REQUEST global sm)\<lparr>retransCount := 0\<rparr>;
          sm = (case eapReqData (eap_if sm) of
                  Some d \<Rightarrow> if length d \<ge> 20 then sm\<lparr>num_rounds_short := 0\<rparr> else sm
                | None \<Rightarrow> sm) in
      Some (send_request env sm))"

definition enter_INTEGRITY_CHECK :: "'p eap_env \<Rightarrow> bool \<Rightarrow> 'p eap_sm \<Rightarrow> 'p eap_sm ub" where
  "enter_INTEGRITY_CHECK env global sm = do {
     let sm = SM_ENTRY EAP_INTEGRITY_CHECK global sm;
     ok \<leftarrow> eap_hdr_len_valid (eapRespData (eap_if sm)) 1;
     if \<not> ok then Some (sm\<lparr>sm_ignore := True\<rparr>)
     else do {
       m \<leftarrow> the_method env sm;
       case m_check m of
         None \<Rightarrow> Some sm
       | Some check \<Rightarrow> do {
           priv \<leftarrow> eap_method_priv sm;
           resp \<leftarrow> eapRespData (eap_if sm);
           r \<leftarrow> check sm priv resp;
           Some (sm\<lparr>sm_ignore := r\<rparr>) } } }"

definition enter_METHOD_REQUEST :: "'p eap_env \<Rightarrow> bool \<Rightarrow> 'p eap_sm \<Rightarrow> 'p eap_sm ub" where
  "enter_METHOD_REQUEST env global sm = do {
     let sm = SM_ENTRY EAP_METHOD_REQUEST global sm;
     if sm_m sm = None then Some sm
     else do {
       m \<leftarrow> the_method env sm;
       let sm = tick (sm\<lparr>currentId := eap_sm_nextId env sm (currentId sm)\<rparr>);
       let sm = sm\<lparr>lastId := currentId sm\<rparr>;
       priv \<leftarrow> eap_method_priv sm;
       (req, priv, sm) \<leftarrow> m_buildReq m sm priv (word_of_int (currentId sm));
       let sm = on_if (\<lambda>i. i\<lparr>eapReqData := req\<rparr>) (sm\<lparr>eap_method_priv := Some priv\<rparr>);
       case m_getTimeout m of
         None \<Rightarrow> Some (sm\<lparr>methodTimeout := 0\<rparr>)
       | Some f \<Rightarrow> do { (t, sm) \<leftarrow> f sm priv; Some (sm\<lparr>methodTimeout := t\<rparr>) } } }"

text \<open>An optional operation of the method that returns a buffer.\<close>

definition opt_get :: "('p eap_sm \<Rightarrow> 'p \<Rightarrow> bytes option ub) option \<Rightarrow> 'p eap_sm \<Rightarrow> 'p \<Rightarrow> bytes option ub" where
  "opt_get f sm priv = (case f of None \<Rightarrow> Some None | Some f \<Rightarrow> f sm priv)"

definition enter_METHOD_RESPONSE :: "'p eap_env \<Rightarrow> bool \<Rightarrow> 'p eap_sm \<Rightarrow> 'p eap_sm ub" where
  "enter_METHOD_RESPONSE env global sm = do {
     let sm = SM_ENTRY EAP_METHOD_RESPONSE global sm;
     ok \<leftarrow> eap_hdr_len_valid (eapRespData (eap_if sm)) 1;
     if \<not> ok then Some sm
     else do {
       m \<leftarrow> the_method env sm;
       priv \<leftarrow> eap_method_priv sm;
       resp \<leftarrow> eapRespData (eap_if sm);
       (priv, sm) \<leftarrow> m_process m sm priv resp;
       let sm = sm\<lparr>eap_method_priv := Some priv\<rparr>;
       if m_isDone m sm priv then do {
         let sm = eap_sm_Policy_update sm None;
         key \<leftarrow> opt_get (m_getKey m) sm priv;
         let sm = on_if (\<lambda>i. i\<lparr>eapKeyData := key\<rparr>) sm;
         session \<leftarrow> opt_get (m_getSessionId m) sm priv;
         let sm = on_if (\<lambda>i. i\<lparr>eapSessionId := session\<rparr>) sm;
         Some (sm\<lparr>methodState := METHOD_END\<rparr>) }
       else Some (sm\<lparr>methodState := METHOD_CONTINUE\<rparr>) } }"

text \<open>
  One pass behind the label \<open>try_another_method\<close>: \<open>Inl\<close> when it ends with the jump back to the label, \<open>Inr\<close>
  when it leaves the state.
\<close>

definition try_method_pass :: "'p eap_env \<Rightarrow> 'p eap_sm \<Rightarrow> ('p eap_sm + 'p eap_sm) ub" where
  "try_method_pass env sm = do {
     ((vendor, type), sm) \<leftarrow> eap_sm_Policy_getNextMethod sm;
     let sm = sm\<lparr>currentMethod := (if vendor = EAP_VENDOR_IETF then type else EAP_TYPE_EXPANDED)\<rparr>;
     sm \<leftarrow> reset_method_if env sm;
     case eap_server_get_eap_method env vendor type of
       None \<Rightarrow> Some (Inr (sm\<lparr>sm_m := None, sm_decision := DECISION_FAILURE\<rparr>))
     | Some m \<Rightarrow> do {
         (priv, sm) \<leftarrow> m_init m (sm\<lparr>sm_m := Some (vendor, type)\<rparr>);
         let sm = sm\<lparr>eap_method_priv := priv\<rparr>;
         Some (if priv = None
               then Inl (sm\<lparr>sm_m := None, currentMethod := EAP_TYPE_NONE\<rparr>)
               else Inr (sm\<lparr>methodState :=
                 (if currentMethod sm = EAP_TYPE_IDENTITY \<or> currentMethod sm = EAP_TYPE_NOTIFICATION
                  then METHOD_CONTINUE else METHOD_PROPOSED)\<rparr>)) } }"

text \<open>The loop: passes until one leaves the state.\<close>

partial_function (option) try_another_method :: "'p eap_env \<Rightarrow> 'p eap_sm \<Rightarrow> 'p eap_sm ub" where
  "try_another_method env sm =
     Option.bind (try_method_pass env sm) (\<lambda>r. case r of Inl sm \<Rightarrow> try_another_method env sm | Inr sm \<Rightarrow> Some sm)"

definition enter_PROPOSE_METHOD :: "'p eap_env \<Rightarrow> bool \<Rightarrow> 'p eap_sm \<Rightarrow> 'p eap_sm ub" where
  "enter_PROPOSE_METHOD env global sm =
     try_another_method env ((SM_ENTRY EAP_PROPOSE_METHOD global sm)\<lparr>try_initiate_reauth := False\<rparr>)"

definition enter_NAK :: "'p eap_env \<Rightarrow> bool \<Rightarrow> 'p eap_sm \<Rightarrow> 'p eap_sm ub" where
  "enter_NAK env global sm = do {
     let sm = SM_ENTRY EAP_NAK global sm;
     sm \<leftarrow> (if eap_method_priv sm \<noteq> None then reset_method env sm else Some sm);
     let sm = sm\<lparr>sm_m := None\<rparr>;
     ok \<leftarrow> eap_hdr_len_valid (eapRespData (eap_if sm)) 1;
     if \<not> ok then Some sm
     else do {
       resp \<leftarrow> eapRespData (eap_if sm);
       if length resp > sizeof_eap_hdr then do {
         plen \<leftarrow> eap_hdr_length resp;
         let len = (if plen > length resp then length resp else plen) - sizeof_eap_hdr;
         t \<leftarrow> peek resp (int sizeof_eap_hdr);
         Some (eap_sm_Policy_update sm
           (if (ucast t :: u32) = EAP_TYPE_NAK
            then Some (take (len - 1) (drop (sizeof_eap_hdr + 1) resp)) else None)) }
       else Some (eap_sm_Policy_update sm None) } }"

definition enter_SELECT_ACTION :: "'p eap_env \<Rightarrow> bool \<Rightarrow> 'p eap_sm \<Rightarrow> 'p eap_sm ub" where
  "enter_SELECT_ACTION env global sm = do {
     (d, sm) \<leftarrow> eap_sm_Policy_getDecision env (SM_ENTRY EAP_SELECT_ACTION global sm);
     Some (sm\<lparr>sm_decision := d\<rparr>) }"

definition enter_TIMEOUT_FAILURE :: "'p eap_env \<Rightarrow> bool \<Rightarrow> 'p eap_sm \<Rightarrow> 'p eap_sm ub" where
  "enter_TIMEOUT_FAILURE env global sm =
     Some (on_if (\<lambda>i. i\<lparr>eapTimeout := True\<rparr>) (SM_ENTRY EAP_TIMEOUT_FAILURE global sm))"

definition enter_FAILURE :: "'p eap_env \<Rightarrow> bool \<Rightarrow> 'p eap_sm \<Rightarrow> 'p eap_sm ub" where
  "enter_FAILURE env global sm = do {
     let sm = SM_ENTRY EAP_FAILURE global sm;
     req \<leftarrow> eap_sm_buildFailure env sm (word_of_int (currentId sm));
     let sm = tick sm;
     Some (on_if (\<lambda>i. i\<lparr>eapReqData := req, eapFail := True\<rparr>) (sm\<lparr>lastReqData := None\<rparr>)) }"

definition enter_SUCCESS :: "'p eap_env \<Rightarrow> bool \<Rightarrow> 'p eap_sm \<Rightarrow> 'p eap_sm ub" where
  "enter_SUCCESS env global sm = do {
     let sm = SM_ENTRY EAP_SUCCESS global sm;
     req \<leftarrow> eap_sm_buildSuccess env sm (word_of_int (currentId sm));
     let sm = tick sm;
     Some (on_if (\<lambda>i. i\<lparr>eapReqData := req, eapSuccess := True,
             eapKeyAvailable := (if eapKeyData i \<noteq> None then True else eapKeyAvailable i)\<rparr>)
           (sm\<lparr>lastReqData := None\<rparr>)) }"

definition enter_INITIATE_REAUTH_START :: "'p eap_env \<Rightarrow> bool \<Rightarrow> 'p eap_sm \<Rightarrow> 'p eap_sm ub" where
  "enter_INITIATE_REAUTH_START env global sm = do {
     let sm = (SM_ENTRY EAP_INITIATE_REAUTH_START global sm)\<lparr>initiate_reauth_start_sent := True, try_initiate_reauth := True\<rparr>;
     let sm = tick (sm\<lparr>currentId := eap_sm_nextId env sm (currentId sm)\<rparr>);
     let sm = sm\<lparr>lastId := currentId sm\<rparr>;
     req \<leftarrow> eap_sm_buildInitiateReauthStart env sm (word_of_int (currentId sm));
     let sm = tick sm;
     Some (on_if (\<lambda>i. i\<lparr>eapReqData := req\<rparr>) (sm\<lparr>lastReqData := None\<rparr>)) }"

definition enter_INITIALIZE_PASSTHROUGH :: "'p eap_env \<Rightarrow> bool \<Rightarrow> 'p eap_sm \<Rightarrow> 'p eap_sm ub" where
  "enter_INITIALIZE_PASSTHROUGH env global sm =
     Some (on_if (\<lambda>i. i\<lparr>aaaEapRespData := None\<rparr>)
       ((SM_ENTRY EAP_INITIALIZE_PASSTHROUGH global sm)\<lparr>try_initiate_reauth := False\<rparr>))"

definition enter_IDLE2 :: "'p eap_env \<Rightarrow> bool \<Rightarrow> 'p eap_sm \<Rightarrow> 'p eap_sm ub" where
  "enter_IDLE2 env global sm = enter_IDLE_gen EAP_IDLE2 global sm"

definition enter_RETRANSMIT2 :: "'p eap_env \<Rightarrow> bool \<Rightarrow> 'p eap_sm \<Rightarrow> 'p eap_sm ub" where
  "enter_RETRANSMIT2 env global sm = enter_RETRANSMIT_gen EAP_RETRANSMIT2 env global sm"

definition enter_RECEIVED2 :: "'p eap_env \<Rightarrow> bool \<Rightarrow> 'p eap_sm \<Rightarrow> 'p eap_sm ub" where
  "enter_RECEIVED2 env global sm =
     (let sm = SM_ENTRY EAP_RECEIVED2 global sm in eap_sm_parseEapResp sm (eapRespData (eap_if sm)))"

definition enter_DISCARD2 :: "'p eap_env \<Rightarrow> bool \<Rightarrow> 'p eap_sm \<Rightarrow> 'p eap_sm ub" where
  "enter_DISCARD2 env global sm = enter_DISCARD_gen EAP_DISCARD2 global sm"

definition enter_SEND_REQUEST2 :: "'p eap_env \<Rightarrow> bool \<Rightarrow> 'p eap_sm \<Rightarrow> 'p eap_sm ub" where
  "enter_SEND_REQUEST2 env global sm =
     Some (send_request env ((SM_ENTRY EAP_SEND_REQUEST2 global sm)\<lparr>retransCount := 0\<rparr>))"

text \<open>\<open>eap_copy_buf\<close> from the AAA interface into \<open>eapReqData\<close>, the result code unused.\<close>

definition copy_aaa_req :: "'p eap_env \<Rightarrow> 'p eap_sm \<Rightarrow> 'p eap_sm" where
  "copy_aaa_req env sm =
     tick (on_if (\<lambda>i. i\<lparr>eapReqData := snd (eap_copy_buf (malloc_now env sm) (eapReqData i) (aaaEapReqData i))\<rparr>) sm)"

definition enter_AAA_REQUEST :: "'p eap_env \<Rightarrow> bool \<Rightarrow> 'p eap_sm \<Rightarrow> 'p eap_sm ub" where
  "enter_AAA_REQUEST env global sm =
     (let sm = SM_ENTRY EAP_AAA_REQUEST global sm in
      if eapRespData (eap_if sm) = None then Some sm
      else Some (tick (on_if (\<lambda>i. i\<lparr>aaaEapRespData :=
        snd (eap_copy_buf (malloc_now env sm) (aaaEapRespData i) (eapRespData i))\<rparr>) sm)))"

definition enter_AAA_RESPONSE :: "'p eap_env \<Rightarrow> bool \<Rightarrow> 'p eap_sm \<Rightarrow> 'p eap_sm ub" where
  "enter_AAA_RESPONSE env global sm = do {
     let sm = copy_aaa_req env (SM_ENTRY EAP_AAA_RESPONSE global sm);
     i \<leftarrow> eap_sm_getId (eapReqData (eap_if sm));
     Some (sm\<lparr>currentId := i, methodTimeout := aaaMethodTimeout (eap_if sm)\<rparr>) }"

definition enter_AAA_IDLE :: "'p eap_env \<Rightarrow> bool \<Rightarrow> 'p eap_sm \<Rightarrow> 'p eap_sm ub" where
  "enter_AAA_IDLE env global sm =
     Some (on_if (\<lambda>i. i\<lparr>aaaFail := False, aaaSuccess := False, aaaEapReq := False, aaaEapNoReq := False,
       aaaEapResp := True\<rparr>) (SM_ENTRY EAP_AAA_IDLE global sm))"

definition enter_TIMEOUT_FAILURE2 :: "'p eap_env \<Rightarrow> bool \<Rightarrow> 'p eap_sm \<Rightarrow> 'p eap_sm ub" where
  "enter_TIMEOUT_FAILURE2 env global sm =
     Some (on_if (\<lambda>i. i\<lparr>eapTimeout := True\<rparr>) (SM_ENTRY EAP_TIMEOUT_FAILURE2 global sm))"

definition enter_FAILURE2 :: "'p eap_env \<Rightarrow> bool \<Rightarrow> 'p eap_sm \<Rightarrow> 'p eap_sm ub" where
  "enter_FAILURE2 env global sm =
     Some (on_if (\<lambda>i. i\<lparr>eapFail := True\<rparr>) (copy_aaa_req env (SM_ENTRY EAP_FAILURE2 global sm)))"

definition enter_SUCCESS2 :: "'p eap_env \<Rightarrow> bool \<Rightarrow> 'p eap_sm \<Rightarrow> 'p eap_sm ub" where
  "enter_SUCCESS2 env global sm =
     (let sm = copy_aaa_req env (SM_ENTRY EAP_SUCCESS2 global sm);
          sm = tick (on_if (\<lambda>i. i\<lparr>eapKeyAvailable := aaaEapKeyAvailable i,
                 eapKeyData := (if aaaEapKeyAvailable i
                   then snd (eap_copy_data (malloc_now env sm) (eapKeyData i) (aaaEapKeyData i)) else None)\<rparr>) sm) in
      Some ((on_if (\<lambda>i. i\<lparr>eapSuccess := True\<rparr>) sm)\<lparr>start_reauth := True\<rparr>))"

section \<open>The step function and its driver\<close>

text \<open>A Nak, plain or in the expanded format.\<close>

definition resp_is :: "eap_type \<Rightarrow> 'p eap_sm \<Rightarrow> bool" where
  "resp_is type sm \<longleftrightarrow> respMethod sm = type \<or>
     respMethod sm = EAP_TYPE_EXPANDED \<and> respVendor sm = EAP_VENDOR_IETF \<and> respVendorMethod sm = type"

text \<open>The branch of the \<open>switch\<close> for each state.\<close>

definition eap_switch :: "'p eap_env \<Rightarrow> 'p eap_sm \<Rightarrow> 'p eap_sm ub" where
  "eap_switch env sm =
     (case EAP_state sm of
        EAP_INITIALIZE \<Rightarrow>
          if backend_auth (cfg env) then
            if \<not> rxResp sm then enter_SELECT_ACTION env False sm
            else if resp_is EAP_TYPE_NAK sm then enter_NAK env False sm
            else enter_PICK_UP_METHOD env False sm
          else enter_SELECT_ACTION env False sm
      | EAP_PICK_UP_METHOD \<Rightarrow>
          if currentMethod sm = EAP_TYPE_NONE then enter_SELECT_ACTION env False sm
          else enter_METHOD_RESPONSE env False sm
      | EAP_DISABLED \<Rightarrow>
          if portEnabled (eap_if sm) then enter_INITIALIZE env False sm else Some sm
      | EAP_IDLE \<Rightarrow>
          if retransWhile (eap_if sm) = 0 then
            if try_initiate_reauth sm
            then enter_SELECT_ACTION env False (sm\<lparr>try_initiate_reauth := False\<rparr>)
            else enter_RETRANSMIT env False sm
          else if eapResp (eap_if sm) then enter_RECEIVED env False sm
          else Some sm
      | EAP_RETRANSMIT \<Rightarrow>
          if retransCount sm > MaxRetrans sm then enter_TIMEOUT_FAILURE env False sm
          else enter_IDLE env False sm
      | EAP_RECEIVED \<Rightarrow>
          if rxResp sm \<and> respId sm = currentId sm \<and> resp_is EAP_TYPE_NAK sm \<and> methodState sm = METHOD_PROPOSED
          then enter_NAK env False sm
          else if rxResp sm \<and> respId sm = currentId sm \<and> resp_is (currentMethod sm) sm
          then enter_INTEGRITY_CHECK env False sm
          else enter_DISCARD env False sm
      | EAP_DISCARD \<Rightarrow> enter_IDLE env False sm
      | EAP_SEND_REQUEST \<Rightarrow> enter_IDLE env False sm
      | EAP_INTEGRITY_CHECK \<Rightarrow>
          if sm_ignore sm then enter_DISCARD env False sm else enter_METHOD_RESPONSE env False sm
      | EAP_METHOD_REQUEST \<Rightarrow>
          if sm_m sm = None then enter_FAILURE env False sm
          else do {
            sm \<leftarrow> enter_SEND_REQUEST env False sm;
            if eapNoReq (eap_if sm) \<and> \<not> eapReq (eap_if sm) then enter_FAILURE env False sm else Some sm }
      | EAP_METHOD_RESPONSE \<Rightarrow>
          if methodState sm = METHOD_END then enter_SELECT_ACTION env False sm
          else if method_pending sm = METHOD_PENDING_WAIT then Some sm
          else if method_pending sm = METHOD_PENDING_CONT
          then enter_METHOD_RESPONSE env False (sm\<lparr>method_pending := METHOD_PENDING_NONE\<rparr>)
          else enter_METHOD_REQUEST env False sm
      | EAP_PROPOSE_METHOD \<Rightarrow>
          if method_pending sm = METHOD_PENDING_WAIT
          then Some (sm\<lparr>user_eap_method_index := user_eap_method_index sm - 1\<rparr>)
          else if method_pending sm = METHOD_PENDING_CONT
          then enter_PROPOSE_METHOD env False (sm\<lparr>method_pending := METHOD_PENDING_NONE\<rparr>)
          else enter_METHOD_REQUEST env False sm
      | EAP_NAK \<Rightarrow> enter_SELECT_ACTION env False sm
      | EAP_SELECT_ACTION \<Rightarrow>
          (case sm_decision sm of
             DECISION_FAILURE \<Rightarrow> enter_FAILURE env False sm
           | DECISION_SUCCESS \<Rightarrow> enter_SUCCESS env False sm
           | DECISION_PASSTHROUGH \<Rightarrow> enter_INITIALIZE_PASSTHROUGH env False sm
           | DECISION_INITIATE_REAUTH_START \<Rightarrow> enter_INITIATE_REAUTH_START env False sm
           | DECISION_CONTINUE \<Rightarrow> enter_PROPOSE_METHOD env False sm)
      | EAP_INITIATE_REAUTH_START \<Rightarrow> enter_SEND_REQUEST env False sm
      | EAP_INITIATE_RECEIVED \<Rightarrow>
          if \<not> eap_server (cfg env) then enter_SELECT_ACTION env False sm else Some sm
      | EAP_TIMEOUT_FAILURE \<Rightarrow> Some sm
      | EAP_FAILURE \<Rightarrow> Some sm
      | EAP_SUCCESS \<Rightarrow> Some sm
      | EAP_INITIALIZE_PASSTHROUGH \<Rightarrow>
          if currentId sm = -1 then enter_AAA_IDLE env False sm else enter_AAA_REQUEST env False sm
      | EAP_IDLE2 \<Rightarrow>
          if eapResp (eap_if sm) then enter_RECEIVED2 env False sm
          else if retransWhile (eap_if sm) = 0 then enter_RETRANSMIT2 env False sm
          else Some sm
      | EAP_RETRANSMIT2 \<Rightarrow>
          if retransCount sm > MaxRetrans sm then enter_TIMEOUT_FAILURE2 env False sm
          else enter_IDLE2 env False sm
      | EAP_RECEIVED2 \<Rightarrow>
          if rxResp sm \<and> respId sm = currentId sm then enter_AAA_REQUEST env False sm
          else enter_DISCARD2 env False sm
      | EAP_DISCARD2 \<Rightarrow> enter_IDLE2 env False sm
      | EAP_SEND_REQUEST2 \<Rightarrow> enter_IDLE2 env False sm
      | EAP_AAA_REQUEST \<Rightarrow> enter_AAA_IDLE env False sm
      | EAP_AAA_RESPONSE \<Rightarrow> enter_SEND_REQUEST2 env False sm
      | EAP_AAA_IDLE \<Rightarrow>
          if aaaFail (eap_if sm) then enter_FAILURE2 env False sm
          else if aaaSuccess (eap_if sm) then enter_SUCCESS2 env False sm
          else if aaaEapReq (eap_if sm) then enter_AAA_RESPONSE env False sm
          else if aaaTimeout (eap_if sm) then enter_TIMEOUT_FAILURE2 env False sm
          else Some sm
      | EAP_TIMEOUT_FAILURE2 \<Rightarrow> Some sm
      | EAP_FAILURE2 \<Rightarrow> Some sm
      | EAP_SUCCESS2 \<Rightarrow> Some sm)"

definition sm_EAP_Step :: "'p eap_env \<Rightarrow> 'p eap_sm \<Rightarrow> 'p eap_sm ub" where
  "sm_EAP_Step env sm =
     (if eapRestart (eap_if sm) \<and> portEnabled (eap_if sm) then enter_INITIALIZE env True sm
      else if \<not> portEnabled (eap_if sm) then enter_DISABLED env True sm
      else if num_rounds sm > max_auth_rounds (cfg env) then
        if num_rounds sm = max_auth_rounds (cfg env) + 1
        then enter_FAILURE env True (sm\<lparr>num_rounds := num_rounds sm + 1\<rparr>) else Some sm
      else if num_rounds_short sm > max_auth_rounds_short (cfg env) then
        if num_rounds_short sm = max_auth_rounds_short (cfg env) + 1
        then enter_FAILURE env True (sm\<lparr>num_rounds_short := num_rounds_short sm + 1\<rparr>) else Some sm
      else eap_switch env sm)"

text \<open>The loop of \<open>eap_server_sm_step\<close>; \<open>res\<close> is the result so far.\<close>

partial_function (option) sm_step_loop :: "'p eap_env \<Rightarrow> int \<Rightarrow> 'p eap_sm \<Rightarrow> (int \<times> 'p eap_sm) ub" where
  "sm_step_loop env res sm =
     Option.bind (sm_EAP_Step env (sm\<lparr>sm_changed := False\<rparr>)) (\<lambda>sm.
       if sm_changed sm then sm_step_loop env 1 sm else Some (res, sm))"

definition eap_server_sm_step :: "'p eap_env \<Rightarrow> 'p eap_sm \<Rightarrow> (int \<times> 'p eap_sm) ub" where
  "eap_server_sm_step env sm = sm_step_loop env 0 sm"

declare try_another_method.simps [code] sm_step_loop.simps [code]

section \<open>Creation and notifications\<close>

text \<open>All fields of the structure are zero after \<open>os_zalloc\<close>.\<close>

definition eap_if_zero :: eap_eapol_interface where
  "eap_if_zero =
     \<lparr>eapResp = False, eapRespData = None, portEnabled = False, retransWhile = 0, eapRestart = False,
      eapSRTT = 0, eapRTTVAR = 0, eapReq = False, eapNoReq = False, eapSuccess = False, eapFail = False,
      eapTimeout = False, eapReqData = None, eapKeyData = None, eapSessionId = None,
      eapKeyAvailable = False, aaaEapReq = False, aaaEapNoReq = False, aaaSuccess = False,
      aaaFail = False, aaaEapReqData = None, aaaEapKeyData = None, aaaEapKeyAvailable = False,
      aaaMethodTimeout = 0, aaaEapResp = False, aaaEapRespData = None, aaaTimeout = False\<rparr>"

definition eap_sm_zero :: "'p eap_sm" where
  "eap_sm_zero =
     \<lparr>EAP_state = EAP_DISABLED, MaxRetrans = 0, eap_if = eap_if_zero, currentMethod = EAP_TYPE_NONE,
      currentId = 0, methodState = METHOD_PROPOSED, retransCount = 0, lastReqData = None,
      methodTimeout = 0, rxResp = False, rxInitiate = False, respId = 0, respMethod = EAP_TYPE_NONE,
      respVendor = 0, respVendorMethod = 0, sm_ignore = False, sm_decision = DECISION_SUCCESS,
      sm_m = None, sm_changed = False, eap_method_priv = None, sm_identity = None, serial_num = None,
      lastId = 0, sm_user = None, user_eap_method_index = 0, update_user = False, num_rounds = 0,
      num_rounds_short = 0, method_pending = METHOD_PENDING_NONE, start_reauth = False,
      initiate_reauth_start_sent = False, try_initiate_reauth = False, clk = 0\<rparr>"

text \<open>The machine as created, when its allocation succeeds.\<close>

definition eap_server_sm_init :: "'p eap_sm" where
  "eap_server_sm_init = eap_sm_zero\<lparr>MaxRetrans := 5\<rparr>"

definition eap_sm_notify_cached :: "'p eap_sm \<Rightarrow> 'p eap_sm" where
  "eap_sm_notify_cached sm = sm\<lparr>EAP_state := EAP_SUCCESS\<rparr>"

definition eap_sm_pending_cb :: "'p eap_sm \<Rightarrow> 'p eap_sm" where
  "eap_sm_pending_cb sm =
     (if method_pending sm = METHOD_PENDING_WAIT then sm\<lparr>method_pending := METHOD_PENDING_CONT\<rparr> else sm)"

definition eap_sm_method_pending :: "'p eap_sm \<Rightarrow> bool" where
  "eap_sm_method_pending sm \<longleftrightarrow> method_pending sm = METHOD_PENDING_WAIT"

definition eap_get_identity :: "'p eap_sm \<Rightarrow> bytes option" where
  "eap_get_identity sm = sm_identity sm"

definition eap_get_interface :: "'p eap_sm \<Rightarrow> eap_eapol_interface" where
  "eap_get_interface sm = eap_if sm"

end
