(* ===== verification/Eap_Server_Inv.thy ===== *)
theory Eap_Server_Inv
  imports Eap_Server
begin

unbundle bit_operations_syntax

text \<open>
  Properties of the EAP authenticator state machine: the contract its environment (methods,
  user database, lower layer) has to meet, the invariant of its states, that
  \<open>eap_server_sm_step\<close> always returns and keeps the invariant, and what its decisions
  mean. The contract is the locale \<open>eap_authenticator\<close>.
\<close>

section \<open>The contract of the methods and callbacks\<close>

definition user_ok :: "'p eap_sm \<Rightarrow> bool" where
  "user_ok sm \<longleftrightarrow> (\<forall>u. sm_user sm = Some u \<longrightarrow> length (u_methods u) = EAP_MAX_METHODS)"

text \<open>
  What an operation of a method may change of the state machine: the identity, the user and
  its method index, the pending flag (it may ask to wait, never to continue), the number of
  retransmissions and the certificate serial number.
\<close>

definition method_frame :: "'p eap_sm \<Rightarrow> 'p eap_sm \<Rightarrow> bool" where
  "method_frame sm sm' \<longleftrightarrow>
     EAP_state sm' = EAP_state sm \<and> eap_if sm' = eap_if sm \<and> currentMethod sm' = currentMethod sm
   \<and> currentId sm' = currentId sm \<and> methodState sm' = methodState sm \<and> retransCount sm' = retransCount sm
   \<and> lastReqData sm' = lastReqData sm \<and> methodTimeout sm' = methodTimeout sm \<and> rxResp sm' = rxResp sm
   \<and> rxInitiate sm' = rxInitiate sm \<and> respId sm' = respId sm \<and> respMethod sm' = respMethod sm
   \<and> respVendor sm' = respVendor sm \<and> respVendorMethod sm' = respVendorMethod sm
   \<and> sm_ignore sm' = sm_ignore sm \<and> sm_decision sm' = sm_decision sm \<and> sm_m sm' = sm_m sm
   \<and> sm_changed sm' = sm_changed sm \<and> eap_method_priv sm' = eap_method_priv sm \<and> lastId sm' = lastId sm
   \<and> num_rounds sm' = num_rounds sm \<and> num_rounds_short sm' = num_rounds_short sm
   \<and> start_reauth sm' = start_reauth sm \<and> initiate_reauth_start_sent sm' = initiate_reauth_start_sent sm
   \<and> try_initiate_reauth sm' = try_initiate_reauth sm
   \<and> (method_pending sm' = METHOD_PENDING_CONT \<longrightarrow> method_pending sm = METHOD_PENDING_CONT) \<and> user_ok sm'"

text \<open>
  Every operation returns on a state whose user list is well formed, within the frame; an
  initialisation that fails leaves the method index and the presence of an identity alone;
  the verdict on success is a function of the private data.
\<close>

definition method_contract :: "'p eap_method \<Rightarrow> bool" where
  "method_contract m \<longleftrightarrow> (\<forall>sm. user_ok sm \<longrightarrow>
     (\<exists>p sm'. m_init m sm = Some (p, sm') \<and> method_frame sm sm'
        \<and> (p = None \<longrightarrow> user_eap_method_index sm' = user_eap_method_index sm
             \<and> (sm_identity sm' = None \<longleftrightarrow> sm_identity sm = None)))
   \<and> (\<forall>f. m_initPickUp m = Some f \<longrightarrow> (\<exists>p sm'. f sm = Some (p, sm') \<and> method_frame sm sm'))
   \<and> (\<forall>p. \<exists>sm'. m_reset m sm p = Some sm' \<and> method_frame sm sm')
   \<and> (\<forall>p i. \<exists>r p' sm'. m_buildReq m sm p i = Some (r, p', sm') \<and> method_frame sm sm')
   \<and> (\<forall>f p. m_getTimeout m = Some f \<longrightarrow> (\<exists>t sm'. f sm p = Some (t, sm') \<and> method_frame sm sm'))
   \<and> (\<forall>f p d. m_check m = Some f \<longrightarrow> f sm p d \<noteq> None)
   \<and> (\<forall>p d. \<exists>p' sm'. m_process m sm p d = Some (p', sm') \<and> method_frame sm sm')
   \<and> (\<forall>f p. m_getKey m = Some f \<longrightarrow> f sm p \<noteq> None)
   \<and> (\<forall>f p. m_getSessionId m = Some f \<longrightarrow> f sm p \<noteq> None)
   \<and> (\<forall>p sm'. m_isSuccess m sm p = m_isSuccess m sm' p))"

text \<open>
  The environment: all registered methods meet the contract, the Identity method (when
  registered) can be started, no method is registered under the end marker of the lists, the
  user database returns complete method lists.
\<close>

definition eap_contract :: "'p eap_env \<Rightarrow> bool" where
  "eap_contract env \<longleftrightarrow>
     (\<forall>m \<in> set (eap_methods env). method_contract m)
   \<and> (\<forall>m sm sm'. eap_server_get_eap_method env EAP_VENDOR_IETF EAP_TYPE_IDENTITY = Some m \<longrightarrow>
        m_init m sm \<noteq> Some (None, sm'))
   \<and> eap_server_get_eap_method env EAP_VENDOR_IETF EAP_TYPE_NONE = None
   \<and> (\<forall>f c i p u. get_eap_user env = Some f \<longrightarrow> f c i p = Some u \<longrightarrow> length (u_methods u) = EAP_MAX_METHODS)"

text \<open>The lower layer never asks for EAP-Initiate/Re-auth-Start.\<close>

definition no_reauth_start :: "'p eap_env \<Rightarrow> bool" where
  "no_reauth_start env \<longleftrightarrow> (\<forall>sm. eap_get_erp_send_reauth_start env sm = 0)"

section \<open>Invariant\<close>

text \<open>
  The pointers: a selected method has its private data, is registered under the type in
  \<open>currentMethod\<close>, and the user is well formed.
\<close>

definition ptr_ok :: "'p eap_env \<Rightarrow> 'p eap_sm \<Rightarrow> bool" where
  "ptr_ok env sm \<longleftrightarrow> (sm_m sm = None \<longleftrightarrow> eap_method_priv sm = None)
     \<and> (\<forall>v t. sm_m sm = Some (v, t) \<longrightarrow> eap_server_get_eap_method env v t \<noteq> None
          \<and> currentMethod sm = (if v = EAP_VENDOR_IETF then t else EAP_TYPE_EXPANDED)) \<and> user_ok sm"

text \<open>What a call of the selected method needs of it.\<close>

definition mptr_ok :: "'p eap_env \<Rightarrow> 'p eap_sm \<Rightarrow> bool" where
  "mptr_ok env sm \<longleftrightarrow> (sm_m sm = None \<longleftrightarrow> eap_method_priv sm = None)
     \<and> (\<forall>v t. sm_m sm = Some (v, t) \<longrightarrow> eap_server_get_eap_method env v t \<noteq> None) \<and> user_ok sm"

lemma ptr_mptr: "ptr_ok env sm \<Longrightarrow> mptr_ok env sm"
  by (auto simp: ptr_ok_def mptr_ok_def)

text \<open>The states in which a method is being run.\<close>

definition needs_method :: "eap_state \<Rightarrow> bool" where
  "needs_method st \<longleftrightarrow> st \<in> {EAP_IDLE, EAP_RETRANSMIT, EAP_RECEIVED, EAP_DISCARD, EAP_SEND_REQUEST,
     EAP_INTEGRITY_CHECK, EAP_METHOD_RESPONSE}"

definition method_success :: "'p eap_env \<Rightarrow> 'p eap_sm \<Rightarrow> bool" where
  "method_success env sm \<longleftrightarrow> currentMethod sm \<noteq> EAP_TYPE_IDENTITY \<and>
     (\<exists>m p. the_method env sm = Some m \<and> eap_method_priv sm = Some p \<and> m_isSuccess m sm p)"

definition eap_inv :: "'p eap_env \<Rightarrow> 'p eap_sm \<Rightarrow> bool" where
  "eap_inv env sm \<longleftrightarrow> ptr_ok env sm
   \<and> (needs_method (EAP_state sm) \<longrightarrow> sm_m sm \<noteq> None)
   \<and> (EAP_state sm = EAP_INITIALIZE \<longrightarrow> sm_m sm = None \<and> (backend_auth (cfg env) \<longrightarrow> currentMethod sm = EAP_TYPE_NONE))
   \<and> (EAP_state sm = EAP_PICK_UP_METHOD \<longrightarrow> currentMethod sm \<noteq> EAP_TYPE_NONE \<longrightarrow> sm_m sm \<noteq> None)
   \<and> EAP_state sm \<noteq> EAP_INITIATE_REAUTH_START
   \<and> (EAP_state sm = EAP_SELECT_ACTION \<longrightarrow> sm_decision sm \<noteq> DECISION_INITIATE_REAUTH_START
        \<and> (sm_decision sm = DECISION_SUCCESS \<longrightarrow> method_success env sm))"

text \<open>
  How many more state changes \<open>eap_server_sm_step\<close> can make: a rank of the states, lowered by
  every change.
\<close>

definition base_rank :: "'p eap_sm \<Rightarrow> nat" where
  "base_rank sm =
     (let e = eapResp (eap_if sm); rw = retransWhile (eap_if sm); cont = method_pending sm = METHOD_PENDING_CONT in
      case EAP_state sm of
        EAP_SUCCESS \<Rightarrow> 0 | EAP_FAILURE \<Rightarrow> 0 | EAP_TIMEOUT_FAILURE \<Rightarrow> 0
      | EAP_SUCCESS2 \<Rightarrow> 0 | EAP_FAILURE2 \<Rightarrow> 0 | EAP_TIMEOUT_FAILURE2 \<Rightarrow> 0
      | EAP_DISCARD2 \<Rightarrow> if e then 8 else 1
      | EAP_SEND_REQUEST2 \<Rightarrow> if e then 8 else 1
      | EAP_AAA_RESPONSE \<Rightarrow> 2
      | EAP_AAA_IDLE \<Rightarrow> if aaaFail (eap_if sm) \<or> aaaSuccess (eap_if sm) \<or> aaaEapReq (eap_if sm) then 3 else 1
      | EAP_AAA_REQUEST \<Rightarrow> 2
      | EAP_INITIALIZE_PASSTHROUGH \<Rightarrow> 3
      | EAP_RECEIVED2 \<Rightarrow> 3
      | EAP_IDLE2 \<Rightarrow> if e then 4 else if rw = 0 then 6 else 0
      | EAP_RETRANSMIT2 \<Rightarrow> 5
      | EAP_SEND_REQUEST \<Rightarrow> if e then 20 else 9
      | EAP_DISCARD \<Rightarrow> if e then 20 else 9
      | EAP_METHOD_REQUEST \<Rightarrow> 10
      | EAP_INITIATE_REAUTH_START \<Rightarrow> 10
      | EAP_PROPOSE_METHOD \<Rightarrow> if cont then 12 else 11
      | EAP_SELECT_ACTION \<Rightarrow> 13
      | EAP_METHOD_RESPONSE \<Rightarrow> if cont then 15 else 14
      | EAP_NAK \<Rightarrow> 14
      | EAP_INITIATE_RECEIVED \<Rightarrow> 14
      | EAP_INTEGRITY_CHECK \<Rightarrow> 16
      | EAP_PICK_UP_METHOD \<Rightarrow> 16
      | EAP_RECEIVED \<Rightarrow> 17
      | EAP_INITIALIZE \<Rightarrow> 17
      | EAP_IDLE \<Rightarrow> if rw = 0 then 20 else if e then 18 else 1
      | EAP_RETRANSMIT \<Rightarrow> 19
      | EAP_DISABLED \<Rightarrow> 21)"

definition too_many_rounds :: "'p eap_env \<Rightarrow> 'p eap_sm \<Rightarrow> bool" where
  "too_many_rounds env sm \<longleftrightarrow> num_rounds sm > max_auth_rounds (cfg env)
     \<or> num_rounds_short sm > max_auth_rounds_short (cfg env)"

definition eap_rank :: "'p eap_env \<Rightarrow> 'p eap_sm \<Rightarrow> nat" where
  "eap_rank env sm =
     (if portEnabled (eap_if sm) then
        if eapRestart (eap_if sm) then 30
        else if too_many_rounds env sm then (if EAP_state sm = EAP_FAILURE then 0 else 1)
        else base_rank sm
      else if EAP_state sm = EAP_DISABLED then 0 else 1)"

section \<open>Lemmas on the helpers\<close>

lemma rto_loop_eq: "rto > 0 \<Longrightarrow> rto < 20 \<Longrightarrow> rto_loop n rto = min 20 (rto * 2 ^ n)"
proof (induction n arbitrary: rto)
  case (Suc n)
  have p: "(1::int) \<le> 2 ^ n" by simp
  show ?case
  proof (cases "rto * 2 < 20")
    case True
    with Suc show ?thesis by (simp add: ac_simps)
  next
    case False
    then have "20 * 1 \<le> rto * 2 * 2 ^ n" using p by (intro mult_mono) auto
    with False show ?thesis by (simp add: ac_simps)
  qed
qed simp

lemma timeout_nonzero [simp]: "eap_sm_calculateTimeout sm c a b t \<noteq> 0"
proof -
  have "(1::int) \<le> 2 ^ nat c" by simp
  then show ?thesis by (simp add: eap_sm_calculateTimeout_def rto_loop_eq min_def)
qed

lemma build_result_content:
  "eap_sm_build_result malloc code i = Some (if malloc 36 then Some [code, i, 0, 4] else None)"
proof -
  have small: "unat (4 :: u64) < PTRDIFF_LIMIT" by (simp add: PTRDIFF_LIMIT_def)
  have be: "WPA_PUT_BE16 4 = [0, 4]" by (simp add: WPA_PUT_BE16_def)
  show ?thesis
  proof (cases "wpabuf_alloc malloc 4")
    case None
    then show ?thesis using wpabuf_alloc_eq_None [OF small, of malloc]
      by (simp add: eap_sm_build_result_def msg_content_def sizeof_eap_hdr_def)
  next
    case (Some n)
    then obtain b where "wpabuf_put_data n [code, i, 0, 4] = Ok b" "wpabuf_content b = [code, i, 0, 4]"
      using alloc_and_puts [of 4 "[[code, i, 0, 4]]" malloc n] small by (auto simp: bindR_eq_Ok)
    with Some wpabuf_alloc_eq_None [OF small, of malloc] show ?thesis
      by (simp add: eap_sm_build_result_def msg_content_def sizeof_eap_hdr_def put_and_write be)
  qed
qed

lemma build_results [simp]:
  "eap_sm_buildSuccess env sm i = Some (if malloc_now env sm 36 then Some [EAP_CODE_SUCCESS, i, 0, 4] else None)"
  "eap_sm_buildFailure env sm i = Some (if malloc_now env sm 36 then Some [EAP_CODE_FAILURE, i, 0, 4] else None)"
  by (simp_all add: eap_sm_buildSuccess_def eap_sm_buildFailure_def build_result_content)

text \<open>Parsing a response sets the receive fields only and never faults.\<close>

lemma rx_update_exists:
  assumes "\<exists>sm'. r = Some sm' \<and> sm' = sm\<lparr>rxResp := rxResp sm', rxInitiate := rxInitiate sm', respId := respId sm',
      respMethod := respMethod sm', respVendor := respVendor sm', respVendorMethod := respVendorMethod sm'\<rparr>"
  shows "\<exists>rx ini i t v vm. r = Some (sm\<lparr>rxResp := rx, rxInitiate := ini, respId := i,
      respMethod := t, respVendor := v, respVendorMethod := vm\<rparr>)"
  using assms by blast

lemma parse_resp:
  "\<exists>rx ini i t v vm. eap_sm_parseEapResp sm resp = Some (sm\<lparr>rxResp := rx, rxInitiate := ini, respId := i,
      respMethod := t, respVendor := v, respVendorMethod := vm\<rparr>)"
proof (rule rx_update_exists, cases resp)
  case None
  then show "\<exists>sm'. eap_sm_parseEapResp sm resp = Some sm' \<and> sm' = sm\<lparr>rxResp := rxResp sm', rxInitiate := rxInitiate sm', respId := respId sm',
      respMethod := respMethod sm', respVendor := respVendor sm', respVendorMethod := respVendorMethod sm'\<rparr>"
    by (simp add: eap_sm_parseEapResp_def)
next
  case (Some buf)
  let ?goal = "\<exists>sm'. eap_sm_parseEapResp sm resp = Some sm' \<and> sm' = sm\<lparr>rxResp := rxResp sm', rxInitiate := rxInitiate sm', respId := respId sm',
      respMethod := respMethod sm', respVendor := respVendor sm', respVendorMethod := respVendorMethod sm'\<rparr>"
  show ?goal
  proof (cases "length buf < sizeof_eap_hdr")
    case True
    then show ?goal using Some by (simp add: eap_sm_parseEapResp_def)
  next
    case False
    then obtain n where n: "eap_hdr_length buf = Some n" using eap_hdr_length_some [of buf] by auto
    have p: "peek buf 0 = Some (buf ! 0)" "peek buf 1 = Some (buf ! 1)"
      using False by (auto simp: peek_def sizeof_eap_hdr_def)
    show ?goal
    proof (cases "sizeof_eap_hdr < n \<and> n \<le> length buf")
      case True
      then have t: "peek buf (int sizeof_eap_hdr) = Some (buf ! sizeof_eap_hdr)" by (simp add: peek_def)
      show ?goal
      proof (cases "sizeof_eap_hdr + 8 \<le> n")
        case T: True
        then have "3 \<le> length (drop (sizeof_eap_hdr + 1) buf)" "4 \<le> length (drop (sizeof_eap_hdr + 4) buf)"
          using True by auto
        then obtain v w where "WPA_GET_BE24 (drop (sizeof_eap_hdr + 1) buf) = Some v"
          "WPA_GET_BE32 (drop (sizeof_eap_hdr + 4) buf) = Some w" using get_be24_some get_be32_some by blast
        with Some False True T n p t show ?goal by (simp add: eap_sm_parseEapResp_def Let_def)
      next
        case F: False
        with Some False True n p t show ?goal by (simp add: eap_sm_parseEapResp_def Let_def)
      qed
    next
      case F: False
      with Some False n p show ?goal
        by (cases "length buf < n") (simp_all add: eap_sm_parseEapResp_def Let_def)
    qed
  qed
qed

lemma length_process_nak_loop: "length (process_nak_loop l i ms) = length ms"
  by (induction l i ms rule: process_nak_loop.induct) (subst process_nak_loop.simps, simp)

lemma get_method_Some:
  assumes "eap_server_get_eap_method env v t = Some m"
  shows "m \<in> set (eap_methods env)" "m_vendor m = v" "m_method m = t"
  using assms by (auto simp: eap_server_get_eap_method_def find_Some_iff)

lemma method_frame_refl: "user_ok sm \<Longrightarrow> method_frame sm sm"
  by (simp add: method_frame_def)

lemma process_nak_user:
  "user_ok sm \<Longrightarrow> \<exists>u. eap_sm_process_nak sm l = sm\<lparr>sm_user := u\<rparr> \<and> (\<forall>x. u = Some x \<longrightarrow> length (u_methods x) = EAP_MAX_METHODS)"
proof (cases "sm_user sm")
  case None
  then have "eap_sm_process_nak sm l = sm\<lparr>sm_user := None\<rparr>" by (simp add: eap_sm_process_nak_def)
  then show ?thesis by blast
qed (auto simp: eap_sm_process_nak_def user_ok_def length_process_nak_loop)

text \<open>A Nak changes the user's list, or the decision.\<close>

lemma policy_update:
  assumes "user_ok sm"
  obtains u d where "eap_sm_Policy_update sm l = sm\<lparr>sm_user := u, sm_decision := d\<rparr>"
    "\<forall>x. u = Some x \<longrightarrow> length (u_methods x) = EAP_MAX_METHODS"
proof -
  have "\<exists>u d. eap_sm_Policy_update sm l = sm\<lparr>sm_user := u, sm_decision := d\<rparr> \<and>
      (\<forall>x. u = Some x \<longrightarrow> length (u_methods x) = EAP_MAX_METHODS)"
  proof (cases "\<exists>k u. l = Some k \<and> sm_user sm = Some u \<and> \<not> u_phase2 u")
    case True
    then obtain k u where k: "l = Some k" "sm_user sm = Some u" "\<not> u_phase2 u" by blast
    obtain u' where "eap_sm_process_nak sm k = sm\<lparr>sm_user := u'\<rparr>" "\<forall>x. u' = Some x \<longrightarrow> length (u_methods x) = EAP_MAX_METHODS"
      using process_nak_user [OF assms] by blast
    then have "eap_sm_Policy_update sm l = sm\<lparr>sm_user := u', sm_decision := sm_decision sm\<rparr>"
      using k by (simp add: eap_sm_Policy_update_def)
    with \<open>\<forall>x. u' = Some x \<longrightarrow> length (u_methods x) = EAP_MAX_METHODS\<close> show ?thesis by blast
  next
    case False
    then have "eap_sm_Policy_update sm l = sm\<lparr>sm_user := sm_user sm, sm_decision := sm_decision sm\<rparr> \<or>
        eap_sm_Policy_update sm l = sm\<lparr>sm_user := sm_user sm, sm_decision := DECISION_FAILURE\<rparr>"
      by (auto simp: eap_sm_Policy_update_def split: option.splits)
    with assms show ?thesis unfolding user_ok_def by blast
  qed
  with that show ?thesis by blast
qed

lemma policy_update_None [simp]: "eap_sm_Policy_update sm None = sm"
  by (simp add: eap_sm_Policy_update_def)

text \<open>What the entry actions keep of the fields that drive the loop.\<close>

definition keeps :: "'p eap_sm \<Rightarrow> 'p eap_sm \<Rightarrow> bool" where
  "keeps sm sm' \<longleftrightarrow> portEnabled (eap_if sm') = portEnabled (eap_if sm)
   \<and> eapRestart (eap_if sm') = eapRestart (eap_if sm) \<and> num_rounds sm' = num_rounds sm
   \<and> (num_rounds_short sm' = num_rounds_short sm \<or> num_rounds_short sm' = 0)
   \<and> (method_pending sm' = METHOD_PENDING_CONT \<longrightarrow> method_pending sm = METHOD_PENDING_CONT)
   \<and> (eapResp (eap_if sm') \<longrightarrow> eapResp (eap_if sm))
   \<and> (aaaSuccess (eap_if sm') \<longrightarrow> aaaSuccess (eap_if sm))"

lemmas entry_simps = SM_ENTRY_def on_if_def tick_def keeps_def ptr_ok_def user_ok_def

lemma user_method_at_some: "user_ok sm \<Longrightarrow> \<exists>r. user_method_at sm = Some r"
  by (auto simp: user_method_at_def user_ok_def peek_def EAP_MAX_METHODS_def split: option.splits)

lemma first_is_identity_some: "user_ok sm \<Longrightarrow> \<exists>r. first_is_identity (sm_user sm) = Some r"
  by (auto simp: first_is_identity_def user_ok_def peek_def EAP_MAX_METHODS_def split: option.splits)

section \<open>The entry actions\<close>

lemma contract_ops:
  assumes "method_contract m" "user_ok sm"
  shows contract_init: "\<exists>p sm'. m_init m sm = Some (p, sm') \<and> method_frame sm sm'
        \<and> (p = None \<longrightarrow> user_eap_method_index sm' = user_eap_method_index sm
             \<and> (sm_identity sm' = None \<longleftrightarrow> sm_identity sm = None))"
    and contract_pickup: "m_initPickUp m = Some f \<Longrightarrow> \<exists>p sm'. f sm = Some (p, sm') \<and> method_frame sm sm'"
    and contract_reset: "\<exists>sm'. m_reset m sm p = Some sm' \<and> method_frame sm sm'"
    and contract_build: "\<exists>r p' sm'. m_buildReq m sm p i = Some (r, p', sm') \<and> method_frame sm sm'"
    and contract_timeout: "m_getTimeout m = Some h \<Longrightarrow> \<exists>t sm'. h sm p = Some (t, sm') \<and> method_frame sm sm'"
    and contract_check: "m_check m = Some c \<Longrightarrow> \<exists>b. c sm p d = Some b"
    and contract_process: "\<exists>p' sm'. m_process m sm p d = Some (p', sm') \<and> method_frame sm sm'"
    and contract_key: "\<exists>r. opt_get (m_getKey m) sm p = Some r"
    and contract_session: "\<exists>r. opt_get (m_getSessionId m) sm p = Some r"
  using assms by (simp_all add: method_contract_def opt_get_def split: option.split)

lemma contract_success: "method_contract m \<Longrightarrow> user_ok sm \<Longrightarrow> m_isSuccess m sm' p = m_isSuccess m sm p"
  unfolding method_contract_def by metis

locale eap_authenticator =
  fixes env :: "'p eap_env"
  assumes contract: "eap_contract env"
begin

lemma method_contract_of:
  assumes "the_method env sm = Some m" shows "method_contract m"
  using assms contract get_method_Some(1) by (fastforce simp: the_method_def eap_contract_def bind_eq_Some_conv)

lemma m_the_method:
  assumes "mptr_ok env sm" "sm_m sm \<noteq> None"
  obtains m p where "the_method env sm = Some m" "eap_method_priv sm = Some p" "method_contract m"
proof -
  obtain v t where "sm_m sm = Some (v, t)" using assms(2) by auto
  then obtain m where "the_method env sm = Some m" using assms(1) by (auto simp: mptr_ok_def the_method_def)
  with that assms method_contract_of show ?thesis by (auto simp: mptr_ok_def)
qed

lemma m_reset_ok:
  assumes "mptr_ok env sm" "sm_m sm \<noteq> None"
  shows "\<exists>sm'. reset_method env sm = Some (sm'\<lparr>eap_method_priv := None\<rparr>) \<and> method_frame sm sm'"
proof -
  obtain m p where m: "the_method env sm = Some m" "eap_method_priv sm = Some p" "method_contract m"
    using m_the_method [OF assms] by metis
  then have "\<exists>sm'. m_reset m sm p = Some sm' \<and> method_frame sm sm'"
    using assms(1) contract_reset by (auto simp: mptr_ok_def)
  with m show ?thesis by (auto simp: reset_method_def)
qed

lemma m_reset_if_ok:
  assumes "mptr_ok env sm"
  shows "\<exists>sm'. reset_method_if env sm = Some (sm'\<lparr>eap_method_priv := None\<rparr>) \<and> method_frame sm sm'"
proof (cases "sm_m sm = None")
  case True
  then have "reset_method_if env sm = Some (sm\<lparr>eap_method_priv := None\<rparr>)"
    using assms by (simp add: mptr_ok_def reset_method_if_def)
  then show ?thesis using assms method_frame_refl by (auto simp: mptr_ok_def)
next
  case False
  then have "reset_method_if env sm = reset_method env sm" using assms by (auto simp: mptr_ok_def reset_method_if_def)
  then show ?thesis using m_reset_ok [OF assms False] by simp
qed

lemmas the_method_some = m_the_method [OF ptr_mptr]
lemmas reset_if_ok = m_reset_if_ok [OF ptr_mptr]

lemma enter_INITIALIZE_ok:
  assumes "ptr_ok env sm"
  shows "\<exists>sm'. enter_INITIALIZE env g sm = Some sm' \<and> ptr_ok env sm' \<and> EAP_state sm' = EAP_INITIALIZE
    \<and> sm_m sm' = None \<and> num_rounds sm' = 0 \<and> num_rounds_short sm' = 0 \<and> \<not> eapRestart (eap_if sm')
    \<and> portEnabled (eap_if sm') = portEnabled (eap_if sm) \<and> method_pending sm' = METHOD_PENDING_NONE
    \<and> (backend_auth (cfg env) \<longrightarrow> currentMethod sm' = EAP_TYPE_NONE)
    \<and> \<not> eapSuccess (eap_if sm') \<and> aaaSuccess (eap_if sm') = aaaSuccess (eap_if sm)"
proof -
  define sm1 where "sm1 = SM_ENTRY EAP_INITIALIZE g sm"
  define sm2 where "sm2 = (if eapRestart (eap_if sm1) \<and> \<not> eap_server (cfg env) \<and> sm_identity sm1 \<noteq> None
     then eap_server_clear_identity sm1 else sm1)"
  define sm3 where "sm3 = on_if (\<lambda>i. i\<lparr>eapSuccess := False, eapFail := False, eapTimeout := False, eapKeyData := None,
                eapSessionId := None, eapKeyAvailable := False, eapRestart := False\<rparr>) (sm2\<lparr>try_initiate_reauth := False, currentId := -1\<rparr>)"
  have "ptr_ok env sm3" using assms by (auto simp: sm3_def sm2_def sm1_def entry_simps eap_server_clear_identity_def)
  then obtain sm4 where r: "reset_method_if env sm3 = Some (sm4\<lparr>eap_method_priv := None\<rparr>)" "method_frame sm3 sm4"
    using reset_if_ok by blast
  define sm5 where "sm5 = sm4\<lparr>eap_method_priv := None, sm_m := None, user_eap_method_index := 0\<rparr>"
  have f: "EAP_state sm5 = EAP_INITIALIZE" "portEnabled (eap_if sm5) = portEnabled (eap_if sm)"
    "\<not> eapRestart (eap_if sm5)" "user_ok sm5" "sm_m sm5 = None" "eap_method_priv sm5 = None" "\<not> eapSuccess (eap_if sm5)"
    "aaaSuccess (eap_if sm5) = aaaSuccess (eap_if sm)"
    using r(2) by (auto simp: sm5_def method_frame_def sm3_def sm2_def sm1_def entry_simps eap_server_clear_identity_def)
  have e: "enter_INITIALIZE env g sm = (do { sm \<leftarrow> (if backend_auth (cfg env) then do {
              sm \<leftarrow> eap_sm_parseEapResp (sm5\<lparr>currentMethod := EAP_TYPE_NONE\<rparr>) (eapRespData (eap_if sm5));
              Some (if rxResp sm then sm\<lparr>currentId := respId sm\<rparr> else sm) }
            else Some sm5);
     Some (sm\<lparr>num_rounds := 0, num_rounds_short := 0, method_pending := METHOD_PENDING_NONE\<rparr>) })"
    using r(1) unfolding enter_INITIALIZE_def Let_def sm1_def [symmetric] sm2_def [symmetric] sm3_def [symmetric]
    by (simp add: sm5_def)
  obtain rx ini i t v vm where p: "eap_sm_parseEapResp (sm5\<lparr>currentMethod := EAP_TYPE_NONE\<rparr>) (eapRespData (eap_if sm5)) =
      Some (sm5\<lparr>currentMethod := EAP_TYPE_NONE, rxResp := rx, rxInitiate := ini, respId := i,
      respMethod := t, respVendor := v, respVendorMethod := vm\<rparr>)"
    using parse_resp by blast
  show ?thesis unfolding e using f p by (auto simp: ptr_ok_def user_ok_def)
qed

lemma enter_PICK_UP_METHOD_ok:
  assumes "ptr_ok env sm" "currentMethod sm = EAP_TYPE_NONE" "sm_m sm = None"
  shows "\<exists>sm'. enter_PICK_UP_METHOD env g sm = Some sm' \<and> ptr_ok env sm' \<and> EAP_state sm' = EAP_PICK_UP_METHOD
    \<and> keeps sm sm' \<and> (currentMethod sm' \<noteq> EAP_TYPE_NONE \<longrightarrow> sm_m sm' \<noteq> None)
    \<and> eapSuccess (eap_if sm') = eapSuccess (eap_if sm)"
proof -
  define sm1 where "sm1 = SM_ENTRY EAP_PICK_UP_METHOD g sm"
  have f1: "ptr_ok env sm1" "keeps sm sm1" "EAP_state sm1 = EAP_PICK_UP_METHOD" "sm_m sm1 = None"
    "currentMethod sm1 = EAP_TYPE_NONE" "eapSuccess (eap_if sm1) = eapSuccess (eap_if sm)" "eap_method_priv sm1 = None"
    using assms by (auto simp: sm1_def entry_simps)
  show ?thesis
  proof (cases "eap_sm_Policy_doPickUp (respMethod sm1)")
    case False
    then have "enter_PICK_UP_METHOD env g sm = Some sm1" by (simp add: enter_PICK_UP_METHOD_def sm1_def [symmetric])
    with f1 show ?thesis by auto
  next
    case True
    define sm2 where "sm2 = sm1\<lparr>currentMethod := respMethod sm1\<rparr>"
    have r: "reset_method_if env sm2 = Some sm2" using f1 by (simp add: reset_method_if_def sm2_def)
    let ?get = "eap_server_get_eap_method env EAP_VENDOR_IETF (currentMethod sm2)"
    have e: "enter_PICK_UP_METHOD env g sm =
      (case ?get of None \<Rightarrow> Some (sm2\<lparr>sm_m := None, currentMethod := EAP_TYPE_NONE\<rparr>)
       | Some m \<Rightarrow> (case m_initPickUp m of None \<Rightarrow> Some (sm2\<lparr>sm_m := None, currentMethod := EAP_TYPE_NONE\<rparr>)
           | Some f \<Rightarrow> do { (priv, sm) \<leftarrow> f (sm2\<lparr>sm_m := Some (EAP_VENDOR_IETF, currentMethod sm2)\<rparr>);
              let sm = sm\<lparr>eap_method_priv := priv\<rparr>;
              Some (if priv = None then sm\<lparr>sm_m := None, currentMethod := EAP_TYPE_NONE\<rparr> else sm) }))"
      using True r by (simp add: enter_PICK_UP_METHOD_def sm1_def [symmetric] sm2_def [symmetric])
    have none: ?thesis if "enter_PICK_UP_METHOD env g sm = Some (sm2\<lparr>sm_m := None, currentMethod := EAP_TYPE_NONE\<rparr>)"
      using that f1 by (auto simp: sm2_def keeps_def ptr_ok_def user_ok_def)
    show ?thesis
    proof (cases "\<exists>m f. ?get = Some m \<and> m_initPickUp m = Some f")
      case False
      then have "enter_PICK_UP_METHOD env g sm = Some (sm2\<lparr>sm_m := None, currentMethod := EAP_TYPE_NONE\<rparr>)"
        unfolding e by (auto split: option.splits)
      then show ?thesis by (rule none)
    next
      case True
      then obtain m f where m: "?get = Some m" "m_initPickUp m = Some f" by blast
      have "user_ok (sm2\<lparr>sm_m := Some (EAP_VENDOR_IETF, currentMethod sm2)\<rparr>)"
        using f1 by (simp add: sm2_def ptr_ok_def user_ok_def)
      moreover have "method_contract m" using get_method_Some(1) [OF m(1)] contract by (simp add: eap_contract_def)
      ultimately obtain p sm3 where p: "f (sm2\<lparr>sm_m := Some (EAP_VENDOR_IETF, currentMethod sm2)\<rparr>) = Some (p, sm3)"
        "method_frame (sm2\<lparr>sm_m := Some (EAP_VENDOR_IETF, currentMethod sm2)\<rparr>) sm3"
        using contract_pickup m(2) by blast
      let ?r = "if p = None then sm3\<lparr>eap_method_priv := p, sm_m := None, currentMethod := EAP_TYPE_NONE\<rparr> else sm3\<lparr>eap_method_priv := p\<rparr>"
      have "enter_PICK_UP_METHOD env g sm = Some ?r" unfolding e using m p by (simp add: Let_def)
      moreover have "ptr_ok env ?r" using p(2) m(1) by (auto simp: ptr_ok_def method_frame_def user_ok_def)
      moreover have "keeps sm ?r" using p(2) f1(2) by (auto simp: keeps_def method_frame_def sm2_def)
      moreover have "EAP_state ?r = EAP_PICK_UP_METHOD" "eapSuccess (eap_if ?r) = eapSuccess (eap_if sm)"
        "currentMethod ?r \<noteq> EAP_TYPE_NONE \<longrightarrow> sm_m ?r \<noteq> None"
        using p(2) f1 by (auto simp: method_frame_def sm2_def)
      ultimately show ?thesis by blast
    qed
  qed
qed

text \<open>The common part of what the actions establish.\<close>

definition entered :: "eap_state \<Rightarrow> 'p eap_sm \<Rightarrow> 'p eap_sm \<Rightarrow> bool" where
  "entered st sm sm' \<longleftrightarrow> ptr_ok env sm' \<and> EAP_state sm' = st \<and> keeps sm sm'
     \<and> eapSuccess (eap_if sm') = eapSuccess (eap_if sm)"

lemma enter_IDLE_gen_ok:
  assumes "ptr_ok env sm"
  shows "\<exists>sm'. enter_IDLE_gen st g sm = Some sm' \<and> entered st sm sm' \<and> sm_m sm' = sm_m sm
    \<and> retransWhile (eap_if sm') \<noteq> 0 \<and> eapResp (eap_if sm') = eapResp (eap_if sm)"
  using assms by (auto simp: enter_IDLE_gen_def Let_def entered_def entry_simps)

lemma enter_RETRANSMIT_gen_ok:
  assumes "ptr_ok env sm"
  shows "\<exists>sm'. enter_RETRANSMIT_gen st env g sm = Some sm' \<and> entered st sm sm' \<and> sm_m sm' = sm_m sm"
  using assms by (auto simp: enter_RETRANSMIT_gen_def Let_def entered_def entry_simps split: prod.split)

lemma enter_RECEIVED_ok:
  assumes "ptr_ok env sm"
  shows "\<exists>sm'. enter_RECEIVED env g sm = Some sm' \<and> ptr_ok env sm' \<and> EAP_state sm' = EAP_RECEIVED \<and> sm_m sm' = sm_m sm
    \<and> portEnabled (eap_if sm') = portEnabled (eap_if sm) \<and> eapRestart (eap_if sm') = eapRestart (eap_if sm)
    \<and> eapSuccess (eap_if sm') = eapSuccess (eap_if sm) \<and> aaaSuccess (eap_if sm') = aaaSuccess (eap_if sm)"
proof -
  obtain rx ini i t v vm where p: "eap_sm_parseEapResp (SM_ENTRY EAP_RECEIVED g sm) (eapRespData (eap_if (SM_ENTRY EAP_RECEIVED g sm))) =
      Some ((SM_ENTRY EAP_RECEIVED g sm)\<lparr>rxResp := rx, rxInitiate := ini, respId := i,
      respMethod := t, respVendor := v, respVendorMethod := vm\<rparr>)"
    using parse_resp by blast
  show ?thesis using assms unfolding enter_RECEIVED_def Let_def p by (auto simp: entry_simps split: option.split)
qed

lemma enter_RECEIVED2_ok:
  assumes "ptr_ok env sm"
  shows "\<exists>sm'. enter_RECEIVED2 env g sm = Some sm' \<and> entered EAP_RECEIVED2 sm sm' \<and> sm_m sm' = sm_m sm"
proof -
  obtain rx ini i t v vm where p: "eap_sm_parseEapResp (SM_ENTRY EAP_RECEIVED2 g sm) (eapRespData (eap_if (SM_ENTRY EAP_RECEIVED2 g sm))) =
      Some ((SM_ENTRY EAP_RECEIVED2 g sm)\<lparr>rxResp := rx, rxInitiate := ini, respId := i,
      respMethod := t, respVendor := v, respVendorMethod := vm\<rparr>)"
    using parse_resp by blast
  show ?thesis using assms unfolding enter_RECEIVED2_def Let_def p by (auto simp: entered_def entry_simps)
qed

lemma enter_DISCARD_gen_ok:
  assumes "ptr_ok env sm"
  shows "\<exists>sm'. enter_DISCARD_gen st g sm = Some sm' \<and> entered st sm sm' \<and> sm_m sm' = sm_m sm \<and> \<not> eapResp (eap_if sm')"
  using assms by (auto simp: enter_DISCARD_gen_def entered_def entry_simps)

lemma enter_SEND_REQUEST_ok:
  assumes "ptr_ok env sm"
  shows "\<exists>sm'. enter_SEND_REQUEST env g sm = Some sm' \<and> entered EAP_SEND_REQUEST sm sm' \<and> sm_m sm' = sm_m sm \<and> \<not> eapResp (eap_if sm')"
  using assms by (auto simp: enter_SEND_REQUEST_def send_request_def Let_def entered_def entry_simps split: prod.split option.split)

lemma enter_SEND_REQUEST2_ok:
  assumes "ptr_ok env sm"
  shows "\<exists>sm'. enter_SEND_REQUEST2 env g sm = Some sm' \<and> entered EAP_SEND_REQUEST2 sm sm' \<and> sm_m sm' = sm_m sm \<and> \<not> eapResp (eap_if sm')"
  using assms by (auto simp: enter_SEND_REQUEST2_def send_request_def Let_def entered_def entry_simps split: prod.split option.split)

lemma enter_INTEGRITY_CHECK_ok:
  assumes "ptr_ok env sm" "sm_m sm \<noteq> None"
  shows "\<exists>sm'. enter_INTEGRITY_CHECK env g sm = Some sm' \<and> entered EAP_INTEGRITY_CHECK sm sm' \<and> sm_m sm' = sm_m sm"
proof -
  define sm1 where "sm1 = SM_ENTRY EAP_INTEGRITY_CHECK g sm"
  have f1: "ptr_ok env sm1" "sm_m sm1 \<noteq> None" "entered EAP_INTEGRITY_CHECK sm sm1" "sm_m sm1 = sm_m sm"
    using assms by (auto simp: sm1_def entered_def entry_simps)
  have ign: "entered EAP_INTEGRITY_CHECK sm (sm1\<lparr>sm_ignore := b\<rparr>)" for b
    using f1 by (auto simp: entered_def keeps_def ptr_ok_def user_ok_def)
  obtain m p where m: "the_method env sm1 = Some m" "eap_method_priv sm1 = Some p" "method_contract m"
    using the_method_some [OF f1(1,2)] by metis
  show ?thesis
  proof (cases rule: eap_hdr_len_valid_cases [of "eapRespData (eap_if sm1)" 1])
    case invalid
    then show ?thesis using ign f1 by (simp add: enter_INTEGRITY_CHECK_def sm1_def [symmetric])
  next
    case (valid d n)
    show ?thesis
    proof (cases "m_check m")
      case None
      then show ?thesis using valid m f1 by (simp add: enter_INTEGRITY_CHECK_def sm1_def [symmetric])
    next
      case (Some c)
      moreover have "user_ok sm1" using f1(1) by (simp add: ptr_ok_def)
      ultimately obtain b where "c sm1 p d = Some b" using contract_check [OF m(3)] by blast
      then show ?thesis using Some valid m ign f1 by (simp add: enter_INTEGRITY_CHECK_def sm1_def [symmetric])
    qed
  qed
qed

lemma enter_METHOD_REQUEST_ok:
  assumes "ptr_ok env sm"
  shows "\<exists>sm'. enter_METHOD_REQUEST env g sm = Some sm' \<and> entered EAP_METHOD_REQUEST sm sm' \<and> sm_m sm' = sm_m sm"
proof -
  define sm1 where "sm1 = SM_ENTRY EAP_METHOD_REQUEST g sm"
  have f1: "ptr_ok env sm1" "sm_m sm1 = sm_m sm" "entered EAP_METHOD_REQUEST sm sm1"
    using assms by (auto simp: sm1_def entered_def entry_simps)
  show ?thesis
  proof (cases "sm_m sm1 = None")
    case True
    then show ?thesis using f1 by (simp add: enter_METHOD_REQUEST_def sm1_def [symmetric])
  next
    case False
    define sm2 where "sm2 = (let s = tick (sm1\<lparr>currentId := eap_sm_nextId env sm1 (currentId sm1)\<rparr>) in s\<lparr>lastId := currentId s\<rparr>)"
    obtain m p where m: "the_method env sm1 = Some m" "eap_method_priv sm1 = Some p" "method_contract m"
      using the_method_some [OF f1(1) False] by metis
    have f2: "ptr_ok env sm2" "eap_method_priv sm2 = Some p" "entered EAP_METHOD_REQUEST sm sm2" "sm_m sm2 = sm_m sm"
      using f1 m by (auto simp: sm2_def entered_def keeps_def ptr_ok_def user_ok_def tick_def)
    obtain r p' sm3 where b: "m_buildReq m sm2 p (word_of_int (currentId sm2)) = Some (r, p', sm3)" "method_frame sm2 sm3"
      using contract_build [OF m(3)] f2(1) by (fastforce simp: ptr_ok_def)
    define sm4 where "sm4 = on_if (\<lambda>i. i\<lparr>eapReqData := r\<rparr>) (sm3\<lparr>eap_method_priv := Some p'\<rparr>)"
    have f4: "entered EAP_METHOD_REQUEST sm sm4" "sm_m sm4 = sm_m sm" "user_ok sm4" "eap_method_priv sm4 = Some p'"
      using b(2) f2 by (auto simp: sm4_def entered_def keeps_def ptr_ok_def user_ok_def method_frame_def on_if_def)
    have e: "enter_METHOD_REQUEST env g sm = (case m_getTimeout m of None \<Rightarrow> Some (sm4\<lparr>methodTimeout := 0\<rparr>)
       | Some f \<Rightarrow> do { (t, sm) \<leftarrow> f sm4 p'; Some (sm\<lparr>methodTimeout := t\<rparr>) })"
      using m b f2(2) unfolding sm4_def
      by (simp add: enter_METHOD_REQUEST_def sm1_def [symmetric] Let_def False sm2_def tick_def)
    show ?thesis
    proof (cases "m_getTimeout m")
      case None
      then show ?thesis unfolding e using f4 by (auto simp: entered_def keeps_def ptr_ok_def user_ok_def)
    next
      case (Some h)
      then obtain t sm5 where t: "h sm4 p' = Some (t, sm5)" "method_frame sm4 sm5"
        using contract_timeout [OF m(3) f4(3)] by blast
      then show ?thesis unfolding e using f4 Some
        by (auto simp: entered_def keeps_def ptr_ok_def user_ok_def method_frame_def)
    qed
  qed
qed

lemma enter_METHOD_RESPONSE_ok:
  assumes "ptr_ok env sm" "sm_m sm \<noteq> None"
  shows "\<exists>sm'. enter_METHOD_RESPONSE env g sm = Some sm' \<and> entered EAP_METHOD_RESPONSE sm sm' \<and> sm_m sm' = sm_m sm"
proof -
  define sm1 where "sm1 = SM_ENTRY EAP_METHOD_RESPONSE g sm"
  have f1: "ptr_ok env sm1" "sm_m sm1 \<noteq> None" "entered EAP_METHOD_RESPONSE sm sm1" "sm_m sm1 = sm_m sm"
    using assms by (auto simp: sm1_def entered_def entry_simps)
  obtain m p where m: "the_method env sm1 = Some m" "eap_method_priv sm1 = Some p" "method_contract m"
    using the_method_some [OF f1(1,2)] by metis
  show ?thesis
  proof (cases rule: eap_hdr_len_valid_cases [of "eapRespData (eap_if sm1)" 1])
    case invalid
    then show ?thesis using f1 by (simp add: enter_METHOD_RESPONSE_def sm1_def [symmetric])
  next
    case (valid d n)
    obtain p' sm2 where pr: "m_process m sm1 p d = Some (p', sm2)" "method_frame sm1 sm2"
      using contract_process [OF m(3)] f1(1) by (fastforce simp: ptr_ok_def)
    define sm3 where "sm3 = sm2\<lparr>eap_method_priv := Some p'\<rparr>"
    have f3: "entered EAP_METHOD_RESPONSE sm sm3" "sm_m sm3 = sm_m sm" "user_ok sm3" "eap_method_priv sm3 = Some p'"
      using pr(2) f1 by (auto simp: sm3_def entered_def keeps_def ptr_ok_def user_ok_def method_frame_def)
    obtain k where k: "opt_get (m_getKey m) sm3 p' = Some k" using contract_key [OF m(3) f3(3)] by blast
    define sm4 where "sm4 = on_if (\<lambda>i. i\<lparr>eapKeyData := k\<rparr>) sm3"
    have "user_ok sm4" using f3(3) by (simp add: sm4_def user_ok_def on_if_def)
    then obtain q where q: "opt_get (m_getSessionId m) sm4 p' = Some q" using contract_session [OF m(3)] by blast
    show ?thesis using valid m pr(1) k q f3 sm4_def
      by (simp add: enter_METHOD_RESPONSE_def sm1_def [symmetric] sm3_def [symmetric] Let_def)
        (auto simp: entered_def keeps_def ptr_ok_def user_ok_def on_if_def)
  qed
qed

lemma enter_NAK_ok:
  assumes "ptr_ok env sm"
  shows "\<exists>sm'. enter_NAK env g sm = Some sm' \<and> entered EAP_NAK sm sm' \<and> sm_m sm' = None"
proof -
  define sm1 where "sm1 = SM_ENTRY EAP_NAK g sm"
  have f1: "ptr_ok env sm1" "entered EAP_NAK sm sm1" using assms by (auto simp: sm1_def entered_def entry_simps)
  have "\<exists>sm2. (if eap_method_priv sm1 \<noteq> None then reset_method env sm1 else Some sm1) = Some (sm2\<lparr>eap_method_priv := None\<rparr>)
      \<and> method_frame sm1 sm2"
    using reset_if_ok [OF f1(1)] f1(1) by (auto simp: reset_method_if_def ptr_ok_def)
  then obtain sm2 where r: "(if eap_method_priv sm1 \<noteq> None then reset_method env sm1 else Some sm1) = Some (sm2\<lparr>eap_method_priv := None\<rparr>)"
    "method_frame sm1 sm2" by blast
  define sm3 where "sm3 = sm2\<lparr>eap_method_priv := None, sm_m := None\<rparr>"
  have f3: "entered EAP_NAK sm sm3" "sm_m sm3 = None" "user_ok sm3" "eap_method_priv sm3 = None"
    using r(2) f1 by (auto simp: sm3_def entered_def keeps_def ptr_ok_def user_ok_def method_frame_def)
  have upd: "\<exists>sm'. Some (eap_sm_Policy_update sm3 l) = Some sm' \<and> entered EAP_NAK sm sm' \<and> sm_m sm' = None" for l
  proof -
    obtain u d where "eap_sm_Policy_update sm3 l = sm3\<lparr>sm_user := u, sm_decision := d\<rparr>"
      "\<forall>x. u = Some x \<longrightarrow> length (u_methods x) = EAP_MAX_METHODS" by (rule policy_update [OF f3(3)])
    then show ?thesis using f3 by (auto simp: entered_def keeps_def ptr_ok_def user_ok_def)
  qed
  have e: "enter_NAK env g sm = (do { ok \<leftarrow> eap_hdr_len_valid (eapRespData (eap_if sm3)) 1;
     if \<not> ok then Some sm3
     else do {
       resp \<leftarrow> eapRespData (eap_if sm3);
       if length resp > sizeof_eap_hdr then do {
         plen \<leftarrow> eap_hdr_length resp;
         let len = (if plen > length resp then length resp else plen) - sizeof_eap_hdr;
         t \<leftarrow> peek resp (int sizeof_eap_hdr);
         Some (eap_sm_Policy_update sm3
           (if (ucast t :: u32) = EAP_TYPE_NAK
            then Some (take (len - 1) (drop (sizeof_eap_hdr + 1) resp)) else None)) }
       else Some (eap_sm_Policy_update sm3 None) } })"
    unfolding enter_NAK_def sm1_def [symmetric] sm3_def Let_def r(1) by simp
  show ?thesis
  proof (cases rule: eap_hdr_len_valid_cases [of "eapRespData (eap_if sm3)" 1])
    case invalid
    then show ?thesis unfolding e using f3 by simp
  next
    case (valid d n)
    then have "peek d (int sizeof_eap_hdr) = Some (d ! sizeof_eap_hdr)" "sizeof_eap_hdr < length d" by (auto simp: peek_def)
    with valid upd show ?thesis unfolding e by (simp add: Let_def)
  qed
qed

end

context eap_authenticator
begin

lemma entered_trans:
  assumes "entered st sm sm1" "entered st sm1 sm2" shows "entered st sm sm2"
  using assms by (auto simp: entered_def keeps_def)

text \<open>One round of the loop, behind the choice of the method \<open>(v, t)\<close>.\<close>

lemma try_round:
  assumes "ptr_ok env sm" "eap_sm_Policy_getNextMethod sm = Some ((v, t), sm1)"
    "user_ok sm1" "method_frame sm sm1"
  obtains (stop) sm' where "try_another_method env sm = Some sm'" "entered (EAP_state sm) sm sm'"
  | (again) m sm2 sm' where "eap_server_get_eap_method env v t = Some m" "m_init m sm2 = Some (None, sm')"
      "try_another_method env sm = try_another_method env (sm'\<lparr>eap_method_priv := None, sm_m := None, currentMethod := EAP_TYPE_NONE\<rparr>)"
      "entered (EAP_state sm) sm (sm'\<lparr>eap_method_priv := None, sm_m := None, currentMethod := EAP_TYPE_NONE\<rparr>)"
      "currentId sm' = currentId sm"
      "sm_m sm = None \<longrightarrow> user_eap_method_index sm' = user_eap_method_index sm1 \<and> (sm_identity sm' = None \<longleftrightarrow> sm_identity sm1 = None)"
proof -
  let ?sm1 = "sm1\<lparr>currentMethod := (if v = EAP_VENDOR_IETF then t else EAP_TYPE_EXPANDED)\<rparr>"
  have "mptr_ok env ?sm1" using ptr_mptr [OF assms(1)] assms(3,4) by (simp add: mptr_ok_def method_frame_def user_ok_def)
  then obtain sm2 where r: "reset_method_if env ?sm1 = Some (sm2\<lparr>eap_method_priv := None\<rparr>)" "method_frame ?sm1 sm2"
    using m_reset_if_ok by blast
  have same: "sm_m sm = None \<Longrightarrow> sm2\<lparr>eap_method_priv := None\<rparr> = ?sm1"
    using r(1) assms by (auto simp: reset_method_if_def method_frame_def)
  show ?thesis
  proof (cases "eap_server_get_eap_method env v t")
    case None
    then have "try_another_method env sm = Some (sm2\<lparr>eap_method_priv := None, sm_m := None, sm_decision := DECISION_FAILURE\<rparr>)"
      using r(1) by (subst try_another_method.simps) (simp add: try_method_pass_def assms(2) Let_def)
    moreover have "entered (EAP_state sm) sm (sm2\<lparr>eap_method_priv := None, sm_m := None, sm_decision := DECISION_FAILURE\<rparr>)"
      using r(2) assms by (auto simp: entered_def keeps_def ptr_ok_def user_ok_def method_frame_def)
    ultimately show ?thesis by (rule stop)
  next
    case (Some m)
    define sm3 where "sm3 = sm2\<lparr>eap_method_priv := None, sm_m := Some (v, t)\<rparr>"
    have uok: "user_ok sm3" using r(2) by (auto simp: user_ok_def method_frame_def sm3_def)
    have "method_contract m" using get_method_Some(1) [OF Some] contract by (simp add: eap_contract_def)
    from contract_init [OF this uok] obtain p sm4 where i: "m_init m sm3 = Some (p, sm4)" "method_frame sm3 sm4"
      "p = None \<longrightarrow> user_eap_method_index sm4 = user_eap_method_index sm3 \<and> (sm_identity sm4 = None \<longleftrightarrow> sm_identity sm3 = None)"
      by - (elim exE conjE, rule that; assumption)
    show ?thesis
    proof (cases p)
      case None
      show ?thesis
      proof (rule again [OF Some])
        show "m_init m sm3 = Some (None, sm4)" using i(1) None by simp
        show "try_another_method env sm = try_another_method env (sm4\<lparr>eap_method_priv := None, sm_m := None, currentMethod := EAP_TYPE_NONE\<rparr>)"
          using r(1) i(1) [unfolded sm3_def] None Some by (subst try_another_method.simps) (simp add: try_method_pass_def assms(2) Let_def)
        show "entered (EAP_state sm) sm (sm4\<lparr>eap_method_priv := None, sm_m := None, currentMethod := EAP_TYPE_NONE\<rparr>)"
          using i(2) r(2) assms by (auto simp: entered_def keeps_def ptr_ok_def user_ok_def method_frame_def sm3_def)
        show "currentId sm4 = currentId sm" using i(2) r(2) assms(4) by (auto simp: method_frame_def sm3_def)
        show "sm_m sm = None \<longrightarrow> user_eap_method_index sm4 = user_eap_method_index sm1 \<and> (sm_identity sm4 = None \<longleftrightarrow> sm_identity sm1 = None)"
        proof
          assume "sm_m sm = None"
          note eq = same [OF this]
          have "user_eap_method_index sm2 = user_eap_method_index sm1" "sm_identity sm2 = sm_identity sm1"
            using arg_cong [OF eq, of user_eap_method_index] arg_cong [OF eq, of sm_identity] by simp_all
          then show "user_eap_method_index sm4 = user_eap_method_index sm1 \<and> (sm_identity sm4 = None \<longleftrightarrow> sm_identity sm1 = None)"
            using i(3) None by (simp add: sm3_def)
        qed
      qed
    next
      case p: (Some q)
      let ?r = "sm4\<lparr>eap_method_priv := Some q, methodState :=
         (if currentMethod sm4 = EAP_TYPE_IDENTITY \<or> currentMethod sm4 = EAP_TYPE_NOTIFICATION
          then METHOD_CONTINUE else METHOD_PROPOSED)\<rparr>"
      have "try_another_method env sm = Some ?r" 
        using r(1) i(1) [unfolded sm3_def] p Some by (subst try_another_method.simps) (simp add: try_method_pass_def assms(2) Let_def)
      moreover have "entered (EAP_state sm) sm ?r"
        using i(2) r(2) assms Some by (auto simp: entered_def keeps_def ptr_ok_def user_ok_def method_frame_def sm3_def)
      ultimately show ?thesis by (rule stop)
    qed
  qed
qed

lemma try_identity:
  assumes "ptr_ok env sm" "sm_identity sm = None \<or> currentId sm = -1"
  shows "\<exists>sm'. try_another_method env sm = Some sm' \<and> entered (EAP_state sm) sm sm'"
proof -
  have g: "eap_sm_Policy_getNextMethod sm = Some ((EAP_VENDOR_IETF, EAP_TYPE_IDENTITY), sm\<lparr>update_user := True\<rparr>)"
    using assms(2) by (auto simp: eap_sm_Policy_getNextMethod_def)
  have u: "user_ok (sm\<lparr>update_user := True\<rparr>)" "method_frame sm (sm\<lparr>update_user := True\<rparr>)"
    using assms(1) by (auto simp: ptr_ok_def user_ok_def method_frame_def)
  show ?thesis
    using assms(1) g u
  proof (cases rule: try_round)
    case (again m sm2 sm')
    then show ?thesis using contract unfolding eap_contract_def by blast
  qed blast
qed

lemma try_none:
  assumes "ptr_ok env sm" "sm_m sm = None"
  shows "\<exists>sm'. try_another_method env sm = Some sm' \<and> entered (EAP_state sm) sm sm'"
  using assms
proof (induction "EAP_MAX_METHODS - user_eap_method_index sm" arbitrary: sm rule: less_induct)
  case less
  show ?case
  proof (cases "sm_identity sm = None \<or> currentId sm = -1")
    case True
    then show ?thesis using try_identity [OF less.prems(1)] by blast
  next
    case False
    obtain r where r: "user_method_at sm = Some r" using user_method_at_some [of sm] less.prems by (auto simp: ptr_ok_def)
    show ?thesis
    proof (cases r)
      case None
      then have g: "eap_sm_Policy_getNextMethod sm = Some (no_method, sm)"
        using r by (simp add: eap_sm_Policy_getNextMethod_def False)
      have u: "user_ok sm" "method_frame sm sm" using less.prems method_frame_refl by (auto simp: ptr_ok_def)
      show ?thesis
        using less.prems(1) g u by (cases rule: try_round) (use contract in \<open>auto simp: eap_contract_def\<close>)
    next
      case (Some mt)
      let ?sm1 = "sm\<lparr>user_eap_method_index := user_eap_method_index sm + 1\<rparr>"
      have g: "eap_sm_Policy_getNextMethod sm = Some ((fst mt, snd mt), ?sm1)"
        using r Some by (simp add: eap_sm_Policy_getNextMethod_def False)
      have u: "user_ok ?sm1" "method_frame sm ?sm1" using less.prems by (auto simp: ptr_ok_def user_ok_def method_frame_def)
      have i: "user_eap_method_index sm < EAP_MAX_METHODS"
        using r Some by (auto simp: user_method_at_def split: option.splits if_splits)
      show ?thesis
        using less.prems(1) g u
      proof (cases rule: try_round)
        case (again m sm2 sm')
        let ?sm = "sm'\<lparr>eap_method_priv := None, sm_m := None, currentMethod := EAP_TYPE_NONE\<rparr>"
        have "user_eap_method_index ?sm = user_eap_method_index sm + 1" using again(6) less.prems(2) by simp
        then have "EAP_MAX_METHODS - user_eap_method_index ?sm < EAP_MAX_METHODS - user_eap_method_index sm" using i by simp
        moreover have "ptr_ok env ?sm" "EAP_state ?sm = EAP_state sm" using again(4) by (auto simp: entered_def)
        ultimately obtain sm'' where "try_another_method env ?sm = Some sm''" "entered (EAP_state sm) ?sm sm''"
          using less.hyps [of ?sm] by auto
        then show ?thesis using again(3,4) entered_trans by metis
      qed blast
    qed
  qed
qed

lemma try_another_method_ok:
  assumes "ptr_ok env sm"
  shows "\<exists>sm'. try_another_method env sm = Some sm' \<and> entered (EAP_state sm) sm sm'"
proof (cases "sm_identity sm = None \<or> currentId sm = -1")
  case True
  then show ?thesis by (rule try_identity [OF assms])
next
  case False
  obtain r where r: "user_method_at sm = Some r" using user_method_at_some [of sm] assms by (auto simp: ptr_ok_def)
  obtain v t sm1 where g: "eap_sm_Policy_getNextMethod sm = Some ((v, t), sm1)" and u: "user_ok sm1" "method_frame sm sm1"
    using False r assms by (cases r) (auto simp: eap_sm_Policy_getNextMethod_def ptr_ok_def user_ok_def method_frame_def)
  show ?thesis
    using assms g u
  proof (cases rule: try_round)
    case (again m sm2 sm')
    let ?sm = "sm'\<lparr>eap_method_priv := None, sm_m := None, currentMethod := EAP_TYPE_NONE\<rparr>"
    have "ptr_ok env ?sm" "sm_m ?sm = None" "EAP_state ?sm = EAP_state sm" using again(4) by (auto simp: entered_def)
    then obtain sm'' where "try_another_method env ?sm = Some sm''" "entered (EAP_state sm) ?sm sm''"
      using try_none [of ?sm] by auto
    then show ?thesis using again(3,4) entered_trans by metis
  qed blast
qed

lemma enter_PROPOSE_METHOD_ok:
  assumes "ptr_ok env sm"
  shows "\<exists>sm'. enter_PROPOSE_METHOD env g sm = Some sm' \<and> entered EAP_PROPOSE_METHOD sm sm'"
proof -
  let ?sm = "(SM_ENTRY EAP_PROPOSE_METHOD g sm)\<lparr>try_initiate_reauth := False\<rparr>"
  have "ptr_ok env ?sm" "entered EAP_PROPOSE_METHOD sm ?sm" "EAP_state ?sm = EAP_PROPOSE_METHOD"
    using assms by (auto simp: entered_def entry_simps)
  with try_another_method_ok [of ?sm] entered_trans show ?thesis unfolding enter_PROPOSE_METHOD_def by metis
qed

end

context eap_authenticator
begin

lemma eap_user_get_ok:
  assumes "user_ok sm"
  obtains res u k c where "eap_user_get env sm i p = (res, sm\<lparr>sm_user := u, user_eap_method_index := k, clk := c\<rparr>)"
    "\<forall>x. u = Some x \<longrightarrow> length (u_methods x) = EAP_MAX_METHODS"
proof -
  have "\<exists>res u k c. eap_user_get env sm i p = (res, sm\<lparr>sm_user := u, user_eap_method_index := k, clk := c\<rparr>)
    \<and> (\<forall>x. u = Some x \<longrightarrow> length (u_methods x) = EAP_MAX_METHODS)"
  proof (cases "get_eap_user env")
    case None
    then have "eap_user_get env sm i p = (-1, sm\<lparr>sm_user := sm_user sm, user_eap_method_index := user_eap_method_index sm, clk := clk sm\<rparr>)"
      by (simp add: eap_user_get_def)
    then show ?thesis using assms unfolding user_ok_def by blast
  next
    case (Some f)
    have n: "sm\<lparr>sm_user := None, clk := c\<rparr> = sm\<lparr>sm_user := None, user_eap_method_index := user_eap_method_index sm, clk := c\<rparr>" for c
      by simp
    have fail: ?thesis if "eap_user_get env sm i p = (r, sm\<lparr>sm_user := None, clk := c\<rparr>)" for r c
      using that n by (metis option.distinct(1))
    show ?thesis
    proof (cases "malloc_at env (clk sm) sizeof_eap_user")
      case False
      then have "eap_user_get env sm i p = (-1, sm\<lparr>sm_user := None, clk := clk sm + 1\<rparr>)"
        using Some by (simp add: eap_user_get_def malloc_now_def tick_def Let_def)
      then show ?thesis by (rule fail)
    next
      case True
      show ?thesis
      proof (cases "f (clk sm + 1) i p")
        case None
        then have "eap_user_get env sm i p = (-1, sm\<lparr>sm_user := None, clk := clk sm + 2\<rparr>)"
          using Some True by (simp add: eap_user_get_def malloc_now_def tick_def Let_def)
        then show ?thesis by (rule fail)
      next
        case u: (Some u)
        then have "eap_user_get env sm i p = (0, sm\<lparr>sm_user := Some u, user_eap_method_index := 0, clk := clk sm + 2\<rparr>)"
          using Some True by (simp add: eap_user_get_def malloc_now_def tick_def Let_def)
        moreover have "length (u_methods u) = EAP_MAX_METHODS" using contract Some u unfolding eap_contract_def by blast
        ultimately show ?thesis by blast
      qed
    qed
  qed
  with that show ?thesis by blast
qed

text \<open>What the decision is and may change.\<close>

definition decided :: "'p eap_sm \<Rightarrow> eap_decision \<Rightarrow> 'p eap_sm \<Rightarrow> bool" where
  "decided sm d sm' \<longleftrightarrow> entered (EAP_state sm) sm sm' \<and> sm_m sm' = sm_m sm \<and> eap_method_priv sm' = eap_method_priv sm
    \<and> currentMethod sm' = currentMethod sm
    \<and> (d = DECISION_SUCCESS \<longrightarrow> method_success env sm)
    \<and> (d = DECISION_INITIATE_REAUTH_START \<longrightarrow> \<not> no_reauth_start env)"

lemma getDecision_next_ok:
  assumes "ptr_ok env sm"
  shows "\<exists>d sm'. getDecision_next env sm = Some (d, sm') \<and> decided sm d sm' \<and> d \<noteq> DECISION_SUCCESS"
proof -
  have "user_ok (sm\<lparr>start_reauth := False\<rparr>)" using assms by (simp add: ptr_ok_def user_ok_def)
  then obtain r where r: "user_method_at (sm\<lparr>start_reauth := False\<rparr>) = Some r" using user_method_at_some by blast
  have f: "entered (EAP_state sm) sm (sm\<lparr>start_reauth := False\<rparr>)" using assms by (auto simp: entered_def keeps_def ptr_ok_def user_ok_def)
  show ?thesis
    using f by (cases r) (auto simp: getDecision_next_def r decided_def no_reauth_start_def Let_def)
qed

lemma getDecision_user_ok:
  assumes "ptr_ok env sm"
  shows "\<exists>d sm'. getDecision_user env sm = Some (d, sm') \<and> decided sm d sm' \<and> d \<noteq> DECISION_SUCCESS"
proof (cases "\<exists>i. sm_identity sm = Some i \<and> (sm_user sm = None \<or> update_user sm) \<and> \<not> start_reauth sm")
  case False
  then have "getDecision_user env sm = getDecision_next env sm" by (auto simp: getDecision_user_def split: option.split)
  then show ?thesis using getDecision_next_ok [OF assms] by simp
next
  case True
  then obtain i where i: "sm_identity sm = Some i" "sm_user sm = None \<or> update_user sm" "\<not> start_reauth sm" by blast
  have uok: "user_ok sm" using assms by (simp add: ptr_ok_def)
  obtain first where first: "(if currentMethod sm = EAP_TYPE_IDENTITY then first_is_identity (sm_user sm) else Some False) = Some first"
    using first_is_identity_some [OF uok] by (cases "currentMethod sm = EAP_TYPE_IDENTITY") auto
  obtain res u k c where g: "eap_user_get env sm i False = (res, sm\<lparr>sm_user := u, user_eap_method_index := k, clk := c\<rparr>)"
    and u: "\<forall>x. u = Some x \<longrightarrow> length (u_methods x) = EAP_MAX_METHODS" by (rule eap_user_get_ok [OF uok])
  define sm1 where "sm1 = sm\<lparr>sm_user := u, user_eap_method_index := k, clk := c\<rparr>"
  have uok1: "user_ok sm1" using u by (simp add: sm1_def user_ok_def)
  obtain again where again: "(if first then first_is_identity (sm_user sm1) else Some False) = Some again"
    using first_is_identity_some [OF uok1] by (cases first) auto
  have f1: "entered (EAP_state sm) sm (sm1\<lparr>update_user := b\<rparr>)" "entered (EAP_state sm) sm sm1" for b
    using assms u by (auto simp: sm1_def entered_def keeps_def ptr_ok_def user_ok_def)
  have e: "getDecision_user env sm = (if res \<noteq> 0 then Some (DECISION_FAILURE, sm1)
      else if again then Some (DECISION_FAILURE, sm1\<lparr>update_user := True\<rparr>)
      else getDecision_next env (sm1\<lparr>update_user := False\<rparr>))"
    using i first again g unfolding getDecision_user_def sm1_def [symmetric] by simp
  show ?thesis
  proof (cases "res \<noteq> 0 \<or> again")
    case True
    then show ?thesis unfolding e using f1 by (auto simp: decided_def sm1_def)
  next
    case False
    let ?sm = "sm1\<lparr>update_user := False\<rparr>"
    have "ptr_ok env ?sm" using f1 by (simp add: entered_def)
    then obtain d sm' where d: "getDecision_next env ?sm = Some (d, sm')" "decided ?sm d sm'" "d \<noteq> DECISION_SUCCESS"
      using getDecision_next_ok by blast
    moreover have "decided sm d sm'"
      using d f1 entered_trans [of "EAP_state sm" sm ?sm sm'] by (auto simp: decided_def sm1_def)
    ultimately show ?thesis unfolding e using False by auto
  qed
qed

lemma getDecision_ok:
  assumes "ptr_ok env sm"
  shows "\<exists>d sm'. eap_sm_Policy_getDecision env sm = Some (d, sm') \<and> decided sm d sm'"
proof (cases "\<not> eap_server (cfg env) \<and> sm_identity sm \<noteq> None \<and> \<not> start_reauth sm")
  case True
  have "decided sm DECISION_PASSTHROUGH sm" using assms by (auto simp: decided_def entered_def keeps_def)
  then show ?thesis using True by (auto simp: eap_sm_Policy_getDecision_def)
next
  case False
  note user = getDecision_user_ok [OF assms]
  have e: "eap_sm_Policy_getDecision env sm = (if sm_m sm = None then getDecision_user env sm
      else do {
        m \<leftarrow> the_method env sm;
        priv \<leftarrow> eap_method_priv sm;
        if currentMethod sm \<noteq> EAP_TYPE_IDENTITY \<and> m_isSuccess m sm priv
        then Some (DECISION_SUCCESS, sm\<lparr>update_user := True\<rparr>)
        else if m_isDone m sm priv \<and> \<not> m_isSuccess m sm priv
        then Some (DECISION_FAILURE, sm\<lparr>update_user := True\<rparr>)
        else getDecision_user env sm })"
    using False by (simp only: eap_sm_Policy_getDecision_def if_False)
  show ?thesis
  proof (cases "sm_m sm = None")
    case True
    then show ?thesis unfolding e using user by auto
  next
    case m: False
    then obtain m p where mp: "the_method env sm = Some m" "eap_method_priv sm = Some p" "method_contract m"
      using the_method_some [OF assms] by metis
    have f: "entered (EAP_state sm) sm (sm\<lparr>update_user := True\<rparr>)" using assms by (auto simp: entered_def keeps_def ptr_ok_def user_ok_def)
    then show ?thesis
      unfolding e using user mp m by (auto simp: decided_def method_success_def)
  qed
qed

lemma entered_decision: "entered st sm (sm'\<lparr>sm_decision := d\<rparr>) \<longleftrightarrow> entered st sm sm'"
  by (simp add: entered_def keeps_def ptr_ok_def user_ok_def)

lemma enter_SELECT_ACTION_ok:
  assumes "ptr_ok env sm"
  shows "\<exists>sm'. enter_SELECT_ACTION env g sm = Some sm' \<and> entered EAP_SELECT_ACTION sm sm'
    \<and> (sm_decision sm' = DECISION_SUCCESS \<longrightarrow> method_success env sm')
    \<and> (sm_decision sm' = DECISION_INITIATE_REAUTH_START \<longrightarrow> \<not> no_reauth_start env)"
proof -
  define sm1 where "sm1 = SM_ENTRY EAP_SELECT_ACTION g sm"
  have f1: "ptr_ok env sm1" "entered EAP_SELECT_ACTION sm sm1" "EAP_state sm1 = EAP_SELECT_ACTION"
    using assms by (auto simp: sm1_def entered_def entry_simps)
  obtain d sm' where d: "eap_sm_Policy_getDecision env sm1 = Some (d, sm')" "decided sm1 d sm'"
    using getDecision_ok [OF f1(1)] by blast
  have "enter_SELECT_ACTION env g sm = Some (sm'\<lparr>sm_decision := d\<rparr>)"
    using d(1) by (simp add: enter_SELECT_ACTION_def sm1_def)
  moreover have "entered EAP_SELECT_ACTION sm (sm'\<lparr>sm_decision := d\<rparr>)"
    using d(2) f1(2,3) entered_trans [of EAP_SELECT_ACTION sm sm1 sm'] by (simp add: decided_def entered_decision)
  moreover have "d = DECISION_SUCCESS \<longrightarrow> method_success env (sm'\<lparr>sm_decision := d\<rparr>)"
  proof
    assume "d = DECISION_SUCCESS"
    then have "method_success env sm1" using d(2) by (simp add: decided_def)
    then obtain m p where m: "the_method env sm1 = Some m" "eap_method_priv sm1 = Some p" "m_isSuccess m sm1 p"
      "currentMethod sm1 \<noteq> EAP_TYPE_IDENTITY" by (auto simp: method_success_def)
    have "user_ok sm1" using f1(1) by (simp add: ptr_ok_def)
    then have "m_isSuccess m (sm'\<lparr>sm_decision := d\<rparr>) p"
      by (rule iffD2 [OF contract_success [OF method_contract_of [OF m(1)]] m(3)])
    with m d(2) show "method_success env (sm'\<lparr>sm_decision := d\<rparr>)"
      by (auto simp: method_success_def decided_def the_method_def)
  qed
  ultimately show ?thesis using d(2) by (auto simp: decided_def)
qed

end

context eap_authenticator
begin

lemma enter_FAILURE_ok:
  "ptr_ok env sm \<Longrightarrow> \<exists>sm'. enter_FAILURE env g sm = Some sm' \<and> entered EAP_FAILURE sm sm'"
  by (simp add: enter_FAILURE_def copy_aaa_req_def Let_def entered_def entry_simps)

lemma enter_TIMEOUT_FAILURE_ok:
  "ptr_ok env sm \<Longrightarrow> \<exists>sm'. enter_TIMEOUT_FAILURE env g sm = Some sm' \<and> entered EAP_TIMEOUT_FAILURE sm sm'"
  by (simp add: enter_TIMEOUT_FAILURE_def copy_aaa_req_def Let_def entered_def entry_simps)

lemma enter_TIMEOUT_FAILURE2_ok:
  "ptr_ok env sm \<Longrightarrow> \<exists>sm'. enter_TIMEOUT_FAILURE2 env g sm = Some sm' \<and> entered EAP_TIMEOUT_FAILURE2 sm sm'"
  by (simp add: enter_TIMEOUT_FAILURE2_def copy_aaa_req_def Let_def entered_def entry_simps)

lemma enter_INITIALIZE_PASSTHROUGH_ok:
  "ptr_ok env sm \<Longrightarrow> \<exists>sm'. enter_INITIALIZE_PASSTHROUGH env g sm = Some sm' \<and> entered EAP_INITIALIZE_PASSTHROUGH sm sm'"
  by (simp add: enter_INITIALIZE_PASSTHROUGH_def copy_aaa_req_def Let_def entered_def entry_simps)

lemma enter_AAA_REQUEST_ok:
  "ptr_ok env sm \<Longrightarrow> \<exists>sm'. enter_AAA_REQUEST env g sm = Some sm' \<and> entered EAP_AAA_REQUEST sm sm'"
  by (simp add: enter_AAA_REQUEST_def copy_aaa_req_def Let_def entered_def entry_simps)

lemma enter_FAILURE2_ok:
  "ptr_ok env sm \<Longrightarrow> \<exists>sm'. enter_FAILURE2 env g sm = Some sm' \<and> entered EAP_FAILURE2 sm sm'"
  by (simp add: enter_FAILURE2_def copy_aaa_req_def Let_def entered_def entry_simps)

lemma enter_AAA_IDLE_ok:
  "ptr_ok env sm \<Longrightarrow> \<exists>sm'. enter_AAA_IDLE env g sm = Some sm' \<and> entered EAP_AAA_IDLE sm sm'
     \<and> \<not> aaaFail (eap_if sm') \<and> \<not> aaaSuccess (eap_if sm') \<and> \<not> aaaEapReq (eap_if sm')"
  by (simp add: enter_AAA_IDLE_def entered_def entry_simps)

lemma enter_AAA_RESPONSE_ok:
  assumes "ptr_ok env sm"
  shows "\<exists>sm'. enter_AAA_RESPONSE env g sm = Some sm' \<and> entered EAP_AAA_RESPONSE sm sm'"
proof -
  have "\<exists>i. eap_sm_getId d = Some i" for d
    by (auto simp: eap_sm_getId_def peek_def sizeof_eap_hdr_def split: option.split)
  then obtain i where "eap_sm_getId (eapReqData (eap_if (copy_aaa_req env (SM_ENTRY EAP_AAA_RESPONSE g sm)))) = Some i" by blast
  then have "enter_AAA_RESPONSE env g sm = Some ((copy_aaa_req env (SM_ENTRY EAP_AAA_RESPONSE g sm))\<lparr>currentId := i,
      methodTimeout := aaaMethodTimeout (eap_if (copy_aaa_req env (SM_ENTRY EAP_AAA_RESPONSE g sm)))\<rparr>)"
    by (simp add: enter_AAA_RESPONSE_def Let_def)
  then show ?thesis using assms by (auto simp: copy_aaa_req_def entered_def entry_simps)
qed

text \<open>The two ways to report success.\<close>

lemma success_entries:
  assumes "ptr_ok env sm"
  shows enter_SUCCESS_ok: "\<exists>sm'. enter_SUCCESS env g sm = Some sm' \<and> ptr_ok env sm' \<and> EAP_state sm' = EAP_SUCCESS \<and> keeps sm sm'"
    and enter_SUCCESS2_ok: "\<exists>sm'. enter_SUCCESS2 env g sm = Some sm' \<and> ptr_ok env sm' \<and> EAP_state sm' = EAP_SUCCESS2 \<and> keeps sm sm'"
  using assms by (auto simp: enter_SUCCESS_def enter_SUCCESS2_def copy_aaa_req_def Let_def entry_simps)

text \<open>A step goes well below the rank \<open>R\<close>: it returns in the invariant, lowers the rank, and reports no success.\<close>

definition good :: "nat \<Rightarrow> 'p eap_sm \<Rightarrow> 'p eap_sm ub \<Rightarrow> bool" where
  "good R sm r \<longleftrightarrow> (\<exists>sm'. r = Some sm' \<and> eap_inv env sm' \<and> eap_rank env sm' < R
     \<and> (eapSuccess (eap_if sm') \<longrightarrow> eapSuccess (eap_if sm))
     \<and> (aaaSuccess (eap_if sm') \<longrightarrow> aaaSuccess (eap_if sm)))"

definition live :: "'p eap_sm \<Rightarrow> bool" where
  "live sm \<longleftrightarrow> ptr_ok env sm \<and> portEnabled (eap_if sm) \<and> \<not> eapRestart (eap_if sm) \<and> \<not> too_many_rounds env sm"

lemma rank_keeps: "live sm \<Longrightarrow> keeps sm sm' \<Longrightarrow> eap_rank env sm' = base_rank sm'"
  by (auto simp: live_def keeps_def eap_rank_def too_many_rounds_def)

lemma rank_live: "live sm \<Longrightarrow> eap_rank env sm = base_rank sm"
  by (simp add: live_def eap_rank_def)

lemma inv_entered:
  assumes "ptr_ok env sm'" "EAP_state sm' = st" "needs_method st \<longrightarrow> sm_m sm' \<noteq> None"
    "st \<notin> {EAP_INITIALIZE, EAP_PICK_UP_METHOD, EAP_INITIATE_REAUTH_START, EAP_SELECT_ACTION}"
  shows "eap_inv env sm'"
  using assms by (auto simp: eap_inv_def)

lemma goodI:
  assumes "live sm" "r = Some sm'" "entered st sm sm'" "needs_method st \<longrightarrow> sm_m sm' \<noteq> None"
    "st \<notin> {EAP_INITIALIZE, EAP_PICK_UP_METHOD, EAP_INITIATE_REAUTH_START, EAP_SELECT_ACTION}" "base_rank sm' < R"
  shows "good R sm r"
  using assms rank_keeps [OF assms(1), of sm'] inv_entered [of sm' st] by (auto simp: good_def entered_def keeps_def)

lemma base_rank_simps:
  "EAP_state sm = EAP_SUCCESS \<Longrightarrow> base_rank sm = 0"
  "EAP_state sm = EAP_FAILURE \<Longrightarrow> base_rank sm = 0"
  "EAP_state sm = EAP_TIMEOUT_FAILURE \<Longrightarrow> base_rank sm = 0"
  "EAP_state sm = EAP_SUCCESS2 \<Longrightarrow> base_rank sm = 0"
  "EAP_state sm = EAP_FAILURE2 \<Longrightarrow> base_rank sm = 0"
  "EAP_state sm = EAP_TIMEOUT_FAILURE2 \<Longrightarrow> base_rank sm = 0"
  "EAP_state sm = EAP_DISCARD2 \<Longrightarrow> base_rank sm = (if eapResp (eap_if sm) then 8 else 1)"
  "EAP_state sm = EAP_SEND_REQUEST2 \<Longrightarrow> base_rank sm = (if eapResp (eap_if sm) then 8 else 1)"
  "EAP_state sm = EAP_AAA_RESPONSE \<Longrightarrow> base_rank sm = 2"
  "EAP_state sm = EAP_AAA_IDLE \<Longrightarrow> base_rank sm = (if aaaFail (eap_if sm) \<or> aaaSuccess (eap_if sm) \<or> aaaEapReq (eap_if sm) then 3 else 1)"
  "EAP_state sm = EAP_AAA_REQUEST \<Longrightarrow> base_rank sm = 2"
  "EAP_state sm = EAP_INITIALIZE_PASSTHROUGH \<Longrightarrow> base_rank sm = 3"
  "EAP_state sm = EAP_RECEIVED2 \<Longrightarrow> base_rank sm = 3"
  "EAP_state sm = EAP_IDLE2 \<Longrightarrow> base_rank sm = (if eapResp (eap_if sm) then 4 else if retransWhile (eap_if sm) = 0 then 6 else 0)"
  "EAP_state sm = EAP_RETRANSMIT2 \<Longrightarrow> base_rank sm = 5"
  "EAP_state sm = EAP_SEND_REQUEST \<Longrightarrow> base_rank sm = (if eapResp (eap_if sm) then 20 else 9)"
  "EAP_state sm = EAP_DISCARD \<Longrightarrow> base_rank sm = (if eapResp (eap_if sm) then 20 else 9)"
  "EAP_state sm = EAP_METHOD_REQUEST \<Longrightarrow> base_rank sm = 10"
  "EAP_state sm = EAP_INITIATE_REAUTH_START \<Longrightarrow> base_rank sm = 10"
  "EAP_state sm = EAP_PROPOSE_METHOD \<Longrightarrow> base_rank sm = (if method_pending sm = METHOD_PENDING_CONT then 12 else 11)"
  "EAP_state sm = EAP_SELECT_ACTION \<Longrightarrow> base_rank sm = 13"
  "EAP_state sm = EAP_METHOD_RESPONSE \<Longrightarrow> base_rank sm = (if method_pending sm = METHOD_PENDING_CONT then 15 else 14)"
  "EAP_state sm = EAP_NAK \<Longrightarrow> base_rank sm = 14"
  "EAP_state sm = EAP_INITIATE_RECEIVED \<Longrightarrow> base_rank sm = 14"
  "EAP_state sm = EAP_INTEGRITY_CHECK \<Longrightarrow> base_rank sm = 16"
  "EAP_state sm = EAP_PICK_UP_METHOD \<Longrightarrow> base_rank sm = 16"
  "EAP_state sm = EAP_RECEIVED \<Longrightarrow> base_rank sm = 17"
  "EAP_state sm = EAP_INITIALIZE \<Longrightarrow> base_rank sm = 17"
  "EAP_state sm = EAP_IDLE \<Longrightarrow> base_rank sm = (if retransWhile (eap_if sm) = 0 then 20 else if eapResp (eap_if sm) then 18 else 1)"
  "EAP_state sm = EAP_RETRANSMIT \<Longrightarrow> base_rank sm = 19"
  "EAP_state sm = EAP_DISABLED \<Longrightarrow> base_rank sm = 21"
  by (simp_all add: base_rank_def)

lemma live_ptr: "live sm \<Longrightarrow> ptr_ok env sm"
  by (simp add: live_def)

lemma goodI2:
  assumes "live sm" "\<exists>sm'. r = Some sm' \<and> entered st sm sm' \<and> Q sm'" "k < R"
    "st \<notin> {EAP_INITIALIZE, EAP_PICK_UP_METHOD, EAP_INITIATE_REAUTH_START, EAP_SELECT_ACTION}"
    "\<And>sm'. EAP_state sm' = st \<Longrightarrow> keeps sm sm' \<Longrightarrow> Q sm' \<Longrightarrow> base_rank sm' \<le> k"
    "\<And>sm'. Q sm' \<Longrightarrow> needs_method st \<longrightarrow> sm_m sm' \<noteq> None"
  shows "good R sm r"
proof -
  obtain sm' where sm': "r = Some sm'" "entered st sm sm'" "Q sm'" using assms(2) by (elim exE conjE)
  then have "base_rank sm' \<le> k" using assms(5) [of sm'] by (simp add: entered_def)
  then show ?thesis by (intro goodI [OF assms(1) sm'(1,2) assms(6) [OF sm'(3)] assms(4)]) (use assms(3) in simp)
qed

lemma good_NAK:
  assumes "live sm" "14 < R" shows "good R sm (enter_NAK env False sm)"
  by (rule goodI2 [OF assms(1) _ assms(2), where st = EAP_NAK and Q = "\<lambda>s. sm_m s = None"])
    (use enter_NAK_ok [OF live_ptr [OF assms(1)], of False] assms in \<open>simp_all add: base_rank_simps needs_method_def keeps_def\<close>)

lemma good_METHOD_RESPONSE:
  assumes "live sm" "sm_m sm \<noteq> None" "(if method_pending sm = METHOD_PENDING_CONT then 15 else 14) < R" shows "good R sm (enter_METHOD_RESPONSE env False sm)"
  by (rule goodI2 [OF assms(1) _ assms(3), where st = EAP_METHOD_RESPONSE and Q = "\<lambda>s. sm_m s = sm_m sm"])
    (use enter_METHOD_RESPONSE_ok [OF live_ptr [OF assms(1)], OF assms(2), of False] assms in \<open>simp_all add: base_rank_simps needs_method_def keeps_def\<close>)

lemma good_METHOD_REQUEST:
  assumes "live sm" "10 < R" shows "good R sm (enter_METHOD_REQUEST env False sm)"
  by (rule goodI2 [OF assms(1) _ assms(2), where st = EAP_METHOD_REQUEST and Q = "\<lambda>s. sm_m s = sm_m sm"])
    (use enter_METHOD_REQUEST_ok [OF live_ptr [OF assms(1)], of False] assms in \<open>simp_all add: base_rank_simps needs_method_def keeps_def\<close>)

lemma good_PROPOSE_METHOD:
  assumes "live sm" "(if method_pending sm = METHOD_PENDING_CONT then 12 else 11) < R" shows "good R sm (enter_PROPOSE_METHOD env False sm)"
  by (rule goodI2 [OF assms(1) _ assms(2), where st = EAP_PROPOSE_METHOD and Q = "\<lambda>_. True"])
    (use enter_PROPOSE_METHOD_ok [OF live_ptr [OF assms(1)], of False] assms in \<open>simp_all add: base_rank_simps needs_method_def keeps_def\<close>)

lemma good_INTEGRITY_CHECK:
  assumes "live sm" "sm_m sm \<noteq> None" "16 < R" shows "good R sm (enter_INTEGRITY_CHECK env False sm)"
  by (rule goodI2 [OF assms(1) _ assms(3), where st = EAP_INTEGRITY_CHECK and Q = "\<lambda>s. sm_m s = sm_m sm"])
    (use enter_INTEGRITY_CHECK_ok [OF live_ptr [OF assms(1)], OF assms(2), of False] assms in \<open>simp_all add: base_rank_simps needs_method_def keeps_def\<close>)

lemma good_RECEIVED2:
  assumes "live sm" "3 < R" shows "good R sm (enter_RECEIVED2 env False sm)"
  by (rule goodI2 [OF assms(1) _ assms(2), where st = EAP_RECEIVED2 and Q = "\<lambda>s. sm_m s = sm_m sm"])
    (use enter_RECEIVED2_ok [OF live_ptr [OF assms(1)], of False] assms in \<open>simp_all add: base_rank_simps needs_method_def keeps_def\<close>)

lemma good_SEND_REQUEST2:
  assumes "live sm" "1 < R" shows "good R sm (enter_SEND_REQUEST2 env False sm)"
  by (rule goodI2 [OF assms(1) _ assms(2), where st = EAP_SEND_REQUEST2 and Q = "\<lambda>s. sm_m s = sm_m sm \<and> \<not> eapResp (eap_if s)"])
    (use enter_SEND_REQUEST2_ok [OF live_ptr [OF assms(1)], of False] assms in \<open>simp_all add: base_rank_simps needs_method_def keeps_def\<close>)

lemma good_FAILURE:
  assumes "live sm" "0 < R" shows "good R sm (enter_FAILURE env False sm)"
  by (rule goodI2 [OF assms(1) _ assms(2), where st = EAP_FAILURE and Q = "\<lambda>_. True"])
    (use enter_FAILURE_ok [OF live_ptr [OF assms(1)], of False] assms in \<open>simp_all add: base_rank_simps needs_method_def keeps_def\<close>)

lemma good_FAILURE2:
  assumes "live sm" "0 < R" shows "good R sm (enter_FAILURE2 env False sm)"
  by (rule goodI2 [OF assms(1) _ assms(2), where st = EAP_FAILURE2 and Q = "\<lambda>_. True"])
    (use enter_FAILURE2_ok [OF live_ptr [OF assms(1)], of False] assms in \<open>simp_all add: base_rank_simps needs_method_def keeps_def\<close>)

lemma good_TIMEOUT_FAILURE:
  assumes "live sm" "0 < R" shows "good R sm (enter_TIMEOUT_FAILURE env False sm)"
  by (rule goodI2 [OF assms(1) _ assms(2), where st = EAP_TIMEOUT_FAILURE and Q = "\<lambda>_. True"])
    (use enter_TIMEOUT_FAILURE_ok [OF live_ptr [OF assms(1)], of False] assms in \<open>simp_all add: base_rank_simps needs_method_def keeps_def\<close>)

lemma good_TIMEOUT_FAILURE2:
  assumes "live sm" "0 < R" shows "good R sm (enter_TIMEOUT_FAILURE2 env False sm)"
  by (rule goodI2 [OF assms(1) _ assms(2), where st = EAP_TIMEOUT_FAILURE2 and Q = "\<lambda>_. True"])
    (use enter_TIMEOUT_FAILURE2_ok [OF live_ptr [OF assms(1)], of False] assms in \<open>simp_all add: base_rank_simps needs_method_def keeps_def\<close>)

lemma good_INITIALIZE_PASSTHROUGH:
  assumes "live sm" "3 < R" shows "good R sm (enter_INITIALIZE_PASSTHROUGH env False sm)"
  by (rule goodI2 [OF assms(1) _ assms(2), where st = EAP_INITIALIZE_PASSTHROUGH and Q = "\<lambda>_. True"])
    (use enter_INITIALIZE_PASSTHROUGH_ok [OF live_ptr [OF assms(1)], of False] assms in \<open>simp_all add: base_rank_simps needs_method_def keeps_def\<close>)

lemma good_AAA_REQUEST:
  assumes "live sm" "2 < R" shows "good R sm (enter_AAA_REQUEST env False sm)"
  by (rule goodI2 [OF assms(1) _ assms(2), where st = EAP_AAA_REQUEST and Q = "\<lambda>_. True"])
    (use enter_AAA_REQUEST_ok [OF live_ptr [OF assms(1)], of False] assms in \<open>simp_all add: base_rank_simps needs_method_def keeps_def\<close>)

lemma good_AAA_IDLE:
  assumes "live sm" "1 < R" shows "good R sm (enter_AAA_IDLE env False sm)"
  by (rule goodI2 [OF assms(1) _ assms(2), where st = EAP_AAA_IDLE and Q = "\<lambda>s. \<not> aaaFail (eap_if s) \<and> \<not> aaaSuccess (eap_if s) \<and> \<not> aaaEapReq (eap_if s)"])
    (use enter_AAA_IDLE_ok [OF live_ptr [OF assms(1)], of False] assms in \<open>simp_all add: base_rank_simps needs_method_def keeps_def\<close>)

lemma good_AAA_RESPONSE:
  assumes "live sm" "2 < R" shows "good R sm (enter_AAA_RESPONSE env False sm)"
  by (rule goodI2 [OF assms(1) _ assms(2), where st = EAP_AAA_RESPONSE and Q = "\<lambda>_. True"])
    (use enter_AAA_RESPONSE_ok [OF live_ptr [OF assms(1)], of False] assms in \<open>simp_all add: base_rank_simps needs_method_def keeps_def\<close>)

lemma good_SEND_REQUEST:
  assumes "live sm" "sm_m sm \<noteq> None" "9 < R" shows "good R sm (enter_SEND_REQUEST env False sm)"
  by (rule goodI2 [OF assms(1) _ assms(3), where st = EAP_SEND_REQUEST and Q = "\<lambda>s. sm_m s = sm_m sm \<and> \<not> eapResp (eap_if s)"])
    (use enter_SEND_REQUEST_ok [OF live_ptr [OF assms(1)], of False] assms in \<open>simp_all add: base_rank_simps needs_method_def keeps_def\<close>)

lemma good_IDLE:
  assumes "live sm" "sm_m sm \<noteq> None" "(if eapResp (eap_if sm) then 18 else 1) < R" shows "good R sm (enter_IDLE env False sm)"
  unfolding enter_IDLE_def by (rule goodI2 [OF assms(1) _ assms(3), where st = EAP_IDLE and Q = "\<lambda>s. sm_m s = sm_m sm \<and> retransWhile (eap_if s) \<noteq> 0 \<and> eapResp (eap_if s) = eapResp (eap_if sm)"])
    (use enter_IDLE_gen_ok [OF live_ptr [OF assms(1)], of EAP_IDLE False] assms in \<open>simp_all add: base_rank_simps needs_method_def keeps_def\<close>)

lemma good_IDLE2:
  assumes "live sm" "(if eapResp (eap_if sm) then 4 else 0) < R" shows "good R sm (enter_IDLE2 env False sm)"
  unfolding enter_IDLE2_def by (rule goodI2 [OF assms(1) _ assms(2), where st = EAP_IDLE2 and Q = "\<lambda>s. sm_m s = sm_m sm \<and> retransWhile (eap_if s) \<noteq> 0 \<and> eapResp (eap_if s) = eapResp (eap_if sm)"])
    (use enter_IDLE_gen_ok [OF live_ptr [OF assms(1)], of EAP_IDLE2 False] assms in \<open>simp_all add: base_rank_simps needs_method_def keeps_def\<close>)

lemma good_DISCARD:
  assumes "live sm" "sm_m sm \<noteq> None" "9 < R" shows "good R sm (enter_DISCARD env False sm)"
  unfolding enter_DISCARD_def by (rule goodI2 [OF assms(1) _ assms(3), where st = EAP_DISCARD and Q = "\<lambda>s. sm_m s = sm_m sm \<and> \<not> eapResp (eap_if s)"])
    (use enter_DISCARD_gen_ok [OF live_ptr [OF assms(1)], of EAP_DISCARD False] assms in \<open>simp_all add: base_rank_simps needs_method_def keeps_def\<close>)

lemma good_DISCARD2:
  assumes "live sm" "1 < R" shows "good R sm (enter_DISCARD2 env False sm)"
  unfolding enter_DISCARD2_def by (rule goodI2 [OF assms(1) _ assms(2), where st = EAP_DISCARD2 and Q = "\<lambda>s. sm_m s = sm_m sm \<and> \<not> eapResp (eap_if s)"])
    (use enter_DISCARD_gen_ok [OF live_ptr [OF assms(1)], of EAP_DISCARD2 False] assms in \<open>simp_all add: base_rank_simps needs_method_def keeps_def\<close>)

lemma good_RETRANSMIT:
  assumes "live sm" "sm_m sm \<noteq> None" "19 < R" shows "good R sm (enter_RETRANSMIT env False sm)"
  unfolding enter_RETRANSMIT_def by (rule goodI2 [OF assms(1) _ assms(3), where st = EAP_RETRANSMIT and Q = "\<lambda>s. sm_m s = sm_m sm"])
    (use enter_RETRANSMIT_gen_ok [OF live_ptr [OF assms(1)], of EAP_RETRANSMIT False] assms in \<open>simp_all add: base_rank_simps needs_method_def keeps_def\<close>)

lemma good_RETRANSMIT2:
  assumes "live sm" "5 < R" shows "good R sm (enter_RETRANSMIT2 env False sm)"
  unfolding enter_RETRANSMIT2_def by (rule goodI2 [OF assms(1) _ assms(2), where st = EAP_RETRANSMIT2 and Q = "\<lambda>s. sm_m s = sm_m sm"])
    (use enter_RETRANSMIT_gen_ok [OF live_ptr [OF assms(1)], of EAP_RETRANSMIT2 False] assms in \<open>simp_all add: base_rank_simps needs_method_def keeps_def\<close>)

end

context eap_authenticator
begin

lemma good_SELECT_ACTION:
  assumes "live sm" "no_reauth_start env" "13 < R" shows "good R sm (enter_SELECT_ACTION env False sm)"
proof -
  obtain sm' where s: "enter_SELECT_ACTION env False sm = Some sm'" "entered EAP_SELECT_ACTION sm sm'"
    "sm_decision sm' = DECISION_SUCCESS \<longrightarrow> method_success env sm'"
    "sm_decision sm' = DECISION_INITIATE_REAUTH_START \<longrightarrow> \<not> no_reauth_start env"
    using enter_SELECT_ACTION_ok [OF live_ptr [OF assms(1)], of False] by (elim exE conjE)
  have "eap_inv env sm'" using s assms(2) by (simp add: eap_inv_def entered_def needs_method_def)
  moreover have "eap_rank env sm' < R"
    using rank_keeps [OF assms(1), of sm'] s(2) assms(3) by (simp add: entered_def base_rank_simps)
  ultimately show ?thesis using s by (simp add: good_def entered_def keeps_def)
qed

lemma good_PICK_UP_METHOD:
  assumes "live sm" "currentMethod sm = EAP_TYPE_NONE" "sm_m sm = None" "16 < R"
  shows "good R sm (enter_PICK_UP_METHOD env False sm)"
proof -
  obtain sm' where s: "enter_PICK_UP_METHOD env False sm = Some sm'" "ptr_ok env sm'" "EAP_state sm' = EAP_PICK_UP_METHOD"
    "keeps sm sm'" "currentMethod sm' \<noteq> EAP_TYPE_NONE \<longrightarrow> sm_m sm' \<noteq> None" "eapSuccess (eap_if sm') = eapSuccess (eap_if sm)"
    using enter_PICK_UP_METHOD_ok [OF live_ptr [OF assms(1)] assms(2,3), of False] by (elim exE conjE)
  have "eap_inv env sm'" using s by (simp add: eap_inv_def needs_method_def)
  moreover have "eap_rank env sm' < R"
    using rank_keeps [OF assms(1) s(4)] s(3) assms(4) by (simp add: base_rank_simps)
  ultimately show ?thesis using s by (simp add: good_def keeps_def)
qed

lemma good_RECEIVED:
  assumes "live sm" "sm_m sm \<noteq> None" "17 < R" shows "good R sm (enter_RECEIVED env False sm)"
proof -
  obtain sm' where s: "enter_RECEIVED env False sm = Some sm'" "ptr_ok env sm'" "EAP_state sm' = EAP_RECEIVED" "sm_m sm' = sm_m sm"
    "portEnabled (eap_if sm') = portEnabled (eap_if sm)" "eapRestart (eap_if sm') = eapRestart (eap_if sm)"
    "eapSuccess (eap_if sm') = eapSuccess (eap_if sm)" "aaaSuccess (eap_if sm') = aaaSuccess (eap_if sm)"
    using enter_RECEIVED_ok [OF live_ptr [OF assms(1)], of False] by (elim exE conjE)
  have "eap_inv env sm'" using s assms(2) by (simp add: eap_inv_def)
  moreover have "eap_rank env sm' < R"
    using assms(1,3) s(3,5,6) by (simp add: eap_rank_def live_def base_rank_simps)
  ultimately show ?thesis using s by (simp add: good_def)
qed

lemma good_INITIALIZE:
  assumes "ptr_ok env sm" "portEnabled (eap_if sm)" "17 < R" shows "good R sm (enter_INITIALIZE env g sm)"
proof -
  obtain sm' where s: "enter_INITIALIZE env g sm = Some sm'" "ptr_ok env sm'" "EAP_state sm' = EAP_INITIALIZE"
    "sm_m sm' = None" "num_rounds sm' = 0" "num_rounds_short sm' = 0" "\<not> eapRestart (eap_if sm')"
    "portEnabled (eap_if sm') = portEnabled (eap_if sm)" "backend_auth (cfg env) \<longrightarrow> currentMethod sm' = EAP_TYPE_NONE"
    "\<not> eapSuccess (eap_if sm')" "aaaSuccess (eap_if sm') = aaaSuccess (eap_if sm)"
    using enter_INITIALIZE_ok [OF assms(1), of g] by (elim exE conjE)
  have "eap_inv env sm'" using s by (simp add: eap_inv_def needs_method_def)
  moreover have "eap_rank env sm' < R"
    using s(3,5-8) assms(2,3) by (simp add: eap_rank_def too_many_rounds_def base_rank_simps)
  ultimately show ?thesis using s by (simp add: good_def)
qed

text \<open>The grounds on which a step may report success.\<close>

definition success_reason :: "'p eap_sm \<Rightarrow> bool" where
  "success_reason sm \<longleftrightarrow> EAP_state sm = EAP_SELECT_ACTION \<and> method_success env sm
     \<or> EAP_state sm = EAP_AAA_IDLE \<and> aaaSuccess (eap_if sm)"

definition step_post :: "'p eap_sm \<Rightarrow> 'p eap_sm \<Rightarrow> bool" where
  "step_post sm sm' \<longleftrightarrow> eap_inv env sm' \<and> (sm_changed sm' \<longrightarrow> eap_rank env sm' < eap_rank env sm)
     \<and> (eapSuccess (eap_if sm') \<longrightarrow> eapSuccess (eap_if sm) \<or> success_reason sm)
     \<and> (aaaSuccess (eap_if sm') \<longrightarrow> aaaSuccess (eap_if sm))"

definition step_good :: "'p eap_sm \<Rightarrow> 'p eap_sm ub \<Rightarrow> bool" where
  "step_good sm r \<longleftrightarrow> (\<exists>sm'. r = Some sm' \<and> step_post sm sm')"

lemma good_step: "good (eap_rank env sm) sm r \<Longrightarrow> step_good sm r"
  by (auto simp: good_def step_good_def step_post_def)

lemma good_same_success: "good R sm1 r \<Longrightarrow> eapSuccess (eap_if sm1) = eapSuccess (eap_if sm) \<Longrightarrow>
    (aaaSuccess (eap_if sm1) \<longrightarrow> aaaSuccess (eap_if sm)) \<Longrightarrow> good R sm r"
  by (auto simp: good_def)

lemma stay: "eap_inv env sm \<Longrightarrow> \<not> sm_changed sm \<Longrightarrow> step_good sm (Some sm)"
  by (simp add: step_good_def step_post_def)

lemma stay_propose:
  "eap_inv env sm \<Longrightarrow> \<not> sm_changed sm \<Longrightarrow> EAP_state sm = EAP_PROPOSE_METHOD \<Longrightarrow>
    step_good sm (Some (sm\<lparr>user_eap_method_index := n\<rparr>))"
  by (simp add: step_good_def step_post_def eap_inv_def ptr_ok_def user_ok_def)

lemma success_step:
  assumes "live sm" "success_reason sm"
  shows "EAP_state sm = EAP_SELECT_ACTION \<Longrightarrow> step_good sm (enter_SUCCESS env False sm)"
    and "EAP_state sm = EAP_AAA_IDLE \<Longrightarrow> step_good sm (enter_SUCCESS2 env False sm)"
proof -
  have *: "step_good sm (Some sm')" if "EAP_state sm \<in> {EAP_SELECT_ACTION, EAP_AAA_IDLE}"
    "ptr_ok env sm'" "EAP_state sm' \<in> {EAP_SUCCESS, EAP_SUCCESS2}" "keeps sm sm'" for sm'
  proof -
    have "eap_inv env sm'" using that(2,3) by (auto simp: eap_inv_def needs_method_def)
    moreover have "eap_rank env sm' = 0" using rank_keeps [OF assms(1) that(4)] that(3) by (auto simp: base_rank_simps)
    moreover have "0 < eap_rank env sm" using rank_live [OF assms(1)] that(1) by (auto simp: base_rank_simps)
    ultimately show ?thesis using assms(2) that(4) by (simp add: step_good_def step_post_def keeps_def)
  qed
  show "EAP_state sm = EAP_SELECT_ACTION \<Longrightarrow> step_good sm (enter_SUCCESS env False sm)"
    using enter_SUCCESS_ok [OF live_ptr [OF assms(1)], of False] * by auto
  show "EAP_state sm = EAP_AAA_IDLE \<Longrightarrow> step_good sm (enter_SUCCESS2 env False sm)"
    using enter_SUCCESS2_ok [OF live_ptr [OF assms(1)], of False] * by auto
qed

lemma live_updates:
  assumes "live sm"
  shows "live (sm\<lparr>try_initiate_reauth := b\<rparr>)" "live (sm\<lparr>method_pending := p\<rparr>)"
  using assms by (simp_all add: live_def ptr_ok_def user_ok_def too_many_rounds_def)

lemma send_or_fail:
  assumes "live sm" "EAP_state sm = EAP_METHOD_REQUEST" "sm_m sm \<noteq> None"
  shows "good 10 sm (do { sm \<leftarrow> enter_SEND_REQUEST env False sm;
     if eapNoReq (eap_if sm) \<and> \<not> eapReq (eap_if sm) then enter_FAILURE env False sm else Some sm })"
proof -
  obtain sm1 where s: "enter_SEND_REQUEST env False sm = Some sm1" "entered EAP_SEND_REQUEST sm sm1" "sm_m sm1 = sm_m sm"
    "\<not> eapResp (eap_if sm1)"
    using enter_SEND_REQUEST_ok [OF live_ptr [OF assms(1)], of False] by (elim exE conjE)
  have "good 10 sm (enter_SEND_REQUEST env False sm)" by (rule good_SEND_REQUEST [OF assms(1,3)]) simp
  then have g: "good 10 sm (Some sm1)" using s(1) by simp
  have l: "live sm1" using s(2) assms(1) by (auto simp: live_def entered_def keeps_def too_many_rounds_def)
  have "good 10 sm (enter_FAILURE env False sm1)"
    using good_FAILURE [OF l, of 10] s(2) by (auto simp: entered_def keeps_def intro: good_same_success)
  with g s(1) show ?thesis by simp
qed

text \<open>The states of a running method exchange.\<close>

lemma switch_exchange:
  assumes I: "eap_inv env sm" and L: "live sm" and N: "no_reauth_start env" and C: "\<not> sm_changed sm"
    and st: "EAP_state sm \<in> {EAP_IDLE, EAP_RECEIVED, EAP_INTEGRITY_CHECK, EAP_METHOD_RESPONSE, EAP_METHOD_REQUEST}"
  shows "step_good sm (eap_switch env sm)"
proof -
  note R = rank_live [OF L]
  note inv = I [unfolded eap_inv_def]
  note LP = live_updates [OF L]
  show ?thesis
  proof (cases "EAP_state sm")
    case EAP_IDLE
    then have m: "sm_m sm \<noteq> None" using inv by (simp add: needs_method_def)
    have "good 20 sm (enter_SELECT_ACTION env False (sm\<lparr>try_initiate_reauth := False\<rparr>))"
      by (rule good_same_success [OF good_SELECT_ACTION [OF LP(1) N]]) simp_all
    then show ?thesis using EAP_IDLE good_RETRANSMIT [OF L m, of 20] good_RECEIVED [OF L m, of 18] stay [OF I C] R
      by (simp add: eap_switch_def good_step base_rank_simps)
  next
    case EAP_RECEIVED
    then have m: "sm_m sm \<noteq> None" using inv by (simp add: needs_method_def)
    then show ?thesis
      using EAP_RECEIVED good_NAK [OF L, of 17] good_INTEGRITY_CHECK [OF L m, of 17] good_DISCARD [OF L m, of 17] R
      by (simp add: eap_switch_def good_step base_rank_simps)
  next
    case EAP_INTEGRITY_CHECK
    then have m: "sm_m sm \<noteq> None" using inv by (simp add: needs_method_def)
    then show ?thesis
      using EAP_INTEGRITY_CHECK good_METHOD_RESPONSE [OF L m, of 16] good_DISCARD [OF L m, of 16] R
      by (simp add: eap_switch_def good_step base_rank_simps)
  next
    case EAP_METHOD_RESPONSE
    then have m: "sm_m sm \<noteq> None" using inv by (simp add: needs_method_def)
    have "good 15 sm (enter_METHOD_RESPONSE env False (sm\<lparr>method_pending := METHOD_PENDING_NONE\<rparr>))"
      by (rule good_same_success [OF good_METHOD_RESPONSE [OF LP(2)]]) (use m in simp_all)
    then show ?thesis
      using EAP_METHOD_RESPONSE good_SELECT_ACTION [OF L N] good_METHOD_REQUEST [OF L, of 14] stay [OF I C] R
      by (simp add: eap_switch_def good_step base_rank_simps)
  next
    case EAP_METHOD_REQUEST
    then show ?thesis using good_FAILURE [OF L, of 10] send_or_fail [OF L] R
      by (simp add: eap_switch_def good_step base_rank_simps)
  qed (use st in simp_all)
qed

text \<open>The states of starting and choosing a method.\<close>

lemma switch_selection:
  assumes I: "eap_inv env sm" and L: "live sm" and N: "no_reauth_start env" and C: "\<not> sm_changed sm"
    and st: "EAP_state sm \<in> {EAP_DISABLED, EAP_INITIALIZE, EAP_PROPOSE_METHOD, EAP_SELECT_ACTION, EAP_NAK, EAP_PICK_UP_METHOD, EAP_INITIATE_RECEIVED}"
  shows "step_good sm (eap_switch env sm)"
proof -
  note R = rank_live [OF L]
  note inv = I [unfolded eap_inv_def]
  note LP = live_updates [OF L]
  have ps: "portEnabled (eap_if sm)" using L by (simp add: live_def)
  show ?thesis
  proof (cases "EAP_state sm")
    case EAP_DISABLED
    then show ?thesis using good_INITIALIZE [OF live_ptr [OF L] ps, of 21] ps R
      by (simp add: eap_switch_def good_step base_rank_simps)
  next
    case EAP_INITIALIZE
    then show ?thesis
      using good_SELECT_ACTION [OF L N, of 17] good_NAK [OF L, of 17] good_PICK_UP_METHOD [OF L, of 17] inv R
      by (simp add: eap_switch_def good_step base_rank_simps)
  next
    case EAP_PROPOSE_METHOD
    have "good 12 sm (enter_PROPOSE_METHOD env False (sm\<lparr>method_pending := METHOD_PENDING_NONE\<rparr>))"
      by (rule good_same_success [OF good_PROPOSE_METHOD [OF LP(2)]]) simp_all
    then show ?thesis
      using EAP_PROPOSE_METHOD good_METHOD_REQUEST [OF L, of 11] stay_propose [OF I C] R
      by (simp add: eap_switch_def good_step base_rank_simps)
  next
    case EAP_SELECT_ACTION
    have "sm_decision sm = DECISION_SUCCESS \<Longrightarrow> success_reason sm" "sm_decision sm \<noteq> DECISION_INITIATE_REAUTH_START"
      using inv EAP_SELECT_ACTION by (auto simp: success_reason_def)
    then show ?thesis
      using EAP_SELECT_ACTION good_FAILURE [OF L, of 13] success_step(1) [OF L] good_INITIALIZE_PASSTHROUGH [OF L, of 13]
        good_PROPOSE_METHOD [OF L, of 13] R
      by (cases "sm_decision sm") (simp_all add: eap_switch_def good_step base_rank_simps)
  next
    case EAP_NAK
    then show ?thesis using good_SELECT_ACTION [OF L N, of 14] R by (simp add: eap_switch_def good_step base_rank_simps)
  next
    case EAP_PICK_UP_METHOD
    then have "currentMethod sm \<noteq> EAP_TYPE_NONE \<Longrightarrow> sm_m sm \<noteq> None" using inv by simp
    then show ?thesis using EAP_PICK_UP_METHOD good_SELECT_ACTION [OF L N, of 16] good_METHOD_RESPONSE [OF L, of 16] R
      by (simp add: eap_switch_def good_step base_rank_simps)
  next
    case EAP_INITIATE_RECEIVED
    then show ?thesis using good_SELECT_ACTION [OF L N, of 14] stay [OF I C] R
      by (simp add: eap_switch_def good_step base_rank_simps)
  qed (use st in simp_all)
qed

text \<open>The states of sending, discarding and repeating.\<close>

lemma switch_sending:
  assumes I: "eap_inv env sm" and L: "live sm" and N: "no_reauth_start env" and C: "\<not> sm_changed sm"
    and st: "EAP_state sm \<in> {EAP_SEND_REQUEST, EAP_DISCARD, EAP_RETRANSMIT, EAP_IDLE2, EAP_RETRANSMIT2, EAP_RECEIVED2, EAP_DISCARD2, EAP_SEND_REQUEST2}"
  shows "step_good sm (eap_switch env sm)"
proof -
  note R = rank_live [OF L]
  note inv = I [unfolded eap_inv_def]
  note LP = live_updates [OF L]
  show ?thesis
  proof (cases "EAP_state sm")
    case EAP_SEND_REQUEST
    then have m: "sm_m sm \<noteq> None" using inv by (simp add: needs_method_def)
    then show ?thesis using EAP_SEND_REQUEST good_IDLE [OF L m] R by (simp add: eap_switch_def good_step base_rank_simps)
  next
    case EAP_DISCARD
    then have m: "sm_m sm \<noteq> None" using inv by (simp add: needs_method_def)
    then show ?thesis using EAP_DISCARD good_IDLE [OF L m] R by (simp add: eap_switch_def good_step base_rank_simps)
  next
    case EAP_RETRANSMIT
    then have m: "sm_m sm \<noteq> None" using inv by (simp add: needs_method_def)
    then show ?thesis using EAP_RETRANSMIT good_IDLE [OF L m, of 19] good_TIMEOUT_FAILURE [OF L, of 19] R
      by (simp add: eap_switch_def good_step base_rank_simps)
  next
    case EAP_IDLE2
    then show ?thesis using good_RECEIVED2 [OF L, of 4] good_RETRANSMIT2 [OF L, of 6] stay [OF I C] R
      by (simp add: eap_switch_def good_step base_rank_simps)
  next
    case EAP_RETRANSMIT2
    then show ?thesis using good_IDLE2 [OF L, of 5] good_TIMEOUT_FAILURE2 [OF L, of 5] R
      by (simp add: eap_switch_def good_step base_rank_simps)
  next
    case EAP_RECEIVED2
    then show ?thesis using good_AAA_REQUEST [OF L, of 3] good_DISCARD2 [OF L, of 3] R
      by (simp add: eap_switch_def good_step base_rank_simps)
  next
    case EAP_DISCARD2
    then show ?thesis using good_IDLE2 [OF L] R by (simp add: eap_switch_def good_step base_rank_simps)
  next
    case EAP_SEND_REQUEST2
    then show ?thesis using good_IDLE2 [OF L] R by (simp add: eap_switch_def good_step base_rank_simps)
  qed (use st in simp_all)
qed

text \<open>The states of the backend server.\<close>

lemma switch_aaa:
  assumes I: "eap_inv env sm" and L: "live sm" and N: "no_reauth_start env" and C: "\<not> sm_changed sm"
    and st: "EAP_state sm \<in> {EAP_INITIALIZE_PASSTHROUGH, EAP_AAA_REQUEST, EAP_AAA_RESPONSE, EAP_AAA_IDLE}"
  shows "step_good sm (eap_switch env sm)"
proof -
  note R = rank_live [OF L]
  note inv = I [unfolded eap_inv_def]
  note LP = live_updates [OF L]
  show ?thesis
  proof (cases "EAP_state sm")
    case EAP_INITIALIZE_PASSTHROUGH
    then show ?thesis using good_AAA_IDLE [OF L, of 3] good_AAA_REQUEST [OF L, of 3] R
      by (simp add: eap_switch_def good_step base_rank_simps)
  next
    case EAP_AAA_REQUEST
    then show ?thesis using good_AAA_IDLE [OF L, of 2] R by (simp add: eap_switch_def good_step base_rank_simps)
  next
    case EAP_AAA_RESPONSE
    then show ?thesis using good_SEND_REQUEST2 [OF L, of 2] R by (simp add: eap_switch_def good_step base_rank_simps)
  next
    case EAP_AAA_IDLE
    then have "aaaSuccess (eap_if sm) \<Longrightarrow> success_reason sm" by (simp add: success_reason_def)
    then show ?thesis
      using EAP_AAA_IDLE good_FAILURE2 [OF L, of 3] success_step(2) [OF L] good_AAA_RESPONSE [OF L, of 3]
        good_TIMEOUT_FAILURE2 [OF L, of 1] stay [OF I C] R
      by (simp add: eap_switch_def good_step base_rank_simps)
  qed (use st in simp_all)
qed

lemma switch_ok:
  assumes I: "eap_inv env sm" and L: "live sm" and N: "no_reauth_start env" and C: "\<not> sm_changed sm"
  shows "step_good sm (eap_switch env sm)"
  using switch_exchange [OF assms] switch_selection [OF assms] switch_sending [OF assms] switch_aaa [OF assms]
    I [unfolded eap_inv_def] stay [OF I C]
  by (cases "EAP_state sm") (simp_all add: eap_switch_def)

text \<open>One step: global rules first, then the switch.\<close>

lemma step_ok:
  assumes I: "eap_inv env sm" and N: "no_reauth_start env" and C: "\<not> sm_changed sm"
  shows "step_good sm (sm_EAP_Step env sm)"
proof -
  have P: "ptr_ok env sm" using I by (simp add: eap_inv_def)
  have fail: "step_good sm (enter_FAILURE env True sm1)"
    if pre: "ptr_ok env sm1" "EAP_state sm1 = EAP_state sm" "eap_if sm1 = eap_if sm" "sm_changed sm1 = sm_changed sm"
      "portEnabled (eap_if sm)" "\<not> eapRestart (eap_if sm)" "too_many_rounds env sm" for sm1
  proof -
    obtain sm' where s: "enter_FAILURE env True sm1 = Some sm'" "entered EAP_FAILURE sm1 sm'"
      using enter_FAILURE_ok [OF pre(1), of True] by (elim exE conjE)
    have ch: "sm_changed sm' \<longrightarrow> EAP_state sm \<noteq> EAP_FAILURE"
      using s(1) pre(2,4) C by (auto simp: enter_FAILURE_def SM_ENTRY_def on_if_def tick_def Let_def)
    have "eap_rank env sm' = 0"
      using s(2) pre(3,5,6) by (auto simp: entered_def keeps_def eap_rank_def base_rank_simps)
    moreover have "EAP_state sm \<noteq> EAP_FAILURE \<longrightarrow> eap_rank env sm = 1" using pre(5-7) by (simp add: eap_rank_def)
    moreover have "eap_inv env sm'" using s(2) by (auto simp: entered_def eap_inv_def needs_method_def)
    moreover have "eapSuccess (eap_if sm') = eapSuccess (eap_if sm)" "aaaSuccess (eap_if sm') \<longrightarrow> aaaSuccess (eap_if sm)"
      using s(2) pre(3) by (simp_all add: entered_def keeps_def)
    ultimately show ?thesis using ch s(1) by (auto simp: step_good_def step_post_def)
  qed
  have dis: "step_good sm (enter_DISABLED env True sm)" if "\<not> portEnabled (eap_if sm)"
  proof -
    let ?sm = "(SM_ENTRY EAP_DISABLED True sm)\<lparr>num_rounds := 0, num_rounds_short := 0\<rparr>"
    have "eap_inv env ?sm" using P by (auto simp: eap_inv_def ptr_ok_def user_ok_def SM_ENTRY_def needs_method_def)
    moreover have "sm_changed ?sm \<longrightarrow> eap_rank env ?sm < eap_rank env sm"
      using that C by (simp add: SM_ENTRY_def eap_rank_def)
    moreover have "eap_if ?sm = eap_if sm" by (simp add: SM_ENTRY_def)
    ultimately show ?thesis by (simp add: enter_DISABLED_def step_good_def step_post_def)
  qed
  have upd: "ptr_ok env (sm\<lparr>num_rounds := a\<rparr>)" "ptr_ok env (sm\<lparr>num_rounds_short := a\<rparr>)" for a
    using P by (simp_all add: ptr_ok_def user_ok_def)
  consider (restart) "eapRestart (eap_if sm)" "portEnabled (eap_if sm)" | (disabled) "\<not> portEnabled (eap_if sm)"
    | (many) "\<not> eapRestart (eap_if sm)" "portEnabled (eap_if sm)" "too_many_rounds env sm" | (live) "live sm"
    using P by (auto simp: live_def)
  then show ?thesis
  proof cases
    case restart
    then show ?thesis using good_INITIALIZE [OF P, of 30 True] by (simp add: sm_EAP_Step_def good_step eap_rank_def)
  next
    case disabled
    then show ?thesis using dis by (simp add: sm_EAP_Step_def)
  next
    case many
    then show ?thesis using fail [OF upd(1)] fail [OF upd(2)] stay [OF I C]
      by (auto simp: sm_EAP_Step_def too_many_rounds_def)
  next
    case live
    then show ?thesis using switch_ok [OF I live N C]
      by (auto simp: sm_EAP_Step_def live_def too_many_rounds_def)
  qed
qed

end

section \<open>Runs\<close>

text \<open>The states between two changes inside one call of \<open>eap_server_sm_step\<close>.\<close>

inductive eap_steps :: "'p eap_env \<Rightarrow> 'p eap_sm \<Rightarrow> 'p eap_sm \<Rightarrow> bool" for env where
  eap_steps_refl: "eap_steps env sm sm"
| eap_steps_step: "sm_EAP_Step env (sm\<lparr>sm_changed := False\<rparr>) = Some sm1 \<Longrightarrow> eap_steps env sm1 sm2 \<Longrightarrow> eap_steps env sm sm2"

inductive_cases eap_steps_cases: "eap_steps env sm sm'"

text \<open>
  The life of a state machine: creation, arbitrary changes of the interface variables by the
  lower layer and the AAA client, the notifications, and calls of \<open>eap_server_sm_step\<close>.
\<close>

inductive eap_reach :: "'p eap_env \<Rightarrow> 'p eap_sm \<Rightarrow> bool" for env where
  reach_init: "eap_reach env eap_server_sm_init"
| reach_lower: "eap_reach env sm \<Longrightarrow> eap_reach env (on_if f sm)"
| reach_cached: "eap_reach env sm \<Longrightarrow> eap_reach env (eap_sm_notify_cached sm)"
| reach_pending: "eap_reach env sm \<Longrightarrow> eap_reach env (eap_sm_pending_cb sm)"
| reach_clear: "eap_reach env sm \<Longrightarrow> eap_reach env (eap_server_clear_identity sm)"
| reach_step: "eap_reach env sm \<Longrightarrow> eap_server_sm_step env sm = Some (res, sm') \<Longrightarrow> eap_reach env sm'"

context eap_authenticator
begin

lemma method_success_cong:
  assumes "user_ok sm" "sm_m sm' = sm_m sm" "eap_method_priv sm' = eap_method_priv sm" "currentMethod sm' = currentMethod sm"
  shows "method_success env sm \<Longrightarrow> method_success env sm'"
proof -
  assume "method_success env sm"
  then obtain m p where m: "the_method env sm = Some m" "eap_method_priv sm = Some p" "m_isSuccess m sm p"
    "currentMethod sm \<noteq> EAP_TYPE_IDENTITY" by (auto simp: method_success_def)
  have "m_isSuccess m sm' p" by (rule iffD2 [OF contract_success [OF method_contract_of [OF m(1)] assms(1)] m(3)])
  with m assms show ?thesis by (auto simp: method_success_def the_method_def)
qed

lemma inv_transfer:
  assumes "eap_inv env sm" "sm_m sm' = sm_m sm" "eap_method_priv sm' = eap_method_priv sm" "currentMethod sm' = currentMethod sm"
    "sm_user sm' = sm_user sm" "EAP_state sm' = EAP_state sm" "sm_decision sm' = sm_decision sm"
  shows "eap_inv env sm'"
proof -
  have "user_ok sm" using assms(1) by (simp add: eap_inv_def ptr_ok_def)
  note success = method_success_cong [OF this assms(2-4)]
  have "ptr_ok env sm' = ptr_ok env sm" using assms(2-5) by (simp add: ptr_ok_def user_ok_def)
  then show ?thesis using assms success by (simp add: eap_inv_def)
qed

lemma inv_events:
  assumes "eap_inv env sm"
  shows "eap_inv env (on_if f sm)" "eap_inv env (eap_sm_pending_cb sm)" "eap_inv env (eap_server_clear_identity sm)"
    "eap_inv env (eap_sm_notify_cached sm)" "eap_inv env (sm\<lparr>sm_changed := b\<rparr>)"
proof -
  show "eap_inv env (on_if f sm)" "eap_inv env (eap_sm_pending_cb sm)" "eap_inv env (eap_server_clear_identity sm)"
    "eap_inv env (sm\<lparr>sm_changed := b\<rparr>)"
    by (rule inv_transfer [OF assms]; simp add: on_if_def eap_sm_pending_cb_def eap_server_clear_identity_def)+
  show "eap_inv env (eap_sm_notify_cached sm)"
    using assms by (simp add: eap_inv_def ptr_ok_def user_ok_def eap_sm_notify_cached_def needs_method_def)
qed

lemma inv_init: "eap_inv env eap_server_sm_init"
  by (simp add: eap_inv_def ptr_ok_def user_ok_def eap_server_sm_init_def eap_sm_zero_def needs_method_def)

text \<open>The driver returns, within the number of changes given by the rank.\<close>

lemma rank_changed [simp]: "eap_rank env (sm\<lparr>sm_changed := b\<rparr>) = eap_rank env sm"
  by (simp add: eap_rank_def base_rank_def too_many_rounds_def)

definition success_grounds :: "'p eap_sm \<Rightarrow> 'p eap_sm \<Rightarrow> bool" where
  "success_grounds sm sm1 \<longleftrightarrow> eap_steps env sm sm1 \<and> eap_inv env sm1 \<and> success_reason (sm1\<lparr>sm_changed := False\<rparr>)
     \<and> (aaaSuccess (eap_if sm1) \<longrightarrow> aaaSuccess (eap_if sm))"

lemma step_loop_ok:
  assumes "eap_inv env sm" "no_reauth_start env"
  shows "\<exists>r sm'. sm_step_loop env res sm = Some (r, sm') \<and> eap_inv env sm' \<and> \<not> sm_changed sm' \<and> eap_steps env sm sm'
    \<and> (eapSuccess (eap_if sm') \<longrightarrow> eapSuccess (eap_if sm) \<or> (\<exists>sm1. success_grounds sm sm1))
    \<and> (aaaSuccess (eap_if sm') \<longrightarrow> aaaSuccess (eap_if sm))"
  using assms(1)
proof (induction "eap_rank env sm" arbitrary: sm res rule: less_induct)
  case less
  let ?sm = "sm\<lparr>sm_changed := False\<rparr>"
  have "step_good ?sm (sm_EAP_Step env ?sm)" using step_ok [OF inv_events(5) [OF less.prems, of False] assms(2)] by simp
  then obtain sm1 where s: "sm_EAP_Step env ?sm = Some sm1" "eap_inv env sm1" "sm_changed sm1 \<longrightarrow> eap_rank env sm1 < eap_rank env sm"
    "eapSuccess (eap_if sm1) \<longrightarrow> eapSuccess (eap_if sm) \<or> success_reason ?sm" "aaaSuccess (eap_if sm1) \<longrightarrow> aaaSuccess (eap_if sm)"
    by (auto simp: step_good_def step_post_def)
  have here: "success_reason ?sm \<Longrightarrow> success_grounds sm sm"
    using less.prems eap_steps_refl by (simp add: success_grounds_def)
  show ?case
  proof (cases "sm_changed sm1")
    case False
    then have "sm_step_loop env res sm = Some (res, sm1)" using s(1) by (subst sm_step_loop.simps) simp
    moreover have "eap_steps env sm sm1" using s(1) by (blast intro: eap_steps.intros)
    ultimately show ?thesis using False s(2,4,5) here by blast
  next
    case True
    with less.hyps [of sm1 1] s(2,3) obtain r sm' where l: "sm_step_loop env 1 sm1 = Some (r, sm')" "eap_inv env sm'"
      "\<not> sm_changed sm'" "eap_steps env sm1 sm'"
      "eapSuccess (eap_if sm') \<longrightarrow> eapSuccess (eap_if sm1) \<or> (\<exists>sm2. success_grounds sm1 sm2)"
      "aaaSuccess (eap_if sm') \<longrightarrow> aaaSuccess (eap_if sm1)"
      by blast
    have "sm_step_loop env res sm = Some (r, sm')" using s(1) l(1) True by (subst sm_step_loop.simps) simp
    moreover have "eap_steps env sm sm'" using eap_steps_step [OF s(1) l(4)] .
    moreover have "success_grounds sm1 sm2 \<Longrightarrow> success_grounds sm sm2" for sm2
      using eap_steps_step [OF s(1), of sm2] s(5) by (auto simp: success_grounds_def)
    then have "eapSuccess (eap_if sm') \<longrightarrow> eapSuccess (eap_if sm) \<or> (\<exists>sm2. success_grounds sm sm2)"
      using l(5) s(4) here by blast
    ultimately show ?thesis using l(2,3,6) s(5) by blast
  qed
qed

lemma reach_inv:
  assumes "eap_reach env sm" "no_reauth_start env" shows "eap_inv env sm"
  using assms
proof (induction rule: eap_reach.induct)
  case (reach_step sm res sm')
  then show ?case using step_loop_ok [of sm 0] by (auto simp: eap_server_sm_step_def)
qed (use inv_init inv_events in auto)

end

end
