(* ===== verification/Eap_Identity.thy ===== *)
theory Eap_Identity
  imports Eap_Server_Inv
begin

unbundle bit_operations_syntax

text \<open>
  The EAP-Identity method of \<open>src/eap_server/eap_server_identity.c\<close> as an operation table, and
  the authenticator of an access point that relays EAP to an AAA server, where Identity is
  the only local method. The method meets the contract of \<open>Eap_Server_Inv\<close>, so the state
  machine's lemmas apply to it through an interpretation.
\<close>

section \<open>The method\<close>

datatype identity_state = ID_CONTINUE | ID_SUCCESS | ID_FAILURE

record eap_identity_data =
  id_state :: identity_state
  pick_up :: bool

definition sizeof_eap_identity_data :: nat where "sizeof_eap_identity_data = 8"

definition eap_identity_init ::
  "(nat \<Rightarrow> nat \<Rightarrow> bool) \<Rightarrow> eap_identity_data eap_sm \<Rightarrow> (eap_identity_data option \<times> eap_identity_data eap_sm) ub" where
  "eap_identity_init malloc sm =
     (if malloc (clk sm) sizeof_eap_identity_data
      then Some (Some \<lparr>id_state = ID_CONTINUE, pick_up = False\<rparr>, tick sm)
      else Some (None, tick sm))"

definition eap_identity_initPickUp ::
  "(nat \<Rightarrow> nat \<Rightarrow> bool) \<Rightarrow> eap_identity_data eap_sm \<Rightarrow> (eap_identity_data option \<times> eap_identity_data eap_sm) ub" where
  "eap_identity_initPickUp malloc sm = do {
     (data, sm) \<leftarrow> eap_identity_init malloc sm;
     Some (map_option (\<lambda>d. d\<lparr>pick_up := True\<rparr>) data, sm) }"

definition eap_identity_reset :: "eap_identity_data eap_sm \<Rightarrow> eap_identity_data \<Rightarrow> eap_identity_data eap_sm ub" where
  "eap_identity_reset sm data = Some sm"

text \<open>\<open>req_text\<close> is the callback \<open>get_eap_req_id_text\<close>: absent, or giving a text that may be NULL.\<close>

definition eap_identity_buildReq ::
  "(nat \<Rightarrow> nat \<Rightarrow> bool) \<Rightarrow> bytes option option \<Rightarrow> eap_identity_data eap_sm \<Rightarrow> eap_identity_data \<Rightarrow> u8
     \<Rightarrow> (bytes option \<times> eap_identity_data \<times> eap_identity_data eap_sm) ub" where
  "eap_identity_buildReq malloc req_text sm data i = do {
     let req_data = (case req_text of Some (Some t) \<Rightarrow> t | _ \<Rightarrow> []);
     req \<leftarrow> msg_content
       (bindR (eap_msg_alloc (malloc (clk sm)) EAP_VENDOR_IETF EAP_TYPE_IDENTITY (word_of_nat (length req_data))
                EAP_CODE_REQUEST i)
         (\<lambda>req. case req of None \<Rightarrow> Ok None
                | Some req \<Rightarrow> bindR (wpabuf_put_data req req_data) (\<lambda>req. Ok (Some req))));
     Some (req, if req = None then data\<lparr>id_state := ID_FAILURE\<rparr> else data, tick sm) }"

definition eap_identity_check :: "eap_identity_data eap_sm \<Rightarrow> eap_identity_data \<Rightarrow> bytes \<Rightarrow> bool ub" where
  "eap_identity_check sm data respData = do {
     r \<leftarrow> eap_hdr_validate EAP_VENDOR_IETF EAP_TYPE_IDENTITY (Some respData);
     Some (r = None) }"

text \<open>The part of \<open>eap_identity_process\<close> behind the pick-up test.\<close>

definition identity_store ::
  "(nat \<Rightarrow> nat \<Rightarrow> bool) \<Rightarrow> eap_identity_data eap_sm \<Rightarrow> eap_identity_data \<Rightarrow> bytes
     \<Rightarrow> (eap_identity_data \<times> eap_identity_data eap_sm) ub" where
  "identity_store malloc sm data respData = do {
     r \<leftarrow> eap_hdr_validate EAP_VENDOR_IETF EAP_TYPE_IDENTITY (Some respData);
     case r of
       None \<Rightarrow> Some (data, sm)
     | Some (pos, len) \<Rightarrow>
       let sm = tick sm;
           sm = (if sm_identity sm \<noteq> None then sm\<lparr>update_user := True\<rparr> else sm) in
       if malloc (clk sm) (if len \<noteq> 0 then len else 1)
       then Some (data\<lparr>id_state := ID_SUCCESS\<rparr>, tick (sm\<lparr>sm_identity := Some (take len (drop pos respData))\<rparr>))
       else Some (data\<lparr>id_state := ID_FAILURE\<rparr>, tick (sm\<lparr>sm_identity := None\<rparr>)) }"

definition eap_identity_process ::
  "(nat \<Rightarrow> nat \<Rightarrow> bool) \<Rightarrow> eap_identity_data eap_sm \<Rightarrow> eap_identity_data \<Rightarrow> bytes
     \<Rightarrow> (eap_identity_data \<times> eap_identity_data eap_sm) ub" where
  "eap_identity_process malloc sm data respData =
     (if pick_up data then do {
        bad \<leftarrow> eap_identity_check sm data respData;
        if bad then Some (data\<lparr>id_state := ID_FAILURE\<rparr>, sm)
        else identity_store malloc sm (data\<lparr>pick_up := False\<rparr>) respData }
      else identity_store malloc sm data respData)"

definition eap_identity_isDone :: "eap_identity_data eap_sm \<Rightarrow> eap_identity_data \<Rightarrow> bool" where
  "eap_identity_isDone sm data \<longleftrightarrow> id_state data \<noteq> ID_CONTINUE"

definition eap_identity_isSuccess :: "eap_identity_data eap_sm \<Rightarrow> eap_identity_data \<Rightarrow> bool" where
  "eap_identity_isSuccess sm data \<longleftrightarrow> id_state data = ID_SUCCESS"

definition eap_server_identity_register ::
  "(nat \<Rightarrow> nat \<Rightarrow> bool) \<Rightarrow> bytes option option \<Rightarrow> eap_identity_data eap_method" where
  "eap_server_identity_register malloc req_text =
     \<lparr>m_vendor = EAP_VENDOR_IETF, m_method = EAP_TYPE_IDENTITY,
      m_init = eap_identity_init malloc, m_initPickUp = Some (eap_identity_initPickUp malloc),
      m_reset = eap_identity_reset, m_buildReq = eap_identity_buildReq malloc req_text, m_getTimeout = None,
      m_check = Some eap_identity_check, m_process = eap_identity_process malloc,
      m_isDone = eap_identity_isDone, m_getKey = None, m_isSuccess = eap_identity_isSuccess,
      m_getSessionId = None\<rparr>"

section \<open>The relaying access point\<close>

text \<open>
  Identity is the only local method, and there is no local user database. \<open>mem\<close> tells which allocations
  succeed, with one exception: the private data of the Identity method can be allocated when
  \<open>PROPOSE_METHOD\<close> asks for it, since its loop has no exit otherwise.
\<close>

definition relay_identity :: "(nat \<Rightarrow> nat \<Rightarrow> bool) \<Rightarrow> eap_identity_data eap_method" where
  "relay_identity mem = (eap_server_identity_register mem None)\<lparr>m_init := eap_identity_init (\<lambda>_ _. True)\<rparr>"

definition relay_env ::
  "eap_config \<Rightarrow> (nat \<Rightarrow> nat \<Rightarrow> bool) \<Rightarrow> (nat \<Rightarrow> nat) \<Rightarrow> (nat \<Rightarrow> int) option \<Rightarrow> eap_identity_data eap_env" where
  "relay_env conf mem rnd reauth_start =
     \<lparr>cfg = conf\<lparr>eap_server := False, backend_auth := False\<rparr>,
      eap_methods = [relay_identity mem],
      malloc_at = mem, rand_at = rnd, get_eap_user = None,
      get_erp_send_reauth_start = reauth_start, get_erp_domain = None\<rparr>"

section \<open>The contract\<close>

lemma frame_tick: "user_ok sm \<Longrightarrow> method_frame sm (tick sm)"
  by (simp add: method_frame_def tick_def user_ok_def)

lemma identity_build_ok:
  assumes "5 + length (case req_text of Some (Some t) \<Rightarrow> t | _ \<Rightarrow> []) < PTRDIFF_LIMIT"
  shows "\<exists>r p. eap_identity_buildReq malloc req_text sm data i = Some (r, p, tick sm)"
proof -
  let ?d = "case req_text of Some (Some t) \<Rightarrow> t | _ \<Rightarrow> []"
  let ?n = "word_of_nat (length ?d) :: u64"
  have n: "unat ?n = length ?d" using assms by (intro unat_word_of_nat_small) simp
  have sm: "eap_hdr_size EAP_VENDOR_IETF + unat ?n < PTRDIFF_LIMIT" using assms n by (simp add: eap_hdr_size_def)
  show ?thesis
    using sm
  proof (cases rule: eap_msg_alloc_cases [where malloc = "malloc (clk sm)" and type = EAP_TYPE_IDENTITY
        and code = EAP_CODE_REQUEST and i = i])
    case failed
    then show ?thesis by (simp add: eap_identity_buildReq_def Let_def msg_content_def)
  next
    case (allocated b)
    then obtain b' where "wpabuf_put_data b ?d = Ok b'" using wb.put_fits [of b ?d] n by auto
    with allocated(1) show ?thesis by (simp add: eap_identity_buildReq_def Let_def msg_content_def)
  qed
qed

lemma identity_store_ok:
  assumes "user_ok sm"
  shows "\<exists>p sm'. identity_store malloc sm data d = Some (p, sm') \<and> method_frame sm sm'"
proof (cases "eap_hdr_validate EAP_VENDOR_IETF EAP_TYPE_IDENTITY (Some d) = Some None")
  case True
  then show ?thesis using assms method_frame_refl by (simp add: identity_store_def)
next
  case False
  with eap_hdr_validate_cases [of EAP_VENDOR_IETF EAP_TYPE_IDENTITY "Some d"] obtain off plen where
    "eap_hdr_validate EAP_VENDOR_IETF EAP_TYPE_IDENTITY (Some d) = Some (Some (off, plen))" by auto
  with assms show ?thesis by (simp add: identity_store_def Let_def tick_def method_frame_def user_ok_def)
qed

lemma identity_check_ok: "\<exists>r. eap_identity_check sm data d = Some r"
  using eap_hdr_validate_cases [of EAP_VENDOR_IETF EAP_TYPE_IDENTITY "Some d"] by (auto simp: eap_identity_check_def)

lemma identity_process_ok:
  assumes "user_ok sm"
  shows "\<exists>p sm'. eap_identity_process malloc sm data d = Some (p, sm') \<and> method_frame sm sm'"
proof -
  obtain r where r: "eap_identity_check sm data d = Some r" using identity_check_ok by blast
  show ?thesis
    using identity_store_ok [OF assms] method_frame_refl [OF assms] r by (cases r) (auto simp: eap_identity_process_def)
qed

lemma identity_contract:
  assumes "5 + length (case req_text of Some (Some t) \<Rightarrow> t | _ \<Rightarrow> []) < PTRDIFF_LIMIT"
  shows "method_contract ((eap_server_identity_register malloc req_text)\<lparr>m_init := eap_identity_init malloc_init\<rparr>)"
proof -
  have init: "\<exists>p. eap_identity_init malloc sm = Some (p, tick sm)" for malloc sm by (simp add: eap_identity_init_def)
  have init': "\<exists>p sm'. eap_identity_init malloc_init sm = Some (p, sm') \<and> method_frame sm sm' \<and>
      (p = None \<longrightarrow> user_eap_method_index sm' = user_eap_method_index sm \<and> (sm_identity sm' = None \<longleftrightarrow> sm_identity sm = None))"
    if "user_ok sm" for sm using init [of malloc_init sm] frame_tick [OF that] by (auto simp: tick_def)
  have pick: "\<exists>p sm'. eap_identity_initPickUp malloc sm = Some (p, sm') \<and> method_frame sm sm'" if "user_ok sm" for sm
    using init [of malloc sm] frame_tick [OF that] by (auto simp: eap_identity_initPickUp_def)
  have build: "\<exists>r p sm'. eap_identity_buildReq malloc req_text sm data i = Some (r, p, sm') \<and> method_frame sm sm'"
    if "user_ok sm" for sm data i using identity_build_ok [OF assms, of malloc sm data i] frame_tick [OF that] by auto
  show ?thesis
    unfolding method_contract_def eap_server_identity_register_def
    using init' pick build identity_process_ok identity_check_ok
    by (simp add: eap_identity_reset_def eap_identity_isSuccess_def method_frame_refl)
qed

lemma relay_contract: "eap_contract (relay_env conf mem rnd reauth)"
proof -
  let ?m = "relay_identity mem"
  have "method_contract ?m" unfolding relay_identity_def by (rule identity_contract) (simp add: PTRDIFF_LIMIT_def)
  moreover have "m_init ?m sm \<noteq> Some (None, sm')" for sm sm'
    by (simp add: relay_identity_def eap_identity_init_def)
  moreover have "eap_server_get_eap_method (relay_env conf mem rnd reauth) EAP_VENDOR_IETF EAP_TYPE_NONE = None"
    by (simp add: eap_server_get_eap_method_def relay_env_def relay_identity_def eap_server_identity_register_def eap_consts)
  moreover have "eap_server_get_eap_method (relay_env conf mem rnd reauth) EAP_VENDOR_IETF EAP_TYPE_IDENTITY = Some ?m"
    by (simp add: eap_server_get_eap_method_def relay_env_def relay_identity_def eap_server_identity_register_def)
  ultimately show ?thesis by (simp add: eap_contract_def) (simp add: relay_env_def)
qed

interpretation relay: eap_authenticator "relay_env conf mem rnd reauth"
  by unfold_locales (rule relay_contract)

lemma relay_no_reauth_start: "no_reauth_start (relay_env conf mem rnd None)"
  by (simp add: no_reauth_start_def eap_get_erp_send_reauth_start_def relay_env_def)

end
