(* ===== verification/Eap_Theorems.thy ===== *)
theory Eap_Theorems
  imports Eap_Identity
begin

unbundle bit_operations_syntax

text \<open>
  What the EAP authenticator guarantees over all runs, and where it does not: every call
  returns, the grounds of success, messages that are dropped, retransmission timeouts,
  Nak processing; a NULL method after EAP-Initiate/Re-auth-Start and the endless proposal
  of Identity without memory. The concrete runs use the relaying access point of
  \<open>Eap_Identity\<close>.
\<close>

section \<open>The state machine on every run\<close>

text \<open>
  C7. Provided that the registered methods keep their contract, that the Identity method can always be started,
  that the user database returns complete method lists (\<open>eap_contract\<close>) and that the lower layer does
  not ask for EAP-Initiate/Re-auth-Start: whatever the lower layer and the AAA client write into the
  interface, and whatever the allocator and the random numbers answer, a call of \<open>eap_server_sm_step\<close> on a
  reachable authenticator returns. No NULL method is called, no list is read out of bounds, and the loop
  over the states ends in a state that does not change any more, with the invariant kept. The code does not
  return without these conditions (\<open>eap_null_method\<close>, \<open>eap_propose_identity_loops\<close>).
\<close>

theorem eap_step_returns:
  assumes "eap_contract env" "no_reauth_start env" "eap_reach env sm"
  shows "\<exists>res sm'. eap_server_sm_step env sm = Some (res, sm') \<and> eap_inv env sm' \<and> \<not> sm_changed sm' \<and> eap_steps env sm sm'"
proof -
  note A = eap_authenticator.intro [OF assms(1)]
  show ?thesis
    using eap_authenticator.step_loop_ok [OF A eap_authenticator.reach_inv [OF A assms(3,2)] assms(2), of 0]
    unfolding eap_server_sm_step_def by (elim exE conjE) (intro exI conjI)
qed

abbreviation demo_env :: "(nat \<Rightarrow> int) option \<Rightarrow> eap_identity_data eap_env" where
  "demo_env \<equiv> relay_env \<lparr>eap_server = False, backend_auth = False, max_auth_rounds = 100, max_auth_rounds_short = 50\<rparr> (\<lambda>_ _. True) (\<lambda>_. 7)"

abbreviation demo_sm :: "eap_identity_data eap_sm" where
  "demo_sm \<equiv> on_if (\<lambda>i. i\<lparr>portEnabled := True\<rparr>) eap_server_sm_init"

lemma demo_reach: "eap_reach (demo_env r) demo_sm"
  by (intro eap_reach.intros)

theorem eap_step_returns_witness:
  "\<exists>res sm'. eap_server_sm_step (demo_env None) demo_sm = Some (res, sm') \<and> eap_inv (demo_env None) sm'
     \<and> \<not> sm_changed sm' \<and> eap_steps (demo_env None) demo_sm sm'"
  by (rule eap_step_returns [OF relay_contract relay_no_reauth_start demo_reach])


text \<open>The verdict of a method depends on its private data only.\<close>

lemma method_success_any:
  assumes "eap_contract env" "sm_m sm' = sm_m sm" "eap_method_priv sm' = eap_method_priv sm" "currentMethod sm' = currentMethod sm"
    "method_success env sm"
  shows "method_success env sm'"
proof -
  obtain m p where m: "the_method env sm = Some m" "eap_method_priv sm = Some p" "m_isSuccess m sm p"
    "currentMethod sm \<noteq> EAP_TYPE_IDENTITY" using assms(5) by (auto simp: method_success_def)
  note C = eap_authenticator.method_contract_of [OF eap_authenticator.intro [OF assms(1)] m(1)]
  have "user_ok eap_server_sm_init" by (simp add: user_ok_def eap_server_sm_init_def eap_sm_zero_def)
  from contract_success [OF C this, of sm p] contract_success [OF C this, of sm' p] m(3) have "m_isSuccess m sm' p" by simp
  with m assms show ?thesis by (auto simp: method_success_def the_method_def)
qed

text \<open>
  C8. A call that sets \<open>eapSuccess\<close> has passed a state with grounds for it: the policy decision
  in \<open>SELECT_ACTION\<close> with a method, other than Identity, that reports success, or the AAA
  server's \<open>aaaSuccess\<close> in \<open>AAA_IDLE\<close>, set before the call. No message of the peer alone leads to success.
\<close>

theorem eap_success_reason:
  assumes "eap_contract env" "no_reauth_start env" "eap_reach env sm" "eap_server_sm_step env sm = Some (res, sm')"
    "\<not> eapSuccess (eap_if sm)" "eapSuccess (eap_if sm')"
  shows "\<exists>sm1. eap_steps env sm sm1 \<and>
    (EAP_state sm1 = EAP_SELECT_ACTION \<and> method_success env sm1
     \<or> EAP_state sm1 = EAP_AAA_IDLE \<and> aaaSuccess (eap_if sm1) \<and> aaaSuccess (eap_if sm))"
proof -
  note A = eap_authenticator.intro [OF assms(1)]
  obtain sm1 where "eap_authenticator.success_grounds env sm sm1"
    using eap_authenticator.step_loop_ok [OF A eap_authenticator.reach_inv [OF A assms(3,2)] assms(2), of 0] assms(4-6)
    unfolding eap_server_sm_step_def by auto
  moreover have "method_success env (sm1\<lparr>sm_changed := False\<rparr>) \<Longrightarrow> method_success env sm1"
    by (rule method_success_any [OF assms(1)]) simp_all
  ultimately show ?thesis
    by (auto simp: eap_authenticator.success_grounds_def [OF A] eap_authenticator.success_reason_def [OF A])
qed

text \<open>One round of the demonstration: the lower layer's changes, then a call.\<close>

definition demo_call :: "(eap_eapol_interface \<Rightarrow> eap_eapol_interface) \<Rightarrow> eap_identity_data eap_sm \<Rightarrow> eap_identity_data eap_sm" where
  "demo_call f sm = (case eap_server_sm_step (demo_env None) (on_if f sm) of Some (_, sm) \<Rightarrow> sm | None \<Rightarrow> sm)"

lemma demo_call_reach: "eap_reach (demo_env None) sm \<Longrightarrow> eap_reach (demo_env None) (demo_call f sm)"
  by (auto simp: demo_call_def intro: reach_lower reach_step split: option.splits)

definition demo_idle :: "eap_identity_data eap_sm" where "demo_idle = demo_call id demo_sm"

definition demo_waiting :: "eap_identity_data eap_sm" where
  "demo_waiting = demo_call (\<lambda>i. i\<lparr>eapResp := True, eapRespData := Some [2, 7, 0, 6, 1, 97]\<rparr>) demo_idle"

definition demo_accepted :: "eap_identity_data eap_sm" where
  "demo_accepted = on_if (\<lambda>i. i\<lparr>aaaSuccess := True\<rparr>) demo_waiting"

lemma demo_accepted_reach: "eap_reach (demo_env None) demo_accepted"
  unfolding demo_accepted_def demo_waiting_def demo_idle_def by (intro demo_call_reach demo_reach reach_lower)

lemma demo_values:
  "EAP_state demo_waiting = EAP_AAA_IDLE" "\<not> eapSuccess (eap_if demo_accepted)" 
  "map_option (\<lambda>r. eapSuccess (eap_if (snd r))) (eap_server_sm_step (demo_env None) demo_accepted) = Some True"
  by code_simp+

theorem eap_success_reason_witness:
  "\<exists>sm1. eap_steps (demo_env None) demo_accepted sm1 \<and>
    (EAP_state sm1 = EAP_SELECT_ACTION \<and> method_success (demo_env None) sm1
     \<or> EAP_state sm1 = EAP_AAA_IDLE \<and> aaaSuccess (eap_if sm1) \<and> aaaSuccess (eap_if demo_accepted))"
proof -
  obtain res sm' where "eap_server_sm_step (demo_env None) demo_accepted = Some (res, sm')" "eapSuccess (eap_if sm')"
    using demo_values(3) by auto
  then show ?thesis
    by (rule eap_success_reason [OF relay_contract relay_no_reauth_start demo_accepted_reach _ demo_values(2)])
qed

section \<open>Re-authentication start without a method\<close>

definition reauth_waiting :: "eap_identity_data eap_sm" where
  "reauth_waiting = (case eap_server_sm_step (demo_env (Some (\<lambda>_. 1))) demo_sm of Some (_, sm) \<Rightarrow> sm | None \<Rightarrow> demo_sm)"

definition reauth_attack :: "eap_identity_data eap_sm" where
  "reauth_attack = on_if (\<lambda>i. i\<lparr>eapResp := True, eapRespData := Some [2, 7, 0, 5, 0]\<rparr>) reauth_waiting"

definition reauth_received :: "eap_identity_data eap_sm" where
  "reauth_received = (case sm_EAP_Step (demo_env (Some (\<lambda>_. 1))) (reauth_attack\<lparr>sm_changed := False\<rparr>) of
     Some sm \<Rightarrow> sm | None \<Rightarrow> demo_sm)"

text \<open>
  C11. When the lower layer asks for EAP-Initiate/Re-auth-Start, the authenticator waits in
  \<open>IDLE\<close> with no method selected, and an EAP-Response of type 0 with the identifier of
  that message passes the test of \<open>RECEIVED\<close> against \<open>currentMethod\<close>, which is still
  \<open>EAP_TYPE_NONE\<close>: the entry of \<open>INTEGRITY_CHECK\<close> dereferences the NULL method.
\<close>

theorem eap_null_method:
  "\<exists>(env :: eap_identity_data eap_env) sm sm1. eap_contract env \<and> eap_reach env sm \<and> EAP_state sm = EAP_IDLE \<and> currentId sm = 7
     \<and> eapReqData (eap_if sm) = Some [5, 7, 0, 6, 1, 0] \<and> eapRespData (eap_if sm) = Some [2, 7, 0, 5, 0]
     \<and> sm_EAP_Step env (sm\<lparr>sm_changed := False\<rparr>) = Some sm1 \<and> EAP_state sm1 = EAP_RECEIVED \<and> sm_m sm1 = None
     \<and> eap_switch env sm1 = enter_INTEGRITY_CHECK env False sm1 \<and> enter_INTEGRITY_CHECK env False sm1 = None"
proof -
  let ?env = "demo_env (Some (\<lambda>_. 1))"
  have "eap_reach ?env reauth_waiting"
    unfolding reauth_waiting_def by (auto intro: reach_step demo_reach split: option.splits)
  then have 1: "eap_reach ?env reauth_attack" unfolding reauth_attack_def by (rule reach_lower)
  have 2: "EAP_state reauth_attack = EAP_IDLE" "currentId reauth_attack = 7"
    "eapReqData (eap_if reauth_attack) = Some [5, 7, 0, 6, 1, 0]" "eapRespData (eap_if reauth_attack) = Some [2, 7, 0, 5, 0]"
    by code_simp+
  have "\<not> Option.is_none (sm_EAP_Step ?env (reauth_attack\<lparr>sm_changed := False\<rparr>))" by code_simp
  then have 3: "sm_EAP_Step ?env (reauth_attack\<lparr>sm_changed := False\<rparr>) = Some reauth_received"
    by (auto simp: reauth_received_def Option.is_none_def)
  have 4: "EAP_state reauth_received = EAP_RECEIVED" "sm_m reauth_received = None" by code_simp+
  have "Option.is_none (enter_INTEGRITY_CHECK ?env False reauth_received)" by code_simp
  moreover have "rxResp reauth_received \<and> respId reauth_received = currentId reauth_received
      \<and> \<not> resp_is EAP_TYPE_NAK reauth_received \<and> resp_is (currentMethod reauth_received) reauth_received" by code_simp
  ultimately show ?thesis
    using relay_contract 1 2 3 4 by (intro exI [of _ ?env] exI [of _ reauth_attack] exI [of _ reauth_received])
      (simp add: eap_switch_def Option.is_none_def)
qed


section \<open>Timeouts and retransmission\<close>

text \<open>
  The retransmission timer: 1 second while waiting for the answer to
  EAP-Initiate/Re-auth-Start, the timeout hint of the method when there is one, otherwise 3
  seconds doubled for every retransmission with a ceiling of 20.
\<close>

lemma eap_timeout_backoff:
  "eap_sm_calculateTimeout sm n srtt rttvar t
     = (if try_initiate_reauth sm then 1 else if t \<noteq> 0 then t else min 20 (3 * 2 ^ nat n))"
  by (simp add: eap_sm_calculateTimeout_def rto_loop_eq)

section \<open>Messages that do not answer the pending request\<close>

text \<open>The tail of the parser: the method type and the expanded fields.\<close>

definition parse_type :: "nat \<Rightarrow> 'p eap_sm \<Rightarrow> bytes \<Rightarrow> 'p eap_sm ub" where
  "parse_type n sm buf =
     (if n > sizeof_eap_hdr then do {
        t \<leftarrow> peek buf (int sizeof_eap_hdr);
        let sm = sm\<lparr>respMethod := ucast t\<rparr>;
        if respMethod sm = EAP_TYPE_EXPANDED then
          if n < sizeof_eap_hdr + 8 then Some sm
          else do {
            v \<leftarrow> WPA_GET_BE24 (drop (sizeof_eap_hdr + 1) buf);
            vm \<leftarrow> WPA_GET_BE32 (drop (sizeof_eap_hdr + 4) buf);
            Some (sm\<lparr>respVendor := uint v, respVendorMethod := vm\<rparr>) }
        else Some sm }
      else Some sm)"

lemma parse_type_keeps: "parse_type n sm buf = Some sm' \<Longrightarrow> rxResp sm' = rxResp sm \<and> respId sm' = respId sm"
  unfolding parse_type_def Let_def
  by (cases "peek buf (int sizeof_eap_hdr)"; cases "WPA_GET_BE24 (drop (sizeof_eap_hdr + 1) buf)";
      cases "WPA_GET_BE32 (drop (sizeof_eap_hdr + 4) buf)") (auto split: if_splits)

lemma parse_rxResp:
  assumes "eap_sm_parseEapResp sm (Some d) = Some sm'" "rxResp sm'"
  shows "4 \<le> length d \<and> d ! 0 = EAP_CODE_RESPONSE \<and> respId sm' = uint (d ! 1)"
proof (cases "length d < sizeof_eap_hdr")
  case True
  then show ?thesis using assms by (auto simp: eap_sm_parseEapResp_def)
next
  case False
  then obtain n where n: "eap_hdr_length d = Some n" using eap_hdr_length_some [of d] by auto
  define b0 b1 where b: "b0 = d ! 0" "b1 = d ! 1"
  have p: "peek d 0 = Some b0" "peek d 1 = Some b1" using False by (auto simp: b peek_def sizeof_eap_hdr_def)
  have "n \<le> length d" proof (rule ccontr)
    assume "\<not> n \<le> length d"
    then show False using assms False n by (auto simp: eap_sm_parseEapResp_def Let_def)
  qed
  moreover define T where "T = (let sm = sm\<lparr>rxResp := False, rxInitiate := False, respId := -1, respMethod := EAP_TYPE_NONE,
                  respVendor := EAP_VENDOR_IETF, respVendorMethod := EAP_TYPE_NONE\<rparr>; sm = sm\<lparr>respId := uint (b1)\<rparr> in
     if b0 = EAP_CODE_RESPONSE then sm\<lparr>rxResp := True\<rparr> else if b0 = EAP_CODE_INITIATE then sm\<lparr>rxInitiate := True\<rparr> else sm)"
  ultimately have "eap_sm_parseEapResp sm (Some d) = parse_type n T d"
    using False n p unfolding eap_sm_parseEapResp_def parse_type_def Let_def T_def by simp
  then have "parse_type n T d = Some sm'" using assms(1) by simp
  from parse_type_keeps [OF this] show ?thesis using assms(2) False by (auto simp: b T_def Let_def sizeof_eap_hdr_def split: if_splits)
qed

lemma sm_step_loop_changed:
  "sm_EAP_Step env (sm\<lparr>sm_changed := False\<rparr>) = Some sm1 \<Longrightarrow> sm_changed sm1 \<Longrightarrow> sm_step_loop env r sm = sm_step_loop env 1 sm1"
  by (subst sm_step_loop.simps) simp

lemma sm_step_loop_stays:
  "sm_EAP_Step env (sm\<lparr>sm_changed := False\<rparr>) = Some sm1 \<Longrightarrow> \<not> sm_changed sm1 \<Longrightarrow> sm_step_loop env r sm = Some (r, sm1)"
  by (subst sm_step_loop.simps) simp

text \<open>The global rules do not apply.\<close>

definition running :: "'p eap_env \<Rightarrow> 'p eap_sm \<Rightarrow> bool" where
  "running env sm \<longleftrightarrow> portEnabled (eap_if sm) \<and> \<not> eapRestart (eap_if sm) \<and> \<not> too_many_rounds env sm"

lemma running_step: "running env sm \<Longrightarrow> sm_EAP_Step env sm = eap_switch env sm"
  by (auto simp: running_def too_many_rounds_def sm_EAP_Step_def)

lemma running_changed [simp]: "running env (sm\<lparr>sm_changed := b\<rparr>) = running env sm"
  by (simp add: running_def too_many_rounds_def)

text \<open>
  C9. In \<open>IDLE\<close>, with the retransmission timer not expired and the numbers of rounds below their limits, a
  message that is not an EAP-Response with the identifier of the pending request is
  dropped: the call ends in \<open>IDLE\<close> again with the message consumed, the method, its data, the
  pending request, the identity, the user and the result variables as they were.
\<close>

theorem eap_unsolicited_dropped:
  assumes "running env sm" "EAP_state sm = EAP_IDLE" "retransWhile (eap_if sm) \<noteq> 0"
    and "eapResp (eap_if sm)" "eapRespData (eap_if sm) = Some d"
    and "\<not> (4 \<le> length d \<and> d ! 0 = EAP_CODE_RESPONSE \<and> uint (d ! 1) = currentId sm)"
    and "num_rounds sm < max_auth_rounds (cfg env)" "num_rounds_short sm < max_auth_rounds_short (cfg env)"
  shows "\<exists>sm'. eap_server_sm_step env sm = Some (1, sm') \<and> EAP_state sm' = EAP_IDLE
    \<and> eap_if sm' = (eap_if sm)\<lparr>eapResp := False, eapNoReq := True, retransWhile := retransWhile (eap_if sm')\<rparr>
    \<and> sm_m sm' = sm_m sm \<and> eap_method_priv sm' = eap_method_priv sm \<and> methodState sm' = methodState sm
    \<and> currentId sm' = currentId sm \<and> currentMethod sm' = currentMethod sm \<and> lastReqData sm' = lastReqData sm
    \<and> sm_identity sm' = sm_identity sm \<and> sm_user sm' = sm_user sm"
proof -
  define sm0 where "sm0 = sm\<lparr>sm_changed := False\<rparr>"
  obtain rx ini i t v vm where p: "eap_sm_parseEapResp (SM_ENTRY EAP_RECEIVED False sm0) (Some d)
      = Some ((SM_ENTRY EAP_RECEIVED False sm0)\<lparr>rxResp := rx, rxInitiate := ini, respId := i, respMethod := t, respVendor := v, respVendorMethod := vm\<rparr>)"
    using parse_resp [of "SM_ENTRY EAP_RECEIVED False sm0" "Some d"] by (elim exE)
  have nm: "\<not> (rx \<and> i = currentId sm)" using parse_rxResp [OF p] assms(6) by auto
  define sm1 where "sm1 = ((SM_ENTRY EAP_RECEIVED False sm0)\<lparr>rxResp := rx, rxInitiate := ini, respId := i, respMethod := t,
     respVendor := v, respVendorMethod := vm\<rparr>)\<lparr>num_rounds := num_rounds sm + 1,
     num_rounds_short := (if length d < 20 then num_rounds_short sm + 1 else 0)\<rparr>"
  have s1: "sm_EAP_Step env sm0 = Some sm1"
    using assms(1-5) p by (simp add: sm0_def running_step eap_switch_def enter_RECEIVED_def sm1_def Let_def SM_ENTRY_def)
  have r1: "num_rounds sm1 \<le> max_auth_rounds (cfg env)" "num_rounds_short sm1 \<le> max_auth_rounds_short (cfg env)"
    using assms(7,8) by (simp_all add: sm1_def inc_le)
  have f1: "EAP_state sm1 = EAP_RECEIVED" "eap_if sm1 = eap_if sm" "rxResp sm1 = rx" "respId sm1 = i" "currentId sm1 = currentId sm" "sm_changed sm1"
    by (simp_all add: sm1_def SM_ENTRY_def sm0_def)
  have run1: "running env sm1" using assms(1) r1 f1(2) by (simp add: running_def too_many_rounds_def not_less)
  define sm2 where "sm2 = on_if (\<lambda>i. i\<lparr>eapResp := False, eapNoReq := True\<rparr>) (SM_ENTRY EAP_DISCARD False (sm1\<lparr>sm_changed := False\<rparr>))"
  have s2: "sm_EAP_Step env (sm1\<lparr>sm_changed := False\<rparr>) = Some sm2"
    using run1 nm by (auto simp: running_step eap_switch_def f1 enter_DISCARD_def enter_DISCARD_gen_def sm2_def)
  have f2: "EAP_state sm2 = EAP_DISCARD" "sm_changed sm2" "running env sm2"
    using run1 by (simp_all add: sm2_def SM_ENTRY_def on_if_def running_def too_many_rounds_def)
  define sm3 where "sm3 = the (enter_IDLE env False (sm2\<lparr>sm_changed := False\<rparr>))"
  have s3: "sm_EAP_Step env (sm2\<lparr>sm_changed := False\<rparr>) = Some sm3"
    using f2 by (simp add: running_step eap_switch_def sm3_def enter_IDLE_def enter_IDLE_gen_def Let_def)
  have f3: "EAP_state sm3 = EAP_IDLE" "sm_changed sm3" "running env sm3" "retransWhile (eap_if sm3) \<noteq> 0" "\<not> eapResp (eap_if sm3)"
    using f2(3) by (simp_all add: sm3_def enter_IDLE_def enter_IDLE_gen_def Let_def SM_ENTRY_def on_if_def running_def too_many_rounds_def sm2_def)
  have s4: "sm_EAP_Step env (sm3\<lparr>sm_changed := False\<rparr>) = Some (sm3\<lparr>sm_changed := False\<rparr>)"
    using f3 by (simp add: running_step eap_switch_def)
  have "eap_server_sm_step env sm = Some (1, sm3\<lparr>sm_changed := False\<rparr>)"
    using sm_step_loop_changed [OF s1 [unfolded sm0_def] f1(6)] sm_step_loop_changed [OF s2 f2(2)]
      sm_step_loop_changed [OF s3 f3(2)] sm_step_loop_stays [OF s4] by (simp add: eap_server_sm_step_def)
  then show ?thesis
    by (intro exI [of _ "sm3\<lparr>sm_changed := False\<rparr>"]) (simp add: sm3_def enter_IDLE_def enter_IDLE_gen_def Let_def SM_ENTRY_def on_if_def sm2_def sm1_def sm0_def)
qed

theorem eap_unsolicited_dropped_witness:
  "\<exists>sm'. eap_server_sm_step (demo_env None) (on_if (\<lambda>i. i\<lparr>eapResp := True, eapRespData := Some [2, 9, 0, 6, 1, 97]\<rparr>) demo_idle)
     = Some (1, sm') \<and> EAP_state sm' = EAP_IDLE \<and> currentId sm' = 7"
proof -
  let ?sm = "on_if (\<lambda>i. i\<lparr>eapResp := True, eapRespData := Some [2, 9, 0, 6, 1, 97]\<rparr>) demo_idle"
  have id: "currentId ?sm = 7" by code_simp
  have "running (demo_env None) ?sm" unfolding running_def too_many_rounds_def by code_simp
  moreover have "EAP_state ?sm = EAP_IDLE" "retransWhile (eap_if ?sm) \<noteq> 0" "eapResp (eap_if ?sm)"
    "eapRespData (eap_if ?sm) = Some [2, 9, 0, 6, 1, 97]" by code_simp+
  moreover have "num_rounds ?sm < max_auth_rounds (cfg (demo_env None))"
    "num_rounds_short ?sm < max_auth_rounds_short (cfg (demo_env None))" by code_simp+
  ultimately have "\<exists>sm'. eap_server_sm_step (demo_env None) ?sm = Some (1, sm') \<and> EAP_state sm' = EAP_IDLE \<and> currentId sm' = currentId ?sm"
    using eap_unsolicited_dropped [of "demo_env None" ?sm "[2, 9, 0, 6, 1, 97]"] id by auto
  then show ?thesis using id by simp
qed

section \<open>Proposing Identity without memory\<close>

definition oom_env :: "eap_config \<Rightarrow> eap_identity_data eap_env" where
  "oom_env conf = (relay_env conf (\<lambda>_ _. True) (\<lambda>_. 7) None)\<lparr>eap_methods := [eap_server_identity_register (\<lambda>_ _. False) None]\<rparr>"

text \<open>
  \<open>try_passes env n sm\<close> makes \<open>n\<close> passes of the loop: \<open>Some (Inl s)\<close> when all of them ended with the jump back
  to the label, in the state \<open>s\<close>, and \<open>Some (Inr s)\<close> when one of them left the loop.
\<close>

primrec try_passes :: "'p eap_env \<Rightarrow> nat \<Rightarrow> 'p eap_sm \<Rightarrow> ('p eap_sm + 'p eap_sm) ub" where
  "try_passes env 0 sm = Some (Inl sm)"
| "try_passes env (Suc n) sm = do {
     r \<leftarrow> try_method_pass env sm;
     case r of Inl sm \<Rightarrow> try_passes env n sm | Inr sm \<Rightarrow> Some (Inr sm) }"

text \<open>A loop that returns has left after a number of passes: the passes are those of the loop.\<close>

lemma try_returns_passes:
  assumes "try_another_method env sm = Some sm'"
  shows "\<exists>n. try_passes env n sm = Some (Inr sm')"
proof (rule try_another_method.raw_induct [OF _ assms, where P = "\<lambda>e s r. \<exists>n. try_passes e n s = Some (Inr r)"])
  fix f env and sm sm' :: "'a eap_sm"
  assume IH: "\<And>e s r. f e s = Some r \<Longrightarrow> \<exists>n. try_passes e n s = Some (Inr r)"
    and r: "try_method_pass env sm \<bind> (\<lambda>r. case r of Inl sm \<Rightarrow> f env sm | Inr sm \<Rightarrow> Some sm) = Some sm'"
  then obtain q where q: "try_method_pass env sm = Some q" "(case q of Inl sm \<Rightarrow> f env sm | Inr sm \<Rightarrow> Some sm) = Some sm'"
    by (auto simp: bind_eq_Some_conv)
  show "\<exists>n. try_passes env n sm = Some (Inr sm')"
  proof (cases q)
    case (Inl s)
    then obtain n where "try_passes env n s = Some (Inr sm')" using IH q(2) by fastforce
    then have "try_passes env (Suc n) sm = Some (Inr sm')" using q(1) Inl by simp
    then show ?thesis by blast
  next
    case (Inr s)
    then have "try_passes env (Suc 0) sm = Some (Inr sm')" using q by simp
    then show ?thesis by blast
  qed
qed

lemma oom_pass:
  assumes "sm_identity sm = None" "sm_m sm = None"
  shows "try_method_pass (oom_env conf) sm
    = Some (Inl (sm\<lparr>update_user := True, clk := Suc (clk sm), eap_method_priv := None, sm_m := None, currentMethod := EAP_TYPE_NONE\<rparr>))"
  using assms
  by (simp add: try_method_pass_def eap_sm_Policy_getNextMethod_def oom_env_def relay_env_def reset_method_if_def Let_def tick_def
       eap_server_get_eap_method_def eap_server_identity_register_def eap_identity_init_def)

lemma oom_passes:
  "sm_identity sm = None \<Longrightarrow> sm_m sm = None \<Longrightarrow>
     \<exists>s. try_passes (oom_env conf) n sm = Some (Inl s) \<and> sm_identity s = None \<and> sm_m s = None"
  by (induction n arbitrary: sm) (simp_all add: oom_pass)

text \<open>
  C12. While the private data of the Identity method cannot be allocated and no identity is known, the
  loop of \<open>PROPOSE_METHOD\<close> does not end: for every number \<open>n\<close> the first \<open>n\<close> passes are made without a fault, each
  of them selects Identity again and ends with the jump back to the label, so that none leaves the
  loop and the call has no result.
\<close>

theorem eap_propose_identity_loops:
  assumes "sm_identity sm = None" "sm_m sm = None"
  shows "(\<forall>n. \<exists>s. try_passes (oom_env conf) n sm = Some (Inl s)) \<and> try_another_method (oom_env conf) sm = None"
proof
  show p: "\<forall>n. \<exists>s. try_passes (oom_env conf) n sm = Some (Inl s)" using oom_passes [OF assms] by blast
  show "try_another_method (oom_env conf) sm = None"
  proof (rule ccontr)
    assume "\<not> ?thesis"
    then obtain n sm' where "try_passes (oom_env conf) n sm = Some (Inr sm')" using try_returns_passes by blast
    then show False using p [rule_format, of n] by auto
  qed
qed

theorem eap_propose_identity_loops_witness:
  "(\<exists>s. try_passes (oom_env \<lparr>eap_server = False, backend_auth = False, max_auth_rounds = 100, max_auth_rounds_short = 50\<rparr>) 3
        eap_server_sm_init = Some (Inl s))
   \<and> try_another_method (oom_env \<lparr>eap_server = False, backend_auth = False, max_auth_rounds = 100, max_auth_rounds_short = 50\<rparr>)
       eap_server_sm_init = None"
proof -
  have "sm_identity (eap_server_sm_init :: eap_identity_data eap_sm) = None" "sm_m (eap_server_sm_init :: eap_identity_data eap_sm) = None"
    by (simp_all add: eap_server_sm_init_def eap_sm_zero_def)
  from eap_propose_identity_loops [OF this] show ?thesis by blast
qed

section \<open>Nak processing\<close>

text \<open>
  The reference for the in-place loop: from the index on, up to the end marker, the methods
  the peer named are kept in their order, the others are replaced by end markers behind.
\<close>

definition nak_reference :: "bytes \<Rightarrow> nat \<Rightarrow> (int \<times> eap_type) list \<Rightarrow> (int \<times> eap_type) list" where
  "nak_reference nak_list i ms =
     (let active = takeWhile (\<lambda>m. m \<noteq> no_method) (drop i ms);
          kept = filter (nak_keeps nak_list) active in
      take i ms @ kept @ dropWhile (\<lambda>m. m \<noteq> no_method) (drop i ms) @ replicate (length active - length kept) no_method)"

lemma takeWhile_snoc_end: "takeWhile (\<lambda>m. m \<noteq> z) (xs @ [z]) = takeWhile (\<lambda>m. m \<noteq> z) xs"
  by (induction xs) auto

lemma takeWhile_dropWhile_end: "takeWhile (\<lambda>m. m \<noteq> z) (dropWhile (\<lambda>m. m \<noteq> z) xs @ replicate n z) = []"
  by (induction xs; cases n) auto

lemma dropWhile_snoc_end: "dropWhile (\<lambda>m. m \<noteq> z) (xs @ [z]) = dropWhile (\<lambda>m. m \<noteq> z) xs @ [z]"
  by (induction xs) auto

lemma process_nak_loop_reference: "i \<le> length ms \<Longrightarrow> process_nak_loop l i ms = nak_reference l i ms"
proof (induction l i ms rule: process_nak_loop.induct)
  case (1 l i ms)
  show ?case
  proof (cases "i < length ms \<and> ms ! i \<noteq> no_method")
    case False
    have "drop i ms = [] \<or> (\<exists>l. drop i ms = no_method # l)"
    proof (cases "i < length ms")
      case True
      with False show ?thesis using Cons_nth_drop_Suc [of i ms] by metis
    qed simp
    then have "takeWhile (\<lambda>m. m \<noteq> no_method) (drop i ms) = []" "dropWhile (\<lambda>m. m \<noteq> no_method) (drop i ms) = drop i ms"
      by (elim disjE exE; simp)+
    moreover have "process_nak_loop l i ms = ms" using False by (subst process_nak_loop.simps) (simp only: if_False)
    ultimately show ?thesis by (simp add: nak_reference_def)
  next
    case True
    then have d: "drop i ms = ms ! i # drop (Suc i) ms" by (simp add: Cons_nth_drop_Suc)
    have t: "take (Suc i) ms = take i ms @ [ms ! i]" using True by (simp add: take_Suc_conv_app_nth)
    show ?thesis
    proof (cases "nak_keeps l (ms ! i)")
      case keep: True
      then have "process_nak_loop l i ms = nak_reference l (i + 1) ms"
        using 1(1) True by (subst process_nak_loop.simps) simp
      also have "\<dots> = nak_reference l i ms"
        using True keep by (simp add: nak_reference_def d t Let_def)
      finally show ?thesis .
    next
      case drop: False
      let ?active = "takeWhile (\<lambda>m. m \<noteq> no_method) (drop (Suc i) ms)"
      have e: "drop i (remove_method i ms) = drop (Suc i) ms @ [no_method]" "take i (remove_method i ms) = take i ms"
        using True by (simp_all add: remove_method_def)
      have "process_nak_loop l i ms = nak_reference l i (remove_method i ms)"
        using 1(2) True drop by (subst process_nak_loop.simps) simp
      also have "\<dots> = take i ms @ filter (nak_keeps l) ?active @ dropWhile (\<lambda>m. m \<noteq> no_method) (drop (Suc i) ms)
          @ no_method # replicate (length ?active - length (filter (nak_keeps l) ?active)) no_method"
        unfolding nak_reference_def e Let_def takeWhile_snoc_end dropWhile_snoc_end by simp
      also have "\<dots> = nak_reference l i ms"
        using True drop length_filter_le [of "nak_keeps l" ?active]
        by (simp add: nak_reference_def d Suc_diff_le Let_def)
      finally show ?thesis .
    qed
  qed
qed

text \<open>
  C10. \<open>eap_sm_process_nak\<close> removes from the user's methods exactly those the peer did not name:
  from the current index up to the end marker the list becomes the sublist of the IETF
  methods in the peer's list, in the configured order; what lies before the index stays and
  the list keeps its length.
\<close>

theorem eap_process_nak_filters:
  assumes "sm_user sm = Some u" "length (u_methods u) = EAP_MAX_METHODS" "user_eap_method_index sm \<le> EAP_MAX_METHODS"
  shows "\<exists>ms. eap_sm_process_nak sm nak_list = sm\<lparr>sm_user := Some (u\<lparr>u_methods := ms\<rparr>)\<rparr>
    \<and> length ms = EAP_MAX_METHODS
    \<and> take (user_eap_method_index sm) ms = take (user_eap_method_index sm) (u_methods u)
    \<and> takeWhile (\<lambda>m. m \<noteq> no_method) (drop (user_eap_method_index sm) ms)
       = filter (\<lambda>(v, t). v = EAP_VENDOR_IETF \<and> t \<in> ucast ` set nak_list)
           (takeWhile (\<lambda>m. m \<noteq> no_method) (drop (user_eap_method_index sm) (u_methods u)))"
proof -
  let ?i = "user_eap_method_index sm" and ?m = "u_methods u"
  let ?ms = "nak_reference nak_list ?i ?m"
  let ?a = "takeWhile (\<lambda>m. m \<noteq> no_method) (drop ?i ?m)" and ?d = "dropWhile (\<lambda>m. m \<noteq> no_method) (drop ?i ?m)"
  let ?k = "filter (nak_keeps nak_list) ?a"
  have e: "process_nak_loop nak_list ?i ?m = ?ms" using assms by (simp add: process_nak_loop_reference)
  have len: "length ?ms = EAP_MAX_METHODS"
    using length_process_nak_loop [of nak_list ?i ?m] assms(2) e by simp
  have "\<forall>x \<in> set ?k. x \<noteq> no_method" using set_takeWhileD by fastforce
  then have "takeWhile (\<lambda>m. m \<noteq> no_method) (?k @ ?d @ replicate n no_method) = ?k" for n
  proof -
    assume "\<forall>x \<in> set ?k. x \<noteq> no_method"
    moreover have "takeWhile (\<lambda>m. m \<noteq> no_method) (?d @ replicate n no_method) = []"
      by (rule takeWhile_dropWhile_end)
    ultimately show ?thesis by (subst takeWhile_append2) (blast, simp only: append_Nil2)
  qed
  moreover have "filter (\<lambda>(v, t). v = EAP_VENDOR_IETF \<and> t \<in> ucast ` set nak_list) ?a = ?k"
    by (rule filter_cong) (auto simp: nak_keeps_def)
  ultimately show ?thesis
    using assms len e by (intro exI [of _ ?ms]) (simp add: eap_sm_process_nak_def nak_reference_def Let_def)
qed

lemma eap_process_nak_filters_witness:
  "\<exists>ms. eap_sm_process_nak ((eap_server_sm_init :: eap_identity_data eap_sm)\<lparr>sm_user := Some \<lparr>u_methods = [(0, 13), (0, 4), (0, 25), (0, 0), (0, 0), (0, 0), (0, 0), (0, 0)],
        u_password = None, u_phase2 = False\<rparr>\<rparr>) [25, 13]
      = eap_server_sm_init\<lparr>sm_user := Some \<lparr>u_methods = ms, u_password = None, u_phase2 = False\<rparr>\<rparr>
    \<and> takeWhile (\<lambda>m. m \<noteq> no_method) ms = [(0, 13), (0, 25)]"
proof -
  let ?u = "\<lparr>u_methods = [(0, 13), (0, 4), (0, 25), (0, 0), (0, 0), (0, 0), (0, 0), (0, 0)], u_password = None, u_phase2 = False\<rparr>"
  let ?sm = "(eap_server_sm_init :: eap_identity_data eap_sm)\<lparr>sm_user := Some ?u\<rparr>"
  have i: "user_eap_method_index ?sm = 0" by (simp add: eap_server_sm_init_def eap_sm_zero_def)
  have "length (u_methods ?u) = EAP_MAX_METHODS" by code_simp
  moreover have "filter (\<lambda>(v, t). v = EAP_VENDOR_IETF \<and> t \<in> ucast ` set [25 :: u8, 13])
       (takeWhile (\<lambda>m. m \<noteq> no_method) (drop 0 (u_methods ?u))) = [(0, 13), (0, 25)]" by code_simp
  ultimately show ?thesis
    using eap_process_nak_filters [of ?sm ?u "[25, 13]"] unfolding i by auto
qed

end
