(* ===== verification/Radius.thy ===== *)
theory Radius
  imports Wpabuf
begin

unbundle bit_operations_syntax

text \<open>
  RADIUS messages, from \<open>src/radius/radius.c\<close> and \<open>radius.h\<close>: creation, attributes, parsing,
  authenticators, EAP-Message fragments, MS-MPPE keys, hidden passwords, VLAN attributes.

  A message is its buffer and the array of attribute positions; \<open>msg->hdr\<close> always points to
  the start of the buffer and is not kept apart. \<open>struct radius_attr_hdr *\<close> is the offset of
  the attribute in the buffer. Reads and writes are checked against the allocated bytes
  (\<open>Fault\<close>); so is the use of a hash value that was never computed. MD5 and HMAC-MD5 of the
  crypto library are parameters of the environment, with \<open>None\<close> for a failure; the vector of
  chunks handed to them is their concatenation.
\<close>

section \<open>Data\<close>

definition RADIUS_CODE_ACCESS_REQUEST :: u8 where "RADIUS_CODE_ACCESS_REQUEST = 1"
definition RADIUS_CODE_ACCESS_ACCEPT :: u8 where "RADIUS_CODE_ACCESS_ACCEPT = 2"
definition RADIUS_CODE_ACCESS_REJECT :: u8 where "RADIUS_CODE_ACCESS_REJECT = 3"
definition RADIUS_CODE_ACCESS_CHALLENGE :: u8 where "RADIUS_CODE_ACCESS_CHALLENGE = 11"

definition RADIUS_ATTR_USER_NAME :: u8 where "RADIUS_ATTR_USER_NAME = 1"
definition RADIUS_ATTR_USER_PASSWORD :: u8 where "RADIUS_ATTR_USER_PASSWORD = 2"
definition RADIUS_ATTR_STATE :: u8 where "RADIUS_ATTR_STATE = 24"
definition RADIUS_ATTR_CLASS :: u8 where "RADIUS_ATTR_CLASS = 25"
definition RADIUS_ATTR_VENDOR_SPECIFIC :: u8 where "RADIUS_ATTR_VENDOR_SPECIFIC = 26"
definition RADIUS_ATTR_SESSION_TIMEOUT :: u8 where "RADIUS_ATTR_SESSION_TIMEOUT = 27"
definition RADIUS_ATTR_TERMINATION_ACTION :: u8 where "RADIUS_ATTR_TERMINATION_ACTION = 29"
definition RADIUS_ATTR_EGRESS_VLANID :: u8 where "RADIUS_ATTR_EGRESS_VLANID = 56"
definition RADIUS_ATTR_TUNNEL_TYPE :: u8 where "RADIUS_ATTR_TUNNEL_TYPE = 64"
definition RADIUS_ATTR_TUNNEL_MEDIUM_TYPE :: u8 where "RADIUS_ATTR_TUNNEL_MEDIUM_TYPE = 65"
definition RADIUS_ATTR_TUNNEL_PASSWORD :: u8 where "RADIUS_ATTR_TUNNEL_PASSWORD = 69"
definition RADIUS_ATTR_EAP_MESSAGE :: u8 where "RADIUS_ATTR_EAP_MESSAGE = 79"
definition RADIUS_ATTR_MESSAGE_AUTHENTICATOR :: u8 where "RADIUS_ATTR_MESSAGE_AUTHENTICATOR = 80"
definition RADIUS_ATTR_TUNNEL_PRIVATE_GROUP_ID :: u8 where "RADIUS_ATTR_TUNNEL_PRIVATE_GROUP_ID = 81"
definition RADIUS_ATTR_ACCT_INTERIM_INTERVAL :: u8 where "RADIUS_ATTR_ACCT_INTERIM_INTERVAL = 85"
definition RADIUS_ATTR_CHARGEABLE_USER_IDENTITY :: u8 where "RADIUS_ATTR_CHARGEABLE_USER_IDENTITY = 89"
definition RADIUS_ATTR_WLAN_REASON_CODE :: u8 where "RADIUS_ATTR_WLAN_REASON_CODE = 185"

definition RADIUS_VENDOR_ID_CISCO :: u32 where "RADIUS_VENDOR_ID_CISCO = 9"
definition RADIUS_CISCO_AV_PAIR :: u8 where "RADIUS_CISCO_AV_PAIR = 1"
definition RADIUS_VENDOR_ID_MICROSOFT :: u32 where "RADIUS_VENDOR_ID_MICROSOFT = 311"
definition RADIUS_VENDOR_ATTR_MS_MPPE_SEND_KEY :: u8 where "RADIUS_VENDOR_ATTR_MS_MPPE_SEND_KEY = 16"
definition RADIUS_VENDOR_ATTR_MS_MPPE_RECV_KEY :: u8 where "RADIUS_VENDOR_ATTR_MS_MPPE_RECV_KEY = 17"
definition RADIUS_VENDOR_ID_WFA :: u32 where "RADIUS_VENDOR_ID_WFA = 40808"

definition RADIUS_TUNNEL_TAGS :: nat where "RADIUS_TUNNEL_TAGS = 32"
definition RADIUS_TUNNEL_TYPE_VLAN :: int where "RADIUS_TUNNEL_TYPE_VLAN = 13"
definition RADIUS_TUNNEL_MEDIUM_TYPE_802 :: int where "RADIUS_TUNNEL_MEDIUM_TYPE_802 = 6"

definition sizeof_radius_hdr :: nat where "sizeof_radius_hdr = 20"
definition sizeof_radius_attr_hdr :: nat where "sizeof_radius_attr_hdr = 2"
definition RADIUS_MAX_ATTR_LEN :: nat where "RADIUS_MAX_ATTR_LEN = 255 - sizeof_radius_attr_hdr"
definition RADIUS_DEFAULT_MSG_SIZE :: u64 where "RADIUS_DEFAULT_MSG_SIZE = 1024"
definition RADIUS_DEFAULT_ATTR_COUNT :: nat where "RADIUS_DEFAULT_ATTR_COUNT = 16"
definition MD5_MAC_LEN :: nat where "MD5_MAC_LEN = 16"

text \<open>\<open>sizeof (struct radius_msg)\<close> and \<open>sizeof (size_t)\<close> of a 64-bit build.\<close>

definition sizeof_radius_msg :: nat where "sizeof_radius_msg = 40"
definition sizeof_size_t :: nat where "sizeof_size_t = 8"

record radius_msg =
  rbuf :: wpabuf
  attr_pos :: "nat list"
  attr_size :: nat

text \<open>\<open>attr_used\<close> is the number of positions stored.\<close>

abbreviation attr_used :: "radius_msg \<Rightarrow> nat" where
  "attr_used msg \<equiv> length (attr_pos msg)"

record radius_env =
  rmalloc :: "nat \<Rightarrow> bool"
  rjunk :: "nat \<Rightarrow> bytes"
  hmac_md5 :: "bytes \<Rightarrow> bytes \<Rightarrow> bytes option"
  md5_vector :: "bytes \<Rightarrow> bytes option"

section \<open>Access to the buffer\<close>

definition mem_read :: "bytes \<Rightarrow> nat \<Rightarrow> nat \<Rightarrow> bytes ub" where
  "mem_read buf i n = (if i + n \<le> length buf then Some (take n (drop i buf)) else None)"

definition radius_read :: "radius_msg \<Rightarrow> nat \<Rightarrow> nat \<Rightarrow> bytes ub" where
  "radius_read msg i n = mem_read (bdata (rbuf msg)) i n"

definition radius_write :: "radius_msg \<Rightarrow> nat \<Rightarrow> bytes \<Rightarrow> radius_msg run" where
  "radius_write msg i d = bindR (put_at (rbuf msg) i d) (\<lambda>b. Ok (msg\<lparr>rbuf := b\<rparr>))"

definition hdr_code :: "radius_msg \<Rightarrow> u8 ub" where "hdr_code msg = peek (bdata (rbuf msg)) 0"
definition hdr_identifier :: "radius_msg \<Rightarrow> u8 ub" where "hdr_identifier msg = peek (bdata (rbuf msg)) 1"
definition hdr_authenticator :: "radius_msg \<Rightarrow> bytes ub" where "hdr_authenticator msg = radius_read msg 4 16"

definition attr_type :: "radius_msg \<Rightarrow> nat \<Rightarrow> u8 ub" where "attr_type msg a = peek (bdata (rbuf msg)) (int a)"
definition attr_length :: "radius_msg \<Rightarrow> nat \<Rightarrow> nat ub" where
  "attr_length msg a = map_option unat (peek (bdata (rbuf msg)) (int a + 1))"

text \<open>The message as the hash functions see it: \<open>wpabuf_len\<close> bytes of the buffer.\<close>

definition radius_content :: "radius_msg \<Rightarrow> bytes" where
  "radius_content msg = wpabuf_content (rbuf msg)"

text \<open>The write of \<open>hdr->length\<close> and of \<open>hdr->authenticator\<close>.\<close>

definition set_hdr_length :: "radius_msg \<Rightarrow> radius_msg run" where
  "set_hdr_length msg = radius_write msg 2 (WPA_PUT_BE16 (ucast (wpabuf_len (rbuf msg))))"

definition set_hdr_authenticator :: "radius_msg \<Rightarrow> bytes \<Rightarrow> radius_msg run" where
  "set_hdr_authenticator msg a = radius_write msg 4 a"

section \<open>Creation and attributes\<close>

definition radius_msg_set_hdr :: "radius_msg \<Rightarrow> u8 \<Rightarrow> u8 \<Rightarrow> radius_msg run" where
  "radius_msg_set_hdr msg code identifier = radius_write msg 0 [code, identifier]"

definition radius_msg_initialize :: "radius_env \<Rightarrow> bool" where
  "radius_msg_initialize env = rmalloc env (RADIUS_DEFAULT_ATTR_COUNT * sizeof_size_t)"

definition radius_msg_new :: "radius_env \<Rightarrow> u8 \<Rightarrow> u8 \<Rightarrow> radius_msg option run" where
  "radius_msg_new env code identifier =
     (if \<not> rmalloc env sizeof_radius_msg then Ok None
      else case wpabuf_alloc (rmalloc env) RADIUS_DEFAULT_MSG_SIZE of
        None \<Rightarrow> Ok None
      | Some b \<Rightarrow>
        if \<not> radius_msg_initialize env then Ok None
        else bindR (wpabuf_put b (word_of_nat sizeof_radius_hdr)) (\<lambda>(b, _).
          bindR (radius_msg_set_hdr \<lparr>rbuf = b, attr_pos = [], attr_size = RADIUS_DEFAULT_ATTR_COUNT\<rparr> code identifier)
            (\<lambda>msg. Ok (Some msg))))"

definition radius_msg_add_attr_to_array :: "radius_env \<Rightarrow> radius_msg \<Rightarrow> nat \<Rightarrow> radius_msg option" where
  "radius_msg_add_attr_to_array env msg attr =
     (let r = (if attr_used msg \<ge> attr_size msg then
                 let nlen = attr_size msg * 2 in
                 if rmalloc env (nlen * sizeof_size_t) then Some (msg\<lparr>attr_size := nlen\<rparr>) else None
               else Some msg) in
      map_option (\<lambda>msg. msg\<lparr>attr_pos := attr_pos msg @ [attr]\<rparr>) r)"

text \<open>The attribute (NULL as \<open>None\<close>) and the message behind the call.\<close>

definition radius_msg_add_attr :: "radius_env \<Rightarrow> radius_msg \<Rightarrow> u8 \<Rightarrow> bytes \<Rightarrow> (nat option \<times> radius_msg) run" where
  "radius_msg_add_attr env msg type data =
     (if length data > RADIUS_MAX_ATTR_LEN then Ok (None, msg)
      else let buf_needed = word_of_nat (sizeof_radius_attr_hdr + length data) in
        bindR (if wpabuf_tailroom (rbuf msg) < buf_needed
               then bindR (wpabuf_resize (rmalloc env) (rjunk env) (Some (rbuf msg)) buf_needed) (\<lambda>(r, b).
                 if r < 0 then Ok None else Ok (map_option (\<lambda>b. msg\<lparr>rbuf := b\<rparr>) b))
               else Ok (Some msg))
        (\<lambda>r. case r of
           None \<Rightarrow> Ok (None, msg)
         | Some msg \<Rightarrow>
           bindR (wpabuf_put (rbuf msg) (word_of_nat sizeof_radius_attr_hdr)) (\<lambda>(b, attr).
           bindR (radius_write (msg\<lparr>rbuf := b\<rparr>) attr [type, word_of_nat (sizeof_radius_attr_hdr + length data)]) (\<lambda>msg.
           bindR (wpabuf_put_data (rbuf msg) data) (\<lambda>b.
             let msg = msg\<lparr>rbuf := b\<rparr> in
             case radius_msg_add_attr_to_array env msg attr of
               None \<Rightarrow> Ok (None, msg)
             | Some msg \<Rightarrow> Ok (Some attr, msg))))))"

definition radius_msg_add_attr_int32 :: "radius_env \<Rightarrow> radius_msg \<Rightarrow> u8 \<Rightarrow> u32 \<Rightarrow> (bool \<times> radius_msg) run" where
  "radius_msg_add_attr_int32 env msg type value =
     bindR (radius_msg_add_attr env msg type (WPA_PUT_BE32 value)) (\<lambda>(a, msg). Ok (a \<noteq> None, msg))"

section \<open>Parsing\<close>

text \<open>The loop over the attributes, from \<open>pos\<close> to \<open>end\<close>; \<open>None\<close> is the jump to \<open>fail\<close>.\<close>

function parse_attrs :: "radius_env \<Rightarrow> nat \<Rightarrow> nat \<Rightarrow> radius_msg \<Rightarrow> radius_msg option run" where
  "parse_attrs env pos end' msg =
     (if pos < end' then
        if end' - pos < sizeof_radius_attr_hdr then Ok None
        else case attr_length msg pos of
          None \<Rightarrow> Fault
        | Some n \<Rightarrow>
          if n > end' - pos \<or> n < sizeof_radius_attr_hdr then Ok None
          else case radius_msg_add_attr_to_array env msg pos of
            None \<Rightarrow> Ok None
          | Some msg \<Rightarrow> parse_attrs env (pos + n) end' msg
      else Ok (Some msg))"
  by pat_completeness auto
termination
  by (relation "measure (\<lambda>(env, pos, end', msg). end' - pos)") (auto simp: sizeof_radius_attr_hdr_def)

declare parse_attrs.simps [simp del]

definition radius_msg_parse :: "radius_env \<Rightarrow> bytes option \<Rightarrow> radius_msg option run" where
  "radius_msg_parse env data =
     (case data of
        None \<Rightarrow> Ok None
      | Some data \<Rightarrow>
        if length data < sizeof_radius_hdr then Ok None
        else bindR (of_ub (WPA_GET_BE16 (drop 2 data))) (\<lambda>l.
          let msg_len = unat l in
          if msg_len < sizeof_radius_hdr \<or> msg_len > length data then Ok None
          else if \<not> rmalloc env sizeof_radius_msg then Ok None
          else bindR (wpabuf_alloc_copy (rmalloc env) (take msg_len data)) (\<lambda>r.
            case r of
              None \<Rightarrow> Ok None
            | Some b \<Rightarrow>
              if \<not> radius_msg_initialize env then Ok None
              else parse_attrs env sizeof_radius_hdr (unat (wpabuf_len b))
                     \<lparr>rbuf = b, attr_pos = [], attr_size = RADIUS_DEFAULT_ATTR_COUNT\<rparr>)))"

section \<open>EAP-Message attributes\<close>

text \<open>\<open>radius_msg_add_eap\<close>: fragments of at most \<open>RADIUS_MAX_ATTR_LEN\<close> bytes; the result says
  whether all could be added.\<close>

function radius_msg_add_eap :: "radius_env \<Rightarrow> radius_msg \<Rightarrow> bytes \<Rightarrow> (bool \<times> radius_msg) run" where
  "radius_msg_add_eap env msg data =
     (if length data > 0 then
        let len = (if length data > RADIUS_MAX_ATTR_LEN then RADIUS_MAX_ATTR_LEN else length data) in
        bindR (radius_msg_add_attr env msg RADIUS_ATTR_EAP_MESSAGE (take len data)) (\<lambda>(a, msg).
          if a = None then Ok (False, msg) else radius_msg_add_eap env msg (drop len data))
      else Ok (True, msg))"
  by pat_completeness auto
termination
  by (relation "measure (\<lambda>(env, msg, data). length data)") (auto simp: RADIUS_MAX_ATTR_LEN_def sizeof_radius_attr_hdr_def)

declare radius_msg_add_eap.simps [simp del]

fun eap_total :: "radius_msg \<Rightarrow> nat list \<Rightarrow> nat ub" where
  "eap_total msg [] = Some 0"
| "eap_total msg (a # as) = do {
     t \<leftarrow> attr_type msg a;
     n \<leftarrow> attr_length msg a;
     l \<leftarrow> eap_total msg as;
     Some (if t = RADIUS_ATTR_EAP_MESSAGE \<and> n > sizeof_radius_attr_hdr then n - sizeof_radius_attr_hdr + l else l) }"

fun eap_fill :: "radius_msg \<Rightarrow> nat list \<Rightarrow> wpabuf \<Rightarrow> wpabuf run" where
  "eap_fill msg [] eap = Ok eap"
| "eap_fill msg (a # as) eap =
     bindR (of_ub (attr_type msg a)) (\<lambda>t. bindR (of_ub (attr_length msg a)) (\<lambda>n.
       if t = RADIUS_ATTR_EAP_MESSAGE \<and> n > sizeof_radius_attr_hdr
       then bindR (of_ub (radius_read msg (a + sizeof_radius_attr_hdr) (n - sizeof_radius_attr_hdr))) (\<lambda>d.
         bindR (wpabuf_put_data eap d) (\<lambda>eap. eap_fill msg as eap))
       else eap_fill msg as eap))"

definition radius_msg_get_eap :: "radius_env \<Rightarrow> radius_msg \<Rightarrow> wpabuf option run" where
  "radius_msg_get_eap env msg =
     bindR (of_ub (eap_total msg (attr_pos msg))) (\<lambda>len.
       if len = 0 then Ok None
       else case wpabuf_alloc (rmalloc env) (word_of_nat len) of
         None \<Rightarrow> Ok None
       | Some eap \<Rightarrow> bindR (eap_fill msg (attr_pos msg) eap) (\<lambda>eap. Ok (Some eap)))"

section \<open>Authenticators\<close>

text \<open>\<open>os_memcmp_const (a, b, MD5_MAC_LEN) != 0\<close>.\<close>

definition macs_differ :: "bytes \<Rightarrow> bytes \<Rightarrow> bool" where
  "macs_differ a b \<longleftrightarrow> take MD5_MAC_LEN a \<noteq> take MD5_MAC_LEN b"

text \<open>The digest a call stores; a failed call stores nothing.\<close>

definition store_mac :: "bytes option \<Rightarrow> nat \<Rightarrow> radius_msg \<Rightarrow> radius_msg run" where
  "store_mac r pos msg = (case r of None \<Rightarrow> Ok msg | Some h \<Rightarrow> radius_write msg pos h)"

definition too_long :: "radius_msg \<Rightarrow> bool" where
  "too_long msg \<longleftrightarrow> wpabuf_len (rbuf msg) > 0xffff"

definition add_zero_authenticator :: "radius_env \<Rightarrow> radius_msg \<Rightarrow> (nat option \<times> radius_msg) run" where
  "add_zero_authenticator env msg =
     radius_msg_add_attr env msg RADIUS_ATTR_MESSAGE_AUTHENTICATOR (replicate MD5_MAC_LEN 0)"

definition radius_msg_finish :: "radius_env \<Rightarrow> radius_msg \<Rightarrow> bytes option \<Rightarrow> (int \<times> radius_msg) run" where
  "radius_msg_finish env msg secret =
     bindR (case secret of
         Some secret \<Rightarrow>
           bindR (add_zero_authenticator env msg) (\<lambda>(a, msg).
             case a of
               None \<Rightarrow> Ok (-1, msg)
             | Some attr \<Rightarrow>
               bindR (set_hdr_length msg) (\<lambda>msg.
               bindR (store_mac (hmac_md5 env secret (radius_content msg)) (attr + sizeof_radius_attr_hdr) msg) (\<lambda>msg. Ok (0, msg))))
       | None \<Rightarrow> bindR (set_hdr_length msg) (\<lambda>msg. Ok (0, msg)))
     (\<lambda>(r, msg). if r \<noteq> 0 then Ok (r, msg) else if too_long msg then Ok (-1, msg) else Ok (0, msg))"

text \<open>The four chunks of the Response Authenticator.\<close>

definition response_auth_input :: "radius_msg \<Rightarrow> bytes \<Rightarrow> bytes \<Rightarrow> bytes ub" where
  "response_auth_input msg req_authenticator secret = do {
     h \<leftarrow> radius_read msg 0 4;
     attrs \<leftarrow> radius_read msg sizeof_radius_hdr (unat (wpabuf_len (rbuf msg) - word_of_nat sizeof_radius_hdr));
     Some (h @ take MD5_MAC_LEN req_authenticator @ attrs @ secret) }"

definition radius_msg_finish_srv :: "radius_env \<Rightarrow> radius_msg \<Rightarrow> bytes \<Rightarrow> bytes \<Rightarrow> (int \<times> radius_msg) run" where
  "radius_msg_finish_srv env msg secret req_authenticator =
     bindR (add_zero_authenticator env msg) (\<lambda>(a, msg).
       case a of
         None \<Rightarrow> Ok (-1, msg)
       | Some attr \<Rightarrow>
         bindR (set_hdr_length msg) (\<lambda>msg.
         bindR (set_hdr_authenticator msg req_authenticator) (\<lambda>msg.
         bindR (store_mac (hmac_md5 env secret (radius_content msg)) (attr + sizeof_radius_attr_hdr) msg) (\<lambda>msg.
         bindR (of_ub (response_auth_input msg req_authenticator secret)) (\<lambda>i.
         bindR (store_mac (md5_vector env i) 4 msg) (\<lambda>msg.
           if too_long msg then Ok (-1, msg) else Ok (0, msg)))))))"

definition radius_msg_finish_das_resp :: "radius_env \<Rightarrow> radius_msg \<Rightarrow> bytes \<Rightarrow> bytes \<Rightarrow> (int \<times> radius_msg) run" where
  "radius_msg_finish_das_resp env msg secret req_authenticator =
     bindR (add_zero_authenticator env msg) (\<lambda>(a, msg).
       case a of
         None \<Rightarrow> Ok (-1, msg)
       | Some attr \<Rightarrow>
         bindR (set_hdr_length msg) (\<lambda>msg.
         bindR (set_hdr_authenticator msg req_authenticator) (\<lambda>msg.
         bindR (store_mac (hmac_md5 env secret (radius_content msg)) (attr + sizeof_radius_attr_hdr) msg) (\<lambda>msg.
         case md5_vector env (radius_content msg @ secret) of
           None \<Rightarrow> Ok (-1, msg)
         | Some h \<Rightarrow> bindR (radius_write msg 4 h) (\<lambda>msg.
             if too_long msg then Ok (-1, msg) else Ok (0, msg))))))"

definition radius_msg_finish_acct :: "radius_env \<Rightarrow> radius_msg \<Rightarrow> bytes \<Rightarrow> radius_msg run" where
  "radius_msg_finish_acct env msg secret =
     bindR (set_hdr_length msg) (\<lambda>msg.
     bindR (set_hdr_authenticator msg (replicate MD5_MAC_LEN 0)) (\<lambda>msg.
       store_mac (md5_vector env (radius_content msg @ secret)) 4 msg))"

definition radius_msg_finish_acct_resp :: "radius_env \<Rightarrow> radius_msg \<Rightarrow> bytes \<Rightarrow> bytes \<Rightarrow> radius_msg run" where
  "radius_msg_finish_acct_resp env msg secret req_authenticator =
     bindR (set_hdr_length msg) (\<lambda>msg.
     bindR (set_hdr_authenticator msg req_authenticator) (\<lambda>msg.
       store_mac (md5_vector env (radius_content msg @ secret)) 4 msg))"

text \<open>The hash over a request with a zero authenticator; an unchecked failure leaves \<open>hash\<close>
  undefined.\<close>

definition request_hash :: "radius_env \<Rightarrow> radius_msg \<Rightarrow> bytes \<Rightarrow> bytes ub" where
  "request_hash env msg secret = do {
     h \<leftarrow> radius_read msg 0 (sizeof_radius_hdr - MD5_MAC_LEN);
     attrs \<leftarrow> radius_read msg sizeof_radius_hdr (unat (wpabuf_len (rbuf msg) - word_of_nat sizeof_radius_hdr));
     md5_vector env (h @ replicate MD5_MAC_LEN 0 @ attrs @ secret) }"

definition radius_msg_verify_acct_req :: "radius_env \<Rightarrow> radius_msg \<Rightarrow> bytes \<Rightarrow> bool run" where
  "radius_msg_verify_acct_req env msg secret =
     bindR (of_ub (request_hash env msg secret)) (\<lambda>hash.
     bindR (of_ub (hdr_authenticator msg)) (\<lambda>a. Ok (macs_differ a hash)))"

text \<open>The search for the Message-Authenticator: \<open>Inl\<close> when there are several.\<close>

fun find_msg_auth :: "radius_msg \<Rightarrow> nat list \<Rightarrow> nat option \<Rightarrow> (unit + nat option) ub" where
  "find_msg_auth msg [] attr = Some (Inr attr)"
| "find_msg_auth msg (a # as) attr = do {
     t \<leftarrow> attr_type msg a;
     if t = RADIUS_ATTR_MESSAGE_AUTHENTICATOR
     then if attr \<noteq> None then Some (Inl ()) else find_msg_auth msg as (Some a)
     else find_msg_auth msg as attr }"

definition radius_msg_verify_das_req :: "radius_env \<Rightarrow> radius_msg \<Rightarrow> bytes \<Rightarrow> bool \<Rightarrow> (int \<times> radius_msg) run" where
  "radius_msg_verify_das_req env msg secret require_message_authenticator =
     bindR (of_ub (request_hash env msg secret)) (\<lambda>hash.
     bindR (of_ub (hdr_authenticator msg)) (\<lambda>orig_authenticator.
       if macs_differ orig_authenticator hash then Ok (1, msg)
       else bindR (of_ub (find_msg_auth msg (attr_pos msg) None)) (\<lambda>r.
         case r of
           Inl _ \<Rightarrow> Ok (1, msg)
         | Inr None \<Rightarrow> Ok (if require_message_authenticator then 1 else 0, msg)
         | Inr (Some attr) \<Rightarrow>
           bindR (of_ub (radius_read msg (attr + sizeof_radius_attr_hdr) MD5_MAC_LEN)) (\<lambda>orig.
           bindR (radius_write msg (attr + sizeof_radius_attr_hdr) (replicate MD5_MAC_LEN 0)) (\<lambda>msg.
           bindR (set_hdr_authenticator msg (replicate 16 0)) (\<lambda>msg.
           bindR (of_ub (hmac_md5 env secret (radius_content msg))) (\<lambda>auth.
           bindR (radius_write msg (attr + sizeof_radius_attr_hdr) orig) (\<lambda>msg.
           bindR (set_hdr_authenticator msg orig_authenticator) (\<lambda>msg.
             Ok (if macs_differ orig auth then 1 else 0, msg))))))))))"

definition radius_msg_verify_msg_auth :: "radius_env \<Rightarrow> radius_msg \<Rightarrow> bytes \<Rightarrow> bytes option \<Rightarrow> (int \<times> radius_msg) run" where
  "radius_msg_verify_msg_auth env msg secret req_auth =
     bindR (of_ub (find_msg_auth msg (attr_pos msg) None)) (\<lambda>r.
       case r of
         Inl _ \<Rightarrow> Ok (1, msg)
       | Inr None \<Rightarrow> Ok (1, msg)
       | Inr (Some attr) \<Rightarrow>
         bindR (of_ub (radius_read msg (attr + sizeof_radius_attr_hdr) MD5_MAC_LEN)) (\<lambda>orig.
         bindR (radius_write msg (attr + sizeof_radius_attr_hdr) (replicate MD5_MAC_LEN 0)) (\<lambda>msg.
         bindR (of_ub (hdr_authenticator msg)) (\<lambda>orig_authenticator.
         bindR (case req_auth of None \<Rightarrow> Ok msg | Some ra \<Rightarrow> set_hdr_authenticator msg (take 16 ra)) (\<lambda>msg.
           case hmac_md5 env secret (radius_content msg) of
             None \<Rightarrow> Ok (1, msg)
           | Some auth \<Rightarrow>
             bindR (radius_write msg (attr + sizeof_radius_attr_hdr) orig) (\<lambda>msg.
             bindR (case req_auth of None \<Rightarrow> Ok msg | Some _ \<Rightarrow> set_hdr_authenticator msg orig_authenticator) (\<lambda>msg.
               Ok (if macs_differ orig auth then 1 else 0, msg))))))))"

definition radius_msg_verify ::
  "radius_env \<Rightarrow> radius_msg \<Rightarrow> bytes \<Rightarrow> radius_msg option \<Rightarrow> bool \<Rightarrow> (int \<times> radius_msg) run" where
  "radius_msg_verify env msg secret sent_msg auth =
     (case sent_msg of
        None \<Rightarrow> Ok (1, msg)
      | Some sent \<Rightarrow>
        bindR (of_ub (hdr_authenticator sent)) (\<lambda>req.
        bindR (if auth then radius_msg_verify_msg_auth env msg secret (Some req) else Ok (0, msg)) (\<lambda>(r, msg).
          if r \<noteq> 0 then Ok (1, msg)
          else bindR (of_ub (response_auth_input msg req secret)) (\<lambda>i.
            case md5_vector env i of
              None \<Rightarrow> Ok (1, msg)
            | Some hash \<Rightarrow> bindR (of_ub (hdr_authenticator msg)) (\<lambda>a.
                Ok (if macs_differ hash a then 1 else 0, msg))))))"

definition radius_msg_make_authenticator :: "bytes option \<Rightarrow> radius_msg \<Rightarrow> (int \<times> radius_msg) run" where
  "radius_msg_make_authenticator random msg =
     (case random of None \<Rightarrow> Ok (-1, msg) | Some r \<Rightarrow> bindR (set_hdr_authenticator msg r) (\<lambda>msg. Ok (0, msg)))"

section \<open>Reading attributes\<close>

text \<open>The first attribute of a type behind a position: \<open>(u8 *) tmp > start\<close>.\<close>

fun find_attr :: "radius_msg \<Rightarrow> u8 \<Rightarrow> nat option \<Rightarrow> nat list \<Rightarrow> nat option ub" where
  "find_attr msg type start [] = Some None"
| "find_attr msg type start (a # as) = do {
     t \<leftarrow> attr_type msg a;
     if t = type \<and> (case start of None \<Rightarrow> True | Some s \<Rightarrow> a > s) then Some (Some a)
     else find_attr msg type start as }"

text \<open>\<open>radius_msg_get_attr\<close>: the length of the value (or -1) and, when a buffer of \<open>len\<close> bytes is
  given, the bytes copied into it.\<close>

definition radius_msg_get_attr :: "radius_msg \<Rightarrow> u8 \<Rightarrow> nat option \<Rightarrow> (int \<times> bytes) ub" where
  "radius_msg_get_attr msg type buf = do {
     r \<leftarrow> find_attr msg type None (attr_pos msg);
     case r of
       None \<Rightarrow> Some (-1, [])
     | Some a \<Rightarrow> do {
         n \<leftarrow> attr_length msg a;
         if n < sizeof_radius_attr_hdr then Some (-1, [])
         else let dlen = n - sizeof_radius_attr_hdr in
           case buf of
             None \<Rightarrow> Some (int dlen, [])
           | Some len \<Rightarrow> do {
               d \<leftarrow> radius_read msg (a + sizeof_radius_attr_hdr) (if dlen > len then len else dlen);
               Some (int dlen, d) } } }"

definition radius_msg_get_attr_int32 :: "radius_msg \<Rightarrow> u8 \<Rightarrow> u32 option ub" where
  "radius_msg_get_attr_int32 msg type = do {
     (res, d) \<leftarrow> radius_msg_get_attr msg type (Some 4);
     if res \<noteq> 4 then Some None else do { v \<leftarrow> WPA_GET_BE32 d; Some (Some v) } }"

text \<open>\<open>radius_msg_get_attr_ptr\<close>: offset and length of the value.\<close>

definition radius_msg_get_attr_ptr :: "radius_msg \<Rightarrow> u8 \<Rightarrow> nat option \<Rightarrow> (nat \<times> nat) option ub" where
  "radius_msg_get_attr_ptr msg type start = do {
     r \<leftarrow> find_attr msg type start (attr_pos msg);
     case r of
       None \<Rightarrow> Some None
     | Some a \<Rightarrow> do {
         n \<leftarrow> attr_length msg a;
         Some (if n < sizeof_radius_attr_hdr then None
               else Some (a + sizeof_radius_attr_hdr, n - sizeof_radius_attr_hdr)) } }"

fun count_attrs :: "radius_msg \<Rightarrow> u8 \<Rightarrow> nat \<Rightarrow> nat list \<Rightarrow> nat ub" where
  "count_attrs msg type min_len [] = Some 0"
| "count_attrs msg type min_len (a # as) = do {
     t \<leftarrow> attr_type msg a;
     n \<leftarrow> attr_length msg a;
     c \<leftarrow> count_attrs msg type min_len as;
     Some (if t = type \<and> n \<ge> sizeof_radius_attr_hdr + min_len then c + 1 else c) }"

definition radius_msg_count_attr :: "radius_msg \<Rightarrow> u8 \<Rightarrow> nat \<Rightarrow> nat ub" where
  "radius_msg_count_attr msg type min_len = count_attrs msg type min_len (attr_pos msg)"

fun unlisted_attr :: "radius_msg \<Rightarrow> u8 list \<Rightarrow> nat list \<Rightarrow> u8 ub" where
  "unlisted_attr msg attrs [] = Some 0"
| "unlisted_attr msg attrs (a # as) = do {
     t \<leftarrow> attr_type msg a;
     if t \<in> set (takeWhile (\<lambda>x. x \<noteq> 0) attrs) then unlisted_attr msg attrs as else Some t }"

definition radius_msg_find_unlisted_attr :: "radius_msg \<Rightarrow> u8 list \<Rightarrow> u8 ub" where
  "radius_msg_find_unlisted_attr msg attrs = unlisted_attr msg attrs (attr_pos msg)"

text \<open>\<open>radius_msg_copy_attr\<close>: the number of attributes copied, or -1.\<close>

fun copy_attrs :: "radius_env \<Rightarrow> radius_msg \<Rightarrow> u8 \<Rightarrow> nat list \<Rightarrow> int \<Rightarrow> radius_msg \<Rightarrow> (int \<times> radius_msg) run" where
  "copy_attrs env src type [] count dst = Ok (count, dst)"
| "copy_attrs env src type (a # as) count dst =
     bindR (of_ub (attr_type src a)) (\<lambda>t. bindR (of_ub (attr_length src a)) (\<lambda>n.
       if t = type \<and> n \<ge> sizeof_radius_attr_hdr
       then bindR (of_ub (radius_read src (a + sizeof_radius_attr_hdr) (n - sizeof_radius_attr_hdr))) (\<lambda>d.
         bindR (radius_msg_add_attr env dst type d) (\<lambda>(r, dst).
           if r = None then Ok (-1, dst) else copy_attrs env src type as (count + 1) dst))
       else copy_attrs env src type as count dst))"

definition radius_msg_copy_attr :: "radius_env \<Rightarrow> radius_msg \<Rightarrow> radius_msg \<Rightarrow> u8 \<Rightarrow> (int \<times> radius_msg) run" where
  "radius_msg_copy_attr env dst src type = copy_attrs env src type (attr_pos src) 0 dst"

section \<open>Vendor attributes and keys\<close>

text \<open>The walk over the vendor attributes inside one attribute, \<open>left\<close> bytes at \<open>pos\<close>;
  \<open>os_memdup\<close> of the value found is \<open>Some None\<close> when it fails.\<close>

function vendor_walk :: "radius_env \<Rightarrow> radius_msg \<Rightarrow> u8 \<Rightarrow> nat \<Rightarrow> nat \<Rightarrow> bytes option option ub" where
  "vendor_walk env msg subtype pos left =
     (if left \<ge> 2 then
        case (attr_type msg pos, attr_length msg pos) of
          (Some vt, Some vl) \<Rightarrow>
            if vl > left \<or> vl < 2 then Some None
            else if vt \<noteq> subtype then vendor_walk env msg subtype (pos + vl) (left - vl)
            else do {
              d \<leftarrow> radius_read msg (pos + 2) (vl - 2);
              Some (Some (if rmalloc env (vl - 2) then Some d else None)) }
        | _ \<Rightarrow> None
      else Some None)"
  by pat_completeness auto
termination
  by (relation "measure (\<lambda>(env, msg, subtype, pos, left). left)") auto

declare vendor_walk.simps [simp del]

fun get_vendor_attr :: "radius_env \<Rightarrow> radius_msg \<Rightarrow> u32 \<Rightarrow> u8 \<Rightarrow> nat list \<Rightarrow> bytes option ub" where
  "get_vendor_attr env msg vendor subtype [] = Some None"
| "get_vendor_attr env msg vendor subtype (a # as) = do {
     t \<leftarrow> attr_type msg a;
     n \<leftarrow> attr_length msg a;
     if t \<noteq> RADIUS_ATTR_VENDOR_SPECIFIC \<or> n < sizeof_radius_attr_hdr then get_vendor_attr env msg vendor subtype as
     else if n - sizeof_radius_attr_hdr < 4 then get_vendor_attr env msg vendor subtype as
     else do {
       vid \<leftarrow> radius_read msg (a + sizeof_radius_attr_hdr) 4;
       vendor_id \<leftarrow> WPA_GET_BE32 vid;
       if vendor_id \<noteq> vendor then get_vendor_attr env msg vendor subtype as
       else do {
         r \<leftarrow> vendor_walk env msg subtype (a + sizeof_radius_attr_hdr + 4) (n - sizeof_radius_attr_hdr - 4);
         case r of None \<Rightarrow> get_vendor_attr env msg vendor subtype as | Some d \<Rightarrow> Some d } } }"

definition radius_msg_get_vendor_attr :: "radius_env \<Rightarrow> radius_msg \<Rightarrow> u32 \<Rightarrow> u8 \<Rightarrow> bytes option ub" where
  "radius_msg_get_vendor_attr env msg vendor subtype = get_vendor_attr env msg vendor subtype (attr_pos msg)"

definition xor_block :: "bytes \<Rightarrow> bytes \<Rightarrow> bytes" where
  "xor_block = map2 (XOR)"

text \<open>The decryption loop: \<open>pos\<close> from the current block on, \<open>prev\<close> what is hashed behind the
  secret; \<open>None\<close> when the hash fails.\<close>

function decrypt_blocks :: "radius_env \<Rightarrow> bytes \<Rightarrow> bytes \<Rightarrow> bytes \<Rightarrow> bytes option" where
  "decrypt_blocks env secret prev pos =
     (if length pos > 0 then do {
        hash \<leftarrow> md5_vector env (secret @ prev);
        rest \<leftarrow> decrypt_blocks env secret (take MD5_MAC_LEN pos) (drop MD5_MAC_LEN pos);
        Some (xor_block (take MD5_MAC_LEN pos) hash @ rest) }
      else Some [])"
  by pat_completeness auto
termination
  by (relation "measure (\<lambda>(env, secret, prev, pos). length pos)") (auto simp: MD5_MAC_LEN_def)

declare decrypt_blocks.simps [simp del]

definition decrypt_ms_key :: "radius_env \<Rightarrow> bytes \<Rightarrow> bytes \<Rightarrow> bytes \<Rightarrow> bytes option ub" where
  "decrypt_ms_key env key req_authenticator secret =
     (if length key < 2 + 16 then Some None
      else let plen = length key - 2 in
        if plen mod 16 \<noteq> 0 then Some None
        else if \<not> rmalloc env plen then Some None
        else case decrypt_blocks env secret (take MD5_MAC_LEN req_authenticator @ take 2 key) (drop 2 key) of
          None \<Rightarrow> Some None
        | Some plain \<Rightarrow> do {
            n \<leftarrow> map_option unat (peek plain 0);
            if n = 0 \<or> n > plen - 1 then Some None
            else do { d \<leftarrow> mem_read plain 1 n; Some (if rmalloc env n then Some d else None) } })"

text \<open>The encryption in place; a hash that fails leaves the last value, \<open>None\<close> before the
  first one.\<close>

function encrypt_blocks :: "radius_env \<Rightarrow> bytes \<Rightarrow> bytes option \<Rightarrow> bytes \<Rightarrow> nat \<Rightarrow> bytes \<Rightarrow> bytes ub" where
  "encrypt_blocks env secret hash prev len pos =
     (if len > 0 then do {
        hash \<leftarrow> (case md5_vector env (secret @ prev) of Some h \<Rightarrow> Some h | None \<Rightarrow> hash);
        p \<leftarrow> mem_read pos 0 MD5_MAC_LEN;
        let c = xor_block p hash;
        rest \<leftarrow> encrypt_blocks env secret (Some hash) c (len - MD5_MAC_LEN) (drop MD5_MAC_LEN pos);
        Some (c @ rest) }
      else Some pos)"
  by pat_completeness auto
termination
  by (relation "measure (\<lambda>(env, secret, hash, prev, len, pos). len)") (auto simp: MD5_MAC_LEN_def)

declare encrypt_blocks.simps [simp del]

definition encrypt_ms_key :: "radius_env \<Rightarrow> bytes \<Rightarrow> u16 \<Rightarrow> bytes \<Rightarrow> bytes \<Rightarrow> bytes \<Rightarrow> (bytes \<times> nat) ub" where
  "encrypt_ms_key env key salt req_authenticator secret ebuf = do {
     let saltbuf = WPA_PUT_BE16 salt;
     let len = 1 + length key;
     let len = (if len AND 0x0f \<noteq> 0 then (len AND 0xf0) + 16 else len);
     ebuf \<leftarrow> memcpy_at ebuf 0 (replicate len 0);
     ebuf \<leftarrow> memcpy_at ebuf 0 [word_of_nat (length key)];
     ebuf \<leftarrow> memcpy_at ebuf 1 key;
     ebuf \<leftarrow> encrypt_blocks env secret None (take MD5_MAC_LEN req_authenticator @ saltbuf) len ebuf;
     Some (ebuf, len) }"

record radius_ms_mppe_keys =
  mppe_send :: "bytes option"
  mppe_recv :: "bytes option"

definition sizeof_radius_ms_mppe_keys :: nat where "sizeof_radius_ms_mppe_keys = 32"

definition radius_msg_get_ms_keys ::
  "radius_env \<Rightarrow> radius_msg \<Rightarrow> radius_msg option \<Rightarrow> bytes \<Rightarrow> radius_ms_mppe_keys option ub" where
  "radius_msg_get_ms_keys env msg sent_msg secret =
     (case sent_msg of
        None \<Rightarrow> Some None
      | Some sent \<Rightarrow>
        if \<not> rmalloc env sizeof_radius_ms_mppe_keys then Some None
        else do {
          auth \<leftarrow> hdr_authenticator sent;
          key \<leftarrow> radius_msg_get_vendor_attr env msg RADIUS_VENDOR_ID_MICROSOFT RADIUS_VENDOR_ATTR_MS_MPPE_SEND_KEY;
          s \<leftarrow> (case key of None \<Rightarrow> Some None | Some k \<Rightarrow> decrypt_ms_key env k auth secret);
          key \<leftarrow> radius_msg_get_vendor_attr env msg RADIUS_VENDOR_ID_MICROSOFT RADIUS_VENDOR_ATTR_MS_MPPE_RECV_KEY;
          r \<leftarrow> (case key of None \<Rightarrow> Some None | Some k \<Rightarrow> decrypt_ms_key env k auth secret);
          Some (Some \<lparr>mppe_send = s, mppe_recv = r\<rparr>) })"

text \<open>\<open>"leap:session-key="\<close>.\<close>

definition leap_prefix :: bytes where
  "leap_prefix = map (word_of_nat \<circ> of_char) ''leap:session-key=''"

definition radius_msg_get_cisco_keys ::
  "radius_env \<Rightarrow> radius_msg \<Rightarrow> radius_msg option \<Rightarrow> bytes \<Rightarrow> radius_ms_mppe_keys option ub" where
  "radius_msg_get_cisco_keys env msg sent_msg secret =
     (case sent_msg of
        None \<Rightarrow> Some None
      | Some sent \<Rightarrow>
        if \<not> rmalloc env sizeof_radius_ms_mppe_keys then Some None
        else do {
          key \<leftarrow> radius_msg_get_vendor_attr env msg RADIUS_VENDOR_ID_CISCO RADIUS_CISCO_AV_PAIR;
          r \<leftarrow> (case key of
                  None \<Rightarrow> Some None
                | Some k \<Rightarrow>
                  if length k = 51 \<and> take 17 k = leap_prefix
                  then do { auth \<leftarrow> hdr_authenticator sent; decrypt_ms_key env (drop 17 k) auth secret }
                  else Some None);
          Some (Some \<lparr>mppe_send = None, mppe_recv = r\<rparr>) })"

text \<open>One of the two halves of \<open>radius_msg_add_mppe_keys\<close>.\<close>

definition add_mppe_key ::
  "radius_env \<Rightarrow> radius_msg \<Rightarrow> u8 \<Rightarrow> u16 \<Rightarrow> bytes \<Rightarrow> bytes \<Rightarrow> bytes \<Rightarrow> (bool \<times> radius_msg) run" where
  "add_mppe_key env msg type salt req_authenticator secret key =
     (let hlen = 4 + 2 + 2 in
      if \<not> rmalloc env (hlen + length key + 16) then Ok (False, msg)
      else bindR (of_ub (encrypt_ms_key env key salt req_authenticator secret (replicate (length key + 16) 0))) (\<lambda>(ebuf, elen).
        let buf = WPA_PUT_BE32 RADIUS_VENDOR_ID_MICROSOFT @ [type, word_of_nat (hlen + elen - 4)] @ WPA_PUT_BE16 salt @ take elen ebuf in
        bindR (radius_msg_add_attr env msg RADIUS_ATTR_VENDOR_SPECIFIC buf) (\<lambda>(a, msg). Ok (a \<noteq> None, msg))))"

text \<open>The random number is drawn behind the first allocation.\<close>

definition radius_msg_add_mppe_keys ::
  "radius_env \<Rightarrow> u16 option \<Rightarrow> radius_msg \<Rightarrow> bytes \<Rightarrow> bytes \<Rightarrow> bytes \<Rightarrow> bytes \<Rightarrow> (bool \<times> radius_msg) run" where
  "radius_msg_add_mppe_keys env random msg req_authenticator secret send_key recv_key =
     (case random of
        None \<Rightarrow> Ok (False, msg)
      | Some salt \<Rightarrow>
        let salt = salt OR 0x8000 in
        bindR (add_mppe_key env msg RADIUS_VENDOR_ATTR_MS_MPPE_SEND_KEY salt req_authenticator secret send_key) (\<lambda>(r, msg).
          if \<not> r then Ok (False, msg)
          else add_mppe_key env msg RADIUS_VENDOR_ATTR_MS_MPPE_RECV_KEY (salt XOR 1) req_authenticator secret recv_key))"

definition radius_msg_add_wfa :: "radius_env \<Rightarrow> radius_msg \<Rightarrow> u8 \<Rightarrow> bytes \<Rightarrow> (bool \<times> radius_msg) run" where
  "radius_msg_add_wfa env msg subtype data =
     (if \<not> rmalloc env (4 + 2 + length data) then Ok (False, msg)
      else bindR (radius_msg_add_attr env msg RADIUS_ATTR_VENDOR_SPECIFIC
               (WPA_PUT_BE32 RADIUS_VENDOR_ID_WFA @ [subtype, word_of_nat (2 + length data)] @ data))
             (\<lambda>(a, msg). Ok (a \<noteq> None, msg)))"

section \<open>Hidden passwords\<close>

text \<open>The blocks behind the first one are masked with the hash of the block before.\<close>

function hide_blocks :: "radius_env \<Rightarrow> bytes \<Rightarrow> nat \<Rightarrow> nat \<Rightarrow> bytes \<Rightarrow> bytes \<Rightarrow> bytes ub" where
  "hide_blocks env secret pos buf_len hash buf =
     (if pos < buf_len then do {
        prev \<leftarrow> mem_read buf (pos - 16) 16;
        let hash = (case md5_vector env (secret @ prev) of Some h \<Rightarrow> h | None \<Rightarrow> hash);
        p \<leftarrow> mem_read buf pos 16;
        buf \<leftarrow> memcpy_at buf pos (xor_block p hash);
        hide_blocks env secret (pos + 16) buf_len hash buf }
      else Some buf)"
  by pat_completeness auto
termination
  by (relation "measure (\<lambda>(env, secret, pos, buf_len, hash, buf). buf_len - pos)") auto

declare hide_blocks.simps [simp del]

text \<open>The length returned (or -1) and the buffer.\<close>

definition radius_user_password_hide ::
  "radius_env \<Rightarrow> radius_msg \<Rightarrow> bytes \<Rightarrow> bytes \<Rightarrow> bytes \<Rightarrow> (int \<times> bytes) ub" where
  "radius_user_password_hide env msg data secret buf =
     (if length data + 16 > length buf then Some (-1, buf)
      else do {
        buf \<leftarrow> memcpy_at buf 0 data;
        let padlen = length data mod 16;
        (buf_len, buf) \<leftarrow>
          (if padlen \<noteq> 0 \<and> length data < length buf
           then let padlen = 16 - padlen in
             map_option (\<lambda>b. (length data + padlen, b)) (memcpy_at buf (length data) (replicate padlen 0))
           else Some (length data, buf));
        auth \<leftarrow> hdr_authenticator msg;
        hash \<leftarrow> md5_vector env (secret @ auth);
        p \<leftarrow> mem_read buf 0 16;
        buf \<leftarrow> memcpy_at buf 0 (xor_block p hash);
        buf \<leftarrow> hide_blocks env secret 16 buf_len hash buf;
        Some (int buf_len, buf) })"

definition radius_msg_add_attr_user_password ::
  "radius_env \<Rightarrow> bytes \<Rightarrow> radius_msg \<Rightarrow> bytes \<Rightarrow> bytes \<Rightarrow> (nat option \<times> radius_msg) run" where
  "radius_msg_add_attr_user_password env stack msg data secret =
     bindR (of_ub (radius_user_password_hide env msg data secret (take 128 (stack @ replicate 128 0)))) (\<lambda>(res, buf).
       if res < 0 then Ok (None, msg)
       else radius_msg_add_attr env msg RADIUS_ATTR_USER_PASSWORD (take (nat res) buf))"

text \<open>\<open>radius_msg_get_tunnel_password\<close>: the \<open>n\<close>-th attribute of a valid length.\<close>

fun find_tunnel_password :: "radius_msg \<Rightarrow> nat \<Rightarrow> nat \<Rightarrow> nat list \<Rightarrow> bytes option ub" where
  "find_tunnel_password msg n j [] = Some None"
| "find_tunnel_password msg n j (a # as) = do {
     t \<leftarrow> attr_type msg a;
     l \<leftarrow> attr_length msg a;
     if t \<noteq> RADIUS_ATTR_TUNNEL_PASSWORD then find_tunnel_password msg n j as
     else if l \<le> 5 then find_tunnel_password msg n j as
     else let dlen = l - sizeof_radius_attr_hdr in
       if dlen \<le> 3 \<or> dlen mod 16 \<noteq> 3 then find_tunnel_password msg n j as
       else if j + 1 \<le> n then find_tunnel_password msg n (j + 1) as
       else do { d \<leftarrow> radius_read msg (a + sizeof_radius_attr_hdr) dlen; Some (Some d) } }"

text \<open>All blocks but the first, from the last one down to \<open>str + 16\<close> (\<open>str\<close> is at offset 3); the
  return value of the hash is not checked, and \<open>None\<close> means that it was never computed.\<close>

function reveal_blocks :: "radius_env \<Rightarrow> bytes \<Rightarrow> nat \<Rightarrow> bytes option \<Rightarrow> bytes \<Rightarrow> (bytes option \<times> bytes) ub" where
  "reveal_blocks env secret pos hash buf =
     (if pos \<ge> 3 + 16 then do {
        prev \<leftarrow> mem_read buf (pos - 16) 16;
        h \<leftarrow> (case md5_vector env (secret @ prev) of Some h \<Rightarrow> Some h | None \<Rightarrow> hash);
        p \<leftarrow> mem_read buf pos 16;
        buf \<leftarrow> memcpy_at buf pos (xor_block p h);
        reveal_blocks env secret (pos - 16) (Some h) buf }
      else Some (hash, buf))"
  by pat_completeness auto
termination
  by (relation "measure (\<lambda>(env, secret, pos, hash, buf). pos)") auto

declare reveal_blocks.simps [simp del]

definition radius_msg_get_tunnel_password ::
  "radius_env \<Rightarrow> radius_msg \<Rightarrow> bytes \<Rightarrow> radius_msg \<Rightarrow> nat \<Rightarrow> bytes option ub" where
  "radius_msg_get_tunnel_password env msg secret sent_msg n = do {
     f \<leftarrow> find_tunnel_password msg n 0 (attr_pos msg);
     case f of
       None \<Rightarrow> Some None
     | Some fdata \<Rightarrow>
       if \<not> rmalloc env (length fdata) then Some None
       else do {
         let buflen = length fdata;
         let pos = buflen - 16;
         (hash, buf) \<leftarrow> reveal_blocks env secret pos None fdata;
         if (buflen - 16 - 3) mod 16 \<noteq> 0 then Some None
         else do {
           auth \<leftarrow> hdr_authenticator sent_msg;
           salt \<leftarrow> mem_read buf 1 2;
           h \<leftarrow> (case md5_vector env (secret @ auth @ salt) of Some h \<Rightarrow> Some h | None \<Rightarrow> hash);
           p \<leftarrow> mem_read buf 3 16;
           buf \<leftarrow> memcpy_at buf 3 (xor_block p h);
           keylen \<leftarrow> map_option unat (peek buf 3);
           if 3 + keylen \<ge> buflen then Some None
           else if keylen = 0 then Some None
           else if \<not> rmalloc env keylen then Some None
           else do { d \<leftarrow> mem_read buf 4 keylen; Some (Some d) } } } }"

section \<open>VLAN attributes\<close>

record radius_tunnel_attrs =
  tag_used :: nat
  tun_type :: int
  tun_medium_type :: int
  tun_vlanid :: int

definition tunnel_zero :: radius_tunnel_attrs where
  "tunnel_zero = \<lparr>tag_used = 0, tun_type = 0, tun_medium_type = 0, tun_vlanid = 0\<rparr>"

text \<open>
  \<open>atoi\<close>, as the C library has it: \<open>strtol\<close>, which reads white space, a sign and decimal digits and saturates at
  the limits of \<open>long\<close>, converted to \<open>int\<close>.
\<close>

definition is_digit :: "u8 \<Rightarrow> bool" where "is_digit c \<longleftrightarrow> 48 \<le> c \<and> c \<le> 57"
definition is_space :: "u8 \<Rightarrow> bool" where "is_space c \<longleftrightarrow> c = 32 \<or> 9 \<le> c \<and> c \<le> 13"

definition digits_value :: "bytes \<Rightarrow> int" where
  "digits_value s = foldl (\<lambda>v c. 10 * v + (uint c - 48)) 0 (takeWhile is_digit s)"

definition decimal_value :: "bytes \<Rightarrow> int" where
  "decimal_value s = (case dropWhile is_space s of
     [] \<Rightarrow> 0
   | c # cs \<Rightarrow> if c = 45 then - digits_value cs else if c = 43 then digits_value cs else digits_value (c # cs))"

definition atoi :: "bytes \<Rightarrow> int" where
  "atoi s = c_int (max (- (2 ^ 63)) (min (2 ^ 63 - 1) (decimal_value s)))"

text \<open>
  The state of the loop: the buffer \<open>buf\<close> of the function, the tunnels, the untagged VLAN and the tagged ones so
  far.
\<close>

definition sizeof_vlan_buf :: nat where "sizeof_vlan_buf = 10"

record vlan_state =
  vlan_buf :: bytes
  tunnels :: "radius_tunnel_attrs list"
  untagged :: int
  tagged :: "int list"

text \<open>One attribute with its type and value (at least one byte).\<close>

definition vlan_attr :: "nat \<Rightarrow> u8 \<Rightarrow> bytes \<Rightarrow> vlan_state \<Rightarrow> vlan_state ub" where
  "vlan_attr numtagged t data st = do {
     tag \<leftarrow> map_option unat (peek data 0);
     let k = (if tag \<ge> RADIUS_TUNNEL_TAGS then 0 else tag);
     let upd = (\<lambda>st f. st\<lparr>tunnels := (tunnels st)[k := f (tunnels st ! k)]\<rparr>);
     if t = RADIUS_ATTR_TUNNEL_TYPE then
       if length data + sizeof_radius_attr_hdr \<noteq> 6 then Some st
       else do { v \<leftarrow> WPA_GET_BE24 (drop 1 data);
         Some (upd st (\<lambda>tun. tun\<lparr>tag_used := tag_used tun + 1, tun_type := uint v\<rparr>)) }
     else if t = RADIUS_ATTR_TUNNEL_MEDIUM_TYPE then
       if length data + sizeof_radius_attr_hdr \<noteq> 6 then Some st
       else do { v \<leftarrow> WPA_GET_BE24 (drop 1 data);
         Some (upd st (\<lambda>tun. tun\<lparr>tag_used := tag_used tun + 1, tun_medium_type := uint v\<rparr>)) }
     else if t = RADIUS_ATTR_TUNNEL_PRIVATE_GROUP_ID then
       let d = (if tag < RADIUS_TUNNEL_TAGS then drop 1 data else data) in
       if length d \<ge> sizeof_vlan_buf then Some st
       else do {
         buf \<leftarrow> memcpy_at (vlan_buf st) 0 d;
         buf \<leftarrow> poke buf (int (length d)) 0;
         let st = st\<lparr>vlan_buf := buf\<rparr>;
         let vlan_id = atoi buf;
         if vlan_id \<le> 0 then Some st
         else Some (upd st (\<lambda>tun. tun\<lparr>tag_used := tag_used tun + 1, tun_vlanid := vlan_id\<rparr>)) }
     else if t = RADIUS_ATTR_EGRESS_VLANID then
       if length data + sizeof_radius_attr_hdr \<noteq> 6 then Some st
       else do { v \<leftarrow> WPA_GET_BE24 (drop 1 data);
         let vlan_id = uint v;
         if vlan_id \<le> 0 then Some st
         else if tag = 0x32 then Some (st\<lparr>untagged := vlan_id\<rparr>)
         else if tag = 0x31 \<and> length (tagged st) < numtagged then Some (st\<lparr>tagged := tagged st @ [vlan_id]\<rparr>)
         else Some st }
     else Some st }"

fun vlan_loop :: "radius_msg \<Rightarrow> nat \<Rightarrow> nat list \<Rightarrow> vlan_state \<Rightarrow> (bool \<times> vlan_state) ub" where
  "vlan_loop msg numtagged [] st = Some (True, st)"
| "vlan_loop msg numtagged (a # as) st = do {
     n \<leftarrow> attr_length msg a;
     if n < sizeof_radius_attr_hdr then Some (False, st)
     else if n < 3 then vlan_loop msg numtagged as st
     else do {
       t \<leftarrow> attr_type msg a;
       data \<leftarrow> radius_read msg (a + sizeof_radius_attr_hdr) (n - sizeof_radius_attr_hdr);
       st \<leftarrow> vlan_attr numtagged t data st;
       vlan_loop msg numtagged as st } }"

definition tunnel_usable :: "radius_tunnel_attrs \<Rightarrow> bool" where
  "tunnel_usable tun \<longleftrightarrow> tag_used tun \<noteq> 0 \<and> tun_type tun = RADIUS_TUNNEL_TYPE_VLAN
     \<and> tun_medium_type tun = RADIUS_TUNNEL_MEDIUM_TYPE_802 \<and> tun_vlanid tun > 0"

text \<open>The return value, the untagged VLAN and the array of tagged ones, padded with zeros;
  \<open>qsort\<close> is sorting. The bytes in \<open>buf\<close> before the first copy do not matter, since \<open>atoi\<close> stops at the terminator
  behind the copy.\<close>

definition radius_msg_get_vlanid :: "radius_msg \<Rightarrow> nat \<Rightarrow> (int \<times> int \<times> int list) ub" where
  "radius_msg_get_vlanid msg numtagged = do {
     (ok, st) \<leftarrow> vlan_loop msg numtagged (attr_pos msg)
            \<lparr>vlan_buf = replicate sizeof_vlan_buf 0, tunnels = replicate RADIUS_TUNNEL_TAGS tunnel_zero, untagged = 0, tagged = []\<rparr>;
     let pad = replicate (numtagged - length (tagged st)) 0;
     if \<not> ok then Some (-1, untagged st, tagged st @ pad)
     else
       let u = (case find tunnel_usable (tunnels st) of Some tun \<Rightarrow> tun_vlanid tun | None \<Rightarrow> untagged st);
           ts = sort (tagged st) @ pad in
       Some (if u > 0 \<or> tagged st \<noteq> [] then 1 else 0, u, ts) }"

section \<open>Class attributes\<close>

text \<open>\<open>struct radius_class_data\<close>: the array (NULL as \<open>None\<close>) of \<open>count\<close> copies; \<open>radius_copy_class\<close>
  stops at the first copy that cannot be made.\<close>

definition sizeof_radius_attr_data :: nat where "sizeof_radius_attr_data = 16"

definition radius_copy_class :: "(nat \<Rightarrow> bool) \<Rightarrow> bytes list option \<Rightarrow> bytes list option \<Rightarrow> int \<times> bytes list option" where
  "radius_copy_class malloc dst src =
     (case src of
        None \<Rightarrow> (0, dst)
      | Some ds \<Rightarrow>
        if \<not> malloc (length ds * sizeof_radius_attr_data) then (-1, None)
        else (0, Some (takeWhile (\<lambda>d. malloc (length d)) ds)))"

definition radius_gen_session_id :: "bytes option \<Rightarrow> int \<times> bytes option" where
  "radius_gen_session_id random = (case random of None \<Rightarrow> (-1, None) | Some r \<Rightarrow> (0, Some r))"

end
