(* ===== verification/Radius_Attrs.thy ===== *)
theory Radius_Attrs
  imports Radius
begin

unbundle bit_operations_syntax

text \<open>
  The abstract view of RADIUS messages as attribute lists and what the operations of
  \<open>Radius\<close> mean on it: access, EAP fragments, parsing, appending, writes in place.
\<close>

section \<open>Messages as lists of attributes\<close>

text \<open>
  The abstract view of a message: a header of 20 bytes and the list of attributes, each a type
  and a value of at most 253 bytes.
\<close>

type_synonym radius_attr = "u8 \<times> bytes"

definition enc_attr :: "radius_attr \<Rightarrow> bytes" where
  "enc_attr a = fst a # word_of_nat (sizeof_radius_attr_hdr + length (snd a)) # snd a"

definition enc_attrs :: "radius_attr list \<Rightarrow> bytes" where
  "enc_attrs as = concat (map enc_attr as)"

fun offsets :: "nat \<Rightarrow> radius_attr list \<Rightarrow> nat list" where
  "offsets n [] = []"
| "offsets n (a # as) = n # offsets (n + length (enc_attr a)) as"

definition attrs_ok :: "radius_attr list \<Rightarrow> bool" where
  "attrs_ok as \<longleftrightarrow> list_all (\<lambda>a. length (snd a) \<le> RADIUS_MAX_ATTR_LEN) as"

definition radius_rep :: "radius_msg \<Rightarrow> bytes \<Rightarrow> radius_attr list \<Rightarrow> bool" where
  "radius_rep msg h as \<longleftrightarrow> wf_wpabuf (rbuf msg) \<and> length h = sizeof_radius_hdr \<and> attrs_ok as
     \<and> radius_content msg = h @ enc_attrs as \<and> attr_pos msg = offsets sizeof_radius_hdr as"

lemma enc_attrs_simps [simp]:
  "enc_attrs [] = []" "enc_attrs (a # as) = enc_attr a @ enc_attrs as" "enc_attrs (as @ bs) = enc_attrs as @ enc_attrs bs"
  by (simp_all add: enc_attrs_def)

lemma attrs_ok_simps [simp]:
  "attrs_ok []" "attrs_ok (a # as) \<longleftrightarrow> length (snd a) \<le> RADIUS_MAX_ATTR_LEN \<and> attrs_ok as"
  "attrs_ok (as @ bs) \<longleftrightarrow> attrs_ok as \<and> attrs_ok bs"
  by (simp_all add: attrs_ok_def)

lemma length_enc_attr [simp]: "length (enc_attr a) = sizeof_radius_attr_hdr + length (snd a)"
  by (simp add: enc_attr_def sizeof_radius_attr_hdr_def)

lemma offsets_append [simp]: "offsets n (as @ bs) = offsets n as @ offsets (n + length (enc_attrs as)) bs"
  by (induction as arbitrary: n) (simp_all add: add.assoc)

text \<open>Access to an attribute that lies at some place of the buffer.\<close>

lemma unat_attr_len: "n \<le> RADIUS_MAX_ATTR_LEN \<Longrightarrow> unat (word_of_nat (sizeof_radius_attr_hdr + n) :: u8) = sizeof_radius_attr_hdr + n"
  by (subst unat_of_nat) (simp add: RADIUS_MAX_ATTR_LEN_def sizeof_radius_attr_hdr_def)

lemma attr_access:
  assumes "bdata (rbuf msg) = pre @ enc_attr a @ post" "length (snd a) \<le> RADIUS_MAX_ATTR_LEN"
  shows "attr_type msg (length pre) = Some (fst a)"
    "attr_length msg (length pre) = Some (sizeof_radius_attr_hdr + length (snd a))"
    "n \<le> length (snd a) \<Longrightarrow> radius_read msg (length pre + sizeof_radius_attr_hdr) n = Some (take n (snd a))"
proof -
  note [simp] = sizeof_radius_attr_hdr_def
  show "attr_type msg (length pre) = Some (fst a)"
    by (simp add: attr_type_def assms(1) peek_def enc_attr_def)
  have "nat (1 + int (length pre)) = Suc (length pre)" by simp
  then have "peek (pre @ enc_attr a @ post) (int (length pre) + 1) = Some (word_of_nat (sizeof_radius_attr_hdr + length (snd a)))"
    by (simp add: peek_def enc_attr_def nth_append add.commute)
  then show "attr_length msg (length pre) = Some (sizeof_radius_attr_hdr + length (snd a))"
    using unat_attr_len [OF assms(2)] by (simp add: attr_length_def assms(1))
  show "n \<le> length (snd a) \<Longrightarrow> radius_read msg (length pre + sizeof_radius_attr_hdr) n = Some (take n (snd a))"
    by (simp add: radius_read_def mem_read_def assms(1) enc_attr_def)
qed

text \<open>The buffer of a represented message.\<close>

lemma content_split: "bdata b = wpabuf_content b @ drop (unat (wpabuf_len b)) (bdata b)"
  by (simp add: wpabuf_content_def wpabuf_head_def)

lemma rep_bdata:
  assumes "radius_rep msg h as"
  obtains post where "bdata (rbuf msg) = h @ enc_attrs as @ post" "length h = sizeof_radius_hdr"
  using assms content_split [of "rbuf msg"] that unfolding radius_rep_def radius_content_def by (metis append_assoc)

section \<open>Loops over the attributes\<close>

text \<open>What the messages carry as EAP fragments.\<close>

definition eap_bytes :: "radius_attr list \<Rightarrow> bytes" where
  "eap_bytes as = concat (map snd (filter (\<lambda>a. fst a = RADIUS_ATTR_EAP_MESSAGE) as))"

lemma eap_bytes_simps [simp]:
  "eap_bytes [] = []" "eap_bytes (a # as) = (if fst a = RADIUS_ATTR_EAP_MESSAGE then snd a @ eap_bytes as else eap_bytes as)"
  "eap_bytes (as @ bs) = eap_bytes as @ eap_bytes bs"
  by (simp_all add: eap_bytes_def)

lemma eap_total_eq:
  "bdata (rbuf msg) = pre @ enc_attrs as @ post \<Longrightarrow> attrs_ok as \<Longrightarrow>
    eap_total msg (offsets (length pre) as) = Some (length (eap_bytes as))"
proof (induction as arbitrary: pre)
  case (Cons a as)
  then have b: "bdata (rbuf msg) = pre @ enc_attr a @ (enc_attrs as @ post)" by simp
  have "eap_total msg (offsets (length (pre @ enc_attr a)) as) = Some (length (eap_bytes as))"
    by (rule Cons.IH) (use Cons.prems in simp_all)
  then show ?case using attr_access [OF b] Cons.prems(2) by (simp add: sizeof_radius_attr_hdr_def)
qed simp

lemma eap_fill_eq:
  "bdata (rbuf msg) = pre @ enc_attrs as @ post \<Longrightarrow> attrs_ok as \<Longrightarrow> wf_wpabuf b \<Longrightarrow>
    length (eap_bytes as) \<le> unat (wpabuf_tailroom b) \<Longrightarrow>
    \<exists>b'. eap_fill msg (offsets (length pre) as) b = Ok b' \<and> wf_wpabuf b' \<and> wpabuf_content b' = wpabuf_content b @ eap_bytes as"
proof (induction as arbitrary: pre b)
  case (Cons a as)
  have e: "bdata (rbuf msg) = pre @ enc_attr a @ (enc_attrs as @ post)" "length (snd a) \<le> RADIUS_MAX_ATTR_LEN" using Cons.prems by simp_all
  note acc = attr_access [OF e]
  have IH: "wf_wpabuf c \<Longrightarrow> length (eap_bytes as) \<le> unat (wpabuf_tailroom c) \<Longrightarrow>
     \<exists>b'. eap_fill msg (offsets (length pre + length (enc_attr a)) as) c = Ok b' \<and> wf_wpabuf b' \<and> wpabuf_content b' = wpabuf_content c @ eap_bytes as" for c
    using Cons.IH [of "pre @ enc_attr a" c] Cons.prems by simp
  show ?case
  proof (cases "fst a = RADIUS_ATTR_EAP_MESSAGE \<and> snd a \<noteq> []")
    case True
    then obtain c where c: "wpabuf_put_data b (snd a) = Ok c" "wf_wpabuf c" "wpabuf_content c = wpabuf_content b @ snd a"
      "unat (wpabuf_tailroom c) + length (snd a) = unat (wpabuf_tailroom b)"
      using wb.put_fits [OF Cons.prems(3), of "snd a"] Cons.prems(4) by auto
    then have "length (eap_bytes as) \<le> unat (wpabuf_tailroom c)" using True Cons.prems(4) by simp
    from IH [OF c(2) this] c(1,3) True acc show ?thesis by simp
  next
    case False
    then have "length (eap_bytes as) \<le> unat (wpabuf_tailroom b)" using Cons.prems(4) by (auto split: if_splits)
    from IH [OF Cons.prems(3) this] False acc show ?thesis by (auto simp: eap_bytes_def)
  qed
qed simp

lemma find_attr_first:
  "bdata (rbuf msg) = pre @ enc_attrs as @ post \<Longrightarrow> attrs_ok as \<Longrightarrow>
    (find (\<lambda>a. fst a = t) as = None \<and> find_attr msg t None (offsets (length pre) as) = Some None) \<or>
    (\<exists>xs a ys. as = xs @ a # ys \<and> find (\<lambda>a. fst a = t) as = Some a \<and>
       find_attr msg t None (offsets (length pre) as) = Some (Some (length pre + length (enc_attrs xs))))"
proof (induction as arbitrary: pre)
  case (Cons a as)
  have e: "bdata (rbuf msg) = pre @ enc_attr a @ (enc_attrs as @ post)" "length (snd a) \<le> RADIUS_MAX_ATTR_LEN" using Cons.prems by simp_all
  note acc = attr_access [OF e]
  show ?case
  proof (cases "fst a = t")
    case True
    then show ?thesis using acc(1) by (intro disjI2 exI [of _ "[]"] exI [of _ a] exI [of _ as]) simp
  next
    case False
    have "bdata (rbuf msg) = (pre @ enc_attr a) @ enc_attrs as @ post" "attrs_ok as" using Cons.prems by simp_all
    from Cons.IH [OF this] show ?thesis
    proof (elim disjE exE conjE)
      fix xs b ys
      assume "as = xs @ b # ys" "find (\<lambda>a. fst a = t) as = Some b"
        "find_attr msg t None (offsets (length (pre @ enc_attr a)) as) = Some (Some (length (pre @ enc_attr a) + length (enc_attrs xs)))"
      then show ?thesis using acc(1) False
        by (intro disjI2 exI [of _ "a # xs"] exI [of _ b] exI [of _ ys]) (simp add: add.assoc)
    qed (use acc(1) False in simp)
  qed
qed simp

text \<open>The search and the count on the level of the attributes.\<close>

lemma find_attr_append:
  "find_attr msg t s (xs @ ys) = (case find_attr msg t s xs of None \<Rightarrow> None | Some None \<Rightarrow> find_attr msg t s ys | Some (Some a) \<Rightarrow> Some (Some a))"
  by (induction xs) (auto split: option.splits Option.bind_splits)

lemma find_attr_skip:
  "bdata (rbuf msg) = pre @ enc_attrs as @ post \<Longrightarrow> attrs_ok as \<Longrightarrow> \<forall>a \<in> set as. fst a \<noteq> t \<Longrightarrow>
    find_attr msg t s (offsets (length pre) as) = Some None"
proof (induction as arbitrary: pre)
  case (Cons a as)
  have e: "bdata (rbuf msg) = pre @ enc_attr a @ (enc_attrs as @ post)" "length (snd a) \<le> RADIUS_MAX_ATTR_LEN" using Cons.prems by simp_all
  have "find_attr msg t s (offsets (length (pre @ enc_attr a)) as) = Some None"
    by (rule Cons.IH) (use Cons.prems in simp_all)
  then show ?case using attr_access(1) [OF e] Cons.prems(3) by simp
qed simp

lemma count_attrs_eq:
  "bdata (rbuf msg) = pre @ enc_attrs as @ post \<Longrightarrow> attrs_ok as \<Longrightarrow>
    count_attrs msg t n (offsets (length pre) as) = Some (length (filter (\<lambda>a. fst a = t \<and> n \<le> length (snd a)) as))"
proof (induction as arbitrary: pre)
  case (Cons a as)
  have e: "bdata (rbuf msg) = pre @ enc_attr a @ (enc_attrs as @ post)" "length (snd a) \<le> RADIUS_MAX_ATTR_LEN" using Cons.prems by simp_all
  have "count_attrs msg t n (offsets (length (pre @ enc_attr a)) as) = Some (length (filter (\<lambda>a. fst a = t \<and> n \<le> length (snd a)) as))"
    by (rule Cons.IH) (use Cons.prems in simp_all)
  then show ?case using attr_access(1,2) [OF e] by simp
qed simp

lemma get_attr_eq:
  assumes "radius_rep msg h as"
  shows "radius_msg_get_attr msg t buf = Some (case find (\<lambda>a. fst a = t) as of
     None \<Rightarrow> (-1, []) | Some a \<Rightarrow> (int (length (snd a)), case buf of None \<Rightarrow> [] | Some len \<Rightarrow> take len (snd a)))"
proof -
  obtain post where b: "bdata (rbuf msg) = h @ enc_attrs as @ post" "length h = sizeof_radius_hdr" using rep_bdata [OF assms] .
  have ok: "attrs_ok as" and p: "attr_pos msg = offsets (length h) as" using assms by (simp_all add: radius_rep_def)
  from find_attr_first [OF b(1) ok, of t] show ?thesis
  proof (elim disjE exE conjE)
    fix xs a ys
    assume f: "as = xs @ a # ys" "find (\<lambda>a. fst a = t) as = Some a"
      "find_attr msg t None (offsets (length h) as) = Some (Some (length h + length (enc_attrs xs)))"
    have "bdata (rbuf msg) = (h @ enc_attrs xs) @ enc_attr a @ (enc_attrs ys @ post)" "length (snd a) \<le> RADIUS_MAX_ATTR_LEN"
      using b(1) f(1) ok by simp_all
    note acc = attr_access [OF this]
    show ?thesis
    proof (cases buf)
      case (Some len)
      then show ?thesis using f(2,3) p acc(2) acc(3) [of len] acc(3) [of "length (snd a)"]
        by (cases "len < length (snd a)") (simp_all add: radius_msg_get_attr_def Let_def)
    qed (use f(2,3) p acc(2) in \<open>simp add: radius_msg_get_attr_def Let_def\<close>)
  qed (simp add: radius_msg_get_attr_def p)
qed

lemma get_eap_eq:
  assumes "radius_rep msg h as" "length (eap_bytes as) < PTRDIFF_LIMIT"
  shows "\<exists>r. radius_msg_get_eap env msg = Ok r \<and>
    (case r of None \<Rightarrow> eap_bytes as = [] \<or> \<not> rmalloc env (32 + length (eap_bytes as))
     | Some b \<Rightarrow> wf_wpabuf b \<and> wpabuf_content b = eap_bytes as \<and> eap_bytes as \<noteq> [])"
proof -
  obtain post where b: "bdata (rbuf msg) = h @ enc_attrs as @ post" "length h = sizeof_radius_hdr" using rep_bdata [OF assms(1)] .
  have ok: "attrs_ok as" and p: "attr_pos msg = offsets (length h) as" using assms by (simp_all add: radius_rep_def)
  note u = unat_word_of_nat_small [OF assms(2)]
  note tot = eap_total_eq [OF b(1) ok]
  show ?thesis
  proof (cases "eap_bytes as = []")
    case True
    then show ?thesis using tot by (simp add: radius_msg_get_eap_def p)
  next
    case ne: False
    show ?thesis
    proof (cases "wpabuf_alloc (rmalloc env) (word_of_nat (length (eap_bytes as)))")
      case None
      then have "\<not> rmalloc env (32 + length (eap_bytes as))"
        using wpabuf_alloc_eq_None [of "word_of_nat (length (eap_bytes as))" "rmalloc env"] u assms(2) by simp
      then show ?thesis using tot None ne by (simp add: radius_msg_get_eap_def p)
    next
      case (Some n)
      note n = wpabuf_alloc_Some [OF Some, unfolded u, OF assms(2)]
      obtain b' where "eap_fill msg (offsets (length h) as) n = Ok b'" "wf_wpabuf b'" "wpabuf_content b' = eap_bytes as"
        using eap_fill_eq [OF b(1) ok n(1)] n(2,3) by auto
      then show ?thesis using tot Some ne by (simp add: radius_msg_get_eap_def p)
    qed
  qed
qed

section \<open>Parsing\<close>

lemma array_add_cases:
  "(radius_msg_add_attr_to_array env msg a = None \<and> (\<exists>n. \<not> rmalloc env n)) \<or>
   (\<exists>sz. radius_msg_add_attr_to_array env msg a = Some (msg\<lparr>attr_pos := attr_pos msg @ [a], attr_size := sz\<rparr>))"
proof (cases "attr_used msg \<ge> attr_size msg")
  case True
  have c: "msg\<lparr>attr_size := n, attr_pos := p\<rparr> = msg\<lparr>attr_pos := p, attr_size := n\<rparr>" for n p by simp
  show ?thesis
  proof (cases "rmalloc env (attr_size msg * 2 * sizeof_size_t)")
    case m: True
    show ?thesis by (rule disjI2, rule exI [of _ "attr_size msg * 2"]) (use True m c in \<open>simp add: radius_msg_add_attr_to_array_def Let_def\<close>)
  next
    case False
    then show ?thesis using True by (auto simp: radius_msg_add_attr_to_array_def Let_def)
  qed
next
  case False
  then show ?thesis by (intro disjI2 exI [of _ "attr_size msg"]) (simp add: radius_msg_add_attr_to_array_def Let_def)
qed

text \<open>The loop collects exactly the attributes that make up the rest of the message.\<close>

lemma parse_attrs_sound:
  assumes "bdata (rbuf msg) = pre @ rest @ post"
  shows "parse_attrs env (length pre) (length pre + length rest) msg = Ok None \<or>
    (\<exists>as sz. rest = enc_attrs as \<and> attrs_ok as \<and>
       parse_attrs env (length pre) (length pre + length rest) msg =
         Ok (Some (msg\<lparr>attr_pos := attr_pos msg @ offsets (length pre) as, attr_size := sz\<rparr>)))"
  using assms
proof (induction "length rest" arbitrary: pre rest msg rule: less_induct)
  case less
  let ?stop = "length pre + length rest"
  show ?case
  proof (cases rest)
    case Nil
    then show ?thesis by (intro disjI2 exI [of _ "[]"] exI [of _ "attr_size msg"]) (simp add: parse_attrs.simps [of env "length pre"])
  next
    case (Cons t r1)
    show ?thesis
    proof (cases r1)
      case Nil
      then show ?thesis using Cons by (simp add: parse_attrs.simps [of env "length pre"] sizeof_radius_attr_hdr_def)
    next
      case (Cons l d)
      note rest = \<open>rest = t # r1\<close> Cons
      have len: "attr_length msg (length pre) = Some (unat l)"
        using less.prems rest by (simp add: attr_length_def peek_def nth_append nat_add_distrib)
      show ?thesis
      proof (cases "unat l > length rest \<or> unat l < 2")
        case True
        then show ?thesis using rest len by (auto simp: parse_attrs.simps [of env "length pre"] sizeof_radius_attr_hdr_def)
      next
        case False
        define n where "n = unat l - 2"
        let ?a = "(t, take n d)" and ?rest = "drop n d"
        have "unat l \<le> 255" using unat_u8_256 [of l] by linarith
        then have n: "unat l = 2 + n" "n \<le> length d" "n \<le> RADIUS_MAX_ATTR_LEN"
          using False rest by (auto simp: n_def RADIUS_MAX_ATTR_LEN_def sizeof_radius_attr_hdr_def)
        have l: "l = word_of_nat (2 + n)" unfolding n(1) [symmetric] by simp
        have enc: "enc_attr ?a = t # l # take n d" using n(2) l by (simp add: enc_attr_def sizeof_radius_attr_hdr_def)
        have r: "rest = enc_attr ?a @ ?rest" using rest enc by simp
        show ?thesis
        proof (cases "radius_msg_add_attr_to_array env msg (length pre)")
          case None
          then show ?thesis using rest len by (auto simp: parse_attrs.simps [of env "length pre"])
        next
          case (Some msg1)
          then obtain sz where m1: "msg1 = msg\<lparr>attr_pos := attr_pos msg @ [length pre], attr_size := sz\<rparr>"
            using array_add_cases [of env msg "length pre"] by auto
          have step: "parse_attrs env (length pre) ?stop msg = parse_attrs env (length (pre @ enc_attr ?a)) (length (pre @ enc_attr ?a) + length ?rest) msg1"
            using rest len Some False n by (subst parse_attrs.simps) (simp add: sizeof_radius_attr_hdr_def add.commute add.left_commute)
          have "length ?rest < length rest" "bdata (rbuf msg1) = (pre @ enc_attr ?a) @ ?rest @ post" using rest less.prems r m1 by simp_all
          from less.hyps [OF this] show ?thesis
          proof (elim disjE exE conjE)
            fix as sz' assume a: "?rest = enc_attrs as" "attrs_ok as"
              "parse_attrs env (length (pre @ enc_attr ?a)) (length (pre @ enc_attr ?a) + length ?rest) msg1
                 = Ok (Some (msg1\<lparr>attr_pos := attr_pos msg1 @ offsets (length (pre @ enc_attr ?a)) as, attr_size := sz'\<rparr>))"
            have "rest = enc_attrs (?a # as)" using r a(1) by simp
            moreover have "attrs_ok (?a # as)" using a(2) n(2,3) by simp
            moreover have "parse_attrs env (length pre) ?stop msg
                = Ok (Some (msg\<lparr>attr_pos := attr_pos msg @ offsets (length pre) (?a # as), attr_size := sz'\<rparr>))"
              by (subst step, subst a(3)) (simp add: m1)
            ultimately show ?thesis by blast
          qed (simp add: step)
        qed
      qed
    qed
  qed
qed


lemma parse_attrs_complete:
  assumes "bdata (rbuf msg) = pre @ enc_attrs as @ post" "attrs_ok as" "\<And>n. rmalloc env n"
  shows "\<exists>sz. parse_attrs env (length pre) (length pre + length (enc_attrs as)) msg =
    Ok (Some (msg\<lparr>attr_pos := attr_pos msg @ offsets (length pre) as, attr_size := sz\<rparr>))"
  using assms(1,2)
proof (induction as arbitrary: pre msg)
  case Nil
  then show ?case by (intro exI [of _ "attr_size msg"]) (simp add: parse_attrs.simps [of env "length pre"])
next
  case (Cons a as)
  have e: "bdata (rbuf msg) = pre @ enc_attr a @ (enc_attrs as @ post)" "length (snd a) \<le> RADIUS_MAX_ATTR_LEN" using Cons.prems by simp_all
  obtain sz where m: "radius_msg_add_attr_to_array env msg (length pre) = Some (msg\<lparr>attr_pos := attr_pos msg @ [length pre], attr_size := sz\<rparr>)"
    using assms(3) array_add_cases [of env msg "length pre"] by blast
  let ?m = "msg\<lparr>attr_pos := attr_pos msg @ [length pre], attr_size := sz\<rparr>"
  have "\<exists>sz. parse_attrs env (length (pre @ enc_attr a)) (length (pre @ enc_attr a) + length (enc_attrs as)) ?m =
    Ok (Some (?m\<lparr>attr_pos := attr_pos ?m @ offsets (length (pre @ enc_attr a)) as, attr_size := sz\<rparr>))"
    by (rule Cons.IH) (use Cons.prems in simp_all)
  then show ?case using attr_access(2) [OF e] m
    by (subst parse_attrs.simps) (simp add: sizeof_radius_attr_hdr_def add.assoc)
qed

lemma alloc_copy_spec:
  assumes "length d < PTRDIFF_LIMIT"
  shows "(wpabuf_alloc_copy malloc d = Ok None \<and> \<not> malloc (32 + length d)) \<or>
    (\<exists>b. wpabuf_alloc_copy malloc d = Ok (Some b) \<and> malloc (32 + length d) \<and> wf_wpabuf b \<and> wpabuf_content b = d \<and> bdata b = d \<and> unat (wpabuf_len b) = length d)"
proof (cases "wpabuf_alloc malloc (word_of_nat (length d))")
  case None
  then show ?thesis using wpabuf_alloc_eq_None [of "word_of_nat (length d)" malloc] unat_word_of_nat_small [OF assms] assms
    by (simp add: wpabuf_alloc_copy_def)
next
  case (Some n)
  have u: "unat (word_of_nat (length d) :: u64) = length (concat [d])" using unat_word_of_nat_small [OF assms] by simp
  obtain b where b: "wpabuf_put_data n d = Ok b" "wf_wpabuf b" "wpabuf_content b = d" "wpabuf_tailroom b = 0"
    using alloc_and_puts [OF u _ Some] u assms by (auto simp: bindR_eq_Ok)
  have l: "unat (wpabuf_len b) = length d" using content_length [OF b(2)] b(3) by simp
  have "bsize b = used b" using b(4) by (simp add: wpabuf_tailroom_def)
  then have "length (bdata b) = length d" using b(2) l by (simp add: wf_wpabuf_def wpabuf_len_def)
  then have "bdata b = d" using b(3) l by (simp add: wpabuf_content_def wpabuf_head_def)
  moreover have "malloc (32 + length d)" using Some u assms by (auto simp: wpabuf_alloc_def Let_def unat_hdr_add split: if_splits)
  ultimately show ?thesis using Some b l by (simp add: wpabuf_alloc_copy_def)
qed

lemma get_be16_exists: "2 \<le> length d \<Longrightarrow> \<exists>v. WPA_GET_BE16 d = Some v"
  by (cases d) (auto simp: WPA_GET_BE16_def peek_def)

lemma unat_u16: "unat (l :: u16) < PTRDIFF_LIMIT"
proof -
  have "unat l < 2 ^ LENGTH(16)" by (rule unsigned_less)
  then show ?thesis by (simp add: PTRDIFF_LIMIT_def)
qed

text \<open>The message, when there is one, is the part of the data its header announces.\<close>

definition parsed :: "bytes \<Rightarrow> radius_msg \<Rightarrow> bool" where
  "parsed d msg \<longleftrightarrow> (\<exists>l as. WPA_GET_BE16 (drop 2 d) = Some l \<and> sizeof_radius_hdr \<le> unat l \<and> unat l \<le> length d
     \<and> bdata (rbuf msg) = take (unat l) d \<and> radius_content msg = take (unat l) d
     \<and> radius_rep msg (take sizeof_radius_hdr d) as)"

lemma parse_some:
  "radius_msg_parse env (Some d) = Ok None \<or> (\<exists>msg. radius_msg_parse env (Some d) = Ok (Some msg) \<and> parsed d msg)"
proof (cases "length d < sizeof_radius_hdr")
  case True
  then show ?thesis by (simp add: radius_msg_parse_def)
next
  case False
  then obtain l where l: "WPA_GET_BE16 (drop 2 d) = Some l" using get_be16_exists [of "drop 2 d"] by (fastforce simp: sizeof_radius_hdr_def)
  show ?thesis
  proof (cases "unat l < sizeof_radius_hdr \<or> unat l > length d \<or> \<not> rmalloc env sizeof_radius_msg \<or> \<not> radius_msg_initialize env")
    case True
    then show ?thesis using False l alloc_copy_spec [of "take (unat l) d" "rmalloc env"] unat_u16 [of l]
      by (auto simp: radius_msg_parse_def Let_def)
  next
    case ok: False
    have small: "length (take (unat l) d) < PTRDIFF_LIMIT" using unat_u16 [of l] by simp
    from alloc_copy_spec [OF small, of "rmalloc env"] show ?thesis
    proof (elim disjE exE conjE)
      assume "wpabuf_alloc_copy (rmalloc env) (take (unat l) d) = Ok None"
      then show ?thesis using False ok l by (simp add: radius_msg_parse_def Let_def)
    next
      fix b assume b: "wpabuf_alloc_copy (rmalloc env) (take (unat l) d) = Ok (Some b)" "wf_wpabuf b"
        "wpabuf_content b = take (unat l) d" "bdata b = take (unat l) d" "unat (wpabuf_len b) = length (take (unat l) d)"
      let ?m = "\<lparr>rbuf = b, attr_pos = [], attr_size = RADIUS_DEFAULT_ATTR_COUNT\<rparr>"
      let ?h = "take sizeof_radius_hdr d" and ?r = "drop sizeof_radius_hdr (take (unat l) d)"
      have h: "length ?h = sizeof_radius_hdr" "take (unat l) d = ?h @ ?r" using ok
        by (auto simp: min_def) (metis append_take_drop_id min.absorb1 not_less take_take)
      have e: "length (take (unat l) d) = length ?h + length ?r" using h(2) by (metis length_append)
      have run: "radius_msg_parse env (Some d) = parse_attrs env (length ?h) (length ?h + length ?r) ?m"
        using False ok l b e h(1) by (simp add: radius_msg_parse_def Let_def)
      have "bdata (rbuf ?m) = ?h @ ?r @ []" using b(4) h(2) by simp
      from parse_attrs_sound [OF this, of env] show ?thesis
      proof (elim disjE exE conjE)
        fix as sz assume a: "?r = enc_attrs as" "attrs_ok as"
          "parse_attrs env (length ?h) (length ?h + length ?r) ?m = Ok (Some (?m\<lparr>attr_pos := attr_pos ?m @ offsets (length ?h) as, attr_size := sz\<rparr>))"
        let ?msg = "?m\<lparr>attr_pos := attr_pos ?m @ offsets (length ?h) as, attr_size := sz\<rparr>"
        have c: "radius_content ?msg = take (unat l) d" using b(3) by (simp add: radius_content_def)
        have "radius_content ?msg = ?h @ enc_attrs as" unfolding c by (subst h(2)) (simp only: a(1))
        then have "radius_rep ?msg ?h as" using b(2) h(1) a(2) by (simp add: radius_rep_def)
        then have "parsed d ?msg" unfolding parsed_def using l ok b(4) c by (intro exI [of _ l] exI [of _ as]) simp
        then show ?thesis using run a(3) by auto
      qed (use run in simp)
    qed
  qed
qed

section \<open>Writing\<close>

lemma radius_read_content:
  assumes "wf_wpabuf (rbuf msg)" "i + n \<le> length (radius_content msg)"
  shows "radius_read msg i n = Some (take n (drop i (radius_content msg)))"
proof -
  define r where "r = drop (unat (wpabuf_len (rbuf msg))) (bdata (rbuf msg))"
  have "bdata (rbuf msg) = radius_content msg @ r"
    using content_split [of "rbuf msg"] by (simp add: radius_content_def r_def)
  then show ?thesis using assms(2) by (simp add: radius_read_def mem_read_def)
qed

lemma radius_write_content:
  assumes "wf_wpabuf (rbuf msg)" "i + length d \<le> length (radius_content msg)"
  shows "\<exists>b. radius_write msg i d = Ok (msg\<lparr>rbuf := b\<rparr>) \<and> wf_wpabuf b \<and> wpabuf_len b = wpabuf_len (rbuf msg)
    \<and> wpabuf_content b = take i (radius_content msg) @ d @ drop (i + length d) (radius_content msg)"
proof -
  define r where "r = drop (unat (wpabuf_len (rbuf msg))) (bdata (rbuf msg))"
  have b: "bdata (rbuf msg) = radius_content msg @ r"
    using content_split [of "rbuf msg"] by (simp add: radius_content_def r_def)
  let ?c = "take i (radius_content msg) @ d @ drop (i + length d) (radius_content msg)"
  have l: "length ?c = length (radius_content msg)" using assms(2) by simp
  have len: "length (radius_content msg) = unat (wpabuf_len (rbuf msg))" using content_length [OF assms(1)] by (simp add: radius_content_def)
  let ?b = "(rbuf msg)\<lparr>bdata := ?c @ r\<rparr>"
  have "radius_write msg i d = Ok (msg\<lparr>rbuf := ?b\<rparr>)"
    using assms(2) b by (simp add: radius_write_def put_at_def memcpy_at_def)
  moreover have "wf_wpabuf ?b" using assms(1) b l by (simp add: wf_wpabuf_def)
  moreover have "take (unat (wpabuf_len (rbuf msg))) (?c @ r) = ?c" using l len by (metis append_eq_conv_conj)
  then have "wpabuf_content ?b = ?c" by (simp add: wpabuf_content_def wpabuf_len_def wpabuf_head_def del: append_assoc take_append)
  ultimately show ?thesis by (intro exI [of _ ?b] conjI) (simp_all only: wpabuf_len_def, simp)
qed

text \<open>Writes into the header and into a value.\<close>

lemma rep_write_hdr:
  assumes "radius_rep msg h as" "i + length d \<le> sizeof_radius_hdr"
  shows "\<exists>msg'. radius_write msg i d = Ok msg' \<and> radius_rep msg' (take i h @ d @ drop (i + length d) h) as
    \<and> wpabuf_len (rbuf msg') = wpabuf_len (rbuf msg)"
proof -
  have r: "wf_wpabuf (rbuf msg)" "length h = sizeof_radius_hdr" "radius_content msg = h @ enc_attrs as"
    "attrs_ok as" "attr_pos msg = offsets sizeof_radius_hdr as" using assms(1) by (simp_all add: radius_rep_def)
  have "i + length d \<le> length (radius_content msg)" using assms(2) r(2,3) by simp
  from radius_write_content [OF r(1) this] obtain b where b: "radius_write msg i d = Ok (msg\<lparr>rbuf := b\<rparr>)" "wf_wpabuf b"
    "wpabuf_len b = wpabuf_len (rbuf msg)" "wpabuf_content b = take i (h @ enc_attrs as) @ d @ drop (i + length d) (h @ enc_attrs as)"
    unfolding r(3) by blast
  then have "radius_rep (msg\<lparr>rbuf := b\<rparr>) (take i h @ d @ drop (i + length d) h) as"
    using r assms(2) by (simp add: radius_rep_def radius_content_def)
  with b show ?thesis by auto
qed

lemma rep_write_value:
  assumes "radius_rep msg h (xs @ (t, v) # ys)" "length d = length v"
  shows "\<exists>msg'. radius_write msg (sizeof_radius_hdr + length (enc_attrs xs) + sizeof_radius_attr_hdr) d = Ok msg'
    \<and> radius_rep msg' h (xs @ (t, d) # ys) \<and> wpabuf_len (rbuf msg') = wpabuf_len (rbuf msg)"
proof -
  let ?i = "sizeof_radius_hdr + length (enc_attrs xs) + sizeof_radius_attr_hdr"
  let ?p = "h @ enc_attrs xs @ [t, word_of_nat (sizeof_radius_attr_hdr + length v)]"
  have r: "wf_wpabuf (rbuf msg)" "length h = sizeof_radius_hdr" "radius_content msg = ?p @ v @ enc_attrs ys"
    "attrs_ok (xs @ (t, v) # ys)" "attr_pos msg = offsets sizeof_radius_hdr (xs @ (t, v) # ys)"
    using assms(1) by (simp_all add: radius_rep_def enc_attr_def)
  have p: "length ?p = ?i" using r(2) by (simp add: sizeof_radius_attr_hdr_def)
  have "?i + length d \<le> length (radius_content msg)" using assms(2) p r(3) by (simp del: append_assoc)
  from radius_write_content [OF r(1) this] obtain b where b: "radius_write msg ?i d = Ok (msg\<lparr>rbuf := b\<rparr>)" "wf_wpabuf b"
    "wpabuf_len b = wpabuf_len (rbuf msg)" "wpabuf_content b = take ?i (?p @ v @ enc_attrs ys) @ d @ drop (?i + length d) (?p @ v @ enc_attrs ys)"
    unfolding r(3) by blast
  have "wpabuf_content b = ?p @ d @ enc_attrs ys" unfolding b(4) p [symmetric] using assms(2) by simp
  then have "radius_rep (msg\<lparr>rbuf := b\<rparr>) h (xs @ (t, d) # ys)"
    using r b(2) assms(2) by (simp add: radius_rep_def radius_content_def enc_attr_def)
  with b show ?thesis by auto
qed

text \<open>Appending an attribute; it can only fail for want of memory.\<close>

lemma resize_with_memory: "(\<And>n. malloc n) \<Longrightarrow> wpabuf_resize malloc junk (Some b) n \<noteq> Ok (-1, x)"
  by (auto simp: wpabuf_resize_def os_realloc_def Let_def bindR_eq_Ok)

definition room_for :: "radius_msg \<Rightarrow> nat \<Rightarrow> bool" where
  "room_for msg n \<longleftrightarrow> length (radius_content msg) + n + 34 < PTRDIFF_LIMIT"

lemma add_attr_ok:
  assumes rep: "radius_rep msg h as" and len: "length d \<le> RADIUS_MAX_ATTR_LEN" and room: "room_for msg (length d)"
  shows "(\<exists>msg'. radius_msg_add_attr env msg t d = Ok (None, msg') \<and> (\<exists>n. \<not> rmalloc env n)) \<or>
    (\<exists>msg'. radius_msg_add_attr env msg t d = Ok (Some (length (radius_content msg)), msg') \<and> radius_rep msg' h (as @ [(t, d)]))"
proof -
  have r: "wf_wpabuf (rbuf msg)" "length h = sizeof_radius_hdr" "radius_content msg = h @ enc_attrs as"
    "attrs_ok as" "attr_pos msg = offsets sizeof_radius_hdr as" using rep by (simp_all add: radius_rep_def)
  define need :: nat where "need = sizeof_radius_attr_hdr + length d"
  have need: "need = 2 + length d" "need < PTRDIFF_LIMIT" using room by (simp_all add: need_def sizeof_radius_attr_hdr_def room_for_def)
  note un = unat_word_of_nat_small [OF need(2)]
  have cl: "length (radius_content msg) = unat (used (rbuf msg))" using content_length [OF r(1)] by (simp add: radius_content_def wpabuf_len_def)
  define grow where "grow = (if wpabuf_tailroom (rbuf msg) < word_of_nat need
      then bindR (wpabuf_resize (rmalloc env) (rjunk env) (Some (rbuf msg)) (word_of_nat need)) (\<lambda>(r, b).
        if r < 0 then Ok None else Ok (map_option (\<lambda>b. msg\<lparr>rbuf := b\<rparr>) b))
      else Ok (Some msg))"
  have g: "(grow = Ok None \<and> (\<exists>n. \<not> rmalloc env n)) \<or> (\<exists>b. grow = Ok (Some (msg\<lparr>rbuf := b\<rparr>)) \<and> wf_wpabuf b
      \<and> wpabuf_content b = radius_content msg \<and> need \<le> unat (wpabuf_tailroom b))"
  proof (cases "wpabuf_tailroom (rbuf msg) < word_of_nat need")
    case True
    have "unat (used (rbuf msg)) + unat (word_of_nat need :: u64) + 32 < PTRDIFF_LIMIT"
      using room un need(1) cl by (simp add: room_for_def)
    from wpabuf_resize_spec [OF r(1) this, of "rmalloc env" "rjunk env"] show ?thesis
      using True un resize_with_memory [of "rmalloc env" "rjunk env" "rbuf msg" "word_of_nat need" "Some (rbuf msg)"]
      by (fastforce simp: grow_def radius_content_def)
  next
    case False
    then have "need \<le> unat (wpabuf_tailroom (rbuf msg))" using un by (simp add: word_less_nat_alt)
    then show ?thesis using False r(1) by (intro disjI2 exI [of _ "rbuf msg"]) (simp add: grow_def radius_content_def)
  qed
  have unf: "radius_msg_add_attr env msg t d = bindR grow (\<lambda>r. case r of
       None \<Rightarrow> Ok (None, msg)
     | Some msg \<Rightarrow>
       bindR (wpabuf_put (rbuf msg) (word_of_nat sizeof_radius_attr_hdr)) (\<lambda>(b, attr).
       bindR (radius_write (msg\<lparr>rbuf := b\<rparr>) attr [t, word_of_nat need]) (\<lambda>msg.
       bindR (wpabuf_put_data (rbuf msg) d) (\<lambda>b.
         let msg = msg\<lparr>rbuf := b\<rparr> in
         case radius_msg_add_attr_to_array env msg attr of
           None \<Rightarrow> Ok (None, msg)
         | Some msg \<Rightarrow> Ok (Some attr, msg)))))"
    using len unfolding radius_msg_add_attr_def grow_def need_def Let_def by (simp del: of_nat_add)
  from g show ?thesis
  proof (elim disjE exE conjE)
    fix n assume "grow = Ok None" "\<not> rmalloc env n"
    then show ?thesis unfolding unf by auto
  next
    fix b assume b: "grow = Ok (Some (msg\<lparr>rbuf := b\<rparr>))" "wf_wpabuf b" "wpabuf_content b = radius_content msg" "need \<le> unat (wpabuf_tailroom b)"
    let ?hd = "[t, word_of_nat need] :: bytes" and ?attr = "length (radius_content msg)"
    have attr: "unat (used b) = ?attr" using content_length [OF b(2)] b(3) by (simp add: wpabuf_len_def)
    have two: "2 \<le> unat (wpabuf_tailroom b)" using b(4) need(1) by simp
    have pt: "wpabuf_put b (word_of_nat sizeof_radius_attr_hdr) = Ok (b\<lparr>used := used b + 2\<rparr>, ?attr)"
      using wpabuf_put_fits(1) [OF b(2) two] attr by (simp add: sizeof_radius_attr_hdr_def)
    obtain b1 where b1: "wpabuf_put_data b ?hd = Ok b1" "wf_wpabuf b1" "wpabuf_content b1 = radius_content msg @ ?hd"
      "unat (wpabuf_tailroom b1) + 2 = unat (wpabuf_tailroom b)" using wb.put_fits [OF b(2), of ?hd] two b(3) by auto
    have "put_at (b\<lparr>used := used b + 2\<rparr>) ?attr ?hd = Ok b1"
      using b1(1) pt by (simp add: wpabuf_put_data_def sizeof_radius_attr_hdr_def)
    then have w: "radius_write (msg\<lparr>rbuf := b\<lparr>used := used b + 2\<rparr>\<rparr>) ?attr ?hd = Ok (msg\<lparr>rbuf := b1\<rparr>)"
      by (simp add: radius_write_def)
    obtain b2 where b2: "wpabuf_put_data b1 d = Ok b2" "wf_wpabuf b2" "wpabuf_content b2 = wpabuf_content b1 @ d"
      using wb.put_fits [OF b1(2), of d] b1(4) b(4) need(1) by auto
    have rep2: "radius_rep (msg\<lparr>rbuf := b2, attr_pos := attr_pos msg @ [?attr], attr_size := sz\<rparr>) h (as @ [(t, d)])" for sz
      using r len b1(3) b2(2,3) by (simp add: radius_rep_def radius_content_def enc_attr_def need_def)
    show ?thesis
      using array_add_cases [of env "msg\<lparr>rbuf := b2\<rparr>" ?attr] rep2 unfolding unf b(1) by (auto simp: pt w b2(1) Let_def)
  qed
qed

section \<open>Authenticators\<close>

abbreviation is_msg_auth :: "radius_attr \<Rightarrow> bool" where
  "is_msg_auth a \<equiv> fst a = RADIUS_ATTR_MESSAGE_AUTHENTICATOR"

lemma find_msg_auth_skip:
  "bdata (rbuf msg) = pre @ enc_attrs (xs @ ys) @ post \<Longrightarrow> attrs_ok xs \<Longrightarrow> list_all (\<lambda>a. \<not> is_msg_auth a) xs \<Longrightarrow>
    find_msg_auth msg (offsets (length pre) (xs @ ys)) acc = find_msg_auth msg (offsets (length (pre @ enc_attrs xs)) ys) acc"
proof (induction xs arbitrary: pre)
  case (Cons a xs)
  have e: "bdata (rbuf msg) = pre @ enc_attr a @ (enc_attrs (xs @ ys) @ post)" "length (snd a) \<le> RADIUS_MAX_ATTR_LEN" using Cons.prems by simp_all
  have "find_msg_auth msg (offsets (length (pre @ enc_attr a)) (xs @ ys)) acc = find_msg_auth msg (offsets (length ((pre @ enc_attr a) @ enc_attrs xs)) ys) acc"
    by (rule Cons.IH) (use Cons.prems in simp_all)
  then show ?case using attr_access(1) [OF e] Cons.prems(3) by (simp add: add.assoc)
qed simp

lemma find_msg_auth_none:
  "bdata (rbuf msg) = pre @ enc_attrs xs @ post \<Longrightarrow> attrs_ok xs \<Longrightarrow> list_all (\<lambda>a. \<not> is_msg_auth a) xs \<Longrightarrow>
    find_msg_auth msg (offsets (length pre) xs) acc = Some (Inr acc)"
  using find_msg_auth_skip [of msg pre xs "[]" post acc] by simp

lemma find_msg_auth_one:
  assumes b: "bdata (rbuf msg) = pre @ enc_attrs (xs @ a # ys) @ post" and ok: "attrs_ok (xs @ a # ys)"
    and a: "is_msg_auth a" and xs: "list_all (\<lambda>a. \<not> is_msg_auth a) xs"
  shows "list_all (\<lambda>a. \<not> is_msg_auth a) ys \<Longrightarrow> find_msg_auth msg (offsets (length pre) (xs @ a # ys)) None = Some (Inr (Some (length pre + length (enc_attrs xs))))"
    "\<not> list_all (\<lambda>a. \<not> is_msg_auth a) ys \<Longrightarrow> find_msg_auth msg (offsets (length pre) (xs @ a # ys)) None = Some (Inl ())"
proof -
  let ?p = "pre @ enc_attrs xs" and ?q = "(pre @ enc_attrs xs) @ enc_attr a"
  have e: "bdata (rbuf msg) = ?p @ enc_attr a @ (enc_attrs ys @ post)" "length (snd a) \<le> RADIUS_MAX_ATTR_LEN"
    "bdata (rbuf msg) = ?q @ enc_attrs ys @ post" "attrs_ok ys" "attrs_ok xs" using b ok by simp_all
  have s: "find_msg_auth msg (offsets (length pre) (xs @ a # ys)) None = find_msg_auth msg (offsets (length ?q) ys) (Some (length ?p))"
    using find_msg_auth_skip [OF b e(5) xs, of None] attr_access(1) [OF e(1,2)] a by (simp add: add.assoc)
  show "find_msg_auth msg (offsets (length pre) (xs @ a # ys)) None = Some (Inr (Some (length pre + length (enc_attrs xs))))"
    if "list_all (\<lambda>a. \<not> is_msg_auth a) ys" unfolding s using find_msg_auth_none [OF e(3,4) that] by simp
  show "find_msg_auth msg (offsets (length pre) (xs @ a # ys)) None = Some (Inl ())" if no: "\<not> list_all (\<lambda>a. \<not> is_msg_auth a) ys"
  proof -
    from no obtain us c vs where ys: "ys = us @ c # vs" "is_msg_auth c" "list_all (\<lambda>a. \<not> is_msg_auth a) us"
      using split_list_first_prop [of ys is_msg_auth] by (auto simp: list_all_iff)
    have f: "bdata (rbuf msg) = ?q @ enc_attrs (us @ c # vs) @ post" "attrs_ok us"
      "bdata (rbuf msg) = (?q @ enc_attrs us) @ enc_attr c @ (enc_attrs vs @ post)" "length (snd c) \<le> RADIUS_MAX_ATTR_LEN"
      using e(3,4) ys(1) by simp_all
    have "find_msg_auth msg (offsets (length ?q) ys) (Some (length ?p)) = find_msg_auth msg (offsets (length (?q @ enc_attrs us)) (c # vs)) (Some (length ?p))"
      unfolding ys(1) by (rule find_msg_auth_skip [OF f(1,2) ys(3)])
    also have "\<dots> = Some (Inl ())" using attr_access(1) [OF f(3,4)] ys(2) by simp
    finally show ?thesis unfolding s .
  qed
qed

text \<open>Reads of the header and the input of the response authenticator.\<close>

lemma rep_read_hdr:
  assumes "radius_rep msg h as" "i + n \<le> sizeof_radius_hdr"
  shows "radius_read msg i n = Some (take n (drop i h))"
proof -
  have r: "wf_wpabuf (rbuf msg)" "length h = sizeof_radius_hdr" "radius_content msg = h @ enc_attrs as" using assms(1) by (simp_all add: radius_rep_def)
  show ?thesis using radius_read_content [OF r(1), of i n] r(2,3) assms(2) by simp
qed

lemma rep_authenticator: "radius_rep msg h as \<Longrightarrow> hdr_authenticator msg = Some (drop 4 h)"
  using rep_read_hdr [of msg h as 4 16] by (simp add: hdr_authenticator_def sizeof_radius_hdr_def radius_rep_def)

lemma rep_attrs_len:
  assumes "radius_rep msg h as"
  shows "unat (wpabuf_len (rbuf msg) - word_of_nat sizeof_radius_hdr) = length (enc_attrs as)"
proof -
  have r: "wf_wpabuf (rbuf msg)" "length h = sizeof_radius_hdr" "radius_content msg = h @ enc_attrs as" using assms by (simp_all add: radius_rep_def)
  have l: "unat (wpabuf_len (rbuf msg)) = sizeof_radius_hdr + length (enc_attrs as)"
    using content_length [OF r(1)] r(2,3) by (simp add: radius_content_def)
  have "(word_of_nat sizeof_radius_hdr :: u64) \<le> wpabuf_len (rbuf msg)" using l by (simp add: word_le_nat_alt sizeof_radius_hdr_def)
  then show ?thesis using l by (simp add: unat_sub sizeof_radius_hdr_def)
qed

lemma response_auth_eq:
  assumes "radius_rep msg h as" "length ra = 16"
  shows "response_auth_input msg ra secret = Some (take 4 h @ ra @ enc_attrs as @ secret)"
proof -
  have r: "wf_wpabuf (rbuf msg)" "length h = sizeof_radius_hdr" "radius_content msg = h @ enc_attrs as" using assms(1) by (simp_all add: radius_rep_def)
  have "radius_read msg sizeof_radius_hdr (length (enc_attrs as)) = Some (enc_attrs as)"
    using radius_read_content [OF r(1), of sizeof_radius_hdr "length (enc_attrs as)"] r(2,3) by simp
  moreover have "radius_read msg 0 4 = Some (take 4 h)" using rep_read_hdr [OF assms(1), of 0 4] by (simp add: sizeof_radius_hdr_def)
  ultimately show ?thesis using assms(2) by (simp add: response_auth_input_def rep_attrs_len [OF assms(1)] MD5_MAC_LEN_def)
qed

text \<open>What the Message-Authenticator of a response covers: the message with the authenticator of
  the request in the header and zeros in the attribute itself.\<close>

definition msg_auth_input :: "bytes \<Rightarrow> bytes \<Rightarrow> radius_attr list \<Rightarrow> radius_attr list \<Rightarrow> bytes" where
  "msg_auth_input h ra xs ys = take 4 h @ ra @ enc_attrs (xs @ (RADIUS_ATTR_MESSAGE_AUTHENTICATOR, replicate MD5_MAC_LEN 0) # ys)"

lemma verify_msg_auth_eq:
  assumes rep: "radius_rep msg h (xs @ (RADIUS_ATTR_MESSAGE_AUTHENTICATOR, v) # ys)" and v: "length v = 16" "length ra = 16"
    and one: "list_all (\<lambda>a. \<not> is_msg_auth a) (xs @ ys)"
  shows "\<exists>msg'. radius_msg_verify_msg_auth env msg secret (Some ra) =
      Ok (case hmac_md5 env secret (msg_auth_input h ra xs ys) of Some m \<Rightarrow> if macs_differ v m then 1 else 0 | None \<Rightarrow> 1, msg')
    \<and> (hmac_md5 env secret (msg_auth_input h ra xs ys) \<noteq> None \<longrightarrow> radius_rep msg' h (xs @ (RADIUS_ATTR_MESSAGE_AUTHENTICATOR, v) # ys))"
proof -
  let ?MA = RADIUS_ATTR_MESSAGE_AUTHENTICATOR and ?z = "replicate MD5_MAC_LEN (0::u8)"
  let ?i = "sizeof_radius_hdr + length (enc_attrs xs) + sizeof_radius_attr_hdr"
  obtain post where b: "bdata (rbuf msg) = h @ enc_attrs (xs @ (?MA, v) # ys) @ post" "length h = sizeof_radius_hdr" using rep_bdata [OF rep] .
  have ok: "attrs_ok (xs @ (?MA, v) # ys)" and p: "attr_pos msg = offsets (length h) (xs @ (?MA, v) # ys)" using rep b(2) by (simp_all add: radius_rep_def)
  have f: "find_msg_auth msg (attr_pos msg) None = Some (Inr (Some (sizeof_radius_hdr + length (enc_attrs xs))))"
    using find_msg_auth_one(1) [OF b(1) ok] one b(2) unfolding p by simp
  have "bdata (rbuf msg) = (h @ enc_attrs xs) @ enc_attr (?MA, v) @ (enc_attrs ys @ post)" "length (snd (?MA, v)) \<le> RADIUS_MAX_ATTR_LEN" using b(1) ok by simp_all
  from attr_access(3) [OF this, of 16] have rd: "radius_read msg ?i MD5_MAC_LEN = Some v" using v(1) b(2) by (simp add: MD5_MAC_LEN_def)
  obtain m1 where m1: "radius_write msg ?i ?z = Ok m1" "radius_rep m1 h (xs @ (?MA, ?z) # ys)"
    using rep_write_value [OF rep, of ?z] v(1) by (auto simp: MD5_MAC_LEN_def)
  obtain m2 where m2: "radius_write m1 4 ra = Ok m2" "radius_rep m2 (take 4 h @ ra) (xs @ (?MA, ?z) # ys)"
    using rep_write_hdr [OF m1(2), of 4 ra] v(2) b(2) by (auto simp: sizeof_radius_hdr_def)
  have c: "radius_content m2 = msg_auth_input h ra xs ys" using m2(2) by (simp add: radius_rep_def msg_auth_input_def)
  obtain m3 where m3: "radius_write m2 ?i v = Ok m3" "radius_rep m3 (take 4 h @ ra) (xs @ (?MA, v) # ys)"
    using rep_write_value [OF m2(2), of v] v(1) by (auto simp: MD5_MAC_LEN_def)
  have hl: "length (take 4 h) = 4" "length (drop 4 h) = 16" using b(2) by (simp_all add: sizeof_radius_hdr_def)
  have "take 4 (take 4 h @ ra) = take 4 h" "drop (4 + length (drop 4 h)) (take 4 h @ ra) = []" using hl v(2) by simp_all
  then obtain m4 where m4: "radius_write m3 4 (drop 4 h) = Ok m4" "radius_rep m4 h (xs @ (?MA, v) # ys)"
    using rep_write_hdr [OF m3(2), of 4 "drop 4 h"] hl by (auto simp: sizeof_radius_hdr_def)
  have ra: "take 16 ra = ra" using v(2) by simp
  show ?thesis
    using f rd m1(1) m2(1) m3(1) m4 c rep_authenticator [OF m1(2)]
    by (cases "hmac_md5 env secret (msg_auth_input h ra xs ys)")
       (simp_all add: radius_msg_verify_msg_auth_def set_hdr_authenticator_def ra)
qed

lemma verify_eq:
  assumes rep: "radius_rep msg h (xs @ (RADIUS_ATTR_MESSAGE_AUTHENTICATOR, v) # ys)" and v: "length v = 16"
    and one: "list_all (\<lambda>a. \<not> is_msg_auth a) (xs @ ys)" and sent: "radius_rep sent hs bs"
  shows "\<exists>msg' r. radius_msg_verify env msg secret (Some sent) True = Ok (r, msg') \<and> (r = 0 \<or> r = 1)
    \<and> (r = 0 \<longleftrightarrow> (\<exists>m. hmac_md5 env secret (msg_auth_input h (drop 4 hs) xs ys) = Some m \<and> take 16 m = v)
        \<and> (\<exists>d. md5_vector env (take 4 h @ drop 4 hs @ enc_attrs (xs @ (RADIUS_ATTR_MESSAGE_AUTHENTICATOR, v) # ys) @ secret) = Some d
             \<and> take 16 d = drop 4 h))
    \<and> (r = 0 \<longrightarrow> radius_rep msg' h (xs @ (RADIUS_ATTR_MESSAGE_AUTHENTICATOR, v) # ys))"
proof -
  let ?MA = RADIUS_ATTR_MESSAGE_AUTHENTICATOR and ?ra = "drop 4 hs"
  have l: "length ?ra = 16" "length (drop 4 h) = 16" using sent rep by (simp_all add: radius_rep_def sizeof_radius_hdr_def)
  note a = rep_authenticator [OF sent]
  obtain msg1 where m: "radius_msg_verify_msg_auth env msg secret (Some ?ra) =
      Ok (case hmac_md5 env secret (msg_auth_input h ?ra xs ys) of Some m \<Rightarrow> if macs_differ v m then 1 else 0 | None \<Rightarrow> 1, msg1)"
    "hmac_md5 env secret (msg_auth_input h ?ra xs ys) \<noteq> None \<longrightarrow> radius_rep msg1 h (xs @ (?MA, v) # ys)"
    using verify_msg_auth_eq [OF rep v l(1) one] by blast
  show ?thesis
  proof (cases "\<exists>m. hmac_md5 env secret (msg_auth_input h ?ra xs ys) = Some m \<and> take 16 m = v")
    case False
    then have "radius_msg_verify_msg_auth env msg secret (Some ?ra) = Ok (1, msg1)"
      using m(1) v by (auto simp: macs_differ_def MD5_MAC_LEN_def split: option.splits)
    then show ?thesis using a False by (simp add: radius_msg_verify_def)
  next
    case True
    then have r: "radius_msg_verify_msg_auth env msg secret (Some ?ra) = Ok (0, msg1)" "radius_rep msg1 h (xs @ (?MA, v) # ys)"
      using m v by (auto simp: macs_differ_def MD5_MAC_LEN_def)
    show ?thesis
      using r True a response_auth_eq [OF r(2) l(1), of secret] rep_authenticator [OF r(2)] l(2)
      by (cases "md5_vector env (take 4 h @ ?ra @ enc_attrs (xs @ (?MA, v) # ys) @ secret)")
         (auto simp: radius_msg_verify_def macs_differ_def MD5_MAC_LEN_def)
  qed
qed

end
