(* ===== verification/Radius_Theorems.thy ===== *)
theory Radius_Theorems
  imports Radius_Attrs
begin

unbundle bit_operations_syntax

text \<open>
  Guarantees of the RADIUS code: what verification of a response means, responses and EAP
  messages over the wire, memory safety of parsing, and the read past the end that a short
  Message-Authenticator causes.
\<close>

section \<open>Verification of responses\<close>

text \<open>
  When a response is authentic: exactly one Message-Authenticator, equal to the HMAC over the
  message with the request's authenticator, and the Response Authenticator equal to the MD5 of
  RFC 2865.
\<close>

definition authentic :: "radius_env \<Rightarrow> bytes \<Rightarrow> bytes \<Rightarrow> bytes \<Rightarrow> radius_attr list \<Rightarrow> bool" where
  "authentic env secret ra h as \<longleftrightarrow>
     (\<exists>xs v ys. as = xs @ (RADIUS_ATTR_MESSAGE_AUTHENTICATOR, v) # ys \<and> list_all (\<lambda>a. \<not> is_msg_auth a) (xs @ ys)
        \<and> (\<exists>m. hmac_md5 env secret (msg_auth_input h ra xs ys) = Some m \<and> take 16 m = v))
   \<and> (\<exists>d. md5_vector env (take 4 h @ ra @ enc_attrs as @ secret) = Some d \<and> take 16 d = drop 4 h)"

definition msg_auths_ok :: "radius_attr list \<Rightarrow> bool" where
  "msg_auths_ok as \<longleftrightarrow> list_all (\<lambda>a. is_msg_auth a \<longrightarrow> length (snd a) = 16) as"

lemma verify_msg_auth_reject:
  assumes rep: "radius_rep msg h as" and no: "\<not> (\<exists>xs v ys. as = xs @ (RADIUS_ATTR_MESSAGE_AUTHENTICATOR, v) # ys \<and> list_all (\<lambda>a. \<not> is_msg_auth a) (xs @ ys))"
  shows "radius_msg_verify_msg_auth env msg secret ra = Ok (1, msg)"
proof -
  obtain post where b: "bdata (rbuf msg) = h @ enc_attrs as @ post" "length h = sizeof_radius_hdr" using rep_bdata [OF rep] .
  have ok: "attrs_ok as" and p: "attr_pos msg = offsets (length h) as" using rep b(2) by (simp_all add: radius_rep_def)
  show ?thesis
  proof (cases "list_all (\<lambda>a. \<not> is_msg_auth a) as")
    case True
    then show ?thesis using find_msg_auth_none [OF b(1) ok True] by (simp add: radius_msg_verify_msg_auth_def p)
  next
    case False
    then obtain xs a ys where as: "as = xs @ a # ys" "is_msg_auth a" "list_all (\<lambda>a. \<not> is_msg_auth a) xs"
      using split_list_first_prop [of as is_msg_auth] by (auto simp: list_all_iff)
    then have "\<not> list_all (\<lambda>a. \<not> is_msg_auth a) ys" using no by (cases a) auto
    then show ?thesis using find_msg_auth_one(2) [of msg h xs a ys post] as b(1) ok by (simp add: radius_msg_verify_msg_auth_def p)
  qed
qed

lemma verify_authentic:
  assumes "radius_rep msg h as" "msg_auths_ok as" "radius_rep sent hs bs"
  shows "\<exists>r msg'. radius_msg_verify env msg secret (Some sent) True = Ok (r, msg')
    \<and> (r = 0 \<longleftrightarrow> authentic env secret (drop 4 hs) h as) \<and> (r = 0 \<longrightarrow> radius_rep msg' h as)"
proof (cases "\<exists>xs v ys. as = xs @ (RADIUS_ATTR_MESSAGE_AUTHENTICATOR, v) # ys \<and> list_all (\<lambda>a. \<not> is_msg_auth a) (xs @ ys)")
  case False
  then have "\<not> authentic env secret (drop 4 hs) h as" by (auto simp: authentic_def)
  then show ?thesis using verify_msg_auth_reject [OF assms(1) False] rep_authenticator [OF assms(3)]
    by (simp add: radius_msg_verify_def)
next
  case True
  then obtain xs v ys where as: "as = xs @ (RADIUS_ATTR_MESSAGE_AUTHENTICATOR, v) # ys" and one: "list_all (\<lambda>a. \<not> is_msg_auth a) (xs @ ys)" by blast
  have v: "length v = 16" using assms(2) by (simp add: as msg_auths_ok_def)
  have uniq: "xs' = xs \<and> v' = v \<and> ys' = ys"
    if "as = xs' @ (RADIUS_ATTR_MESSAGE_AUTHENTICATOR, v') # ys'" "list_all (\<lambda>a. \<not> is_msg_auth a) (xs' @ ys')" for xs' v' ys'
    using that as one by (auto simp: append_eq_append_conv2 Cons_eq_append_conv list_all_iff append_eq_Cons_conv)
  have auth: "authentic env secret (drop 4 hs) h as \<longleftrightarrow>
      (\<exists>m. hmac_md5 env secret (msg_auth_input h (drop 4 hs) xs ys) = Some m \<and> take 16 m = v)
    \<and> (\<exists>d. md5_vector env (take 4 h @ drop 4 hs @ enc_attrs as @ secret) = Some d \<and> take 16 d = drop 4 h)"
    unfolding authentic_def using uniq as one by blast
  from verify_eq [OF assms(1) [unfolded as] v one assms(3), of env secret] show ?thesis
    unfolding auth unfolding as by blast
qed

section \<open>A response over the wire\<close>

definition hash16 :: "radius_env \<Rightarrow> bool" where
  "hash16 env \<longleftrightarrow> (\<forall>k d. \<exists>m. hmac_md5 env k d = Some m \<and> length m = 16) \<and> (\<forall>d. \<exists>m. md5_vector env d = Some m \<and> length m = 16)"

lemma set_length_ok:
  assumes "radius_rep msg h as"
  shows "\<exists>msg'. set_hdr_length msg = Ok msg' \<and> radius_rep msg' (take 2 h @ WPA_PUT_BE16 (word_of_nat (length (radius_content msg))) @ drop 4 h) as"
proof -
  have "(word_of_nat (unat (wpabuf_len (rbuf msg))) :: u16) = word_of_nat (length (radius_content msg))"
    using content_length [of "rbuf msg"] assms by (simp add: radius_rep_def radius_content_def)
  then have "ucast (wpabuf_len (rbuf msg)) = (word_of_nat (length (radius_content msg)) :: u16)" by (metis of_nat_unat)
  then show ?thesis using rep_write_hdr [OF assms, of 2 "WPA_PUT_BE16 (ucast (wpabuf_len (rbuf msg)))"]
    by (auto simp: set_hdr_length_def sizeof_radius_hdr_def)
qed


lemma finish_srv_ok:
  assumes rep: "radius_rep msg h as" and none: "list_all (\<lambda>a. \<not> is_msg_auth a) as" and len: "length (radius_content msg) + 18 \<le> 0xffff"
    and mem: "\<And>n. rmalloc env n" and hash: "hash16 env" and ra: "length ra = 16"
  shows "\<exists>msg' h' v. radius_msg_finish_srv env msg secret ra = Ok (0, msg') \<and> length v = 16
    \<and> radius_rep msg' h' (as @ [(RADIUS_ATTR_MESSAGE_AUTHENTICATOR, v)])
    \<and> authentic env secret ra h' (as @ [(RADIUS_ATTR_MESSAGE_AUTHENTICATOR, v)])
    \<and> take 4 h' = take 2 h @ WPA_PUT_BE16 (word_of_nat (length (radius_content msg'))) \<and> length (radius_content msg') \<le> 0xffff"
proof -
  let ?MA = RADIUS_ATTR_MESSAGE_AUTHENTICATOR and ?z = "replicate MD5_MAC_LEN (0::u8)"
  let ?n = "length (radius_content msg)"
  let ?h1 = "take 2 h @ WPA_PUT_BE16 (word_of_nat (?n + 18))"
  have hl: "length h = 20" "?n = 20 + length (enc_attrs as)" using rep by (simp_all add: radius_rep_def sizeof_radius_hdr_def)
  have h1: "length ?h1 = 4" using hl by simp
  have room: "room_for msg 16" using len by (simp add: room_for_def PTRDIFF_LIMIT_def)
  obtain m1 where m1: "add_zero_authenticator env msg = Ok (Some ?n, m1)" "radius_rep m1 h (as @ [(?MA, ?z)])"
    using add_attr_ok [OF rep, of ?z env ?MA] room mem by (auto simp: add_zero_authenticator_def MD5_MAC_LEN_def RADIUS_MAX_ATTR_LEN_def sizeof_radius_attr_hdr_def)
  have n1: "length (radius_content m1) = ?n + 18" using m1(2) hl by (simp add: radius_rep_def MD5_MAC_LEN_def sizeof_radius_attr_hdr_def)
  obtain m2 where m2: "set_hdr_length m1 = Ok m2" "radius_rep m2 (?h1 @ drop 4 h) (as @ [(?MA, ?z)])"
    using set_length_ok [OF m1(2)] unfolding n1 by (auto simp del: of_nat_add)
  obtain m3 where m3: "set_hdr_authenticator m2 ra = Ok m3" "radius_rep m3 (?h1 @ ra) (as @ [(?MA, ?z)])"
    using rep_write_hdr [OF m2(2), of 4 ra] ra hl h1 by (auto simp: set_hdr_authenticator_def sizeof_radius_hdr_def simp del: of_nat_add)
  obtain v where v: "hmac_md5 env secret (radius_content m3) = Some v" "length v = 16" using hash unfolding hash16_def by blast
  have c3: "radius_content m3 = ?h1 @ ra @ enc_attrs (as @ [(?MA, ?z)])" using m3(2) by (simp add: radius_rep_def)
  have "sizeof_radius_hdr + length (enc_attrs as) + sizeof_radius_attr_hdr = ?n + sizeof_radius_attr_hdr" using hl by (simp add: sizeof_radius_hdr_def)
  then obtain m4 where m4: "radius_write m3 (?n + sizeof_radius_attr_hdr) v = Ok m4" "radius_rep m4 (?h1 @ ra) (as @ [(?MA, v)])"
    using rep_write_value [OF m3(2), of v] v(2) by (auto simp: MD5_MAC_LEN_def)
  obtain d where d: "md5_vector env (?h1 @ ra @ enc_attrs (as @ [(?MA, v)]) @ secret) = Some d" "length d = 16" using hash unfolding hash16_def by blast
  have i4: "response_auth_input m4 ra secret = Some (?h1 @ ra @ enc_attrs (as @ [(?MA, v)]) @ secret)"
    using response_auth_eq [OF m4(2) ra, of secret] h1 by (simp del: of_nat_add)
  obtain m5 where m5: "radius_write m4 4 d = Ok m5" "radius_rep m5 (?h1 @ d) (as @ [(?MA, v)])"
    using rep_write_hdr [OF m4(2), of 4 d] d(2) ra h1 by (auto simp: sizeof_radius_hdr_def simp del: of_nat_add)
  have n5: "length (radius_content m5) = ?n + 18" using m5(2) v(2) hl by (simp add: radius_rep_def sizeof_radius_hdr_def sizeof_radius_attr_hdr_def)
  have "unat (wpabuf_len (rbuf m5)) = ?n + 18" using n5 m5(2) content_length [of "rbuf m5"] by (simp add: radius_rep_def radius_content_def)
  then have "\<not> too_long m5" using len by (simp add: too_long_def word_less_nat_alt)
  then have "radius_msg_finish_srv env msg secret ra = Ok (0, m5)"
    using m1(1) m2(1) m3(1) m4(1) m5(1) v(1) d(1) i4 by (simp add: radius_msg_finish_srv_def store_mac_def)
  moreover have "authentic env secret ra (?h1 @ d) (as @ [(?MA, v)])"
    unfolding authentic_def using none v d c3 h1
    by (intro conjI exI [of _ as] exI [of _ v] exI [of _ "[]"] exI [of _ d]) (simp_all add: msg_auth_input_def del: of_nat_add)
  ultimately show ?thesis using m5(2) v(2) n5 len h1
    by (intro exI [of _ m5] exI [of _ "?h1 @ d"] exI [of _ v]) (simp del: of_nat_add)
qed

lemma parse_content:
  assumes rep: "radius_rep msg h as" and l: "take 4 h = p @ WPA_PUT_BE16 (word_of_nat (length (radius_content msg)))" "length p = 2"
    and small: "length (radius_content msg) \<le> 0xffff" and mem: "\<And>n. rmalloc env n"
  shows "\<exists>rx. radius_msg_parse env (Some (radius_content msg)) = Ok (Some rx) \<and> radius_rep rx h as"
proof -
  let ?c = "radius_content msg"
  have r: "length h = sizeof_radius_hdr" "?c = h @ enc_attrs as" "attrs_ok as" using rep by (simp_all add: radius_rep_def)
  have "h = p @ WPA_PUT_BE16 (word_of_nat (length ?c)) @ drop 4 h" using l(1) by (metis append_assoc append_take_drop_id)
  then have "drop 2 ?c = WPA_PUT_BE16 (word_of_nat (length ?c)) @ drop 4 h @ enc_attrs as"
    using r(2) l(2) by (metis append_assoc append_eq_conv_conj)
  then have g: "WPA_GET_BE16 (drop 2 ?c) = Some (word_of_nat (length ?c))" using get_put_be16 by simp
  have u: "unat (word_of_nat (length ?c) :: u16) = length ?c" using small by (simp add: unat_of_nat)
  have pl: "length ?c < PTRDIFF_LIMIT" using small by (simp add: PTRDIFF_LIMIT_def)
  obtain b where b: "wpabuf_alloc_copy (rmalloc env) ?c = Ok (Some b)" "wf_wpabuf b" "wpabuf_content b = ?c" "bdata b = ?c" "unat (wpabuf_len b) = length ?c"
    using alloc_copy_spec [OF pl, of "rmalloc env"] mem by blast
  let ?m = "\<lparr>rbuf = b, attr_pos = [], attr_size = RADIUS_DEFAULT_ATTR_COUNT\<rparr>"
  have "bdata (rbuf ?m) = h @ enc_attrs as @ []" using b(4) r(2) by simp
  from parse_attrs_complete [OF this r(3) mem] obtain sz where
    p: "parse_attrs env (length h) (length h + length (enc_attrs as)) ?m = Ok (Some (?m\<lparr>attr_pos := attr_pos ?m @ offsets (length h) as, attr_size := sz\<rparr>))" by blast
  have "radius_msg_parse env (Some ?c) = parse_attrs env (length h) (length h + length (enc_attrs as)) ?m"
    using g u b mem r(1,2) by (simp add: radius_msg_parse_def Let_def radius_msg_initialize_def)
  with p show ?thesis using b r by (auto simp: radius_rep_def radius_content_def)
qed

text \<open>
  C3. On every message whose Message-Authenticators have values of 16 bytes, \<open>radius_msg_verify\<close> reads and
  writes only inside the message, ends, leaves an accepted message as it was, and accepts it
  exactly when it is authentic under the shared secret and the request: one
  Message-Authenticator that is the right HMAC, and the right Response Authenticator.
\<close>

theorem radius_verify_iff_authentic:
  assumes "radius_rep msg h as" "msg_auths_ok as" "radius_rep sent hs bs"
  shows "\<exists>r msg'. radius_msg_verify env msg secret (Some sent) True = Ok (r, msg')
    \<and> (r = 0 \<longleftrightarrow> authentic env secret (drop 4 hs) h as) \<and> (r = 0 \<longrightarrow> radius_rep msg' h as)"
  by (rule verify_authentic [OF assms])

text \<open>
  C26. A response finished by a RADIUS server (\<open>radius_msg_finish_srv\<close>) arrives: the client's
  \<open>radius_msg_parse\<close> of its bytes finds the same header and attributes, the
  Message-Authenticator last, and \<open>radius_msg_verify\<close> against the request with the same secret
  accepts it. The response has no Message-Authenticator before and room for one below the maximal size, and memory
  can be allocated.
\<close>

theorem radius_response_roundtrip:
  assumes "radius_rep msg h as" "list_all (\<lambda>a. \<not> is_msg_auth a) as" "length (radius_content msg) + 18 \<le> 0xffff"
    and "\<And>n. rmalloc env n" "hash16 env" "radius_rep sent hs bs"
  shows "\<exists>msg' rx rx' h' v. radius_msg_finish_srv env msg secret (drop 4 hs) = Ok (0, msg')
    \<and> radius_msg_parse env (Some (radius_content msg')) = Ok (Some rx)
    \<and> radius_rep rx h' (as @ [(RADIUS_ATTR_MESSAGE_AUTHENTICATOR, v)]) \<and> take 2 h' = take 2 h
    \<and> radius_msg_verify env rx secret (Some sent) True = Ok (0, rx')"
proof -
  let ?MA = RADIUS_ATTR_MESSAGE_AUTHENTICATOR
  have ra: "length (drop 4 hs) = 16" and hl: "length (take 2 h) = 2" using assms(1,6) by (simp_all add: radius_rep_def sizeof_radius_hdr_def)
  obtain msg' h' v where f: "radius_msg_finish_srv env msg secret (drop 4 hs) = Ok (0, msg')" "length v = 16"
    "radius_rep msg' h' (as @ [(?MA, v)])" "authentic env secret (drop 4 hs) h' (as @ [(?MA, v)])"
    "take 4 h' = take 2 h @ WPA_PUT_BE16 (word_of_nat (length (radius_content msg')))" "length (radius_content msg') \<le> 0xffff"
    using finish_srv_ok [OF assms(1-5) ra] by blast
  obtain rx where rx: "radius_msg_parse env (Some (radius_content msg')) = Ok (Some rx)" "radius_rep rx h' (as @ [(?MA, v)])"
    using parse_content [OF f(3,5) hl f(6) assms(4)] by blast
  have "msg_auths_ok (as @ [(?MA, v)])" using assms(2) f(2) by (auto simp: msg_auths_ok_def list_all_iff)
  then obtain rx' where "radius_msg_verify env rx secret (Some sent) True = Ok (0, rx')"
    using verify_authentic [OF rx(2) _ assms(6), of env secret] f(4) by auto
  moreover have "take 2 (take 4 h') = take 2 h" unfolding f(5) using hl by simp
  then have "take 2 h' = take 2 h" by simp
  ultimately show ?thesis using f(1) rx by blast
qed

section \<open>EAP messages\<close>

lemma add_eap_ok:
  assumes "radius_rep msg h as" "\<And>n. rmalloc env n" "length (radius_content msg) + 3 * length data + 40 < PTRDIFF_LIMIT"
  shows "\<exists>msg' fs. radius_msg_add_eap env msg data = Ok (True, msg') \<and> radius_rep msg' h (as @ fs) \<and> eap_bytes fs = data
    \<and> list_all (\<lambda>f. fst f = RADIUS_ATTR_EAP_MESSAGE) fs"
  using assms
proof (induction env msg data arbitrary: as rule: radius_msg_add_eap.induct)
  case (1 env msg data)
  show ?case
  proof (cases "data = []")
    case True
    then show ?thesis using "1.prems"(1) by (intro exI [of _ msg] exI [of _ "[]"]) (simp add: radius_msg_add_eap.simps)
  next
    case False
    define len where "len = (if length data > RADIUS_MAX_ATTR_LEN then RADIUS_MAX_ATTR_LEN else length data)"
    have len: "0 < len" "len \<le> length data" "len \<le> RADIUS_MAX_ATTR_LEN" using False
      by (auto simp: len_def RADIUS_MAX_ATTR_LEN_def sizeof_radius_attr_hdr_def)
    have room: "room_for msg (length (take len data))" using "1.prems"(3) len by (simp add: room_for_def)
    obtain m1 where m1: "radius_msg_add_attr env msg RADIUS_ATTR_EAP_MESSAGE (take len data) = Ok (Some (length (radius_content msg)), m1)"
      "radius_rep m1 h (as @ [(RADIUS_ATTR_EAP_MESSAGE, take len data)])"
      using add_attr_ok [OF "1.prems"(1) _ room, of env RADIUS_ATTR_EAP_MESSAGE] len "1.prems"(2) by auto
    have c1: "length (radius_content m1) = length (radius_content msg) + 2 + len"
      using m1(2) "1.prems"(1) len by (simp add: radius_rep_def sizeof_radius_attr_hdr_def)
    have bound: "length (radius_content m1) + 3 * length (drop len data) + 40 < PTRDIFF_LIMIT" using c1 len "1.prems"(3) by simp
    have IH: "\<exists>msg' fs. radius_msg_add_eap env m1 (drop len data) = Ok (True, msg') \<and> radius_rep msg' h ((as @ [(RADIUS_ATTR_EAP_MESSAGE, take len data)]) @ fs)
       \<and> eap_bytes fs = drop len data \<and> list_all (\<lambda>f. fst f = RADIUS_ATTR_EAP_MESSAGE) fs"
      by (rule "1.IH" [of len "Some (length (radius_content msg))" m1, OF _ len_def _ m1(2) "1.prems"(2) bound]) (use False in simp_all)
    have run: "radius_msg_add_eap env msg data = radius_msg_add_eap env m1 (drop len data)"
      using False m1(1) by (subst radius_msg_add_eap.simps) (simp add: Let_def len_def [symmetric])
    from IH obtain msg' fs where "radius_msg_add_eap env m1 (drop len data) = Ok (True, msg')"
      "radius_rep msg' h (as @ (RADIUS_ATTR_EAP_MESSAGE, take len data) # fs)" "eap_bytes fs = drop len data" "list_all (\<lambda>f. fst f = RADIUS_ATTR_EAP_MESSAGE) fs" by auto
    then show ?thesis unfolding run by (intro exI [of _ msg'] exI [of _ "(RADIUS_ATTR_EAP_MESSAGE, take len data) # fs"]) simp
  qed
qed

text \<open>
  C27. An EAP message of any length goes through RADIUS: \<open>radius_msg_add_eap\<close> splits it into
  attributes and \<open>radius_msg_get_eap\<close> of the result puts exactly the message together again.
\<close>

theorem radius_eap_roundtrip:
  assumes "radius_rep msg h as" "eap_bytes as = []" "data \<noteq> []" "\<And>n. rmalloc env n"
    "length (radius_content msg) + 3 * length data + 40 < PTRDIFF_LIMIT"
  shows "\<exists>msg' eap. radius_msg_add_eap env msg data = Ok (True, msg') \<and> radius_msg_get_eap env msg' = Ok (Some eap)
    \<and> wpabuf_content eap = data"
proof -
  obtain msg' fs where f: "radius_msg_add_eap env msg data = Ok (True, msg')" "radius_rep msg' h (as @ fs)" "eap_bytes fs = data"
    using add_eap_ok [OF assms(1,4,5)] by blast
  then have e: "eap_bytes (as @ fs) = data" using assms(2) by simp
  have "length (eap_bytes (as @ fs)) < PTRDIFF_LIMIT" using e assms(5) by simp
  from get_eap_eq [OF f(2) this, of env] obtain eap where "radius_msg_get_eap env msg' = Ok (Some eap)" "wpabuf_content eap = data"
    using assms(3,4) unfolding e by (auto split: option.splits)
  with f(1) show ?thesis by blast
qed

section \<open>Safety of parsing, and what is missing\<close>

text \<open>
  C29. Whatever bytes arrive, \<open>radius_msg_parse\<close> accesses no memory outside its copy of them and
  either refuses them or returns the message its header announces, cut into attributes that
  cover it exactly.
\<close>

theorem radius_parse_safe:
  "radius_msg_parse env (Some d) = Ok None \<or> (\<exists>msg. radius_msg_parse env (Some d) = Ok (Some msg) \<and> parsed d msg)"
  by (rule parse_some)

text \<open>An environment for examples: memory is never short, the digests are constant.\<close>

definition demo_radius :: radius_env where
  "demo_radius = \<lparr>rmalloc = (\<lambda>_. True), rjunk = (\<lambda>_. []), hmac_md5 = (\<lambda>_ _. Some (replicate 16 7)), md5_vector = (\<lambda>_. Some (replicate 16 9))\<rparr>"

definition ok_msg :: "radius_msg option run \<Rightarrow> radius_msg" where
  "ok_msg r = (case r of Ok (Some m) \<Rightarrow> m | _ \<Rightarrow> undefined)"

text \<open>An Access-Accept whose last attribute is a Message-Authenticator without a value.\<close>

definition short_auth :: bytes where
  "short_auth = [2, 1, 0, 22] @ replicate 16 0 @ [80, 2]"

text \<open>
  C31. Nothing checks that a Message-Authenticator has the 16 bytes the code assumes: on a
  message of 22 bytes with an empty one as its last attribute that \<open>radius_msg_parse\<close> accepts, \<open>radius_msg_verify_msg_auth\<close> reads behind
  the end of the buffer, for every secret and every request.
\<close>

theorem radius_short_authenticator_fault:
  "\<exists>msg. radius_msg_parse demo_radius (Some short_auth) = Ok (Some msg)
     \<and> (\<forall>env secret ra. radius_msg_verify_msg_auth env msg secret ra = Fault)"
proof -
  define msg where "msg = \<lparr>rbuf = \<lparr>bsize = 22, used = 22, bdata = short_auth, bflags = 0\<rparr>, attr_pos = [20], attr_size = 16\<rparr>"
  have "radius_msg_parse demo_radius (Some short_auth) = Ok (Some msg)"
    unfolding msg_def short_auth_def demo_radius_def by code_simp
  moreover have "radius_msg_verify_msg_auth env msg secret ra = Fault" for env secret ra
  proof -
    have "find_msg_auth msg (attr_pos msg) None = Some (Inr (Some 20))" unfolding msg_def short_auth_def by code_simp
    moreover have "radius_read msg (20 + sizeof_radius_attr_hdr) MD5_MAC_LEN = None" unfolding msg_def short_auth_def by code_simp
    ultimately show ?thesis by (simp add: radius_msg_verify_msg_auth_def)
  qed
  ultimately show ?thesis by blast
qed

text \<open>Witnesses.\<close>

definition demo_request :: radius_msg where
  "demo_request = ok_msg (radius_msg_new demo_radius RADIUS_CODE_ACCESS_REQUEST 5)"

definition demo_accept :: radius_msg where
  "demo_accept = ok_msg (radius_msg_new demo_radius RADIUS_CODE_ACCESS_ACCEPT 5)"

lemma new_rep:
  assumes "rmalloc env sizeof_radius_msg" "rmalloc env 1056" "radius_msg_initialize env"
  shows "\<exists>msg. radius_msg_new env code i = Ok (Some msg) \<and> radius_rep msg (code # i # replicate 18 0) []"
proof -
  obtain b where b: "wpabuf_alloc (rmalloc env) RADIUS_DEFAULT_MSG_SIZE = Some b"
    using assms(2) by (auto simp: wpabuf_alloc_def Let_def RADIUS_DEFAULT_MSG_SIZE_def sizeof_wpabuf_def)
  have lim: "unat RADIUS_DEFAULT_MSG_SIZE < PTRDIFF_LIMIT" by (simp add: RADIUS_DEFAULT_MSG_SIZE_def PTRDIFF_LIMIT_def)
  note n = wpabuf_alloc_Some [OF b lim]
  have bd: "bdata b = replicate 1024 0" using b by (auto simp: wpabuf_alloc_def Let_def RADIUS_DEFAULT_MSG_SIZE_def sizeof_wpabuf_def split: if_splits)
  have "(20::nat) \<le> unat (wpabuf_tailroom b)" using n(3) by (simp add: RADIUS_DEFAULT_MSG_SIZE_def)
  note p = wpabuf_put_fits [OF n(1) this]
  let ?b = "b\<lparr>used := 20, bdata := [code, i] @ replicate 1022 0\<rparr>"
  let ?m = "\<lparr>rbuf = ?b, attr_pos = [], attr_size = RADIUS_DEFAULT_ATTR_COUNT\<rparr>"
  have "radius_msg_new env code i = Ok (Some ?m)"
    using assms b p(1) bd n(5) by (simp add: radius_msg_new_def sizeof_radius_hdr_def radius_msg_set_hdr_def radius_write_def put_at_def memcpy_at_def)
  moreover have "radius_rep ?m (code # i # replicate 18 0) []"
    using n(1,4) lim by (simp add: radius_rep_def wf_wpabuf_def radius_content_def wpabuf_content_def wpabuf_len_def wpabuf_head_def sizeof_radius_hdr_def RADIUS_DEFAULT_MSG_SIZE_def)
  ultimately show ?thesis by blast
qed


lemma demo_memory: "rmalloc demo_radius n"
  by (simp add: demo_radius_def)

lemma demo_hash: "hash16 demo_radius"
  by (simp add: hash16_def demo_radius_def)

lemma demo_msgs:
  "radius_rep demo_request (1 # 5 # replicate 18 0) []" "radius_rep demo_accept (2 # 5 # replicate 18 0) []"
  "length (radius_content demo_accept) = 20"
proof -
  have n: "\<exists>msg. radius_msg_new demo_radius c i = Ok (Some msg) \<and> radius_rep msg (c # i # replicate 18 0) []" for c i
    by (rule new_rep) (simp_all add: demo_radius_def radius_msg_initialize_def)
  show "radius_rep demo_request (1 # 5 # replicate 18 0) []" using n [of 1 5]
    by (auto simp: demo_request_def ok_msg_def RADIUS_CODE_ACCESS_REQUEST_def)
  show a: "radius_rep demo_accept (2 # 5 # replicate 18 0) []" using n [of 2 5]
    by (auto simp: demo_accept_def ok_msg_def RADIUS_CODE_ACCESS_ACCEPT_def)
  show "length (radius_content demo_accept) = 20" using a by (simp add: radius_rep_def)
qed

theorem radius_verify_iff_authentic_witness:
  "\<exists>msg'. radius_msg_verify demo_radius demo_accept [1, 2] (Some demo_request) True = Ok (1, msg')"
proof -
  obtain r msg' where r: "radius_msg_verify demo_radius demo_accept [1, 2] (Some demo_request) True = Ok (r, msg')"
    "r = 0 \<longleftrightarrow> authentic demo_radius [1, 2] (drop 4 (1 # 5 # replicate 18 0)) (2 # 5 # replicate 18 0) []"
    using radius_verify_iff_authentic [OF demo_msgs(2) _ demo_msgs(1), of demo_radius "[1, 2]"] by (auto simp: msg_auths_ok_def)
  have "r \<noteq> 0" using r(2) by (simp add: authentic_def)
  moreover have "r = 0 \<or> r = 1" using r(1) by (auto simp: radius_msg_verify_def bindR_eq_Ok split: if_splits option.splits)
  ultimately show ?thesis using r(1) by auto
qed

theorem radius_response_roundtrip_witness:
  "\<exists>msg' rx rx' h' v. radius_msg_finish_srv demo_radius demo_accept [1, 2] (replicate 16 0) = Ok (0, msg')
    \<and> radius_msg_parse demo_radius (Some (radius_content msg')) = Ok (Some rx)
    \<and> radius_rep rx h' [(RADIUS_ATTR_MESSAGE_AUTHENTICATOR, v)] \<and> take 2 h' = [2, 5]
    \<and> radius_msg_verify demo_radius rx [1, 2] (Some demo_request) True = Ok (0, rx')"
proof -
  have "drop 4 (1 # 5 # replicate 18 (0::u8)) = replicate 16 0" "take 2 (2 # 5 # replicate 18 (0::u8)) = [2, 5]"
    by (simp_all add: numeral_eq_Suc)
  with radius_response_roundtrip [OF demo_msgs(2) _ _ demo_memory demo_hash demo_msgs(1), of "[1, 2]"] show ?thesis
    by (simp add: demo_msgs(3))
qed

theorem radius_eap_roundtrip_witness:
  "\<exists>msg' eap. radius_msg_add_eap demo_radius demo_accept (replicate 600 1) = Ok (True, msg') \<and> radius_msg_get_eap demo_radius msg' = Ok (Some eap)
    \<and> wpabuf_content eap = replicate 600 1"
  by (rule radius_eap_roundtrip [OF demo_msgs(2) _ _ demo_memory]) (simp_all add: demo_msgs(3) PTRDIFF_LIMIT_def)

end
