(* ===== verification/Radius_Keys.thy ===== *)
theory Radius_Keys
  imports Radius_Theorems
begin

unbundle bit_operations_syntax

text \<open>
  The keys an Access-Accept carries (MS-MPPE-Send-Key, MS-MPPE-Recv-Key) and the VLAN
  attributes: the client recovers the keys the server added, and the VLAN lists are bounded
  and sorted.
\<close>

section \<open>Encryption of keys\<close>

lemma xor_block_twice: "length p \<le> length h \<Longrightarrow> xor_block (xor_block p h) h = p"
  by (auto simp: xor_block_def list_eq_iff_nth_eq ac_simps)

lemma length_xor_block [simp]: "length (xor_block p h) = min (length p) (length h)"
  by (simp add: xor_block_def)

lemma md5_some: "hash16 env \<Longrightarrow> \<exists>m. md5_vector env d = Some m \<and> length m = 16"
  by (simp add: hash16_def)

lemma encrypt_decrypt_blocks:
  assumes "hash16 env" "16 dvd length p"
  shows "\<exists>c. length c = length p \<and> encrypt_blocks env secret hash prev (length p) (p @ rest) = Some (c @ rest)
    \<and> decrypt_blocks env secret prev c = Some p"
  using assms(2)
proof (induction "length p" arbitrary: p hash prev rule: less_induct)
  case less
  show ?case
  proof (cases "p = []")
    case True
    then show ?thesis by (simp add: encrypt_blocks.simps decrypt_blocks.simps)
  next
    case False
    have l: "16 \<le> length p" using less.prems False by (auto intro: dvd_imp_le)
    let ?p = "take 16 p" and ?q = "drop 16 p"
    obtain m where m: "md5_vector env (secret @ prev) = Some m" "length m = 16" using md5_some [OF assms(1)] by blast
    define c where "c = xor_block ?p m"
    have c: "length c = 16" "xor_block c m = ?p" using l m(2) by (simp_all add: c_def xor_block_twice)
    have "length ?q < length p" "16 dvd length ?q" using l less.prems by (simp_all add: dvd_minus_self)
    from less.hyps [OF this, of "Some m" c] obtain d where d: "length d = length ?q"
      "encrypt_blocks env secret (Some m) c (length ?q) (?q @ rest) = Some (d @ rest)" "decrypt_blocks env secret c d = Some ?q" by blast
    have "mem_read (p @ rest) 0 MD5_MAC_LEN = Some ?p" using l by (simp add: mem_read_def MD5_MAC_LEN_def)
    then have "encrypt_blocks env secret hash prev (length p) (p @ rest) = Some ((c @ d) @ rest)"
      using False m(1) d(2) l by (subst encrypt_blocks.simps) (simp add: MD5_MAC_LEN_def c_def Let_def)
    moreover have "decrypt_blocks env secret prev (c @ d) = Some (?p @ ?q)"
      using m(1) d(3) c by (subst decrypt_blocks.simps) (simp add: MD5_MAC_LEN_def)
    ultimately show ?thesis using c(1) d(1) l by (intro exI [of _ "c @ d"]) simp
  qed
qed

text \<open>The padded length: the next multiple of 16.\<close>

lemma pad_len:
  assumes "n < 256"
  shows "(if n AND 0x0f \<noteq> 0 then (n AND 0xf0) + 16 else n) = (n + 15) div 16 * (16::nat)"
proof -
  have t: "take_bit 8 n = n" using assms by (simp add: take_bit_nat_eq_self)
  have "n AND 0xf0 = push_bit 4 (drop_bit 4 n)"
  proof (rule bit_eqI)
    fix k
    have m: "(0xf0::nat) = push_bit 4 (mask 4)" by (simp add: mask_eq_exp_minus_1 push_bit_eq_mult)
    have "bit n k \<Longrightarrow> k < 8" using t bit_take_bit_iff [of 8 n k] by simp
    then show "bit (n AND 0xf0) k = bit (push_bit 4 (drop_bit 4 n)) k"
      unfolding m by (auto simp: bit_and_iff bit_push_bit_iff bit_drop_bit_eq bit_mask_iff)
  qed
  then have hi: "n AND 0xf0 = 16 * (n div 16)" by (simp add: push_bit_eq_mult drop_bit_eq_div)
  have lo: "n AND 0x0f = n mod 16" using take_bit_eq_mask [of 4 n] by (simp add: mask_eq_exp_minus_1 take_bit_eq_mod)
  define q r where "q = n div 16" and "r = n mod 16"
  have n: "n = 16 * q + r" "r < 16" by (simp_all add: q_def r_def)
  have "(r + 15) div 16 = (if r = 0 then 0 else 1)" using n(2) by (auto intro: div_nat_eqI)
  moreover have "(n + 15) div 16 = q + (r + 15) div 16" unfolding n(1) add.assoc by (rule div_mult_self4) simp
  ultimately have "(n + 15) div 16 = (if r = 0 then q else q + 1)" by simp
  then show ?thesis unfolding hi lo q_def [symmetric] r_def [symmetric] using n(1) by simp
qed

lemma ms_key_roundtrip:
  assumes "hash16 env" "key \<noteq> []" "length key \<le> 239" "length auth = 16" "\<And>n. rmalloc env n"
  shows "\<exists>c rest. encrypt_ms_key env key salt auth secret (replicate (length key + 16) 0) = Some (c @ rest, length c)
    \<and> length c \<le> 240 \<and> decrypt_ms_key env (WPA_PUT_BE16 salt @ c) auth secret = Some (Some key)"
proof -
  let ?k = "length key"
  define L where "L = (1 + ?k + 15) div 16 * 16"
  have kl: "1 + ?k < 256" "1 + ?k \<le> L" "L \<le> ?k + 16" "L \<le> 240" "16 dvd L" using assms(3) by (auto simp: L_def)
  let ?p = "word_of_nat ?k # key @ replicate (L - 1 - ?k) 0"
  have p: "length ?p = L" using kl by simp
  obtain c where c: "length c = L" "encrypt_blocks env secret None (auth @ WPA_PUT_BE16 salt) L (?p @ replicate (?k + 16 - L) 0) = Some (c @ replicate (?k + 16 - L) 0)"
    "decrypt_blocks env secret (auth @ WPA_PUT_BE16 salt) c = Some ?p"
    using encrypt_decrypt_blocks [OF assms(1), of ?p secret None "auth @ WPA_PUT_BE16 salt" "replicate (?k + 16 - L) 0"] kl(5) unfolding p by blast
  have L: "(if (1 + ?k) AND 0x0f \<noteq> 0 then ((1 + ?k) AND 0xf0) + 16 else 1 + ?k) = L" using pad_len [OF kl(1)] by (simp only: L_def)
  have m1: "memcpy_at (replicate (?k + 16) (0::u8)) 0 (replicate L 0) = Some (replicate (?k + 16) 0)"
    using kl(3) by (simp add: memcpy_at_def) (metis le_add_diff_inverse replicate_add)
  obtain L' where L': "L = Suc L'" using kl(2) by (cases L) auto
  have m2: "memcpy_at (replicate (?k + 16) (0::u8)) 0 [word_of_nat ?k] = Some (word_of_nat ?k # replicate (?k + 15) 0)"
    by (simp add: memcpy_at_def)
  have m3: "memcpy_at (word_of_nat ?k # replicate (?k + 15) (0::u8)) 1 key = Some (?p @ replicate (?k + 16 - L) 0)"
    using kl by (simp add: memcpy_at_def replicate_add [symmetric])
  have enc: "encrypt_ms_key env key salt auth secret (replicate (?k + 16) 0) = Some (c @ replicate (?k + 16 - L) 0, length c)"
    unfolding encrypt_ms_key_def Let_def L using m1 m2 m3 c assms(4) by (simp add: MD5_MAC_LEN_def)
  have u: "unat (word_of_nat ?k :: u8) = ?k" using assms(3) by (simp add: unat_of_nat)
  have "decrypt_ms_key env (WPA_PUT_BE16 salt @ c) auth secret = Some (Some key)"
    using c assms(2,4,5) kl u by (simp add: decrypt_ms_key_def Let_def MD5_MAC_LEN_def peek_def mem_read_def) (auto simp: dvd_eq_mod_eq_0)
  with enc c(1) kl(4) show ?thesis by blast
qed

section \<open>Keys in a message\<close>

text \<open>The value of a Microsoft vendor attribute with one key.\<close>

definition mppe_value :: "u8 \<Rightarrow> bytes \<Rightarrow> bytes" where
  "mppe_value type k = WPA_PUT_BE32 RADIUS_VENDOR_ID_MICROSOFT @ [type, word_of_nat (2 + length k)] @ k"

lemma add_mppe_ok:
  assumes rep: "radius_rep msg h as" and hash: "hash16 env" and key: "key \<noteq> []" "length key \<le> 239" and auth: "length auth = 16"
    and mem: "\<And>n. rmalloc env n" and room: "length (radius_content msg) < 2 ^ 62"
  shows "\<exists>msg' k. add_mppe_key env msg type salt auth secret key = Ok (True, msg') \<and> length k \<le> 242
    \<and> radius_rep msg' h (as @ [(RADIUS_ATTR_VENDOR_SPECIFIC, mppe_value type k)]) \<and> decrypt_ms_key env k auth secret = Some (Some key)"
proof -
  obtain c rest where c: "encrypt_ms_key env key salt auth secret (replicate (length key + 16) 0) = Some (c @ rest, length c)"
    "length c \<le> 240" "decrypt_ms_key env (WPA_PUT_BE16 salt @ c) auth secret = Some (Some key)"
    using ms_key_roundtrip [OF hash key auth mem] by blast
  let ?k = "WPA_PUT_BE16 salt @ c"
  have v: "WPA_PUT_BE32 RADIUS_VENDOR_ID_MICROSOFT @ [type, word_of_nat (4 + 2 + 2 + length c - 4)] @ WPA_PUT_BE16 salt @ take (length c) (c @ rest) = mppe_value type ?k"
    by (simp add: mppe_value_def)
  have l: "length (mppe_value type ?k) \<le> RADIUS_MAX_ATTR_LEN" using c(2) by (simp add: mppe_value_def RADIUS_MAX_ATTR_LEN_def sizeof_radius_attr_hdr_def)
  have "room_for msg (length (mppe_value type ?k))" using room c(2) by (simp add: room_for_def PTRDIFF_LIMIT_def mppe_value_def)
  from add_attr_ok [OF rep l this, of env RADIUS_ATTR_VENDOR_SPECIFIC] mem obtain msg' where
    m: "radius_msg_add_attr env msg RADIUS_ATTR_VENDOR_SPECIFIC (mppe_value type ?k) = Ok (Some (length (radius_content msg)), msg')"
    "radius_rep msg' h (as @ [(RADIUS_ATTR_VENDOR_SPECIFIC, mppe_value type ?k)])" by blast
  have "add_mppe_key env msg type salt auth secret key = Ok (True, msg')"
    unfolding add_mppe_key_def Let_def c(1) using mem v m(1) by simp
  with m(2) c show ?thesis by (intro exI [of _ msg'] exI [of _ ?k]) simp
qed

lemma vendor_walk_hit:
  assumes "bdata (rbuf msg) = pre @ [type, word_of_nat (2 + length k)] @ k @ post" "length k \<le> 253" "\<And>n. rmalloc env n"
  shows "vendor_walk env msg type (length pre) (2 + length k) = Some (Some (Some k))"
    "subtype \<noteq> type \<Longrightarrow> vendor_walk env msg subtype (length pre) (2 + length k) = Some None"
proof -
  have "bdata (rbuf msg) = pre @ enc_attr (type, k) @ post" "length (snd (type, k)) \<le> RADIUS_MAX_ATTR_LEN"
    using assms(1,2) by (simp_all add: enc_attr_def sizeof_radius_attr_hdr_def RADIUS_MAX_ATTR_LEN_def)
  note a = attr_access [OF this]
  show "vendor_walk env msg type (length pre) (2 + length k) = Some (Some (Some k))"
    using a(1,2) a(3) [of "length k"] assms(3) by (subst vendor_walk.simps) (simp add: sizeof_radius_attr_hdr_def)
  show "vendor_walk env msg subtype (length pre) (2 + length k) = Some None" if "subtype \<noteq> type"
    using a(1,2) that by (subst vendor_walk.simps) (simp add: sizeof_radius_attr_hdr_def vendor_walk.simps [of _ _ _ _ 0])
qed

lemma vendor_attr_skip:
  "bdata (rbuf msg) = pre @ enc_attrs (xs @ ys) @ post \<Longrightarrow> attrs_ok xs \<Longrightarrow> list_all (\<lambda>a. fst a \<noteq> RADIUS_ATTR_VENDOR_SPECIFIC) xs \<Longrightarrow>
    get_vendor_attr env msg vendor subtype (offsets (length pre) (xs @ ys)) = get_vendor_attr env msg vendor subtype (offsets (length (pre @ enc_attrs xs)) ys)"
proof (induction xs arbitrary: pre)
  case (Cons a xs)
  have e: "bdata (rbuf msg) = pre @ enc_attr a @ (enc_attrs (xs @ ys) @ post)" "length (snd a) \<le> RADIUS_MAX_ATTR_LEN" using Cons.prems by simp_all
  have "get_vendor_attr env msg vendor subtype (offsets (length (pre @ enc_attr a)) (xs @ ys)) =
      get_vendor_attr env msg vendor subtype (offsets (length ((pre @ enc_attr a) @ enc_attrs xs)) ys)"
    by (rule Cons.IH) (use Cons.prems in simp_all)
  then show ?case using attr_access(1,2) [OF e] Cons.prems(3) by (simp add: add.assoc)
qed simp

text \<open>One Microsoft attribute in front: it is the one looked for, or it is passed.\<close>

lemma vendor_attr_here:
  assumes "bdata (rbuf msg) = pre @ enc_attrs ((RADIUS_ATTR_VENDOR_SPECIFIC, mppe_value type k) # ys) @ post" "length k \<le> 242" "\<And>n. rmalloc env n"
  shows "get_vendor_attr env msg RADIUS_VENDOR_ID_MICROSOFT subtype (offsets (length pre) ((RADIUS_ATTR_VENDOR_SPECIFIC, mppe_value type k) # ys)) =
     (if subtype = type then Some (Some k)
      else get_vendor_attr env msg RADIUS_VENDOR_ID_MICROSOFT subtype (offsets (length pre + length (enc_attr (RADIUS_ATTR_VENDOR_SPECIFIC, mppe_value type k))) ys))"
proof -
  let ?a = "(RADIUS_ATTR_VENDOR_SPECIFIC, mppe_value type k)" and ?V = "WPA_PUT_BE32 RADIUS_VENDOR_ID_MICROSOFT"
  have ml: "length (mppe_value type k) = 6 + length k" "take 4 (mppe_value type k) = ?V" by (simp_all add: mppe_value_def)
  have e: "bdata (rbuf msg) = pre @ enc_attr ?a @ (enc_attrs ys @ post)" "length (snd ?a) \<le> RADIUS_MAX_ATTR_LEN"
    using assms(1,2) ml(1) by (simp_all add: RADIUS_MAX_ATTR_LEN_def sizeof_radius_attr_hdr_def)
  note a = attr_access [OF e]
  let ?p = "pre @ [RADIUS_ATTR_VENDOR_SPECIFIC, word_of_nat (sizeof_radius_attr_hdr + length (mppe_value type k))] @ ?V"
  have w: "bdata (rbuf msg) = ?p @ [type, word_of_nat (2 + length k)] @ k @ (enc_attrs ys @ post)"
    using e(1) by (simp add: enc_attr_def mppe_value_def)
  have pl: "length ?p = length pre + sizeof_radius_attr_hdr + 4" by (simp add: sizeof_radius_attr_hdr_def)
  have "length k \<le> 253" using assms(2) by simp
  note hit = vendor_walk_hit [OF w this assms(3), unfolded pl]
  have rd: "radius_read msg (length pre + sizeof_radius_attr_hdr) 4 = Some ?V" using a(3) [of 4] ml by simp
  have vid: "WPA_GET_BE32 ?V = Some RADIUS_VENDOR_ID_MICROSOFT" using get_put_be32 [of RADIUS_VENDOR_ID_MICROSOFT "[]"] by simp
  have left: "sizeof_radius_attr_hdr + length (mppe_value type k) - sizeof_radius_attr_hdr - 4 = 2 + length k" using ml(1) by simp
  show ?thesis using a(1,2) rd vid hit left ml(1) by simp
qed

text \<open>
  C28. The keys of an Access-Accept: what \<open>radius_msg_add_mppe_keys\<close> adds, \<open>radius_msg_get_ms_keys\<close>
  with the same secret and request recovers, both keys and in the right roles.
\<close>

theorem radius_mppe_roundtrip:
  assumes "radius_rep msg h as" "list_all (\<lambda>a. fst a \<noteq> RADIUS_ATTR_VENDOR_SPECIFIC) as" "hash16 env" "\<And>n. rmalloc env n"
    "length (radius_content msg) < 2 ^ 61" "radius_rep sent hs bs"
    "send_key \<noteq> []" "length send_key \<le> 239" "recv_key \<noteq> []" "length recv_key \<le> 239"
  shows "\<exists>msg'. radius_msg_add_mppe_keys env (Some salt) msg (drop 4 hs) secret send_key recv_key = Ok (True, msg')
    \<and> radius_msg_get_ms_keys env msg' (Some sent) secret = Some (Some \<lparr>mppe_send = Some send_key, mppe_recv = Some recv_key\<rparr>)"
proof -
  let ?VS = RADIUS_ATTR_VENDOR_SPECIFIC and ?S = RADIUS_VENDOR_ATTR_MS_MPPE_SEND_KEY and ?R = RADIUS_VENDOR_ATTR_MS_MPPE_RECV_KEY
  let ?salt = "salt OR 0x8000" and ?auth = "drop 4 hs"
  have auth: "length ?auth = 16" using assms(6) by (simp add: radius_rep_def sizeof_radius_hdr_def)
  have room1: "length (radius_content msg) < 2 ^ 62" using assms(5) by simp
  obtain m1 k1 where m1: "add_mppe_key env msg ?S ?salt ?auth secret send_key = Ok (True, m1)" "length k1 \<le> 242"
    "radius_rep m1 h (as @ [(?VS, mppe_value ?S k1)])" "decrypt_ms_key env k1 ?auth secret = Some (Some send_key)"
    using add_mppe_ok [OF assms(1,3,7,8) auth assms(4) room1] by blast
  have "length (radius_content m1) = length (radius_content msg) + 8 + length k1"
    using m1(3) assms(1) by (simp add: radius_rep_def mppe_value_def sizeof_radius_attr_hdr_def)
  then have room2: "length (radius_content m1) < 2 ^ 62" using assms(5) m1(2) by simp
  obtain m2 k2 where m2: "add_mppe_key env m1 ?R (?salt XOR 1) ?auth secret recv_key = Ok (True, m2)" "length k2 \<le> 242"
    "radius_rep m2 h ((as @ [(?VS, mppe_value ?S k1)]) @ [(?VS, mppe_value ?R k2)])" "decrypt_ms_key env k2 ?auth secret = Some (Some recv_key)"
    using add_mppe_ok [OF m1(3) assms(3,9,10) auth assms(4) room2] by blast
  let ?s = "(?VS, mppe_value ?S k1)" and ?r = "(?VS, mppe_value ?R k2)"
  obtain post where b: "bdata (rbuf m2) = h @ enc_attrs (as @ ?s # ?r # []) @ post" "length h = sizeof_radius_hdr" using rep_bdata [OF m2(3)] by auto
  have p: "attr_pos m2 = offsets (length h) (as @ [?s, ?r])" "attrs_ok as" using m2(3) b(2) by (simp_all add: radius_rep_def)
  let ?h1 = "h @ enc_attrs as"
  have s1: "get_vendor_attr env m2 RADIUS_VENDOR_ID_MICROSOFT t (attr_pos m2) = get_vendor_attr env m2 RADIUS_VENDOR_ID_MICROSOFT t (offsets (length ?h1) [?s, ?r])" for t
    unfolding p(1) using vendor_attr_skip [OF b(1) p(2) assms(2)] by simp
  have b1: "bdata (rbuf m2) = ?h1 @ enc_attrs (?s # [?r]) @ post" "bdata (rbuf m2) = (?h1 @ enc_attr ?s) @ enc_attrs (?r # []) @ post" using b(1) by simp_all
  have ne: "?R \<noteq> ?S" by (simp add: RADIUS_VENDOR_ATTR_MS_MPPE_RECV_KEY_def RADIUS_VENDOR_ATTR_MS_MPPE_SEND_KEY_def)
  have gs: "radius_msg_get_vendor_attr env m2 RADIUS_VENDOR_ID_MICROSOFT ?S = Some (Some k1)"
    unfolding radius_msg_get_vendor_attr_def s1 using vendor_attr_here [OF b1(1) m1(2) assms(4), of ?S] by (simp only: simp_thms if_True)
  have "get_vendor_attr env m2 RADIUS_VENDOR_ID_MICROSOFT ?R (offsets (length ?h1) [?s, ?r]) =
      get_vendor_attr env m2 RADIUS_VENDOR_ID_MICROSOFT ?R (offsets (length (?h1 @ enc_attr ?s)) [?r])"
    using vendor_attr_here [OF b1(1) m1(2) assms(4), of ?R] ne by (simp only: if_False length_append)
  also have "\<dots> = Some (Some k2)" using vendor_attr_here [OF b1(2) m2(2) assms(4), of ?R] by (simp only: simp_thms if_True)
  finally have gr: "radius_msg_get_vendor_attr env m2 RADIUS_VENDOR_ID_MICROSOFT ?R = Some (Some k2)"
    unfolding radius_msg_get_vendor_attr_def s1 .
  have "radius_msg_add_mppe_keys env (Some salt) msg ?auth secret send_key recv_key = Ok (True, m2)"
    using m1(1) m2(1) by (simp add: radius_msg_add_mppe_keys_def Let_def)
  moreover have "radius_msg_get_ms_keys env m2 (Some sent) secret = Some (Some \<lparr>mppe_send = Some send_key, mppe_recv = Some recv_key\<rparr>)"
    using gs gr rep_authenticator [OF assms(6)] m1(4) m2(4) assms(4) by (simp add: radius_msg_get_ms_keys_def)
  ultimately show ?thesis by blast
qed

theorem radius_mppe_roundtrip_witness:
  "\<exists>msg'. radius_msg_add_mppe_keys demo_radius (Some 1) demo_accept (drop 4 (1 # 5 # replicate 18 0)) [1, 2] [3, 4, 5] (replicate 32 6) = Ok (True, msg')
    \<and> radius_msg_get_ms_keys demo_radius msg' (Some demo_request) [1, 2] = Some (Some \<lparr>mppe_send = Some [3, 4, 5], mppe_recv = Some (replicate 32 6)\<rparr>)"
  by (rule radius_mppe_roundtrip [OF demo_msgs(2) _ demo_hash demo_memory _ demo_msgs(1)]) (simp_all add: demo_msgs(3))


section \<open>VLAN attributes\<close>

lemma be24_bound: "WPA_GET_BE24 d = Some v \<Longrightarrow> 0 \<le> uint v \<and> uint v < 2 ^ 24"
proof -
  assume "WPA_GET_BE24 d = Some v"
  then obtain a b c :: u8 where v: "v = push_bit 16 (ucast a) OR push_bit 8 (ucast b) OR ucast c"
    by (auto simp: WPA_GET_BE24_def bind_eq_Some_conv)
  have "take_bit 24 v = v"
    unfolding v by (rule bit_word_eqI) (auto simp: bit_take_bit_iff bit_or_iff bit_push_bit_iff bit_ucast_iff dest: bit_imp_le_length)
  then have "uint v = take_bit 24 (uint v)" by (metis unsigned_take_bit_eq)
  then show ?thesis by (metis take_bit_int_less_exp uint_ge_0)
qed

text \<open>The value of a decimal text of at most nine characters in front of the terminator.\<close>

lemma digits_bound: "0 \<le> digits_value s \<and> digits_value s < 10 ^ length (takeWhile is_digit s)"
proof -
  have "0 \<le> foldl (\<lambda>v c. 10 * v + (uint c - 48)) v cs \<and> foldl (\<lambda>v c. 10 * v + (uint c - 48)) v cs < (v + 1) * 10 ^ length cs"
    if "list_all is_digit cs" "0 \<le> v" for v and cs :: bytes
    using that
  proof (induction cs arbitrary: v)
    case (Cons c cs)
    have c: "0 \<le> uint c - 48" "uint c - 48 \<le> 9" using Cons.prems(1) by (simp_all add: is_digit_def word_le_def)
    then have "0 \<le> 10 * v + (uint c - 48)" using Cons.prems(2) by simp
    from Cons.IH [OF _ this] Cons.prems(1) have
      "0 \<le> foldl (\<lambda>v c. 10 * v + (uint c - 48)) v (c # cs)"
      "foldl (\<lambda>v c. 10 * v + (uint c - 48)) v (c # cs) < (10 * v + (uint c - 48) + 1) * 10 ^ length cs" by simp_all
    moreover have "(10 * v + (uint c - 48) + 1) * 10 ^ length cs \<le> (10 * (v + 1)) * 10 ^ length cs"
      using c by (intro mult_right_mono) simp_all
    moreover have "(10 * (v + 1)) * 10 ^ length cs = (v + 1) * 10 ^ length (c # cs)" by simp
    ultimately show ?case by linarith
  qed simp
  moreover have "list_all is_digit (takeWhile is_digit s)" unfolding list_all_iff using set_takeWhileD by fast
  ultimately show ?thesis unfolding digits_value_def by fastforce
qed

lemma digits_terminated: "digits_value (xs @ 0 # ys) = digits_value xs"
proof -
  have "takeWhile is_digit (xs @ 0 # ys) = takeWhile is_digit xs" by (induction xs) (simp_all add: is_digit_def)
  then show ?thesis by (simp add: digits_value_def)
qed

lemma atoi_bound:
  assumes "length d \<le> 9" shows "atoi (d @ 0 # rest) < 10 ^ 9"
proof -
  have b: "0 \<le> digits_value xs \<and> digits_value xs < 10 ^ 9" if "length xs \<le> 9" for xs
  proof -
    have "length (takeWhile is_digit xs) \<le> 9" using that length_takeWhile_le [of is_digit xs] by simp
    then have "(10 :: int) ^ length (takeWhile is_digit xs) \<le> 10 ^ 9" by (rule power_increasing) simp
    then show ?thesis using digits_bound [of xs] by linarith
  qed
  have d: "dropWhile is_space (d @ 0 # rest) = dropWhile is_space d @ 0 # rest"
    by (induction d) (simp_all add: is_space_def)
  have l: "length (dropWhile is_space d) \<le> 9" using assms length_dropWhile_le [of is_space d] by simp
  have "- (10 ^ 9) < decimal_value (d @ 0 # rest) \<and> decimal_value (d @ 0 # rest) < 10 ^ 9"
  proof (cases "dropWhile is_space d")
    case Nil
    have "decimal_value (d @ 0 # rest) = digits_value (0 # rest)" unfolding decimal_value_def d Nil by simp
    then show ?thesis using digits_terminated [of "[]" rest] by (simp add: digits_value_def)
  next
    case (Cons c cs)
    then have "decimal_value (d @ 0 # rest) = (if c = 45 then - digits_value cs else if c = 43 then digits_value cs else digits_value (c # cs))"
      using d digits_terminated [of cs rest] digits_terminated [of "c # cs" rest] by (simp add: decimal_value_def)
    moreover have "length cs \<le> 9" "length (c # cs) \<le> 9" using l Cons by simp_all
    ultimately show ?thesis using b [of cs] b [of "c # cs"] by (auto simp del: power_numeral)
  qed
  then show ?thesis unfolding atoi_def by (subst c_int_id) simp_all
qed

definition vlan_inv :: "nat \<Rightarrow> vlan_state \<Rightarrow> bool" where
  "vlan_inv n st \<longleftrightarrow> length (vlan_buf st) = sizeof_vlan_buf
     \<and> length (tunnels st) = RADIUS_TUNNEL_TAGS \<and> list_all (\<lambda>t. tun_vlanid t < 10 ^ 9) (tunnels st)
     \<and> length (tagged st) \<le> n \<and> list_all (\<lambda>v. 0 < v \<and> v < 2 ^ 24) (tagged st)
     \<and> 0 \<le> untagged st \<and> untagged st < 10 ^ 9"

text \<open>The copy of the text into the buffer, with its terminator.\<close>

lemma vlan_text:
  assumes "length buf = sizeof_vlan_buf" "length d < sizeof_vlan_buf"
  shows "\<exists>b b'. memcpy_at buf 0 d = Some b \<and> poke b (int (length d)) 0 = Some b' \<and> length b' = sizeof_vlan_buf \<and> atoi b' < 10 ^ 9"
proof -
  let ?b = "d @ drop (length d) buf"
  have "?b[length d := 0] = d @ 0 # drop (Suc (length d)) buf"
    using assms by (simp add: list_update_append drop_update_swap Cons_nth_drop_Suc [symmetric] del: drop_Suc)
  moreover have "length d \<le> 9" using assms(2) by (simp add: sizeof_vlan_buf_def)
  ultimately show ?thesis
    using assms atoi_bound [of d "drop (Suc (length d)) buf"] by (simp add: memcpy_at_def poke_def)
qed

lemma vlan_upd:
  assumes "vlan_inv n st" "tun_vlanid (f (tunnels st ! k)) < 10 ^ 9"
  shows "vlan_inv n (st\<lparr>tunnels := (tunnels st)[k := f (tunnels st ! k)]\<rparr>)"
proof -
  have "list_all (\<lambda>t. tun_vlanid t < 10 ^ 9) ((tunnels st)[k := f (tunnels st ! k)])"
    using assms unfolding vlan_inv_def list_all_iff using set_update_subset_insert by fastforce
  then show ?thesis using assms(1) by (simp add: vlan_inv_def)
qed

lemma vlan_attr_ok:
  assumes "vlan_inv n st" "data \<noteq> []"
  shows "\<exists>st'. vlan_attr n t data st = Some st' \<and> vlan_inv n st'"
proof -
  obtain x xs where d: "data = x # xs" using assms(2) by (cases data) auto
  define k where "k = (if unat x \<ge> RADIUS_TUNNEL_TAGS then 0 else unat x)"
  have k: "k < length (tunnels st)" using assms(1) by (simp add: vlan_inv_def k_def RADIUS_TUNNEL_TAGS_def)
  have tag: "peek (x # xs) 0 = Some x" by (simp add: peek_def)
  have be: "length xs = 3 \<Longrightarrow> \<exists>v. WPA_GET_BE24 xs = Some v" by (simp add: WPA_GET_BE24_def peek_def)
  have old: "tun_vlanid (tunnels st ! k) < 10 ^ 9" using assms(1) k by (simp add: vlan_inv_def list_all_length)
  have un: "vlan_inv n (st\<lparr>untagged := uint v\<rparr>)" if "WPA_GET_BE24 xs = Some v" for v :: u32
    using assms(1) be24_bound [OF that] by (simp add: vlan_inv_def)
  have tg: "vlan_inv n (st\<lparr>tagged := tagged st @ [uint v]\<rparr>)" if "uint v \<noteq> 0" "WPA_GET_BE24 xs = Some v" "length (tagged st) < n" for v
  proof -
    have p: "0 < uint v" using that(1) uint_ge_0 [of v] by linarith
    have "list_all (\<lambda>v. 0 < v \<and> v < 2 ^ 24) (tagged st @ [uint v])" using p be24_bound [OF that(2)] assms(1)
      unfolding vlan_inv_def list_all_iff set_append by (auto simp del: zero_less_iff_neq_zero)
    then show ?thesis using assms(1) that(3) by (simp only: vlan_inv_def) simp
  qed
  consider "t = RADIUS_ATTR_TUNNEL_TYPE \<or> t = RADIUS_ATTR_TUNNEL_MEDIUM_TYPE" | (group) "t = RADIUS_ATTR_TUNNEL_PRIVATE_GROUP_ID"
    | (egress) "t = RADIUS_ATTR_EGRESS_VLANID"
    | (other) "t \<notin> {RADIUS_ATTR_TUNNEL_TYPE, RADIUS_ATTR_TUNNEL_MEDIUM_TYPE, RADIUS_ATTR_TUNNEL_PRIVATE_GROUP_ID, RADIUS_ATTR_EGRESS_VLANID}"
    by blast
  then show ?thesis
  proof cases
    case 1
    have "vlan_inv n (st\<lparr>tunnels := (tunnels st)[k := (tunnels st ! k)\<lparr>tag_used := u, tun_type := v\<rparr>]\<rparr>)"
      "vlan_inv n (st\<lparr>tunnels := (tunnels st)[k := (tunnels st ! k)\<lparr>tag_used := u, tun_medium_type := v\<rparr>]\<rparr>)" for u v
      using vlan_upd [OF assms(1), of "\<lambda>tun. tun\<lparr>tag_used := u, tun_type := v\<rparr>" k]
        vlan_upd [OF assms(1), of "\<lambda>tun. tun\<lparr>tag_used := u, tun_medium_type := v\<rparr>" k] old by simp_all
    moreover have "vlan_attr n t data st = (if length xs \<noteq> 3 then Some st else WPA_GET_BE24 xs \<bind> (\<lambda>v. Some (st\<lparr>tunnels := (tunnels st)[k :=
        if t = RADIUS_ATTR_TUNNEL_TYPE then (tunnels st ! k)\<lparr>tag_used := tag_used (tunnels st ! k) + 1, tun_type := uint v\<rparr>
        else (tunnels st ! k)\<lparr>tag_used := tag_used (tunnels st ! k) + 1, tun_medium_type := uint v\<rparr>]\<rparr>)))"
      using 1 unfolding vlan_attr_def k_def d tag
      by (elim disjE; hypsubst) (simp_all add: Let_def sizeof_radius_attr_hdr_def RADIUS_ATTR_TUNNEL_TYPE_def RADIUS_ATTR_TUNNEL_MEDIUM_TYPE_def)
    ultimately show ?thesis using assms(1) be by (cases "length xs = 3") auto
  next
    case group
    define w where "w = (if unat x < RADIUS_TUNNEL_TAGS then drop 1 data else data)"
    have eq: "vlan_attr n t data st = (if length w \<ge> sizeof_vlan_buf then Some st
       else do {
         buf \<leftarrow> memcpy_at (vlan_buf st) 0 w;
         buf \<leftarrow> poke buf (int (length w)) 0;
         if atoi buf \<le> 0 then Some (st\<lparr>vlan_buf := buf\<rparr>)
         else Some (st\<lparr>vlan_buf := buf, tunnels := (tunnels st)[k :=
           (tunnels st ! k)\<lparr>tag_used := tag_used (tunnels st ! k) + 1, tun_vlanid := atoi buf\<rparr>]\<rparr>) })"
      unfolding vlan_attr_def w_def k_def d tag group
      by (simp add: Let_def RADIUS_ATTR_TUNNEL_PRIVATE_GROUP_ID_def RADIUS_ATTR_TUNNEL_TYPE_def RADIUS_ATTR_TUNNEL_MEDIUM_TYPE_def cong: if_cong)
    show ?thesis
    proof (cases "length w < sizeof_vlan_buf")
      case True
      then obtain b b' where b: "memcpy_at (vlan_buf st) 0 w = Some b" "poke b (int (length w)) 0 = Some b'" "length b' = sizeof_vlan_buf" "atoi b' < 10 ^ 9"
        using vlan_text [of "vlan_buf st" w] assms(1) by (auto simp: vlan_inv_def)
      have st: "vlan_inv n (st\<lparr>vlan_buf := b'\<rparr>)" using assms(1) b(3) by (simp add: vlan_inv_def)
      have "vlan_inv n (st\<lparr>vlan_buf := b', tunnels := (tunnels st)[k := (tunnels st ! k)\<lparr>tag_used := u, tun_vlanid := atoi b'\<rparr>]\<rparr>)" for u
        using vlan_upd [OF st, of "\<lambda>tun. tun\<lparr>tag_used := u, tun_vlanid := atoi b'\<rparr>" k] b(4) by simp
      then show ?thesis using st True b(1,2) unfolding eq by (simp add: Let_def)
    next
      case False
      then show ?thesis using assms(1) unfolding eq by simp
    qed
  next
    case egress
    have "\<exists>st'. (WPA_GET_BE24 xs \<bind> (\<lambda>v. let vlan_id = uint v in
         if vlan_id \<le> 0 then Some st
         else if unat x = 0x32 then Some (st\<lparr>untagged := vlan_id\<rparr>)
         else if unat x = 0x31 \<and> length (tagged st) < n then Some (st\<lparr>tagged := tagged st @ [vlan_id]\<rparr>)
         else Some st)) = Some st' \<and> vlan_inv n st'" if l: "length xs = 3"
    proof -
      obtain v where v: "WPA_GET_BE24 xs = Some v" using be [OF l] by blast
      then show ?thesis using assms(1) un [OF v] tg [OF _ v] by (simp add: Let_def)
    qed
    moreover have "vlan_attr n t data st = (if length xs \<noteq> 3 then Some st else WPA_GET_BE24 xs \<bind> (\<lambda>v. let vlan_id = uint v in
         if vlan_id \<le> 0 then Some st
         else if unat x = 0x32 then Some (st\<lparr>untagged := vlan_id\<rparr>)
         else if unat x = 0x31 \<and> length (tagged st) < n then Some (st\<lparr>tagged := tagged st @ [vlan_id]\<rparr>)
         else Some st))"
      unfolding vlan_attr_def d tag egress
      by (simp add: sizeof_radius_attr_hdr_def RADIUS_ATTR_EGRESS_VLANID_def RADIUS_ATTR_TUNNEL_PRIVATE_GROUP_ID_def
          RADIUS_ATTR_TUNNEL_TYPE_def RADIUS_ATTR_TUNNEL_MEDIUM_TYPE_def)
    ultimately show ?thesis using assms(1) by (cases "length xs = 3") simp_all
  next
    case other
    then show ?thesis using assms(1) unfolding vlan_attr_def d tag by (simp add: Let_def)
  qed
qed

lemma vlan_loop_ok:
  "bdata (rbuf msg) = pre @ enc_attrs as @ post \<Longrightarrow> attrs_ok as \<Longrightarrow> vlan_inv n st \<Longrightarrow>
    \<exists>st'. vlan_loop msg n (offsets (length pre) as) st = Some (True, st') \<and> vlan_inv n st'"
proof (induction as arbitrary: pre st)
  case (Cons a as)
  have e: "bdata (rbuf msg) = pre @ enc_attr a @ (enc_attrs as @ post)" "length (snd a) \<le> RADIUS_MAX_ATTR_LEN" using Cons.prems by simp_all
  note acc = attr_access [OF e]
  have IH: "vlan_inv n st \<Longrightarrow> \<exists>st'. vlan_loop msg n (offsets (length pre + length (enc_attr a)) as) st = Some (True, st') \<and> vlan_inv n st'" for st
    using Cons.IH [of "pre @ enc_attr a" st] Cons.prems by simp
  show ?case
  proof (cases "snd a = []")
    case True
    then show ?thesis using acc(2) IH [OF Cons.prems(3)] by (simp add: sizeof_radius_attr_hdr_def)
  next
    case False
    then obtain st' where st': "vlan_attr n (fst a) (snd a) st = Some st'" "vlan_inv n st'" using vlan_attr_ok [OF Cons.prems(3)] by blast
    have "\<not> sizeof_radius_attr_hdr + length (snd a) < 3" using False by (cases "snd a") (simp_all add: sizeof_radius_attr_hdr_def)
    then show ?thesis using acc(1,2) acc(3) [of "length (snd a)"] st'(1) IH [OF st'(2)] by simp
  qed
qed simp

text \<open>
  C30. VLAN assignment from an Access-Accept: on every message \<open>radius_msg_get_vlanid\<close> stays inside
  the message, inside its buffer of ten characters and inside the array of \<open>numtagged\<close> entries. The
  tagged VLANs found come first in the array, in ascending order, positive and within 24 bits, and the rest of
  the array is zero; the untagged VLAN is zero or positive and has at most nine digits; the return
  value tells whether there is any VLAN.
\<close>

theorem radius_vlanid_bounds:
  assumes "radius_rep msg h as"
  shows "\<exists>r u ts k. radius_msg_get_vlanid msg numtagged = Some (r, u, ts) \<and> length ts = numtagged \<and> k \<le> numtagged
    \<and> sorted (take k ts) \<and> list_all (\<lambda>v. 0 < v \<and> v < 2 ^ 24) (take k ts) \<and> drop k ts = replicate (numtagged - k) 0
    \<and> 0 \<le> u \<and> u < 10 ^ 9 \<and> r = (if u > 0 \<or> k > 0 then 1 else 0)"
proof -
  let ?st = "\<lparr>vlan_buf = replicate sizeof_vlan_buf 0, tunnels = replicate RADIUS_TUNNEL_TAGS tunnel_zero, untagged = 0, tagged = []\<rparr>"
  obtain post where b: "bdata (rbuf msg) = h @ enc_attrs as @ post" "length h = sizeof_radius_hdr" using rep_bdata [OF assms] .
  have ok: "attrs_ok as" and p: "attr_pos msg = offsets (length h) as" using assms b(2) by (simp_all add: radius_rep_def)
  have "vlan_inv numtagged ?st" by (simp add: vlan_inv_def list_all_iff tunnel_zero_def)
  from vlan_loop_ok [OF b(1) ok this] obtain st where st: "vlan_loop msg numtagged (attr_pos msg) ?st = Some (True, st)" "vlan_inv numtagged st"
    unfolding p by blast
  define u where "u = (case find tunnel_usable (tunnels st) of Some tun \<Rightarrow> tun_vlanid tun | None \<Rightarrow> untagged st)"
  have u: "0 \<le> u" "u < 10 ^ 9"
    using st(2) by (auto simp: u_def vlan_inv_def tunnel_usable_def find_Some_iff list_all_length split: option.splits)
  let ?k = "length (tagged st)" and ?ts = "sort (tagged st) @ replicate (numtagged - length (tagged st)) 0"
  have t: "length (tagged st) \<le> numtagged" "list_all (\<lambda>v. 0 < v \<and> v < 2 ^ 24) (tagged st)" using st(2) by (simp_all add: vlan_inv_def)
  have "radius_msg_get_vlanid msg numtagged = Some (if u > 0 \<or> tagged st \<noteq> [] then 1 else 0, u, ?ts)"
    unfolding radius_msg_get_vlanid_def st(1) by (simp add: Let_def u_def)
  moreover have "take ?k ?ts = sort (tagged st)" "drop ?k ?ts = replicate (numtagged - ?k) 0" by simp_all
  ultimately show ?thesis using t u
    by (intro exI [of _ "if u > 0 \<or> tagged st \<noteq> [] then 1 else 0"] exI [of _ u] exI [of _ ?ts] exI [of _ ?k]) (simp add: list_all_iff)
qed

text \<open>
  An Access-Accept with a tunnel (type VLAN, medium 802, group \<open>120\<close>), a group of ten digits under another tag,
  and two tagged VLANs.
\<close>

definition vlan_attrs :: "radius_attr list" where
  "vlan_attrs = [(64, [0, 0, 0, 13]), (65, [0, 0, 0, 6]), (81, [49, 50, 48]), (81, 1 # replicate 10 57), (56, [0x31, 0, 0, 7]), (56, [0x31, 0, 0, 3])]"

definition vlan_accept :: radius_msg where
  "vlan_accept = \<lparr>rbuf = \<lparr>bsize = 62, used = 62, bdata = 2 # 5 # replicate 18 0 @ enc_attrs vlan_attrs, bflags = 0\<rparr>,
     attr_pos = offsets sizeof_radius_hdr vlan_attrs, attr_size = 16\<rparr>"

lemma vlan_accept_rep: "radius_rep vlan_accept (2 # 5 # replicate 18 0) vlan_attrs"
proof -
  have "length (enc_attrs vlan_attrs) = 42" "attrs_ok vlan_attrs" by code_simp+
  then show ?thesis
    by (simp add: radius_rep_def vlan_accept_def wf_wpabuf_def radius_content_def wpabuf_content_def wpabuf_len_def wpabuf_head_def
        sizeof_radius_hdr_def PTRDIFF_LIMIT_def)
qed

theorem radius_vlanid_bounds_witness:
  "\<exists>k. radius_msg_get_vlanid vlan_accept 3 = Some (1, 120, [3, 7, 0]) \<and> k \<le> 3 \<and> sorted (take k [3 :: int, 7, 0])
    \<and> list_all (\<lambda>v. 0 < v \<and> v < 2 ^ 24) (take k [3 :: int, 7, 0]) \<and> drop k [3 :: int, 7, 0] = replicate (3 - k) 0"
proof -
  have "radius_msg_get_vlanid vlan_accept 3 = Some (1, 120, [3, 7, 0])" by code_simp
  with radius_vlanid_bounds [OF vlan_accept_rep, of 3] show ?thesis by auto
qed

end
