(* ===== verification/Md5.thy ===== *)
theory Md5
  imports Byte_Order
begin

unbundle bit_operations_syntax

text \<open>
  The MD5 hash of \<open>src/crypto/md5-internal.c\<close>, which consumes its input in pieces of any size, and the
  HMAC over it of \<open>src/crypto/md5.c\<close>. The array \<open>in\<close> is read as 32-bit words in little-endian order: the
  macro \<open>byteReverse\<close> makes that order on machines that have another one. Both are shown equal to
  their reference definitions on the whole input (RFC 1321, RFC 2104).
\<close>

section \<open>The transformation of a block\<close>

type_synonym md5_regs = "u32 \<times> u32 \<times> u32 \<times> u32"

record MD5Context =
  md5_buf :: md5_regs
  md5_bits :: "u32 \<times> u32"
  md5_in :: bytes

definition F1 :: "u32 \<Rightarrow> u32 \<Rightarrow> u32 \<Rightarrow> u32" where "F1 x y z = (z XOR (x AND (y XOR z)))"
definition F2 :: "u32 \<Rightarrow> u32 \<Rightarrow> u32 \<Rightarrow> u32" where "F2 x y z = F1 z x y"
definition F3 :: "u32 \<Rightarrow> u32 \<Rightarrow> u32 \<Rightarrow> u32" where "F3 x y z = (x XOR y XOR z)"
definition F4 :: "u32 \<Rightarrow> u32 \<Rightarrow> u32 \<Rightarrow> u32" where "F4 x y z = (y XOR (x OR NOT z))"

definition MD5STEP :: "(u32 \<Rightarrow> u32 \<Rightarrow> u32 \<Rightarrow> u32) \<Rightarrow> u32 \<Rightarrow> u32 \<Rightarrow> u32 \<Rightarrow> u32 \<Rightarrow> u32 \<Rightarrow> nat \<Rightarrow> u32" where
  "MD5STEP f w x y z data s =
     (let w = w + (f x y z + data);
          w = push_bit s w OR drop_bit (32 - s) w in
      w + x)"

text \<open>
  The steps of a round: the word of the block, the constant and the rotation. A step changes the
  register \<open>a\<close>, \<open>d\<close>, \<open>c\<close>, \<open>b\<close> in turn; here the registers rotate instead.
\<close>

type_synonym md5_row = "nat \<times> u32 \<times> nat"

definition md5_round1 :: "md5_row list" where
  "md5_round1 =
    [(0, 0xd76aa478, 7), (1, 0xe8c7b756, 12), (2, 0x242070db, 17), (3, 0xc1bdceee, 22),
     (4, 0xf57c0faf, 7), (5, 0x4787c62a, 12), (6, 0xa8304613, 17), (7, 0xfd469501, 22),
     (8, 0x698098d8, 7), (9, 0x8b44f7af, 12), (10, 0xffff5bb1, 17), (11, 0x895cd7be, 22),
     (12, 0x6b901122, 7), (13, 0xfd987193, 12), (14, 0xa679438e, 17), (15, 0x49b40821, 22)]"

definition md5_round2 :: "md5_row list" where
  "md5_round2 =
    [(1, 0xf61e2562, 5), (6, 0xc040b340, 9), (11, 0x265e5a51, 14), (0, 0xe9b6c7aa, 20),
     (5, 0xd62f105d, 5), (10, 0x02441453, 9), (15, 0xd8a1e681, 14), (4, 0xe7d3fbc8, 20),
     (9, 0x21e1cde6, 5), (14, 0xc33707d6, 9), (3, 0xf4d50d87, 14), (8, 0x455a14ed, 20),
     (13, 0xa9e3e905, 5), (2, 0xfcefa3f8, 9), (7, 0x676f02d9, 14), (12, 0x8d2a4c8a, 20)]"

definition md5_round3 :: "md5_row list" where
  "md5_round3 =
    [(5, 0xfffa3942, 4), (8, 0x8771f681, 11), (11, 0x6d9d6122, 16), (14, 0xfde5380c, 23),
     (1, 0xa4beea44, 4), (4, 0x4bdecfa9, 11), (7, 0xf6bb4b60, 16), (10, 0xbebfbc70, 23),
     (13, 0x289b7ec6, 4), (0, 0xeaa127fa, 11), (3, 0xd4ef3085, 16), (6, 0x04881d05, 23),
     (9, 0xd9d4d039, 4), (12, 0xe6db99e5, 11), (15, 0x1fa27cf8, 16), (2, 0xc4ac5665, 23)]"

definition md5_round4 :: "md5_row list" where
  "md5_round4 =
    [(0, 0xf4292244, 6), (7, 0x432aff97, 10), (14, 0xab9423a7, 15), (5, 0xfc93a039, 21),
     (12, 0x655b59c3, 6), (3, 0x8f0ccc92, 10), (10, 0xffeff47d, 15), (1, 0x85845dd1, 21),
     (8, 0x6fa87e4f, 6), (15, 0xfe2ce6e0, 10), (6, 0xa3014314, 15), (13, 0x4e0811a1, 21),
     (4, 0xf7537e82, 6), (11, 0xbd3af235, 10), (2, 0x2ad7d2bb, 15), (9, 0xeb86d391, 21)]"

fun md5_steps :: "(u32 \<Rightarrow> u32 \<Rightarrow> u32 \<Rightarrow> u32) \<Rightarrow> u32 list \<Rightarrow> md5_row list \<Rightarrow> md5_regs \<Rightarrow> md5_regs" where
  "md5_steps f ws [] r = r"
| "md5_steps f ws ((i, k, s) # rows) (a, b, c, d) = md5_steps f ws rows (d, MD5STEP f a b c d (ws ! i + k) s, b, c)"

text \<open>\<open>(u32 *) ctx->in\<close>\<close>

fun le_words :: "bytes \<Rightarrow> u32 list" where
  "le_words (a # b # c # d # rest) =
     (push_bit 24 (ucast d) OR push_bit 16 (ucast c) OR push_bit 8 (ucast b) OR ucast a) # le_words rest"
| "le_words _ = []"

definition MD5Transform :: "md5_regs \<Rightarrow> bytes \<Rightarrow> md5_regs" where
  "MD5Transform buf inp =
     (let ws = le_words inp;
          r = md5_steps F1 ws md5_round1 buf;
          r = md5_steps F2 ws md5_round2 r;
          r = md5_steps F3 ws md5_round3 r;
          (a, b, c, d) = md5_steps F4 ws md5_round4 r;
          (a0, b0, c0, d0) = buf in
      (a0 + a, b0 + b, c0 + c, d0 + d))"

section \<open>Hashing\<close>

definition MD5Init :: MD5Context where
  "MD5Init = \<lparr>md5_buf = (0x67452301, 0xefcdab89, 0x98badcfe, 0x10325476), md5_bits = (0, 0), md5_in = replicate 64 0\<rparr>"

text \<open>The chunks of 64 bytes; the rest is copied to the front of \<open>in\<close>.\<close>

function md5_chunks :: "MD5Context \<Rightarrow> bytes \<Rightarrow> MD5Context" where
  "md5_chunks ctx buf =
     (if length buf \<ge> 64
      then md5_chunks (ctx\<lparr>md5_in := take 64 buf, md5_buf := MD5Transform (md5_buf ctx) (take 64 buf)\<rparr>) (drop 64 buf)
      else ctx\<lparr>md5_in := buf @ drop (length buf) (md5_in ctx)\<rparr>)"
  by auto
termination by (relation "measure (\<lambda>(ctx, buf). length buf)") auto

declare md5_chunks.simps [simp del]

text \<open>The length is an \<open>unsigned\<close>: of more data only the first \<open>length mod 2\<^sup>3\<^sup>2\<close> bytes are used.\<close>

definition MD5Update :: "MD5Context \<Rightarrow> bytes \<Rightarrow> MD5Context" where
  "MD5Update ctx data =
     (let len = word_of_nat (length data) :: u32;
          buf = take (unat len) data;
          t = fst (md5_bits ctx);
          lo = t + push_bit 3 len;
          hi = (if lo < t then snd (md5_bits ctx) + 1 else snd (md5_bits ctx)) + drop_bit 29 len;
          ctx = ctx\<lparr>md5_bits := (lo, hi)\<rparr>;
          t = unat (drop_bit 3 t AND 0x3f) in
      if t = 0 then md5_chunks ctx buf
      else if length buf < 64 - t then ctx\<lparr>md5_in := take t (md5_in ctx) @ buf @ drop (t + length buf) (md5_in ctx)\<rparr>
      else let inp = take t (md5_in ctx) @ take (64 - t) buf in
           md5_chunks (ctx\<lparr>md5_in := inp, md5_buf := MD5Transform (md5_buf ctx) inp\<rparr>) (drop (64 - t) buf))"

definition md5_digest :: "md5_regs \<Rightarrow> bytes" where
  "md5_digest r = (case r of (a, b, c, d) \<Rightarrow> WPA_PUT_LE32 a @ WPA_PUT_LE32 b @ WPA_PUT_LE32 c @ WPA_PUT_LE32 d)"

definition MD5Final :: "MD5Context \<Rightarrow> bytes" where
  "MD5Final ctx =
     (let used = unat (drop_bit 3 (fst (md5_bits ctx)) AND 0x3f);
          inp = take used (md5_in ctx) @ [0x80];
          count = 64 - 1 - used;
          (buf, inp) = (if count < 8 then (MD5Transform (md5_buf ctx) (inp @ replicate count 0), replicate 56 0)
                        else (md5_buf ctx, inp @ replicate (count - 8) 0));
          inp = inp @ WPA_PUT_LE32 (fst (md5_bits ctx)) @ WPA_PUT_LE32 (snd (md5_bits ctx)) in
      md5_digest (MD5Transform buf inp))"

text \<open>\<open>md5_vector\<close>; \<open>TEST_FAIL ()\<close> is 0 outside of test builds.\<close>

definition md5_vector_impl :: "bytes list \<Rightarrow> bytes option" where
  "md5_vector_impl addr = Some (MD5Final (fold (\<lambda>buf ctx. MD5Update ctx buf) addr MD5Init))"

definition k_pad :: "bytes \<Rightarrow> u8 \<Rightarrow> bytes" where
  "k_pad key x = map (\<lambda>b. b XOR x) (key @ replicate (64 - length key) 0)"

definition hmac_md5_vector :: "bytes \<Rightarrow> bytes list \<Rightarrow> bytes option" where
  "hmac_md5_vector key addr =
     (if length addr > 5 then None
      else do {
        key \<leftarrow> (if length key > 64 then md5_vector_impl [key] else Some key);
        mac \<leftarrow> md5_vector_impl (k_pad key 0x36 # addr);
        md5_vector_impl [k_pad key 0x5c, mac] })"

definition hmac_md5_impl :: "bytes \<Rightarrow> bytes \<Rightarrow> bytes option" where
  "hmac_md5_impl key data = hmac_md5_vector key [data]"

section \<open>The reference definition\<close>

function md5_fold :: "md5_regs \<Rightarrow> bytes \<Rightarrow> md5_regs" where
  "md5_fold r m = (if length m < 64 then r else md5_fold (MD5Transform r (take 64 m)) (drop 64 m))"
  by auto
termination by (relation "measure (\<lambda>(r, m). length m)") auto

declare md5_fold.simps [simp del]

definition md5_pad :: "bytes \<Rightarrow> bytes" where
  "md5_pad m = m @ [0x80] @ replicate ((119 - length m mod 64) mod 64) 0 @ WPA_PUT_LE64 (word_of_nat (8 * length m))"

definition MD5 :: "bytes \<Rightarrow> bytes" where
  "MD5 m = md5_digest (md5_fold (0x67452301, 0xefcdab89, 0x98badcfe, 0x10325476) (md5_pad m))"

lemma md5_fold_short [simp]: "length m < 64 \<Longrightarrow> md5_fold r m = r"
  by (simp add: md5_fold.simps)

lemma md5_fold_block: "length b = 64 \<Longrightarrow> md5_fold r (b @ m) = md5_fold (MD5Transform r b) m"
  by (subst md5_fold.simps) simp

lemma md5_fold_append:
  "64 dvd length m \<Longrightarrow> md5_fold r (m @ n) = md5_fold (md5_fold r m) n"
proof (induction r m rule: md5_fold.induct)
  case (1 r m)
  show ?case
  proof (cases "length m < 64")
    case True
    then show ?thesis using 1(2) by (auto dest: dvd_imp_le)
  next
    case False
    then have "64 dvd length (drop 64 m)" using 1(2) by (auto intro: dvd_diff_nat)
    then have "md5_fold (MD5Transform r (take 64 m)) (drop 64 m @ n) = md5_fold (md5_fold (MD5Transform r (take 64 m)) (drop 64 m)) n"
      using 1(1) False by simp
    moreover have "md5_fold r (m @ n) = md5_fold (MD5Transform r (take 64 m)) (drop 64 m @ n)"
      using md5_fold_block [of "take 64 m" r "drop 64 m @ n"] False by (simp flip: append_assoc)
    moreover have "md5_fold r m = md5_fold (MD5Transform r (take 64 m)) (drop 64 m)"
      using md5_fold_block [of "take 64 m" r "drop 64 m"] False by simp
    ultimately show ?thesis by simp
  qed
qed

text \<open>The context after the bytes \<open>m\<close>.\<close>

definition full :: "bytes \<Rightarrow> nat" where
  "full m = 64 * (length m div 64)"

definition ctx_rep :: "MD5Context \<Rightarrow> bytes \<Rightarrow> bool" where
  "ctx_rep ctx m \<longleftrightarrow> md5_buf ctx = md5_fold (0x67452301, 0xefcdab89, 0x98badcfe, 0x10325476) m
     \<and> md5_bits ctx = (word_of_nat (8 * length m), word_of_nat (length m div 2 ^ 29))
     \<and> length (md5_in ctx) = 64 \<and> take (length m mod 64) (md5_in ctx) = drop (full m) m"

lemma unat_8n: "unat (word_of_nat (8 * n) :: u32) = 8 * (n mod 2 ^ 29)"
proof -
  have "unat (word_of_nat (8 * n) :: u32) = 8 * n mod (8 * 2 ^ 29)" by (simp add: unsigned_of_nat take_bit_eq_mod del: of_nat_mult)
  then show ?thesis by (simp only: mod_mult_mult1)
qed

lemma used_bytes: "unat (drop_bit 3 (word_of_nat (8 * n) :: u32) AND 0x3f) = n mod 64"
proof -
  have "unat (drop_bit 3 w AND 0x3f) = unat w div 8 mod 64" for w :: u32
  proof -
    have "drop_bit 3 w AND 0x3f = take_bit 6 (drop_bit 3 w)" by (simp add: take_bit_eq_mask mask_eq_exp_minus_1)
    then show ?thesis by (simp only: unsigned_take_bit_eq unat_drop_bit_eq) (simp add: take_bit_eq_mod drop_bit_eq_div)
  qed
  then have "unat (drop_bit 3 (word_of_nat (8 * n) :: u32) AND 0x3f) = 8 * (n mod 2 ^ 29) div 8 mod 64" by (simp only: unat_8n)
  then show ?thesis by (simp add: mod_mod_cancel)
qed

lemma ctx_init: "ctx_rep MD5Init []"
  by (simp add: ctx_rep_def MD5Init_def full_def)

lemma bits_add:
  fixes n d :: nat
  assumes "d < 2 ^ 32"
  shows "(word_of_nat (8 * n) :: u32) + push_bit 3 (word_of_nat d) = word_of_nat (8 * (n + d))"
    "(if (word_of_nat (8 * (n + d)) :: u32) < word_of_nat (8 * n) then word_of_nat (n div 2 ^ 29) + 1 else word_of_nat (n div 2 ^ 29))
       + drop_bit 29 (word_of_nat d) = (word_of_nat ((n + d) div 2 ^ 29) :: u32)"
proof -
  show "(word_of_nat (8 * n) :: u32) + push_bit 3 (word_of_nat d) = word_of_nat (8 * (n + d))"
    by (simp add: push_bit_eq_mult)
  let ?a = "n mod 2 ^ 29" and ?b = "d mod 2 ^ 29"
  have d29: "drop_bit 29 (word_of_nat d :: u32) = word_of_nat (d div 2 ^ 29)"
  proof (rule word_unat_eq_iff [THEN iffD2])
    have "unat (drop_bit 29 (word_of_nat d :: u32)) = d div 2 ^ 29"
      using assms by (simp only: unsigned_drop_bit_eq) (simp add: unsigned_of_nat take_bit_eq_mod drop_bit_eq_div)
    moreover have "d div 2 ^ 29 < 2 ^ 32" using assms by (simp add: less_mult_imp_div_less)
    ultimately show "unat (drop_bit 29 (word_of_nat d :: u32)) = unat (word_of_nat (d div 2 ^ 29) :: u32)"
      by (simp add: unsigned_of_nat take_bit_eq_mod)
  qed
  have c: "(word_of_nat (8 * (n + d)) :: u32) < word_of_nat (8 * n) \<longleftrightarrow> (n + d) mod 2 ^ 29 < ?a"
    unfolding word_less_nat_alt unat_8n by simp
  have m: "(n + d) mod 2 ^ 29 = (?a + ?b) mod 2 ^ 29" by (simp add: mod_add_eq)
  have l: "?a < 2 ^ 29" "?b < 2 ^ 29" by simp_all
  have "(n + d) div 2 ^ 29 = n div 2 ^ 29 + d div 2 ^ 29 + (?a + ?b) div 2 ^ 29" by (rule div_add1_eq)
  moreover have "(?a + ?b) div 2 ^ 29 = (if (n + d) mod 2 ^ 29 < ?a then 1 else 0)"
  proof (cases "?a + ?b < 2 ^ 29")
    case True
    then show ?thesis using m by simp
  next
    case False
    then have "?a + ?b = (?a + ?b - 2 ^ 29) + 2 ^ 29" "?a + ?b - 2 ^ 29 < 2 ^ 29" using l by linarith+
    then have "(?a + ?b) div 2 ^ 29 = 1" "(?a + ?b) mod 2 ^ 29 = ?a + ?b - 2 ^ 29"
      by (metis div_add_self2 div_less power_eq_0_iff zero_neq_numeral add_0, metis mod_add_self2 mod_less)
    moreover have "?a + ?b - 2 ^ 29 < ?a" using l False by linarith
    ultimately show ?thesis using m by simp
  qed
  ultimately show "(if (word_of_nat (8 * (n + d)) :: u32) < word_of_nat (8 * n) then word_of_nat (n div 2 ^ 29) + 1 else word_of_nat (n div 2 ^ 29))
       + drop_bit 29 (word_of_nat d) = (word_of_nat ((n + d) div 2 ^ 29) :: u32)"
    unfolding c d29 by simp
qed

lemma byte_of_nat:
  assumes "i + 8 \<le> LENGTH('a :: len)"
  shows "ucast (drop_bit i (word_of_nat k :: 'a word)) = (word_of_nat (k div 2 ^ i) :: u8)"
proof (rule word_unat_eq_iff [THEN iffD2])
  have "take_bit 8 (drop_bit i (take_bit LENGTH('a) k)) = take_bit 8 (drop_bit i k)"
    using assms by (intro bit_eqI) (auto simp: bit_simps)
  then show "unat (ucast (drop_bit i (word_of_nat k :: 'a word)) :: u8) = unat (word_of_nat (k div 2 ^ i) :: u8)"
    by (simp only: unsigned_ucast_eq unat_drop_bit_eq unsigned_of_nat) (simp add: drop_bit_eq_div)
qed

lemma low_byte_of_nat: "8 \<le> LENGTH('a :: len) \<Longrightarrow> ucast (word_of_nat k :: 'a word) = (word_of_nat k :: u8)"
  using byte_of_nat [of 0, where 'a = 'a] by simp

lemma le64_split: "WPA_PUT_LE64 (word_of_nat (8 * n)) = WPA_PUT_LE32 (word_of_nat (8 * n)) @ WPA_PUT_LE32 (word_of_nat (n div 2 ^ 29))"
proof -
  have "8 * n div 2 ^ 32 = n div 2 ^ 29" by (simp add: div_mult2_eq [of "8 * n" 8 "2 ^ 29", simplified])
  then have "(word_of_nat (n div 2 ^ 29) :: u32) = word_of_nat (8 * n div 2 ^ 32)" by simp
  moreover have "WPA_PUT_LE64 (word_of_nat k) = WPA_PUT_LE32 (word_of_nat k) @ WPA_PUT_LE32 (word_of_nat (k div 2 ^ 32))" for k
    unfolding WPA_PUT_LE64_def WPA_PUT_LE32_def
    by (simp add: ucast_and_ff byte_of_nat low_byte_of_nat flip: div_mult2_eq)
  ultimately show ?thesis by (simp only:)
qed

lemma full_append: "64 dvd length p \<Longrightarrow> full (p @ q) = length p + full q"
  by (auto simp: full_def div_add)

lemma full_short [simp]: "length q < 64 \<Longrightarrow> full q = 0"
  by (simp add: full_def)

lemma full_split: "take (full m) m @ drop (full m) m = m" "64 dvd length (take (full m) m)" "length (drop (full m) m) = length m mod 64"
proof -
  have "full m \<le> length m" by (simp add: full_def)
  then have "length (take (full m) m) = full m" by simp
  then show "64 dvd length (take (full m) m)" by (simp add: full_def)
  show "length (drop (full m) m) = length m mod 64" by (simp add: full_def minus_mult_div_eq_mod)
qed simp

lemma md5_chunks_ok:
  "length (md5_in ctx) = 64 \<Longrightarrow> md5_buf (md5_chunks ctx buf) = md5_fold (md5_buf ctx) buf \<and> md5_bits (md5_chunks ctx buf) = md5_bits ctx
     \<and> length (md5_in (md5_chunks ctx buf)) = 64 \<and> take (length buf mod 64) (md5_in (md5_chunks ctx buf)) = drop (full buf) buf"
proof (induction ctx buf rule: md5_chunks.induct)
  case (1 ctx buf)
  show ?case
  proof (cases "length buf \<ge> 64")
    case True
    let ?c = "ctx\<lparr>md5_in := take 64 buf, md5_buf := MD5Transform (md5_buf ctx) (take 64 buf)\<rparr>"
    have m: "length (drop 64 buf) mod 64 = length buf mod 64" using True by (simp add: le_mod_geq)
    have "full buf = 64 + full (drop 64 buf)" using full_append [of "take 64 buf" "drop 64 buf"] True by simp
    then have d: "drop (full (drop 64 buf)) (drop 64 buf) = drop (full buf) buf" by (simp add: add.commute)
    show ?thesis using 1(1) [OF True] True m d md5_fold.simps [of "md5_buf ctx" buf] by (subst (1 2 3 4) md5_chunks.simps) simp
  next
    case False
    then show ?thesis using 1(2) by (subst (1 2 3 4) md5_chunks.simps) simp
  qed
qed

lemma ctx_chunks:
  assumes "md5_buf ctx = md5_fold (0x67452301, 0xefcdab89, 0x98badcfe, 0x10325476) p" "64 dvd length p" "length (md5_in ctx) = 64"
    "md5_bits ctx = (word_of_nat (8 * length (p @ q)), word_of_nat (length (p @ q) div 2 ^ 29))"
  shows "ctx_rep (md5_chunks ctx q) (p @ q)"
proof -
  have "length (p @ q) mod 64 = length q mod 64" using assms(2) by auto
  then show ?thesis
    using md5_chunks_ok [OF assms(3), of q] assms md5_fold_append [OF assms(2), of _ q] full_append [OF assms(2), of q]
    by (simp add: ctx_rep_def)
qed

lemma md5_fold_rest: "64 dvd length p \<Longrightarrow> length q < 64 \<Longrightarrow> md5_fold r (p @ q) = md5_fold r p"
  by (simp add: md5_fold_append)

lemma update_ok:
  assumes rep: "ctx_rep ctx m" and len: "length data < 2 ^ 32"
  shows "ctx_rep (MD5Update ctx data) (m @ data)"
proof -
  let ?t = "length m mod 64" and ?i = "(0x67452301, 0xefcdab89, 0x98badcfe, 0x10325476)"
  define p where "p = take (full m) m"
  define q where "q = drop (full m) m"
  have pq: "m = p @ q" "64 dvd length p" "length q = ?t" using full_split [of m] by (simp_all add: p_def q_def)
  have r: "md5_buf ctx = md5_fold ?i p" "md5_bits ctx = (word_of_nat (8 * length m), word_of_nat (length m div 2 ^ 29))"
      "length (md5_in ctx) = 64" "take ?t (md5_in ctx) = q"
    using rep md5_fold_rest [OF pq(2), of q] pq(3) unfolding ctx_rep_def q_def [symmetric] by (simp_all add: pq(1) [symmetric])
  define b where "b = (word_of_nat (8 * length (m @ data)) :: u32, word_of_nat (length (m @ data) div 2 ^ 29) :: u32)"
  define c where "c = ctx\<lparr>md5_bits := b\<rparr>"
  have u: "MD5Update ctx data =
     (if ?t = 0 then md5_chunks c data
      else if length data < 64 - ?t then c\<lparr>md5_in := q @ data @ drop (?t + length data) (md5_in ctx)\<rparr>
      else md5_chunks (c\<lparr>md5_in := q @ take (64 - ?t) data, md5_buf := MD5Transform (md5_buf ctx) (q @ take (64 - ?t) data)\<rparr>) (drop (64 - ?t) data))"
    unfolding MD5Update_def Let_def r(2) fst_conv snd_conv used_bytes bits_add [OF len] r(4)
    using len by (simp add: c_def b_def r(4) unsigned_of_nat take_bit_eq_mod)
  show ?thesis
  proof (cases "?t = 0")
    case True
    then have "q = []" using pq(3) by simp
    then show ?thesis using u True ctx_chunks [of c p data] r pq by (simp add: c_def b_def)
  next
    case t: False
    show ?thesis
    proof (cases "length data < 64 - ?t")
      case True
      then have s: "length (q @ data) < 64" using pq(3) by simp
      have "length (m @ data) mod 64 = (?t + length data) mod 64" by (simp only: length_append mod_add_left_eq)
      then have k: "length (m @ data) mod 64 = length (q @ data)" using s pq(3) by simp
      have "md5_fold ?i (m @ data) = md5_fold ?i p" using md5_fold_rest [OF pq(2) s] unfolding pq(1) by simp
      moreover have "drop (full (m @ data)) (m @ data) = q @ data"
        using full_append [OF pq(2), of "q @ data"] s unfolding pq(1) by (simp del: length_append)
      moreover have "length (q @ data @ drop (?t + length data) (md5_in ctx)) = 64" using s r(3) pq(3) by simp
      ultimately show ?thesis using u t True r(1) k by (simp add: ctx_rep_def c_def b_def)
    next
      case False
      let ?h = "take (64 - ?t) data"
      have h: "length (q @ ?h) = 64" using False pq(3) t by (simp add: min_def)
      then have f: "md5_fold ?i (p @ q @ ?h) = MD5Transform (md5_fold ?i p) (q @ ?h)"
        using md5_fold_append [OF pq(2), of ?i "q @ ?h"] md5_fold_block [of "q @ ?h" _ "[]"] by simp
      have e: "(p @ q @ ?h) @ drop (64 - ?t) data = m @ data" using pq(1) by simp
      define c2 where "c2 = c\<lparr>md5_in := q @ ?h, md5_buf := MD5Transform (md5_buf ctx) (q @ ?h)\<rparr>"
      have "ctx_rep (md5_chunks c2 (drop (64 - ?t) data)) ((p @ q @ ?h) @ drop (64 - ?t) data)"
      proof (rule ctx_chunks)
        show "md5_buf c2 = md5_fold ?i (p @ q @ ?h)" by (simp add: c2_def r(1) f)
        show "64 dvd length (p @ q @ ?h)" using pq(2) h by (simp only: length_append) simp
        show "length (md5_in c2) = 64" using h by (simp add: c2_def)
        show "md5_bits c2 = (word_of_nat (8 * length ((p @ q @ ?h) @ drop (64 - ?t) data)), word_of_nat (length ((p @ q @ ?h) @ drop (64 - ?t) data) div 2 ^ 29))"
          unfolding e by (simp add: c2_def c_def b_def)
      qed
      then show ?thesis unfolding e using u t False by (simp add: c2_def)
    qed
  qed
qed

lemma final_ok:
  assumes rep: "ctx_rep ctx m"
  shows "MD5Final ctx = MD5 m"
proof -
  let ?t = "length m mod 64" and ?i = "(0x67452301, 0xefcdab89, 0x98badcfe, 0x10325476)"
  define p where "p = take (full m) m"
  define q where "q = drop (full m) m"
  define n where "n = WPA_PUT_LE64 (word_of_nat (8 * length m))"
  have pq: "m = p @ q" "64 dvd length p" "length q = ?t" using full_split [of m] by (simp_all add: p_def q_def)
  have r: "md5_buf ctx = md5_fold ?i p" "md5_bits ctx = (word_of_nat (8 * length m), word_of_nat (length m div 2 ^ 29))"
      "take ?t (md5_in ctx) = q"
    using rep md5_fold_rest [OF pq(2), of q] pq(3) unfolding ctx_rep_def q_def [symmetric] by (simp_all add: pq(1) [symmetric])
  have n: "WPA_PUT_LE32 (word_of_nat (8 * length m)) @ WPA_PUT_LE32 (word_of_nat (length m div 536870912)) = n"
    using le64_split [of "length m"] by (simp add: n_def del: of_nat_mult)
  have n8: "length n = 8" by (simp add: n_def WPA_PUT_LE64_def)
  have pad: "md5_fold ?i (md5_pad m) = md5_fold (md5_fold ?i p) (q @ [0x80] @ replicate ((119 - ?t) mod 64) 0 @ n)"
    unfolding md5_pad_def n_def [symmetric] by (subst (1) pq(1)) (simp add: md5_fold_append [OF pq(2)])
  have t: "?t < 64" by simp
  show ?thesis
  proof (cases "64 - 1 - ?t < 8")
    case True
    then have k: "(119 - ?t) mod 64 = (63 - ?t) + 56" by simp
    have "md5_fold (md5_fold ?i p) (q @ [0x80] @ replicate ((119 - ?t) mod 64) 0 @ n)
        = md5_fold (md5_fold ?i p) ((q @ [0x80] @ replicate (63 - ?t) 0) @ (replicate 56 0 @ n) @ [])"
      unfolding k replicate_add by simp
    also have "\<dots> = MD5Transform (MD5Transform (md5_fold ?i p) (q @ [0x80] @ replicate (63 - ?t) 0)) (replicate 56 0 @ n)"
      using pq(3) n8 t by (subst md5_fold_block, simp)+ simp
    finally show ?thesis using True pad
      by (simp add: MD5_def MD5Final_def Let_def used_bytes r n del: of_nat_mult)
  next
    case False
    then have "119 - ?t = (64 - 1 - ?t - 8) + 64" "64 - 1 - ?t - 8 < 64" by linarith+
    then have k: "(119 - ?t) mod 64 = 64 - 1 - ?t - 8" by (metis mod_add_self2 mod_less)
    have "md5_fold (md5_fold ?i p) (q @ [0x80] @ replicate ((119 - ?t) mod 64) 0 @ n)
        = MD5Transform (md5_fold ?i p) (q @ [0x80] @ replicate (64 - 1 - ?t - 8) 0 @ n)"
      unfolding k using md5_fold_block [of "q @ [0x80] @ replicate (64 - 1 - ?t - 8) 0 @ n" _ "[]"] pq(3) n8 False by simp
    then show ?thesis using False pad
      by (simp add: MD5_def MD5Final_def Let_def used_bytes r n del: of_nat_mult)
  qed
qed

lemma updates_ok:
  "ctx_rep ctx m \<Longrightarrow> list_all (\<lambda>d. length d < 2 ^ 32) addr \<Longrightarrow> ctx_rep (fold (\<lambda>buf ctx. MD5Update ctx buf) addr ctx) (m @ concat addr)"
proof (induction addr arbitrary: ctx m)
  case (Cons d addr)
  then show ?case using Cons.IH [OF update_ok [of ctx m d]] by simp
qed simp

lemma md5_vector_ok: "list_all (\<lambda>d. length d < 2 ^ 32) addr \<Longrightarrow> md5_vector_impl addr = Some (MD5 (concat addr))"
  using final_ok [OF updates_ok [OF ctx_init]] by (simp add: md5_vector_impl_def)

lemma length_MD5 [simp]: "length (MD5 m) = 16"
  by (simp add: MD5_def md5_digest_def WPA_PUT_LE32_def split: prod.split)

text \<open>HMAC (RFC 2104) over MD5.\<close>

definition HMAC_MD5 :: "bytes \<Rightarrow> bytes \<Rightarrow> bytes" where
  "HMAC_MD5 key m =
     (let k0 = (if length key > 64 then MD5 key else key);
          k = k0 @ replicate (64 - length k0) 0 in
      MD5 (map (\<lambda>b. b XOR 0x5c) k @ MD5 (map (\<lambda>b. b XOR 0x36) k @ m)))"

lemma hmac_md5_vector_ok:
  assumes "length key < 2 ^ 32" "list_all (\<lambda>d. length d < 2 ^ 32) addr" "length addr \<le> 5"
  shows "hmac_md5_vector key addr = Some (HMAC_MD5 key (concat addr))"
proof -
  define k0 where "k0 = (if length key > 64 then MD5 key else key)"
  have k: "(if length key > 64 then md5_vector_impl [key] else Some key) = Some k0"
    using md5_vector_ok [of "[key]"] assms(1) by (simp add: k0_def)
  have l: "length (k_pad k0 x) = 64" for x by (simp add: k_pad_def k0_def)
  have "md5_vector_impl (k_pad k0 0x36 # addr) = Some (MD5 (k_pad k0 0x36 @ concat addr))"
    using md5_vector_ok [of "k_pad k0 0x36 # addr"] assms(2) l by simp
  moreover have "md5_vector_impl [k_pad k0 0x5c, d] = Some (MD5 (k_pad k0 0x5c @ d))" if "length d = 16" for d
    using md5_vector_ok [of "[k_pad k0 0x5c, d]"] l that by simp
  ultimately show ?thesis using assms(3) k by (simp add: hmac_md5_vector_def HMAC_MD5_def k_pad_def k0_def Let_def)
qed

text \<open>The digest of the text abc (RFC 1321, A.5), round by round.\<close>

definition abc_words :: "u32 list" where
  "abc_words = [0x80636261, 0, 0, 0, 0, 0, 0, 0, 0, 0, 0, 0, 0, 0, 24, 0]"

lemma abc_rounds:
  "md5_steps F1 abc_words md5_round1 (0x67452301, 0xefcdab89, 0x98badcfe, 0x10325476) = (3718887846, 1924133600, 3818292587, 2701465749)"
  "md5_steps F2 abc_words md5_round2 (3718887846, 1924133600, 3818292587, 2701465749) = (2030729211, 1919107795, 2787673258, 2672289016)"
  "md5_steps F3 abc_words md5_round3 (2030729211, 1919107795, 2787673258, 2672289016) = (2133741691, 2079037184, 2410570649, 2581161885)"
  "md5_steps F4 abc_words md5_round4 (2133741691, 2079037184, 2410570649, 2581161885) = (822795919, 3229755059, 3833903576, 1649249458)"
  by code_simp+

lemma abc_pad: "md5_pad [0x61, 0x62, 0x63] = [0x61, 0x62, 0x63, 0x80] @ replicate 52 0 @ [24, 0, 0, 0, 0, 0, 0, 0]"
  by code_simp

lemma abc_le_words: "le_words ([0x61, 0x62, 0x63, 0x80] @ replicate 52 0 @ [24, 0, 0, 0, 0, 0, 0, 0]) = abc_words"
  by code_simp

lemma MD5_abc: "MD5 [0x61, 0x62, 0x63] = [0x90, 0x01, 0x50, 0x98, 0x3c, 0xd2, 0x4f, 0xb0, 0xd6, 0x96, 0x3f, 0x7d, 0x28, 0xe1, 0x7f, 0x72]"
proof -
  have "MD5Transform (0x67452301, 0xefcdab89, 0x98badcfe, 0x10325476) ([0x61, 0x62, 0x63, 0x80] @ replicate 52 0 @ [24, 0, 0, 0, 0, 0, 0, 0]) = (0x67452301 + 822795919, 0xefcdab89 + 3229755059, 0x98badcfe + 3833903576, 0x10325476 + 1649249458)"
    by (simp only: MD5Transform_def Let_def abc_le_words abc_rounds prod.case)
  then have "md5_fold (0x67452301, 0xefcdab89, 0x98badcfe, 0x10325476) (md5_pad [0x61, 0x62, 0x63]) = (0x67452301 + 822795919, 0xefcdab89 + 3229755059, 0x98badcfe + 3833903576, 0x10325476 + 1649249458)"
    unfolding abc_pad using md5_fold_block [of "[0x61, 0x62, 0x63, 0x80] @ replicate 52 0 @ [24, 0, 0, 0, 0, 0, 0, 0]" _ "[]"] by simp
  then show ?thesis unfolding MD5_def by (simp only: md5_digest_def prod.case) code_simp
qed

text \<open>
  C24: \<open>md5_vector\<close> computes the MD5 digest (RFC 1321: padding and the folding of the blocks) of the
  concatenation of its elements, however the data is cut into elements of less than 4 GiB.
\<close>

theorem md5_vector_digest:
  assumes "list_all (\<lambda>d. length d < 2 ^ 32) addr"
  shows "md5_vector_impl addr = Some (MD5 (concat addr))"
  using assms by (rule md5_vector_ok)

theorem md5_vector_digest_witness:
  "md5_vector_impl [[0x61], [], [0x62, 0x63]] =
     Some [0x90, 0x01, 0x50, 0x98, 0x3c, 0xd2, 0x4f, 0xb0, 0xd6, 0x96, 0x3f, 0x7d, 0x28, 0xe1, 0x7f, 0x72]"
  using md5_vector_digest [of "[[0x61], [], [0x62, 0x63]]"] by (simp add: MD5_abc)

text \<open>
  C25: \<open>hmac_md5_vector\<close> computes HMAC-MD5 (RFC 2104) of the concatenation of its elements, for keys of
  any length below 4 GiB, and refuses more than five elements.
\<close>

theorem hmac_md5_vector_mac:
  assumes "length key < 2 ^ 32" "list_all (\<lambda>d. length d < 2 ^ 32) addr"
  shows "hmac_md5_vector key addr = (if length addr \<le> 5 then Some (HMAC_MD5 key (concat addr)) else None)"
  using hmac_md5_vector_ok [OF assms] by (simp add: hmac_md5_vector_def)

theorem hmac_md5_vector_mac_witness:
  "hmac_md5_vector (replicate 80 0xaa) [[1], [2, 3]] = Some (HMAC_MD5 (replicate 80 0xaa) [1, 2, 3]) \<and> hmac_md5_vector [7] [[], [], [], [], [], []] = None"
  using hmac_md5_vector_mac [of "replicate 80 0xaa" "[[1], [2, 3]]"] hmac_md5_vector_mac [of "[7]" "[[], [], [], [], [], []]"] by simp

end
