(* ===== verification/Radius_Md5.thy ===== *)
theory Radius_Md5
  imports Radius_Theorems Md5
begin

unbundle bit_operations_syntax

text \<open>
  RADIUS over the MD5 of the program: the hash parameters of \<open>radius_env\<close> are the functions of
  \<open>crypto/md5-internal.c\<close> and \<open>crypto/md5.c\<close>, and the checks of the RADIUS client are those of RFC 2865
  and RFC 2869. The data of a hash is passed in pieces by the code and as their concatenation by the
  model, which \<open>md5_vector_ok\<close> shows to be the same.
\<close>

definition md5_radius :: "(nat \<Rightarrow> bool) \<Rightarrow> (nat \<Rightarrow> bytes) \<Rightarrow> radius_env" where
  "md5_radius m j = \<lparr>rmalloc = m, rjunk = j, hmac_md5 = hmac_md5_impl, md5_vector = (\<lambda>d. md5_vector_impl [d])\<rparr>"

lemma length_MD5Final: "length (MD5Final ctx) = 16"
  by (simp add: MD5Final_def md5_digest_def WPA_PUT_LE32_def Let_def split: prod.split)

lemma md5_radius_hash16: "hash16 (md5_radius m j)"
  by (simp add: hash16_def md5_radius_def hmac_md5_impl_def hmac_md5_vector_def md5_vector_impl_def length_MD5Final)

lemma md5_radius_ops:
  "length d < 2 ^ 32 \<Longrightarrow> md5_vector (md5_radius m j) d = Some (MD5 d)"
  "length k < 2 ^ 32 \<Longrightarrow> length d < 2 ^ 32 \<Longrightarrow> hmac_md5 (md5_radius m j) k d = Some (HMAC_MD5 k d)"
  using md5_vector_ok [of "[d]"] hmac_md5_vector_ok [of k "[d]"] by (simp_all add: md5_radius_def hmac_md5_impl_def)

text \<open>
  The authenticity of a response with header \<open>h\<close> and attributes \<open>as\<close> to a request with the
  authenticator \<open>ra\<close>: one Message-Authenticator, the HMAC of the response with \<open>ra\<close> and with sixteen
  zeros in its own place, and the Response Authenticator MD5 (Code, ID, Length, ra, attributes, secret).
\<close>

definition rfc_authentic :: "bytes \<Rightarrow> bytes \<Rightarrow> bytes \<Rightarrow> radius_attr list \<Rightarrow> bool" where
  "rfc_authentic secret ra h as \<longleftrightarrow>
     (\<exists>xs v ys. as = xs @ (RADIUS_ATTR_MESSAGE_AUTHENTICATOR, v) # ys \<and> list_all (\<lambda>a. \<not> is_msg_auth a) (xs @ ys)
        \<and> v = HMAC_MD5 secret (take 4 h @ ra @ enc_attrs (xs @ (RADIUS_ATTR_MESSAGE_AUTHENTICATOR, replicate 16 0) # ys)))
   \<and> drop 4 h = MD5 (take 4 h @ ra @ enc_attrs as @ secret)"

lemma authentic_md5:
  assumes "length h = 20" "length ra = 16" "msg_auths_ok as" "length secret < 2 ^ 30" "length (enc_attrs as) < 2 ^ 30"
  shows "authentic (md5_radius m j) secret ra h as \<longleftrightarrow> rfc_authentic secret ra h as"
proof -
  have l: "length (MD5 x) = 16" "length (HMAC_MD5 k x) = 16" for k x by (simp_all add: HMAC_MD5_def Let_def)
  have "length (take 4 h @ ra @ enc_attrs as @ secret) < 2 ^ 32" using assms by simp
  from md5_radius_ops(1) [OF this] have 1: "(\<exists>d. md5_vector (md5_radius m j) (take 4 h @ ra @ enc_attrs as @ secret) = Some d \<and> take 16 d = drop 4 h)
      \<longleftrightarrow> drop 4 h = MD5 (take 4 h @ ra @ enc_attrs as @ secret)" using l by auto
  have 2: "(\<exists>mm. hmac_md5 (md5_radius m j) secret (msg_auth_input h ra xs ys) = Some mm \<and> take 16 mm = v)
      \<longleftrightarrow> v = HMAC_MD5 secret (take 4 h @ ra @ enc_attrs (xs @ (RADIUS_ATTR_MESSAGE_AUTHENTICATOR, replicate 16 0) # ys))"
    if as: "as = xs @ (RADIUS_ATTR_MESSAGE_AUTHENTICATOR, v) # ys" for xs v ys
  proof -
    have "length v = 16" using assms(3) as by (simp add: msg_auths_ok_def)
    then have "length (msg_auth_input h ra xs ys) < 2 ^ 32"
      using assms as by (simp add: msg_auth_input_def MD5_MAC_LEN_def)
    from md5_radius_ops(2) [OF _ this, of secret m j] show ?thesis using assms(4) l by (auto simp: msg_auth_input_def MD5_MAC_LEN_def)
  qed
  show ?thesis unfolding authentic_def rfc_authentic_def 1 using 2 by blast
qed

text \<open>
  C4: with the MD5 of the program, \<open>radius_msg_verify\<close> ends on every message whose
  Message-Authenticators have values of 16 bytes and accepts it exactly when its Message-Authenticator is the HMAC-MD5 of RFC
  2869 and its Response Authenticator the MD5 of RFC 2865, under the shared secret and for the request.
\<close>

theorem radius_verify_rfc:
  assumes "radius_rep msg h as" "msg_auths_ok as" "radius_rep sent hs bs" "length secret < 2 ^ 30" "length (enc_attrs as) < 2 ^ 30"
  shows "\<exists>r msg'. radius_msg_verify (md5_radius m j) msg secret (Some sent) True = Ok (r, msg')
    \<and> (r = 0 \<longleftrightarrow> rfc_authentic secret (drop 4 hs) h as)"
proof -
  have "length h = 20" "length (drop 4 hs) = 16" using assms(1,3) by (simp_all add: radius_rep_def sizeof_radius_hdr_def)
  then show ?thesis using verify_authentic [OF assms(1-3), of "md5_radius m j" secret] authentic_md5 [of h "drop 4 hs" as secret m j] assms by auto
qed

theorem radius_verify_rfc_witness:
  "\<exists>msg h as msg'. radius_rep msg h as \<and> rfc_authentic [1, 2] (replicate 16 0) h as
     \<and> radius_msg_verify (md5_radius (\<lambda>_. True) (\<lambda>_. [])) msg [1, 2] (Some demo_request) True = Ok (0, msg')"
proof -
  let ?env = "md5_radius (\<lambda>_. True) (\<lambda>_. [])" and ?ra = "replicate 16 (0 :: u8)" and ?MA = RADIUS_ATTR_MESSAGE_AUTHENTICATOR
  have mem: "rmalloc ?env n" for n by (simp add: md5_radius_def)
  have ra: "drop 4 (1 # 5 # replicate 18 (0::u8)) = ?ra" by (simp add: numeral_eq_Suc)
  obtain msg h v where f: "length v = 16" "radius_rep msg h [(?MA, v)]" "authentic ?env [1, 2] ?ra h [(?MA, v)]"
    using finish_srv_ok [OF demo_msgs(2) _ _ mem md5_radius_hash16, of ?ra "[1, 2]"] demo_msgs(3) by auto
  have "authentic ?env [1, 2] ?ra h [(?MA, v)] = rfc_authentic [1, 2] ?ra h [(?MA, v)]"
    using f(1,2) by (intro authentic_md5) (simp_all add: radius_rep_def sizeof_radius_hdr_def msg_auths_ok_def sizeof_radius_attr_hdr_def)
  then have a: "rfc_authentic [1, 2] ?ra h [(?MA, v)]" using f(3) by simp
  then show ?thesis
    using radius_verify_rfc [OF f(2) _ demo_msgs(1), of "[1, 2]" "\<lambda>_. True" "\<lambda>_. []"] f(1,2) ra
    by (auto simp: msg_auths_ok_def sizeof_radius_attr_hdr_def)
qed

end
