(* ===== verification/Eapol_Auth.thy ===== *)
theory Eapol_Auth
  imports Eap_Identity Radius
begin

unbundle bit_operations_syntax

text \<open>
  The IEEE 802.1X authenticator of \<open>src/eapol_auth/eapol_auth_sm.c\<close>: six state machines on one
  structure, the driver \<open>eapol_sm_step_run\<close> that interleaves them with the EAP authenticator,
  timers, creation and control operations.

  Conventions. The EAP authenticator is the nested field \<open>eap\<close>, its interface variables are
  \<open>eap_if (eap sm)\<close>. A callback into the access point is recorded in the ghost field \<open>outs\<close>
  (newest first); \<open>abort_auth\<close>, which writes back into the machine, has the effect of
  \<open>ieee802_1x_abort_auth\<close>. The answers of \<open>sta_entry_alive\<close> come from the environment, numbered
  by the ghost field \<open>calls\<close>. Log messages and the remediation flag handed to \<open>finished\<close> are
  left out. The enumerations that \<open>os_zalloc\<close> leaves at a value no enumerator has get a
  constructor for it.
\<close>

section \<open>State\<close>

datatype PortTypes = PortTypes_zero | ForceUnauthorized | ForceAuthorized | Auto

datatype PortState = PortState_zero | Unauthorized | Authorized

datatype ControlledDirection = Both | In

datatype auth_pae =
    AUTH_PAE_INITIALIZE | AUTH_PAE_DISCONNECTED | AUTH_PAE_CONNECTING | AUTH_PAE_AUTHENTICATING
  | AUTH_PAE_AUTHENTICATED | AUTH_PAE_ABORTING | AUTH_PAE_HELD | AUTH_PAE_FORCE_AUTH
  | AUTH_PAE_FORCE_UNAUTH | AUTH_PAE_RESTART

datatype be_auth =
    BE_AUTH_REQUEST | BE_AUTH_RESPONSE | BE_AUTH_SUCCESS | BE_AUTH_FAIL | BE_AUTH_TIMEOUT
  | BE_AUTH_IDLE | BE_AUTH_INITIALIZE | BE_AUTH_IGNORE

datatype reauth_timer = REAUTH_TIMER_INITIALIZE | REAUTH_TIMER_REAUTHENTICATE

datatype auth_key_tx = AUTH_KEY_TX_NO_KEY_TRANSMIT | AUTH_KEY_TX_KEY_TRANSMIT

datatype key_rx = KEY_RX_NO_KEY_RECEIVE | KEY_RX_KEY_RECEIVE

datatype ctrl_dir = CTRL_DIR_FORCE_BOTH | CTRL_DIR_IN_OR_BOTH

datatype eapol_event = EAPOL_AUTH_SM_CHANGE | EAPOL_AUTH_REAUTHENTICATE

text \<open>The callbacks, and the registrations with the event loop.\<close>

datatype eapol_out =
    Set_Port bool
  | Finished bool bool
  | Eapol_Send bytes
  | Aaa_Send bytes
  | Abort_Auth
  | Sta_Disconnect
  | Tx_Key
  | Eapol_Event eapol_event
  | Step_Timeout
  | Tick_Timeout
  | Tick_Cancel

definition EAPOL_SM_PREAUTH :: u32 where "EAPOL_SM_PREAUTH = 1"
definition EAPOL_SM_WAIT_START :: u32 where "EAPOL_SM_WAIT_START = 2"
definition EAPOL_SM_USES_WPA :: u32 where "EAPOL_SM_USES_WPA = 4"
definition EAPOL_SM_FROM_PMKSA_CACHE :: u32 where "EAPOL_SM_FROM_PMKSA_CACHE = 8"

definition AUTH_PAE_DEFAULT_quietPeriod :: u32 where "AUTH_PAE_DEFAULT_quietPeriod = 60"
definition AUTH_PAE_DEFAULT_reAuthMax :: u32 where "AUTH_PAE_DEFAULT_reAuthMax = 2"
definition BE_AUTH_DEFAULT_serverTimeout :: u32 where "BE_AUTH_DEFAULT_serverTimeout = 30"

record 'p eapol_state_machine =
  aWhile :: int
  quietWhile :: int
  reAuthWhen :: int
  authAbort :: bool
  authFail :: bool
  authPortStatus :: PortState
  authStart :: bool
  authTimeout :: bool
  authSuccess :: bool
  eapolEap :: bool
  initialize :: bool
  keyDone :: bool
  keyRun :: bool
  keyTxEnabled :: bool
  portControl :: PortTypes
  portValid :: bool
  reAuthenticate :: bool
  auth_pae_state :: auth_pae
  eapolLogoff :: bool
  eapolStart :: bool
  portMode :: PortTypes
  reAuthCount :: u32
  quietPeriod :: u32
  reAuthMax :: u32
  authEntersConnecting :: u32
  authEapLogoffsWhileConnecting :: u32
  authAuthSuccessesWhileAuthenticating :: u32
  authAuthTimeoutsWhileAuthenticating :: u32
  authAuthFailWhileAuthenticating :: u32
  authAuthEapStartsWhileAuthenticating :: u32
  authAuthEapLogoffWhileAuthenticating :: u32
  authAuthReauthsWhileAuthenticated :: u32
  authAuthEapStartsWhileAuthenticated :: u32
  authAuthEapLogoffWhileAuthenticated :: u32
  be_auth_state :: be_auth
  serverTimeout :: u32
  backendResponses :: u32
  backendAccessChallenges :: u32
  backendOtherRequestsToSupplicant :: u32
  backendAuthSuccesses :: u32
  backendAuthFails :: u32
  reauth_timer_state :: reauth_timer
  reAuthPeriod :: u32
  reAuthEnabled :: bool
  auth_key_tx_state :: auth_key_tx
  key_rx_state :: key_rx
  rxKey :: bool
  ctrl_dir_state :: ctrl_dir
  adminControlledDirections :: ControlledDirection
  operControlledDirections :: ControlledDirection
  operEdge :: bool
  dot1xAuthEapolFramesRx :: u32
  dot1xAuthEapolFramesTx :: u32
  dot1xAuthEapolStartFramesRx :: u32
  dot1xAuthEapolLogoffFramesRx :: u32
  dot1xAuthEapolRespIdFramesRx :: u32
  dot1xAuthEapolRespFramesRx :: u32
  dot1xAuthEapolReqIdFramesTx :: u32
  dot1xAuthEapolReqFramesTx :: u32
  dot1xAuthInvalidEapolFramesRx :: u32
  dot1xAuthEapLengthErrorFramesRx :: u32
  dot1xAuthLastEapolFrameVersion :: u32
  sta_addr :: bytes
  flags :: u32
  radius_identifier :: int
  last_recv_radius :: "radius_msg option"
  last_eap_id :: u8
  eapol_identity :: "bytes option"
  eap_type_authsrv :: u8
  eap_type_supp :: u8
  radius_class :: "bytes list option"
  radius_cui :: "bytes option"
  acct_multi_session_id :: u64
  eap :: "'p eap_sm"
  initializing :: bool
  changed :: bool
  outs :: "eapol_out list"
  calls :: nat

text \<open>
  The environment: the EAP side, the answers of \<open>sta_entry_alive\<close>, whether the build has
  \<open>CONFIG_WEP\<close>, and the fields of \<open>struct eapol_auth_config\<close> that the machine reads.
\<close>

record 'p eapol_env =
  eap_side :: "'p eap_env"
  alive_at :: "nat \<Rightarrow> bool"
  config_wep :: bool
  eap_reauth_period :: int
  conf_wpa :: bool
  has_default_wep_key :: bool
  individual_wep_key_len :: int

definition on_eap :: "(eap_eapol_interface \<Rightarrow> eap_eapol_interface) \<Rightarrow> 'p eapol_state_machine \<Rightarrow> 'p eapol_state_machine" where
  "on_eap f sm = sm\<lparr>eap := on_if f (eap sm)\<rparr>"

abbreviation eif :: "'p eapol_state_machine \<Rightarrow> eap_eapol_interface" where
  "eif sm \<equiv> eap_if (eap sm)"

definition emit_out :: "eapol_out \<Rightarrow> 'p eapol_state_machine \<Rightarrow> 'p eapol_state_machine" where
  "emit_out e sm = sm\<lparr>outs := e # outs sm\<rparr>"

definition flag :: "u32 \<Rightarrow> 'p eapol_state_machine \<Rightarrow> bool" where
  "flag b sm \<longleftrightarrow> flags sm AND b \<noteq> 0"

section \<open>Procedures\<close>

definition eapol_auth_step :: "'p eapol_state_machine \<Rightarrow> 'p eapol_state_machine" where
  "eapol_auth_step sm = emit_out Step_Timeout sm"

definition eapol_auth_tx_canned_eap :: "bool \<Rightarrow> 'p eapol_state_machine \<Rightarrow> 'p eapol_state_machine" where
  "eapol_auth_tx_canned_eap success sm =
     (let sm = sm\<lparr>last_eap_id := last_eap_id sm + 1\<rparr>;
          msg = [if success then EAP_CODE_SUCCESS else EAP_CODE_FAILURE, last_eap_id sm]
                @ WPA_PUT_BE16 (word_of_nat sizeof_eap_hdr);
          sm = emit_out (Eapol_Send msg) sm in
      sm\<lparr>dot1xAuthEapolFramesTx := dot1xAuthEapolFramesTx sm + 1\<rparr>)"

definition eapol_auth_tx_req :: "'p eapol_state_machine \<Rightarrow> 'p eapol_state_machine ub" where
  "eapol_auth_tx_req sm =
     (case eapReqData (eif sm) of
        None \<Rightarrow> Some sm
      | Some msg \<Rightarrow>
        if length msg < sizeof_eap_hdr then Some sm
        else if flag EAPOL_SM_WAIT_START sm then Some sm
        else do {
          i \<leftarrow> eap_get_id msg;
          t \<leftarrow> eap_get_type msg;
          let sm = emit_out (Eapol_Send msg) (sm\<lparr>last_eap_id := i\<rparr>);
          let sm = sm\<lparr>dot1xAuthEapolFramesTx := dot1xAuthEapolFramesTx sm + 1\<rparr>;
          Some (if t = EAP_TYPE_IDENTITY
                then sm\<lparr>dot1xAuthEapolReqIdFramesTx := dot1xAuthEapolReqIdFramesTx sm + 1\<rparr>
                else sm\<lparr>dot1xAuthEapolReqFramesTx := dot1xAuthEapolReqFramesTx sm + 1\<rparr>) })"

definition ieee802_1x_abort_auth :: "'p eapol_state_machine \<Rightarrow> 'p eapol_state_machine" where
  "ieee802_1x_abort_auth sm =
     (let sm = emit_out Abort_Auth sm;
          sm = sm\<lparr>last_recv_radius := None\<rparr> in
      if eapTimeout (eif sm) then emit_out Sta_Disconnect (on_eap (\<lambda>i. i\<lparr>portEnabled := False\<rparr>) sm)
      else sm)"

section \<open>Authenticator PAE\<close>

text \<open>\<open>SM_ENTRY_MA\<close>: the change flag and the state of one of the machines.\<close>

definition pae_entry :: "auth_pae \<Rightarrow> bool \<Rightarrow> 'p eapol_state_machine \<Rightarrow> 'p eapol_state_machine" where
  "pae_entry st global sm =
     (if \<not> global \<or> auth_pae_state sm \<noteq> st then sm\<lparr>changed := True\<rparr> else sm)\<lparr>auth_pae_state := st\<rparr>"

definition pae_INITIALIZE :: "bool \<Rightarrow> 'p eapol_state_machine \<Rightarrow> 'p eapol_state_machine" where
  "pae_INITIALIZE global sm = (pae_entry AUTH_PAE_INITIALIZE global sm)\<lparr>portMode := Auto, keyRun := False\<rparr>"

definition pae_DISCONNECTED :: "bool \<Rightarrow> 'p eapol_state_machine \<Rightarrow> 'p eapol_state_machine" where
  "pae_DISCONNECTED global sm =
     (let from_initialize = (auth_pae_state sm = AUTH_PAE_INITIALIZE);
          sm = (if eapolLogoff sm then
                  if auth_pae_state sm = AUTH_PAE_CONNECTING
                  then sm\<lparr>authEapLogoffsWhileConnecting := authEapLogoffsWhileConnecting sm + 1\<rparr>
                  else if auth_pae_state sm = AUTH_PAE_AUTHENTICATED
                  then sm\<lparr>authAuthEapLogoffWhileAuthenticated := authAuthEapLogoffWhileAuthenticated sm + 1\<rparr>
                  else sm
                else sm);
          sm = (pae_entry AUTH_PAE_DISCONNECTED global sm)\<lparr>authPortStatus := Unauthorized\<rparr>;
          sm = (emit_out (Set_Port False) sm)\<lparr>reAuthCount := 0, eapolLogoff := False\<rparr> in
      if \<not> from_initialize then emit_out (Finished False (flag EAPOL_SM_PREAUTH sm)) sm else sm)"

definition pae_RESTART :: "bool \<Rightarrow> 'p eapol_state_machine \<Rightarrow> 'p eapol_state_machine" where
  "pae_RESTART global sm =
     (let sm = (if auth_pae_state sm = AUTH_PAE_AUTHENTICATED then
                  let sm = (if reAuthenticate sm
                            then sm\<lparr>authAuthReauthsWhileAuthenticated := authAuthReauthsWhileAuthenticated sm + 1\<rparr> else sm);
                      sm = (if eapolStart sm
                            then sm\<lparr>authAuthEapStartsWhileAuthenticated := authAuthEapStartsWhileAuthenticated sm + 1\<rparr> else sm) in
                  if eapolLogoff sm
                  then sm\<lparr>authAuthEapLogoffWhileAuthenticated := authAuthEapLogoffWhileAuthenticated sm + 1\<rparr> else sm
                else sm) in
      on_eap (\<lambda>i. i\<lparr>eapRestart := True\<rparr>) (pae_entry AUTH_PAE_RESTART global sm))"

definition pae_CONNECTING :: "bool \<Rightarrow> 'p eapol_state_machine \<Rightarrow> 'p eapol_state_machine" where
  "pae_CONNECTING global sm =
     (let sm = (if auth_pae_state sm \<noteq> AUTH_PAE_CONNECTING
                then sm\<lparr>authEntersConnecting := authEntersConnecting sm + 1\<rparr> else sm);
          sm = pae_entry AUTH_PAE_CONNECTING global sm in
      sm\<lparr>reAuthenticate := False, reAuthCount := reAuthCount sm + 1\<rparr>)"

definition pae_HELD :: "bool \<Rightarrow> 'p eapol_state_machine \<Rightarrow> 'p eapol_state_machine" where
  "pae_HELD global sm =
     (let sm = (if auth_pae_state sm = AUTH_PAE_AUTHENTICATING \<and> authFail sm
                then sm\<lparr>authAuthFailWhileAuthenticating := authAuthFailWhileAuthenticating sm + 1\<rparr> else sm);
          sm = (pae_entry AUTH_PAE_HELD global sm)\<lparr>authPortStatus := Unauthorized\<rparr>;
          sm = emit_out (Set_Port False) sm;
          sm = sm\<lparr>quietWhile := sint (quietPeriod sm), eapolLogoff := False\<rparr> in
      emit_out (Finished False (flag EAPOL_SM_PREAUTH sm)) sm)"

definition pae_AUTHENTICATED :: "bool \<Rightarrow> 'p eapol_state_machine \<Rightarrow> 'p eapol_state_machine" where
  "pae_AUTHENTICATED global sm =
     (let sm = (if auth_pae_state sm = AUTH_PAE_AUTHENTICATING \<and> authSuccess sm
                then sm\<lparr>authAuthSuccessesWhileAuthenticating := authAuthSuccessesWhileAuthenticating sm + 1\<rparr> else sm);
          sm = (pae_entry AUTH_PAE_AUTHENTICATED global sm)\<lparr>authPortStatus := Authorized\<rparr>;
          sm = (emit_out (Set_Port True) sm)\<lparr>reAuthCount := 0\<rparr> in
      emit_out (Finished True (flag EAPOL_SM_PREAUTH sm)) sm)"

definition pae_AUTHENTICATING :: "bool \<Rightarrow> 'p eapol_state_machine \<Rightarrow> 'p eapol_state_machine" where
  "pae_AUTHENTICATING global sm =
     (pae_entry AUTH_PAE_AUTHENTICATING global sm)\<lparr>eapolStart := False, authSuccess := False, authFail := False,
       authTimeout := False, authStart := True, keyRun := False, keyDone := False\<rparr>"

definition pae_ABORTING :: "bool \<Rightarrow> 'p eapol_state_machine \<Rightarrow> 'p eapol_state_machine" where
  "pae_ABORTING global sm =
     (let sm = (if auth_pae_state sm = AUTH_PAE_AUTHENTICATING then
                  let sm = (if authTimeout sm
                            then sm\<lparr>authAuthTimeoutsWhileAuthenticating := authAuthTimeoutsWhileAuthenticating sm + 1\<rparr> else sm);
                      sm = (if eapolStart sm
                            then sm\<lparr>authAuthEapStartsWhileAuthenticating := authAuthEapStartsWhileAuthenticating sm + 1\<rparr> else sm) in
                  if eapolLogoff sm
                  then sm\<lparr>authAuthEapLogoffWhileAuthenticating := authAuthEapLogoffWhileAuthenticating sm + 1\<rparr> else sm
                else sm) in
      (pae_entry AUTH_PAE_ABORTING global sm)\<lparr>authAbort := True, keyRun := False, keyDone := False\<rparr>)"

definition pae_FORCE_AUTH :: "bool \<Rightarrow> 'p eapol_state_machine \<Rightarrow> 'p eapol_state_machine" where
  "pae_FORCE_AUTH global sm =
     (let sm = (pae_entry AUTH_PAE_FORCE_AUTH global sm)\<lparr>authPortStatus := Authorized\<rparr>;
          sm = (emit_out (Set_Port True) sm)\<lparr>portMode := ForceAuthorized, eapolStart := False\<rparr> in
      eapol_auth_tx_canned_eap True sm)"

definition pae_FORCE_UNAUTH :: "bool \<Rightarrow> 'p eapol_state_machine \<Rightarrow> 'p eapol_state_machine" where
  "pae_FORCE_UNAUTH global sm =
     (let sm = (pae_entry AUTH_PAE_FORCE_UNAUTH global sm)\<lparr>authPortStatus := Unauthorized\<rparr>;
          sm = (emit_out (Set_Port False) sm)\<lparr>portMode := ForceUnauthorized, eapolStart := False\<rparr> in
      eapol_auth_tx_canned_eap False sm)"

definition sm_AUTH_PAE_Step :: "'p eapol_state_machine \<Rightarrow> 'p eapol_state_machine" where
  "sm_AUTH_PAE_Step sm =
     (if portControl sm = Auto \<and> portMode sm \<noteq> portControl sm \<or> initialize sm \<or> \<not> portEnabled (eif sm)
      then pae_INITIALIZE True sm
      else if portControl sm = ForceAuthorized \<and> portMode sm \<noteq> portControl sm \<and> \<not> (initialize sm \<or> \<not> portEnabled (eif sm))
      then pae_FORCE_AUTH True sm
      else if portControl sm = ForceUnauthorized \<and> portMode sm \<noteq> portControl sm \<and> \<not> (initialize sm \<or> \<not> portEnabled (eif sm))
      then pae_FORCE_UNAUTH True sm
      else case auth_pae_state sm of
        AUTH_PAE_INITIALIZE \<Rightarrow> pae_DISCONNECTED False sm
      | AUTH_PAE_DISCONNECTED \<Rightarrow> pae_RESTART False sm
      | AUTH_PAE_RESTART \<Rightarrow> if \<not> eapRestart (eif sm) then pae_CONNECTING False sm else sm
      | AUTH_PAE_HELD \<Rightarrow> if quietWhile sm = 0 then pae_RESTART False sm else sm
      | AUTH_PAE_CONNECTING \<Rightarrow>
          if eapolLogoff sm \<or> reAuthCount sm > reAuthMax sm then pae_DISCONNECTED False sm
          else if eapReq (eif sm) \<and> reAuthCount sm \<le> reAuthMax sm \<or> eapSuccess (eif sm) \<or> eapFail (eif sm)
          then pae_AUTHENTICATING False sm
          else sm
      | AUTH_PAE_AUTHENTICATED \<Rightarrow>
          if eapolStart sm \<or> reAuthenticate sm then pae_RESTART False sm
          else if eapolLogoff sm \<or> \<not> portValid sm then pae_DISCONNECTED False sm
          else sm
      | AUTH_PAE_AUTHENTICATING \<Rightarrow>
          if authSuccess sm \<and> portValid sm then pae_AUTHENTICATED False sm
          else if authFail sm \<or> keyDone sm \<and> \<not> portValid sm then pae_HELD False sm
          else if eapolStart sm \<or> eapolLogoff sm \<or> authTimeout sm then pae_ABORTING False sm
          else sm
      | AUTH_PAE_ABORTING \<Rightarrow>
          if eapolLogoff sm \<and> \<not> authAbort sm then pae_DISCONNECTED False sm
          else if \<not> eapolLogoff sm \<and> \<not> authAbort sm then pae_RESTART False sm
          else sm
      | AUTH_PAE_FORCE_AUTH \<Rightarrow> if eapolStart sm then pae_FORCE_AUTH False sm else sm
      | AUTH_PAE_FORCE_UNAUTH \<Rightarrow> if eapolStart sm then pae_FORCE_UNAUTH False sm else sm)"

section \<open>Backend authentication\<close>

definition be_entry :: "be_auth \<Rightarrow> bool \<Rightarrow> 'p eapol_state_machine \<Rightarrow> 'p eapol_state_machine" where
  "be_entry st global sm =
     (if \<not> global \<or> be_auth_state sm \<noteq> st then sm\<lparr>changed := True\<rparr> else sm)\<lparr>be_auth_state := st\<rparr>"

definition be_INITIALIZE :: "bool \<Rightarrow> 'p eapol_state_machine \<Rightarrow> 'p eapol_state_machine" where
  "be_INITIALIZE global sm =
     (on_eap (\<lambda>i. i\<lparr>eapNoReq := False\<rparr>) (ieee802_1x_abort_auth (be_entry BE_AUTH_INITIALIZE global sm)))
       \<lparr>authAbort := False\<rparr>"

definition be_REQUEST :: "bool \<Rightarrow> 'p eapol_state_machine \<Rightarrow> 'p eapol_state_machine ub" where
  "be_REQUEST global sm = do {
     sm \<leftarrow> eapol_auth_tx_req (be_entry BE_AUTH_REQUEST global sm);
     let sm = on_eap (\<lambda>i. i\<lparr>eapReq := False\<rparr>) sm;
     Some (sm\<lparr>backendOtherRequestsToSupplicant := backendOtherRequestsToSupplicant sm + 1, eapolEap := False\<rparr>) }"

definition be_RESPONSE :: "bool \<Rightarrow> 'p eapol_state_machine \<Rightarrow> 'p eapol_state_machine" where
  "be_RESPONSE global sm =
     (let sm = (be_entry BE_AUTH_RESPONSE global sm)\<lparr>authTimeout := False, eapolEap := False\<rparr>;
          sm = on_eap (\<lambda>i. i\<lparr>eapNoReq := False\<rparr>) sm;
          sm = on_eap (\<lambda>i. i\<lparr>eapResp := True\<rparr>) (sm\<lparr>aWhile := sint (serverTimeout sm)\<rparr>) in
      sm\<lparr>backendResponses := backendResponses sm + 1\<rparr>)"

definition be_SUCCESS :: "bool \<Rightarrow> 'p eapol_state_machine \<Rightarrow> 'p eapol_state_machine ub" where
  "be_SUCCESS global sm = do {
     sm \<leftarrow> eapol_auth_tx_req (be_entry BE_AUTH_SUCCESS global sm);
     Some (sm\<lparr>authSuccess := True, keyRun := True\<rparr>) }"

definition be_FAIL :: "bool \<Rightarrow> 'p eapol_state_machine \<Rightarrow> 'p eapol_state_machine ub" where
  "be_FAIL global sm = do {
     sm \<leftarrow> eapol_auth_tx_req (be_entry BE_AUTH_FAIL global sm);
     Some (sm\<lparr>authFail := True\<rparr>) }"

definition be_TIMEOUT :: "bool \<Rightarrow> 'p eapol_state_machine \<Rightarrow> 'p eapol_state_machine" where
  "be_TIMEOUT global sm = (be_entry BE_AUTH_TIMEOUT global sm)\<lparr>authTimeout := True\<rparr>"

definition be_IDLE :: "bool \<Rightarrow> 'p eapol_state_machine \<Rightarrow> 'p eapol_state_machine" where
  "be_IDLE global sm = (be_entry BE_AUTH_IDLE global sm)\<lparr>authStart := False\<rparr>"

definition be_IGNORE :: "bool \<Rightarrow> 'p eapol_state_machine \<Rightarrow> 'p eapol_state_machine" where
  "be_IGNORE global sm = on_eap (\<lambda>i. i\<lparr>eapNoReq := False\<rparr>) (be_entry BE_AUTH_IGNORE global sm)"

text \<open>The states \<open>REQUEST\<close> and \<open>IGNORE\<close> have the same transitions.\<close>

definition be_wait :: "'p eapol_state_machine \<Rightarrow> 'p eapol_state_machine ub" where
  "be_wait sm =
     (if eapolEap sm then Some (be_RESPONSE False sm)
      else if eapReq (eif sm) then be_REQUEST False sm
      else if eapTimeout (eif sm) then Some (be_TIMEOUT False sm)
      else Some sm)"

text \<open>
  In \<open>RESPONSE\<close> the branch for \<open>eapNoReq\<close> has no \<open>else\<close>: the rest of the case is evaluated
  behind it as well.
\<close>

definition sm_BE_AUTH_Step :: "'p eapol_state_machine \<Rightarrow> 'p eapol_state_machine ub" where
  "sm_BE_AUTH_Step sm =
     (if portControl sm \<noteq> Auto \<or> initialize sm \<or> authAbort sm then Some (be_INITIALIZE True sm)
      else case be_auth_state sm of
        BE_AUTH_INITIALIZE \<Rightarrow> Some (be_IDLE False sm)
      | BE_AUTH_REQUEST \<Rightarrow> be_wait sm
      | BE_AUTH_RESPONSE \<Rightarrow>
          let sm = (if eapNoReq (eif sm) then be_IGNORE False sm else sm) in
          if eapReq (eif sm)
          then be_REQUEST False (sm\<lparr>backendAccessChallenges := backendAccessChallenges sm + 1\<rparr>)
          else if aWhile sm = 0 then Some (be_TIMEOUT False sm)
          else if eapFail (eif sm) then be_FAIL False (sm\<lparr>backendAuthFails := backendAuthFails sm + 1\<rparr>)
          else if eapSuccess (eif sm) then be_SUCCESS False (sm\<lparr>backendAuthSuccesses := backendAuthSuccesses sm + 1\<rparr>)
          else Some sm
      | BE_AUTH_SUCCESS \<Rightarrow> Some (be_IDLE False sm)
      | BE_AUTH_FAIL \<Rightarrow> Some (be_IDLE False sm)
      | BE_AUTH_TIMEOUT \<Rightarrow> Some (be_IDLE False sm)
      | BE_AUTH_IDLE \<Rightarrow>
          if eapFail (eif sm) \<and> authStart sm then be_FAIL False sm
          else if eapReq (eif sm) \<and> authStart sm then be_REQUEST False sm
          else if eapSuccess (eif sm) \<and> authStart sm then be_SUCCESS False sm
          else Some sm
      | BE_AUTH_IGNORE \<Rightarrow> be_wait sm)"

section \<open>The small machines\<close>

definition reauth_entry :: "reauth_timer \<Rightarrow> bool \<Rightarrow> 'p eapol_state_machine \<Rightarrow> 'p eapol_state_machine" where
  "reauth_entry st global sm =
     (if \<not> global \<or> reauth_timer_state sm \<noteq> st then sm\<lparr>changed := True\<rparr> else sm)\<lparr>reauth_timer_state := st\<rparr>"

definition reauth_INITIALIZE :: "bool \<Rightarrow> 'p eapol_state_machine \<Rightarrow> 'p eapol_state_machine" where
  "reauth_INITIALIZE global sm =
     (let sm = reauth_entry REAUTH_TIMER_INITIALIZE global sm in sm\<lparr>reAuthWhen := sint (reAuthPeriod sm)\<rparr>)"

definition reauth_REAUTHENTICATE :: "bool \<Rightarrow> 'p eapol_state_machine \<Rightarrow> 'p eapol_state_machine" where
  "reauth_REAUTHENTICATE global sm =
     emit_out (Eapol_Event EAPOL_AUTH_REAUTHENTICATE)
       ((reauth_entry REAUTH_TIMER_REAUTHENTICATE global sm)\<lparr>reAuthenticate := True\<rparr>)"

definition sm_REAUTH_TIMER_Step :: "'p eapol_state_machine \<Rightarrow> 'p eapol_state_machine" where
  "sm_REAUTH_TIMER_Step sm =
     (if portControl sm \<noteq> Auto \<or> initialize sm \<or> authPortStatus sm = Unauthorized \<or> \<not> reAuthEnabled sm
      then reauth_INITIALIZE True sm
      else case reauth_timer_state sm of
        REAUTH_TIMER_INITIALIZE \<Rightarrow> if reAuthWhen sm = 0 then reauth_REAUTHENTICATE False sm else sm
      | REAUTH_TIMER_REAUTHENTICATE \<Rightarrow> reauth_INITIALIZE False sm)"

definition key_tx_entry :: "auth_key_tx \<Rightarrow> bool \<Rightarrow> 'p eapol_state_machine \<Rightarrow> 'p eapol_state_machine" where
  "key_tx_entry st global sm =
     (if \<not> global \<or> auth_key_tx_state sm \<noteq> st then sm\<lparr>changed := True\<rparr> else sm)\<lparr>auth_key_tx_state := st\<rparr>"

definition key_tx_NO_KEY_TRANSMIT :: "bool \<Rightarrow> 'p eapol_state_machine \<Rightarrow> 'p eapol_state_machine" where
  "key_tx_NO_KEY_TRANSMIT global sm = key_tx_entry AUTH_KEY_TX_NO_KEY_TRANSMIT global sm"

definition key_tx_KEY_TRANSMIT :: "bool \<Rightarrow> 'p eapol_state_machine \<Rightarrow> 'p eapol_state_machine" where
  "key_tx_KEY_TRANSMIT global sm =
     (on_eap (\<lambda>i. i\<lparr>eapKeyAvailable := False\<rparr>)
       (emit_out Tx_Key (key_tx_entry AUTH_KEY_TX_KEY_TRANSMIT global sm)))\<lparr>keyDone := True\<rparr>"

definition sm_AUTH_KEY_TX_Step :: "'p eapol_state_machine \<Rightarrow> 'p eapol_state_machine" where
  "sm_AUTH_KEY_TX_Step sm =
     (if initialize sm \<or> portControl sm \<noteq> Auto then key_tx_NO_KEY_TRANSMIT True sm
      else case auth_key_tx_state sm of
        AUTH_KEY_TX_NO_KEY_TRANSMIT \<Rightarrow>
          if keyTxEnabled sm \<and> eapKeyAvailable (eif sm) \<and> keyRun sm \<and> \<not> flag EAPOL_SM_USES_WPA sm
          then key_tx_KEY_TRANSMIT False sm else sm
      | AUTH_KEY_TX_KEY_TRANSMIT \<Rightarrow>
          if \<not> keyTxEnabled sm \<or> \<not> keyRun sm then key_tx_NO_KEY_TRANSMIT False sm
          else if eapKeyAvailable (eif sm) then key_tx_KEY_TRANSMIT False sm
          else sm)"

definition key_rx_entry :: "key_rx \<Rightarrow> bool \<Rightarrow> 'p eapol_state_machine \<Rightarrow> 'p eapol_state_machine" where
  "key_rx_entry st global sm =
     (if \<not> global \<or> key_rx_state sm \<noteq> st then sm\<lparr>changed := True\<rparr> else sm)\<lparr>key_rx_state := st\<rparr>"

definition key_rx_NO_KEY_RECEIVE :: "bool \<Rightarrow> 'p eapol_state_machine \<Rightarrow> 'p eapol_state_machine" where
  "key_rx_NO_KEY_RECEIVE global sm = key_rx_entry KEY_RX_NO_KEY_RECEIVE global sm"

definition key_rx_KEY_RECEIVE :: "bool \<Rightarrow> 'p eapol_state_machine \<Rightarrow> 'p eapol_state_machine" where
  "key_rx_KEY_RECEIVE global sm = (key_rx_entry KEY_RX_KEY_RECEIVE global sm)\<lparr>rxKey := False\<rparr>"

definition sm_KEY_RX_Step :: "'p eapol_state_machine \<Rightarrow> 'p eapol_state_machine" where
  "sm_KEY_RX_Step sm =
     (if initialize sm \<or> \<not> portEnabled (eif sm) then key_rx_NO_KEY_RECEIVE True sm
      else case key_rx_state sm of
        KEY_RX_NO_KEY_RECEIVE \<Rightarrow> if rxKey sm then key_rx_KEY_RECEIVE False sm else sm
      | KEY_RX_KEY_RECEIVE \<Rightarrow> if rxKey sm then key_rx_KEY_RECEIVE False sm else sm)"

definition ctrl_dir_entry :: "ctrl_dir \<Rightarrow> bool \<Rightarrow> 'p eapol_state_machine \<Rightarrow> 'p eapol_state_machine" where
  "ctrl_dir_entry st global sm =
     (if \<not> global \<or> ctrl_dir_state sm \<noteq> st then sm\<lparr>changed := True\<rparr> else sm)\<lparr>ctrl_dir_state := st\<rparr>"

definition ctrl_dir_FORCE_BOTH :: "bool \<Rightarrow> 'p eapol_state_machine \<Rightarrow> 'p eapol_state_machine" where
  "ctrl_dir_FORCE_BOTH global sm = (ctrl_dir_entry CTRL_DIR_FORCE_BOTH global sm)\<lparr>operControlledDirections := Both\<rparr>"

definition ctrl_dir_IN_OR_BOTH :: "bool \<Rightarrow> 'p eapol_state_machine \<Rightarrow> 'p eapol_state_machine" where
  "ctrl_dir_IN_OR_BOTH global sm =
     (let sm = ctrl_dir_entry CTRL_DIR_IN_OR_BOTH global sm in
      sm\<lparr>operControlledDirections := adminControlledDirections sm\<rparr>)"

definition sm_CTRL_DIR_Step :: "'p eapol_state_machine \<Rightarrow> 'p eapol_state_machine" where
  "sm_CTRL_DIR_Step sm =
     (if initialize sm then ctrl_dir_IN_OR_BOTH True sm
      else case ctrl_dir_state sm of
        CTRL_DIR_FORCE_BOTH \<Rightarrow>
          if portEnabled (eif sm) \<and> operEdge sm then ctrl_dir_IN_OR_BOTH False sm else sm
      | CTRL_DIR_IN_OR_BOTH \<Rightarrow>
          let sm = (if operControlledDirections sm \<noteq> adminControlledDirections sm then ctrl_dir_IN_OR_BOTH False sm else sm) in
          if \<not> portEnabled (eif sm) \<or> \<not> operEdge sm then ctrl_dir_FORCE_BOTH False sm else sm)"

section \<open>The driver\<close>

text \<open>\<open>eapol_sm_sta_entry_alive\<close>: the answer and the state with the call counted.\<close>

definition eapol_sm_sta_entry_alive :: "'p eapol_env \<Rightarrow> 'p eapol_state_machine \<Rightarrow> bool \<times> 'p eapol_state_machine" where
  "eapol_sm_sta_entry_alive env sm = (alive_at env (calls sm), sm\<lparr>calls := calls sm + 1\<rparr>)"

text \<open>\<open>if (sm->initializing || eapol_sm_sta_entry_alive (...)) SM_STEP_RUN (...)\<close>.\<close>

definition when_alive ::
  "'p eapol_env \<Rightarrow> ('p eapol_state_machine \<Rightarrow> 'p eapol_state_machine ub) \<Rightarrow> 'p eapol_state_machine \<Rightarrow> 'p eapol_state_machine ub" where
  "when_alive env step sm =
     (if initializing sm then step sm
      else let (alive, sm) = eapol_sm_sta_entry_alive env sm in if alive then step sm else Some sm)"

definition step_machines :: "'p eapol_env \<Rightarrow> 'p eapol_state_machine \<Rightarrow> 'p eapol_state_machine ub" where
  "step_machines env sm = do {
     let sm = sm_AUTH_PAE_Step sm;
     sm \<leftarrow> when_alive env sm_BE_AUTH_Step sm;
     sm \<leftarrow> when_alive env (\<lambda>sm. Some (sm_REAUTH_TIMER_Step sm)) sm;
     sm \<leftarrow> (if config_wep env then do {
              sm \<leftarrow> when_alive env (\<lambda>sm. Some (sm_AUTH_KEY_TX_Step sm)) sm;
              when_alive env (\<lambda>sm. Some (sm_KEY_RX_Step sm)) sm }
            else Some sm);
     when_alive env (\<lambda>sm. Some (sm_CTRL_DIR_Step sm)) sm }"

definition states_differ :: "'p eapol_state_machine \<Rightarrow> 'p eapol_state_machine \<Rightarrow> bool" where
  "states_differ prev sm \<longleftrightarrow>
     auth_pae_state prev \<noteq> auth_pae_state sm \<or> be_auth_state prev \<noteq> be_auth_state sm
   \<or> reauth_timer_state prev \<noteq> reauth_timer_state sm \<or> auth_key_tx_state prev \<noteq> auth_key_tx_state sm
   \<or> key_rx_state prev \<noteq> key_rx_state sm \<or> ctrl_dir_state prev \<noteq> ctrl_dir_state sm"

text \<open>The final notification of a run.\<close>

definition notify_change :: "'p eapol_env \<Rightarrow> 'p eapol_state_machine \<Rightarrow> 'p eapol_state_machine" where
  "notify_change env sm =
     (let (alive, sm) = eapol_sm_sta_entry_alive env sm in
      if alive then emit_out (Eapol_Event EAPOL_AUTH_SM_CHANGE) sm else sm)"

text \<open>The part behind the EAP step that hands a response to the AAA client.\<close>

definition aaa_response :: "'p eapol_env \<Rightarrow> 'p eapol_state_machine \<Rightarrow> 'p eapol_state_machine" where
  "aaa_response env sm =
     (if aaaEapResp (eif sm) then
        let sm = on_eap (\<lambda>i. i\<lparr>aaaEapResp := False\<rparr>) sm in
        case aaaEapRespData (eif sm) of
          None \<Rightarrow> sm
        | Some d \<Rightarrow> notify_change env (emit_out (Aaa_Send d) sm)
      else notify_change env sm)"

text \<open>
  The loop of \<open>eapol_sm_step_run\<close>; the first argument is \<open>max_steps\<close>. The first equation is
  never used: the count starts at 100 and the loop is left when it would reach 0.
\<close>

fun step_run_loop :: "'p eapol_env \<Rightarrow> nat \<Rightarrow> 'p eapol_state_machine \<Rightarrow> 'p eapol_state_machine ub" where
  "step_run_loop env 0 sm = Some sm"
| "step_run_loop env (Suc n) sm = do {
     sm1 \<leftarrow> step_machines env sm;
     if states_differ sm sm1 then
       if n > 0 then step_run_loop env n sm1 else Some (eapol_auth_step sm1)
     else do {
       let (alive, sm1) = eapol_sm_sta_entry_alive env sm1;
       if alive then do {
         (res, e) \<leftarrow> eap_server_sm_step (eap_side env) (eap sm1);
         let sm1 = sm1\<lparr>eap := e\<rparr>;
         if res \<noteq> 0 then
           if n > 0 then step_run_loop env n sm1 else Some (eapol_auth_step sm1)
         else Some (aaa_response env sm1) }
       else Some (notify_change env sm1) } }"

definition eapol_sm_step_run :: "'p eapol_env \<Rightarrow> 'p eapol_state_machine \<Rightarrow> 'p eapol_state_machine ub" where
  "eapol_sm_step_run env sm = step_run_loop env 100 sm"

definition eapol_sm_step_cb :: "'p eapol_env \<Rightarrow> 'p eapol_state_machine \<Rightarrow> 'p eapol_state_machine ub" where
  "eapol_sm_step_cb env sm = eapol_sm_step_run env sm"

section \<open>Timers\<close>

definition count_down :: "int \<Rightarrow> int" where
  "count_down t = (if t > 0 then t - 1 else t)"

definition eapol_port_timers_tick :: "'p eapol_env \<Rightarrow> 'p eapol_state_machine \<Rightarrow> 'p eapol_state_machine ub" where
  "eapol_port_timers_tick env sm = do {
     let sm = sm\<lparr>aWhile := count_down (aWhile sm), quietWhile := count_down (quietWhile sm),
                 reAuthWhen := count_down (reAuthWhen sm)\<rparr>;
     let sm = on_eap (\<lambda>i. i\<lparr>retransWhile := count_down (retransWhile i)\<rparr>) sm;
     sm \<leftarrow> eapol_sm_step_run env sm;
     Some (emit_out Tick_Timeout sm) }"

section \<open>Creation\<close>

definition eapol_zero :: "'p eapol_state_machine" where
  "eapol_zero =
     \<lparr>aWhile = 0, quietWhile = 0, reAuthWhen = 0, authAbort = False, authFail = False,
      authPortStatus = PortState_zero, authStart = False, authTimeout = False, authSuccess = False,
      eapolEap = False, initialize = False, keyDone = False, keyRun = False, keyTxEnabled = False,
      portControl = PortTypes_zero, portValid = False, reAuthenticate = False,
      auth_pae_state = AUTH_PAE_INITIALIZE, eapolLogoff = False, eapolStart = False,
      portMode = PortTypes_zero, reAuthCount = 0, quietPeriod = 0, reAuthMax = 0,
      authEntersConnecting = 0, authEapLogoffsWhileConnecting = 0,
      authAuthSuccessesWhileAuthenticating = 0, authAuthTimeoutsWhileAuthenticating = 0,
      authAuthFailWhileAuthenticating = 0, authAuthEapStartsWhileAuthenticating = 0,
      authAuthEapLogoffWhileAuthenticating = 0, authAuthReauthsWhileAuthenticated = 0,
      authAuthEapStartsWhileAuthenticated = 0, authAuthEapLogoffWhileAuthenticated = 0,
      be_auth_state = BE_AUTH_REQUEST, serverTimeout = 0, backendResponses = 0,
      backendAccessChallenges = 0, backendOtherRequestsToSupplicant = 0, backendAuthSuccesses = 0,
      backendAuthFails = 0, reauth_timer_state = REAUTH_TIMER_INITIALIZE, reAuthPeriod = 0,
      reAuthEnabled = False, auth_key_tx_state = AUTH_KEY_TX_NO_KEY_TRANSMIT,
      key_rx_state = KEY_RX_NO_KEY_RECEIVE, rxKey = False, ctrl_dir_state = CTRL_DIR_FORCE_BOTH,
      adminControlledDirections = Both, operControlledDirections = Both, operEdge = False,
      dot1xAuthEapolFramesRx = 0, dot1xAuthEapolFramesTx = 0, dot1xAuthEapolStartFramesRx = 0,
      dot1xAuthEapolLogoffFramesRx = 0, dot1xAuthEapolRespIdFramesRx = 0, dot1xAuthEapolRespFramesRx = 0,
      dot1xAuthEapolReqIdFramesTx = 0, dot1xAuthEapolReqFramesTx = 0,
      dot1xAuthInvalidEapolFramesRx = 0, dot1xAuthEapLengthErrorFramesRx = 0,
      dot1xAuthLastEapolFrameVersion = 0, sta_addr = [], flags = 0, radius_identifier = 0,
      last_recv_radius = None, last_eap_id = 0, eapol_identity = None, eap_type_authsrv = 0,
      eap_type_supp = 0, radius_class = None, radius_cui = None, acct_multi_session_id = 0,
      eap = eap_server_sm_init, initializing = False, changed = False, outs = [], calls = 0\<rparr>"

definition eapol_auth_initialize :: "'p eapol_env \<Rightarrow> 'p eapol_state_machine \<Rightarrow> 'p eapol_state_machine ub" where
  "eapol_auth_initialize env sm = do {
     sm \<leftarrow> eapol_sm_step_run env (sm\<lparr>initializing := True, initialize := True\<rparr>);
     sm \<leftarrow> eapol_sm_step_run env (sm\<lparr>initialize := False\<rparr>);
     Some (emit_out Tick_Timeout (emit_out Tick_Cancel (sm\<lparr>initializing := False\<rparr>))) }"

text \<open>The structure before \<open>eapol_auth_initialize\<close>.\<close>

definition eapol_fresh :: "'p eapol_env \<Rightarrow> bytes \<Rightarrow> u32 \<Rightarrow> 'p eapol_state_machine" where
  "eapol_fresh env a fl =
     eapol_zero\<lparr>radius_identifier := -1, sta_addr := a, flags := fl,
       auth_pae_state := AUTH_PAE_INITIALIZE, quietPeriod := AUTH_PAE_DEFAULT_quietPeriod,
       reAuthMax := AUTH_PAE_DEFAULT_reAuthMax, be_auth_state := BE_AUTH_INITIALIZE,
       serverTimeout := BE_AUTH_DEFAULT_serverTimeout, reauth_timer_state := REAUTH_TIMER_INITIALIZE,
       reAuthPeriod := word_of_int (eap_reauth_period env), reAuthEnabled := eap_reauth_period env > 0,
       auth_key_tx_state := AUTH_KEY_TX_NO_KEY_TRANSMIT, key_rx_state := KEY_RX_NO_KEY_RECEIVE,
       ctrl_dir_state := CTRL_DIR_IN_OR_BOTH, portControl := Auto,
       keyTxEnabled := config_wep env \<and> \<not> conf_wpa env \<and> (has_default_wep_key env \<or> individual_wep_key_len env > 0),
       portValid := \<not> conf_wpa env\<rparr>"

text \<open>
  \<open>eapol_auth_alloc\<close>; the first two flags say whether the allocations of the two state
  machines succeed, then come the session identifier drawn, and the copies of the identity
  and of the chargeable user identity that could be made.
\<close>

definition eapol_auth_alloc ::
  "'p eapol_env \<Rightarrow> bytes \<Rightarrow> u32 \<Rightarrow> bool \<Rightarrow> bool \<Rightarrow> u64 option \<Rightarrow> bytes option \<Rightarrow> bytes option \<Rightarrow> 'p eapol_state_machine option ub" where
  "eapol_auth_alloc env a fl sm_ok eap_ok session_id identity cui =
     (if \<not> sm_ok then Some None
      else if \<not> eap_ok then Some None
      else do {
        sm \<leftarrow> eapol_auth_initialize env (eapol_fresh env a fl);
        case session_id of
          None \<Rightarrow> Some None
        | Some i \<Rightarrow> Some (Some (sm\<lparr>eapol_identity := identity, radius_cui := cui, acct_multi_session_id := i\<rparr>)) })"

section \<open>Control operations\<close>

definition eapol_auth_eap_pending_cb :: "bool \<Rightarrow> 'p eapol_state_machine \<Rightarrow> int \<times> 'p eapol_state_machine" where
  "eapol_auth_eap_pending_cb ctx_is_eap sm =
     (if \<not> ctx_is_eap then (-1, sm) else (0, eapol_auth_step (sm\<lparr>eap := eap_sm_pending_cb (eap sm)\<rparr>)))"

definition eapol_auth_reauthenticate :: "'p eapol_state_machine \<Rightarrow> 'p eapol_state_machine" where
  "eapol_auth_reauthenticate sm = eapol_auth_step (sm\<lparr>reAuthenticate := True\<rparr>)"

text \<open>\<open>os_strcasecmp (a, b) == 0\<close> on ASCII text, and \<open>atoi\<close> of a C string.\<close>

definition lower_char :: "char \<Rightarrow> nat" where
  "lower_char c = (let n = of_char c in if 65 \<le> n \<and> n \<le> 90 then n + 32 else n)"

definition caseeq :: "string \<Rightarrow> string \<Rightarrow> bool" where
  "caseeq a b \<longleftrightarrow> map lower_char a = map lower_char b"

definition atoi_text :: "string \<Rightarrow> int" where
  "atoi_text val = atoi (map (word_of_nat \<circ> of_char) val @ [0])"

definition eapol_auth_set_conf ::
  "string \<Rightarrow> string \<Rightarrow> 'p eapol_state_machine \<Rightarrow> int \<times> 'p eapol_state_machine" where
  "eapol_auth_set_conf param val sm =
     (if caseeq param ''AdminControlledDirections'' then
        if val = ''Both'' then (0, eapol_auth_step (sm\<lparr>adminControlledDirections := Both\<rparr>))
        else if val = ''In'' then (0, eapol_auth_step (sm\<lparr>adminControlledDirections := In\<rparr>))
        else (-1, sm)
      else if caseeq param ''AdminControlledPortControl'' then
        if val = ''ForceAuthorized'' then (0, eapol_auth_step (sm\<lparr>portControl := ForceAuthorized\<rparr>))
        else if val = ''ForceUnauthorized'' then (0, eapol_auth_step (sm\<lparr>portControl := ForceUnauthorized\<rparr>))
        else if val = ''Auto'' then (0, eapol_auth_step (sm\<lparr>portControl := Auto\<rparr>))
        else (-1, sm)
      else if caseeq param ''quietPeriod'' then (0, sm\<lparr>quietPeriod := word_of_int (atoi_text val)\<rparr>)
      else if caseeq param ''serverTimeout'' then (0, sm\<lparr>serverTimeout := word_of_int (atoi_text val)\<rparr>)
      else if caseeq param ''reAuthPeriod'' then (0, sm\<lparr>reAuthPeriod := word_of_int (atoi_text val)\<rparr>)
      else if caseeq param ''reAuthEnabled'' then
        if val = ''TRUE'' then (0, eapol_auth_step (sm\<lparr>reAuthEnabled := True\<rparr>))
        else if val = ''FALSE'' then (0, eapol_auth_step (sm\<lparr>reAuthEnabled := False\<rparr>))
        else (-1, sm)
      else if caseeq param ''KeyTransmissionEnabled'' then
        if val = ''TRUE'' then (0, eapol_auth_step (sm\<lparr>keyTxEnabled := True\<rparr>))
        else if val = ''FALSE'' then (0, eapol_auth_step (sm\<lparr>keyTxEnabled := False\<rparr>))
        else (-1, sm)
      else (-1, sm))"

end
