(* ===== verification/Eapol_Inv.thy ===== *)
theory Eapol_Inv
  imports Eapol_Auth
begin

unbundle bit_operations_syntax

text \<open>
  What the IEEE 802.1X authenticator keeps over every run: the port status agrees with the
  state of the PAE machine and with what the access point was last told, and without a reason
  (EAP success, an administrative override) the port is never opened. The contract the driver
  uses of each machine is the locale \<open>sub_machine\<close>; \<open>eapol_authenticator\<close> extends the EAP
  authenticator's locale and shows that every run returns.
\<close>

section \<open>What the machines keep\<close>

text \<open>The port status the access point was last told.\<close>

fun told :: "eapol_out list \<Rightarrow> PortState" where
  "told [] = PortState_zero"
| "told (e # es) = (case e of Set_Port b \<Rightarrow> (if b then Authorized else Unauthorized) | _ \<Rightarrow> told es)"

definition port_rule :: "auth_pae \<Rightarrow> PortState \<Rightarrow> bool" where
  "port_rule st s \<longleftrightarrow> (case st of
     AUTH_PAE_DISCONNECTED \<Rightarrow> s = Unauthorized | AUTH_PAE_HELD \<Rightarrow> s = Unauthorized | AUTH_PAE_FORCE_UNAUTH \<Rightarrow> s = Unauthorized
   | AUTH_PAE_AUTHENTICATED \<Rightarrow> s = Authorized | AUTH_PAE_FORCE_AUTH \<Rightarrow> s = Authorized | _ \<Rightarrow> True)"

definition port_inv :: "'p eapol_state_machine \<Rightarrow> bool" where
  "port_inv sm \<longleftrightarrow> authPortStatus sm = told (outs sm) \<and> port_rule (auth_pae_state sm) (authPortStatus sm)"

text \<open>Nothing the machine has seen so far would justify opening the port.\<close>

definition no_grant :: "'p eapol_state_machine \<Rightarrow> bool" where
  "no_grant sm \<longleftrightarrow> \<not> eapSuccess (eif sm) \<and> \<not> aaaSuccess (eif sm) \<and> \<not> authSuccess sm
   \<and> authPortStatus sm \<noteq> Authorized \<and> portControl sm \<noteq> ForceAuthorized \<and> auth_pae_state sm \<noteq> AUTH_PAE_FORCE_AUTH"

text \<open>
  The frame of the machines: of the EAP authenticator only interface variables change, and
  not its verdict; configuration and the initialisation flags stay.
\<close>

definition eapol_frame :: "'p eapol_state_machine \<Rightarrow> 'p eapol_state_machine \<Rightarrow> bool" where
  "eapol_frame sm sm' \<longleftrightarrow> (\<exists>f. eap sm' = on_if f (eap sm))
   \<and> eapSuccess (eif sm') = eapSuccess (eif sm) \<and> aaaSuccess (eif sm') = aaaSuccess (eif sm)
   \<and> initializing sm' = initializing sm \<and> initialize sm' = initialize sm \<and> portControl sm' = portControl sm"

definition keeps_port :: "'p eapol_state_machine \<Rightarrow> 'p eapol_state_machine ub \<Rightarrow> bool" where
  "keeps_port sm r \<longleftrightarrow> (\<exists>sm'. r = Some sm' \<and> eapol_frame sm sm' \<and> (port_inv sm \<longrightarrow> port_inv sm') \<and> (no_grant sm \<longrightarrow> no_grant sm'))"

lemma on_if_on_if: "on_if f (on_if g s) = on_if (f \<circ> g) s"
  by (simp add: on_if_def)

lemma on_if_id: "on_if id s = s"
  by (simp add: on_if_def)

lemma eapol_frame_refl: "eapol_frame sm sm"
  by (auto simp: eapol_frame_def intro: exI [of _ id] simp: on_if_id)

lemma eapol_frame_trans: "eapol_frame a b \<Longrightarrow> eapol_frame b c \<Longrightarrow> eapol_frame a c"
  by (auto simp: eapol_frame_def on_if_on_if)

lemma keeps_port_refl: "keeps_port sm (Some sm)"
  by (simp add: keeps_port_def eapol_frame_refl)

lemma keeps_port_trans:
  assumes "keeps_port sm (Some sm1)" "keeps_port sm1 r" shows "keeps_port sm r"
proof -
  have f: "eapol_frame sm sm1" "port_inv sm \<longrightarrow> port_inv sm1" "no_grant sm \<longrightarrow> no_grant sm1" using assms(1) by (simp_all add: keeps_port_def)
  obtain sm2 where "r = Some sm2" "eapol_frame sm1 sm2" "port_inv sm1 \<longrightarrow> port_inv sm2" "no_grant sm1 \<longrightarrow> no_grant sm2"
    using assms(2) unfolding keeps_port_def by (elim exE conjE)
  then show ?thesis using f(2,3) eapol_frame_trans [OF f(1)] by (simp add: keeps_port_def)
qed

lemma keeps_port_bind:
  assumes "keeps_port sm r" "\<And>sm'. keeps_port sm' (f sm')" shows "keeps_port sm (r \<bind> f)"
proof -
  obtain sm' where "r = Some sm'" using assms(1) by (auto simp: keeps_port_def)
  then show ?thesis using keeps_port_trans [OF _ assms(2), of sm sm'] assms(1) by simp
qed

lemmas eapol_simps = on_eap_def emit_out_def pae_entry_def be_entry_def reauth_entry_def key_tx_entry_def
  key_rx_entry_def ctrl_dir_entry_def Let_def

text \<open>A state that has the relevant fields of another one.\<close>

lemma keeps_port_same:
  assumes "eap sm' = on_if f (eap sm)" "eapSuccess (eif sm') = eapSuccess (eif sm)" "aaaSuccess (eif sm') = aaaSuccess (eif sm)"
    "initializing sm' = initializing sm" "initialize sm' = initialize sm" "portControl sm' = portControl sm"
    "authPortStatus sm' = authPortStatus sm" "auth_pae_state sm' = auth_pae_state sm" "told (outs sm') = told (outs sm)"
    "authSuccess sm' \<longrightarrow> authSuccess sm \<or> eapSuccess (eif sm)"
  shows "keeps_port sm (Some sm')"
proof -
  have "eapol_frame sm sm'" using assms(1-6) by (auto simp: eapol_frame_def)
  moreover have "port_inv sm \<longrightarrow> port_inv sm'" by (simp only: port_inv_def assms(7-9) simp_thms)
  moreover have "no_grant sm \<longrightarrow> no_grant sm'" using assms(2,3,6-8,10) by (auto simp: no_grant_def)
  ultimately show ?thesis by (simp add: keeps_port_def)
qed

lemma eap_get_some: "sizeof_eap_hdr \<le> length msg \<Longrightarrow> \<exists>i t. eap_get_id msg = Some i \<and> eap_get_type msg = Some t"
  by (auto simp: eap_get_id_def eap_get_type_def peek_def sizeof_eap_hdr_def)

lemma tx_req_fields:
  "\<exists>sm'. eapol_auth_tx_req sm = Some sm' \<and> eap sm' = eap sm \<and> told (outs sm') = told (outs sm)
    \<and> initializing sm' = initializing sm \<and> initialize sm' = initialize sm \<and> portControl sm' = portControl sm
    \<and> authPortStatus sm' = authPortStatus sm \<and> auth_pae_state sm' = auth_pae_state sm \<and> authSuccess sm' = authSuccess sm
    \<and> be_auth_state sm' = be_auth_state sm"
proof (cases "eapReqData (eif sm)")
  case None
  then show ?thesis by (simp add: eapol_auth_tx_req_def)
next
  case (Some msg)
  show ?thesis
  proof (cases "length msg < sizeof_eap_hdr \<or> flag EAPOL_SM_WAIT_START sm")
    case True
    then show ?thesis using Some by (auto simp: eapol_auth_tx_req_def)
  next
    case False
    then obtain i t where "eap_get_id msg = Some i" "eap_get_type msg = Some t" using eap_get_some [of msg] by auto
    then show ?thesis using False Some by (simp add: eapol_auth_tx_req_def emit_out_def Let_def)
  qed
qed

section \<open>Authenticator PAE\<close>

text \<open>An entry action that leaves the port alone, and one that sets it.\<close>

lemma keeps_port_entry:
  assumes "eap sm' = on_if f (eap sm)" "eapSuccess (eif sm') = eapSuccess (eif sm)" "aaaSuccess (eif sm') = aaaSuccess (eif sm)"
    "initializing sm' = initializing sm" "initialize sm' = initialize sm" "portControl sm' = portControl sm"
    "authPortStatus sm' = authPortStatus sm" "told (outs sm') = told (outs sm)" "authSuccess sm' \<longrightarrow> authSuccess sm"
    "\<And>s. port_rule (auth_pae_state sm') s" "auth_pae_state sm' \<noteq> AUTH_PAE_FORCE_AUTH"
  shows "keeps_port sm (Some sm')"
proof -
  have "eapol_frame sm sm'" using assms(1-6) by (auto simp: eapol_frame_def)
  moreover have "port_inv sm \<longrightarrow> port_inv sm'" using assms(10) by (simp add: port_inv_def assms(7,8))
  moreover have "no_grant sm \<longrightarrow> no_grant sm'" using assms(9,11) by (auto simp: no_grant_def assms(2,3,6,7))
  ultimately show ?thesis by (simp add: keeps_port_def)
qed

lemma keeps_port_set:
  assumes "eap sm' = eap sm" "initializing sm' = initializing sm" "initialize sm' = initialize sm"
    "portControl sm' = portControl sm" "authSuccess sm' = authSuccess sm"
    "authPortStatus sm' = v" "told (outs sm') = v"
    "port_rule (auth_pae_state sm') v" "v = Unauthorized \<and> auth_pae_state sm' \<noteq> AUTH_PAE_FORCE_AUTH \<or> \<not> no_grant sm"
  shows "keeps_port sm (Some sm')"
proof -
  have "\<exists>f. eap sm = on_if f (eap sm)" by (rule exI [of _ id]) (simp add: on_if_id)
  then have "eapol_frame sm sm'" using assms(1-4) by (simp add: eapol_frame_def)
  moreover have "port_inv sm'" using assms(8) by (simp add: port_inv_def assms(6,7))
  moreover have "no_grant sm \<longrightarrow> no_grant sm'" using assms(9) by (auto simp: no_grant_def assms(1,4-6))
  ultimately show ?thesis by (simp add: keeps_port_def)
qed

lemma pae_entries:
  "keeps_port sm (Some (pae_INITIALIZE g sm))" "keeps_port sm (Some (pae_CONNECTING g sm))"
  "keeps_port sm (Some (pae_AUTHENTICATING g sm))" "keeps_port sm (Some (pae_ABORTING g sm))"
  by (rule keeps_port_entry [of _ id]; simp add: pae_INITIALIZE_def pae_CONNECTING_def pae_AUTHENTICATING_def pae_ABORTING_def
        eapol_simps on_if_id port_rule_def)+

lemma pae_RESTART_keeps: "keeps_port sm (Some (pae_RESTART g sm))"
  by (rule keeps_port_entry [of _ "\<lambda>i. i\<lparr>eapRestart := True\<rparr>"]) (simp_all add: pae_RESTART_def eapol_simps on_if_def port_rule_def)

lemma pae_closes:
  "keeps_port sm (Some (pae_DISCONNECTED g sm))" "keeps_port sm (Some (pae_HELD g sm))" "keeps_port sm (Some (pae_FORCE_UNAUTH g sm))"
  by (rule keeps_port_set [of _ _ Unauthorized]; simp add: pae_DISCONNECTED_def pae_HELD_def pae_FORCE_UNAUTH_def
        eapol_auth_tx_canned_eap_def eapol_simps port_rule_def)+

lemma pae_opens:
  "authSuccess sm \<Longrightarrow> keeps_port sm (Some (pae_AUTHENTICATED g sm))"
  "portControl sm = ForceAuthorized \<or> auth_pae_state sm = AUTH_PAE_FORCE_AUTH \<Longrightarrow> keeps_port sm (Some (pae_FORCE_AUTH g sm))"
  by (rule keeps_port_set [of _ _ Authorized];
      simp add: pae_AUTHENTICATED_def pae_FORCE_AUTH_def eapol_auth_tx_canned_eap_def eapol_simps no_grant_def port_rule_def)+

lemma keeps_if:
  "(c \<Longrightarrow> keeps_port sm (Some a)) \<Longrightarrow> (\<not> c \<Longrightarrow> keeps_port sm (Some b)) \<Longrightarrow> keeps_port sm (Some (if c then a else b))"
  by simp

lemma pae_step_keeps: "keeps_port sm (Some (sm_AUTH_PAE_Step sm))"
  unfolding sm_AUTH_PAE_Step_def
  by (cases "auth_pae_state sm"; simp only: auth_pae.case;
      intro keeps_if pae_entries pae_RESTART_keeps pae_closes keeps_port_refl pae_opens; simp)

section \<open>Backend authentication\<close>

lemma be_plain:
  "keeps_port sm (Some (be_TIMEOUT g sm))" "keeps_port sm (Some (be_IDLE g sm))"
  by (rule keeps_port_same [of _ id]; simp add: be_TIMEOUT_def be_IDLE_def eapol_simps on_if_id)+

lemma be_IGNORE_keeps: "keeps_port sm (Some (be_IGNORE g sm))"
  by (rule keeps_port_same [of _ "\<lambda>i. i\<lparr>eapNoReq := False\<rparr>"]) (simp_all add: be_IGNORE_def eapol_simps on_if_def)

lemma be_RESPONSE_keeps: "keeps_port sm (Some (be_RESPONSE g sm))"
  by (rule keeps_port_same [of _ "\<lambda>i. i\<lparr>eapNoReq := False, eapResp := True\<rparr>"])
     (simp_all add: be_RESPONSE_def eapol_simps on_if_def)

lemma be_entry_fields:
  "eap (be_entry st g sm) = eap sm" "outs (be_entry st g sm) = outs sm" "initializing (be_entry st g sm) = initializing sm"
  "initialize (be_entry st g sm) = initialize sm" "portControl (be_entry st g sm) = portControl sm"
  "authPortStatus (be_entry st g sm) = authPortStatus sm" "auth_pae_state (be_entry st g sm) = auth_pae_state sm"
  "authSuccess (be_entry st g sm) = authSuccess sm"
  by (simp_all add: be_entry_def)

lemma abort_auth_keeps: "keeps_port sm (Some (ieee802_1x_abort_auth sm))"
proof (cases "eapTimeout (eif sm)")
  case True
  then show ?thesis
    by (intro keeps_port_same [of _ "\<lambda>i. i\<lparr>portEnabled := False\<rparr>"])
       (simp_all add: ieee802_1x_abort_auth_def emit_out_def on_eap_def Let_def on_if_def)
next
  case False
  then show ?thesis
    by (intro keeps_port_same [of _ id]) (simp_all add: ieee802_1x_abort_auth_def emit_out_def Let_def on_if_id)
qed

lemma be_INITIALIZE_keeps: "keeps_port sm (Some (be_INITIALIZE g sm))"
proof -
  have "keeps_port sm (Some (be_entry BE_AUTH_INITIALIZE g sm))"
    by (rule keeps_port_same [of _ id]) (simp_all add: be_entry_fields on_if_id)
  moreover have "keeps_port sm (Some ((on_eap (\<lambda>i. i\<lparr>eapNoReq := False\<rparr>) sm)\<lparr>authAbort := False\<rparr>))" for sm :: "'a eapol_state_machine"
    by (rule keeps_port_same [of _ "\<lambda>i. i\<lparr>eapNoReq := False\<rparr>"]) (simp_all add: on_eap_def on_if_def)
  ultimately show ?thesis
    unfolding be_INITIALIZE_def using abort_auth_keeps keeps_port_trans by blast
qed

text \<open>The three actions that send the request of the EAP machine.\<close>

lemma be_sends:
  shows be_REQUEST_keeps: "keeps_port sm (be_REQUEST g sm)"
    and be_FAIL_keeps: "keeps_port sm (be_FAIL g sm)"
    and be_SUCCESS_keeps: "eapSuccess (eif sm) \<Longrightarrow> keeps_port sm (be_SUCCESS g sm)"
proof -
  have e: "keeps_port sm (eapol_auth_tx_req (be_entry st g sm) \<bind> (\<lambda>sm'. Some (h sm')))"
    if "\<And>sm'. eap (h sm') = on_if f (eap sm')" "\<And>i. eapSuccess (f i) = eapSuccess i \<and> aaaSuccess (f i) = aaaSuccess i"
      "\<And>sm'. initializing (h sm') = initializing sm' \<and> initialize (h sm') = initialize sm' \<and> portControl (h sm') = portControl sm'
         \<and> authPortStatus (h sm') = authPortStatus sm' \<and> auth_pae_state (h sm') = auth_pae_state sm' \<and> outs (h sm') = outs sm'"
      "\<And>sm'. authSuccess (h sm') \<longrightarrow> authSuccess sm' \<or> eapSuccess (eif sm)" for st h f
  proof -
    obtain sm' where t: "eapol_auth_tx_req (be_entry st g sm) = Some sm'" "eap sm' = eap sm" "told (outs sm') = told (outs sm)"
      "initializing sm' = initializing sm" "initialize sm' = initialize sm" "portControl sm' = portControl sm"
      "authPortStatus sm' = authPortStatus sm" "auth_pae_state sm' = auth_pae_state sm" "authSuccess sm' = authSuccess sm"
      using tx_req_fields [of "be_entry st g sm"] unfolding be_entry_fields by (elim exE conjE)
    have "keeps_port sm (Some (h sm'))"
      by (rule keeps_port_same [of _ f]) (use t that(1-3) that(4) [of sm'] in \<open>simp_all add: on_if_def\<close>)
    then show ?thesis using t(1) by simp
  qed
  show "keeps_port sm (be_REQUEST g sm)" unfolding be_REQUEST_def Let_def
    by (rule e [of _ "\<lambda>i. i\<lparr>eapReq := False\<rparr>"]) (simp_all add: on_eap_def)
  show "keeps_port sm (be_FAIL g sm)" unfolding be_FAIL_def by (rule e [of _ id]) (simp_all add: on_if_id)
  show "keeps_port sm (be_SUCCESS g sm)" if "eapSuccess (eif sm)"
    unfolding be_SUCCESS_def by (rule e [of _ id]) (simp_all add: on_if_id that)
qed

lemma be_wait_keeps: "keeps_port sm (be_wait sm)"
  by (simp add: be_wait_def be_RESPONSE_keeps be_REQUEST_keeps be_plain keeps_port_refl)

text \<open>\<open>RESPONSE\<close>: possibly \<open>IGNORE\<close> first, then the rest from there.\<close>

lemma keeps_port_counter:
  "keeps_port sm (Some (sm\<lparr>backendAccessChallenges := a\<rparr>))" "keeps_port sm (Some (sm\<lparr>backendAuthFails := a\<rparr>))"
  "keeps_port sm (Some (sm\<lparr>backendAuthSuccesses := a\<rparr>))" "keeps_port sm (Some (sm\<lparr>calls := n\<rparr>))"
  by (rule keeps_port_same [of _ id]; simp add: on_if_id)+

lemmas be_counted = keeps_port_trans [OF keeps_port_counter(1) be_REQUEST_keeps] keeps_port_trans [OF keeps_port_counter(2) be_FAIL_keeps]
  keeps_port_trans [OF keeps_port_counter(3) be_SUCCESS_keeps, simplified]

lemma be_step_keeps: "keeps_port sm (sm_BE_AUTH_Step sm)"
proof -
  have response: "keeps_port sm1 (if eapReq (eif sm1)
          then be_REQUEST False (sm1\<lparr>backendAccessChallenges := backendAccessChallenges sm1 + 1\<rparr>)
          else if aWhile sm1 = 0 then Some (be_TIMEOUT False sm1)
          else if eapFail (eif sm1) then be_FAIL False (sm1\<lparr>backendAuthFails := backendAuthFails sm1 + 1\<rparr>)
          else if eapSuccess (eif sm1) then be_SUCCESS False (sm1\<lparr>backendAuthSuccesses := backendAuthSuccesses sm1 + 1\<rparr>)
          else Some sm1)" for sm1 :: "'a eapol_state_machine"
    by (simp add: be_plain keeps_port_refl be_counted)
  have ignore: "keeps_port sm (Some (if eapNoReq (eif sm) then be_IGNORE False sm else sm))"
    by (simp add: be_IGNORE_keeps keeps_port_refl)
  show ?thesis
  proof (cases "be_auth_state sm = BE_AUTH_RESPONSE \<and> \<not> (portControl sm \<noteq> Auto \<or> initialize sm \<or> authAbort sm)")
    case True
    then show ?thesis using keeps_port_trans [OF ignore response] by (simp add: sm_BE_AUTH_Step_def Let_def)
  next
    case False
    then show ?thesis
      by (cases "be_auth_state sm")
         (simp_all add: sm_BE_AUTH_Step_def be_INITIALIZE_keeps be_plain be_wait_keeps be_sends keeps_port_refl)
  qed
qed

section \<open>The small machines\<close>

lemma reauth_step_keeps: "keeps_port sm (Some (sm_REAUTH_TIMER_Step sm))"
proof -
  have "keeps_port sm (Some (reauth_INITIALIZE g sm))" "keeps_port sm (Some (reauth_REAUTHENTICATE g sm))" for g
    by (rule keeps_port_same [of _ id]; simp add: reauth_INITIALIZE_def reauth_REAUTHENTICATE_def eapol_simps on_if_id)+
  then show ?thesis
    by (cases "reauth_timer_state sm") (simp_all add: sm_REAUTH_TIMER_Step_def keeps_port_refl)
qed

lemma key_rx_step_keeps: "keeps_port sm (Some (sm_KEY_RX_Step sm))"
proof -
  have "keeps_port sm (Some (key_rx_NO_KEY_RECEIVE g sm))" "keeps_port sm (Some (key_rx_KEY_RECEIVE g sm))" for g
    by (rule keeps_port_same [of _ id]; simp add: key_rx_NO_KEY_RECEIVE_def key_rx_KEY_RECEIVE_def eapol_simps on_if_id)+
  then show ?thesis
    by (cases "key_rx_state sm") (simp_all add: sm_KEY_RX_Step_def keeps_port_refl)
qed

lemma ctrl_dir_step_keeps: "keeps_port sm (Some (sm_CTRL_DIR_Step sm))"
proof -
  have e: "keeps_port sm (Some (ctrl_dir_FORCE_BOTH g sm))" "keeps_port sm (Some (ctrl_dir_IN_OR_BOTH g sm))"
    for g and sm :: "'a eapol_state_machine"
    by (rule keeps_port_same [of _ id]; simp add: ctrl_dir_FORCE_BOTH_def ctrl_dir_IN_OR_BOTH_def eapol_simps on_if_id)+
  let ?sm = "if operControlledDirections sm \<noteq> adminControlledDirections sm then ctrl_dir_IN_OR_BOTH False sm else sm"
  have "keeps_port sm (Some ?sm)" by (simp add: e keeps_port_refl)
  then have "keeps_port sm (Some (if c then ctrl_dir_FORCE_BOTH False ?sm else ?sm))" for c
    using keeps_port_trans [OF _ e(1)] by (cases c) (simp_all only: if_True if_False)
  then show ?thesis
    by (cases "ctrl_dir_state sm") (simp_all add: sm_CTRL_DIR_Step_def e keeps_port_refl Let_def)
qed

lemma key_tx_step_keeps: "keeps_port sm (Some (sm_AUTH_KEY_TX_Step sm))"
proof -
  have "keeps_port sm (Some (key_tx_NO_KEY_TRANSMIT g sm))" for g
    by (rule keeps_port_same [of _ id]) (simp_all add: key_tx_NO_KEY_TRANSMIT_def eapol_simps on_if_id)
  moreover have "keeps_port sm (Some (key_tx_KEY_TRANSMIT g sm))" for g
    by (rule keeps_port_same [of _ "\<lambda>i. i\<lparr>eapKeyAvailable := False\<rparr>"]) (simp_all add: key_tx_KEY_TRANSMIT_def eapol_simps on_if_def)
  ultimately show ?thesis
    by (cases "auth_key_tx_state sm") (simp_all add: sm_AUTH_KEY_TX_Step_def keeps_port_refl)
qed

section \<open>A machine run while the station is alive\<close>

text \<open>The contract of one of the machines, as the driver relies on it.\<close>

locale sub_machine =
  fixes step :: "'p eapol_state_machine \<Rightarrow> 'p eapol_state_machine ub"
  assumes step_keeps: "keeps_port sm (step sm)"
begin

lemma when_alive_keeps: "keeps_port sm (when_alive env step sm)"
  using keeps_port_trans [OF keeps_port_counter(4) step_keeps, of sm "calls sm + 1"]
  by (simp add: when_alive_def eapol_sm_sta_entry_alive_def step_keeps keeps_port_counter)

end

interpretation be: sub_machine sm_BE_AUTH_Step
  by unfold_locales (rule be_step_keeps)

interpretation reauth: sub_machine "\<lambda>sm. Some (sm_REAUTH_TIMER_Step sm)"
  by unfold_locales (rule reauth_step_keeps)

interpretation key_tx: sub_machine "\<lambda>sm. Some (sm_AUTH_KEY_TX_Step sm)"
  by unfold_locales (rule key_tx_step_keeps)

interpretation key_rx: sub_machine "\<lambda>sm. Some (sm_KEY_RX_Step sm)"
  by unfold_locales (rule key_rx_step_keeps)

interpretation ctrl_dir: sub_machine "\<lambda>sm. Some (sm_CTRL_DIR_Step sm)"
  by unfold_locales (rule ctrl_dir_step_keeps)

lemma step_machines_keeps: "keeps_port sm (step_machines env sm)"
proof -
  let ?wep = "\<lambda>sm. if config_wep env then when_alive env (\<lambda>sm. Some (sm_AUTH_KEY_TX_Step sm)) sm \<bind> when_alive env (\<lambda>sm. Some (sm_KEY_RX_Step sm))
     else Some sm"
  have "keeps_port sm (?wep sm)" for sm
    by (cases "config_wep env") (simp_all add: keeps_port_refl keeps_port_bind key_tx.when_alive_keeps key_rx.when_alive_keeps)
  then have "keeps_port sm1 (when_alive env sm_BE_AUTH_Step sm1 \<bind> (\<lambda>sm. when_alive env (\<lambda>sm. Some (sm_REAUTH_TIMER_Step sm)) sm \<bind>
      (\<lambda>sm. ?wep sm \<bind> (\<lambda>sm. when_alive env (\<lambda>sm. Some (sm_CTRL_DIR_Step sm)) sm))))" for sm1
    by (intro keeps_port_bind be.when_alive_keeps reauth.when_alive_keeps ctrl_dir.when_alive_keeps)
  from keeps_port_trans [OF pae_step_keeps this] show ?thesis unfolding step_machines_def Let_def .
qed

section \<open>The driver\<close>

text \<open>No registered method other than Identity can report success.\<close>

definition no_local_success :: "'p eap_env \<Rightarrow> bool" where
  "no_local_success env \<longleftrightarrow> (\<forall>sm. ptr_ok env sm \<longrightarrow> \<not> method_success env sm)"

text \<open>The result of a run: the EAP authenticator stays reachable, the port rules hold.\<close>

definition run_good :: "'p eapol_env \<Rightarrow> 'p eapol_state_machine \<Rightarrow> 'p eapol_state_machine ub \<Rightarrow> bool" where
  "run_good env sm r \<longleftrightarrow> (\<exists>sm'. r = Some sm' \<and> eap_reach (eap_side env) (eap sm') \<and> (port_inv sm \<longrightarrow> port_inv sm')
     \<and> (no_local_success (eap_side env) \<longrightarrow> no_grant sm \<longrightarrow> no_grant sm')
     \<and> initializing sm' = initializing sm \<and> initialize sm' = initialize sm \<and> portControl sm' = portControl sm)"

lemma run_good_keeps:
  assumes "eap_reach (eap_side env) (eap sm)" "keeps_port sm r" shows "run_good env sm r"
proof -
  obtain sm' where s: "r = Some sm'" "eapol_frame sm sm'" "port_inv sm \<longrightarrow> port_inv sm'" "no_grant sm \<longrightarrow> no_grant sm'"
    using assms(2) unfolding keeps_port_def by (elim exE conjE)
  obtain f where "eap sm' = on_if f (eap sm)" using s(2) by (auto simp: eapol_frame_def)
  then have "eap_reach (eap_side env) (eap sm')" using reach_lower [OF assms(1)] by simp
  then show ?thesis using s by (simp add: run_good_def eapol_frame_def)
qed

lemma run_good_trans:
  assumes "run_good env sm (Some sm1)" "run_good env sm1 r" shows "run_good env sm r"
proof -
  obtain sm2 where "r = Some sm2" "eap_reach (eap_side env) (eap sm2)" "port_inv sm1 \<longrightarrow> port_inv sm2"
    "no_local_success (eap_side env) \<longrightarrow> no_grant sm1 \<longrightarrow> no_grant sm2"
    "initializing sm2 = initializing sm1" "initialize sm2 = initialize sm1" "portControl sm2 = portControl sm1"
    using assms(2) unfolding run_good_def by (elim exE conjE)
  then show ?thesis using assms(1) by (simp add: run_good_def)
qed

lemma outs_keep:
  "keeps_port sm (Some (eapol_auth_step sm))" "keeps_port sm (Some (notify_change env sm))"
  "keeps_port sm (Some (emit_out (Aaa_Send d) sm))" "keeps_port sm (Some (emit_out Tick_Timeout sm))" "keeps_port sm (Some (emit_out Tick_Cancel sm))"
  by (rule keeps_port_same [of _ id]; simp add: eapol_auth_step_def notify_change_def eapol_sm_sta_entry_alive_def emit_out_def on_if_id)+

lemmas aaa_send_keeps = keeps_port_trans [OF outs_keep(3) outs_keep(2)]

lemma aaa_response_keeps: "keeps_port sm (Some (aaa_response env sm))"
proof -
  let ?sm = "on_eap (\<lambda>i. i\<lparr>aaaEapResp := False\<rparr>) sm"
  have "keeps_port sm (Some ?sm)"
    by (rule keeps_port_same [of _ "\<lambda>i. i\<lparr>aaaEapResp := False\<rparr>"]) (simp_all add: on_eap_def on_if_def)
  moreover have "keeps_port ?sm (Some (case aaaEapRespData (eif ?sm) of None \<Rightarrow> ?sm | Some d \<Rightarrow> notify_change env (emit_out (Aaa_Send d) ?sm)))"
    by (simp add: keeps_port_refl aaa_send_keeps split: option.split)
  ultimately have "keeps_port sm (Some (case aaaEapRespData (eif ?sm) of None \<Rightarrow> ?sm | Some d \<Rightarrow> notify_change env (emit_out (Aaa_Send d) ?sm)))"
    by (rule keeps_port_trans)
  then show ?thesis by (simp add: aaa_response_def Let_def outs_keep(2))
qed

locale eapol_authenticator = eap_authenticator "eap_side env" for env :: "'p eapol_env" +
  assumes quiet: "no_reauth_start (eap_side env)"
begin

text \<open>The step of the nested EAP authenticator.\<close>

lemma eap_step_good:
  assumes "eap_reach (eap_side env) (eap sm)"
  shows "\<exists>res e. eap_server_sm_step (eap_side env) (eap sm) = Some (res, e) \<and> run_good env sm (Some (sm\<lparr>eap := e\<rparr>))"
proof -
  obtain res e where e: "eap_server_sm_step (eap_side env) (eap sm) = Some (res, e)"
    "eapSuccess (eap_if e) \<longrightarrow> eapSuccess (eif sm) \<or> (\<exists>s. success_grounds (eap sm) s)" "aaaSuccess (eap_if e) \<longrightarrow> aaaSuccess (eif sm)"
    using step_loop_ok [OF reach_inv [OF assms quiet] quiet, of 0] unfolding eap_server_sm_step_def by blast
  have grant: "no_grant (sm\<lparr>eap := e\<rparr>)" if n: "no_local_success (eap_side env)" "no_grant sm"
  proof -
    have "\<not> success_grounds (eap sm) s" for s
    proof
      assume g: "success_grounds (eap sm) s"
      then have p: "ptr_ok (eap_side env) s" by (simp add: success_grounds_def eap_inv_def)
      then have "ptr_ok (eap_side env) (s\<lparr>sm_changed := False\<rparr>)" by (simp add: ptr_ok_def user_ok_def)
      with g n show False by (auto simp: success_grounds_def success_reason_def no_local_success_def no_grant_def)
    qed
    with e(2,3) n(2) show ?thesis by (auto simp: no_grant_def)
  qed
  have "port_inv (sm\<lparr>eap := e\<rparr>) = port_inv sm" unfolding port_inv_def by simp
  then have "run_good env sm (Some (sm\<lparr>eap := e\<rparr>))"
    using reach_step [OF assms e(1)] grant by (simp add: run_good_def)
  with e(1) show ?thesis by blast
qed

lemma step_run_loop_good: "eap_reach (eap_side env) (eap sm) \<Longrightarrow> run_good env sm (step_run_loop env n sm)"
proof (induction n arbitrary: sm)
  case 0
  then show ?case by (simp add: run_good_keeps keeps_port_refl)
next
  case (Suc n)
  have next_round: "run_good env s (if n > 0 then step_run_loop env n s else Some (eapol_auth_step s))"
    if "eap_reach (eap_side env) (eap s)" for s
    using Suc.IH [OF that] run_good_keeps [OF that outs_keep(1)] by simp
  obtain sm1 where m: "step_machines env sm = Some sm1" using step_machines_keeps [of sm env] by (auto simp: keeps_port_def)
  have g1: "run_good env sm (Some sm1)" using run_good_keeps [OF Suc.prems, of "Some sm1"] step_machines_keeps [of sm env] m by simp
  then have r1: "eap_reach (eap_side env) (eap sm1)" by (simp add: run_good_def)
  define sm2 where "sm2 = sm1\<lparr>calls := calls sm1 + 1\<rparr>"
  have g2: "run_good env sm (Some sm2)" "eap_reach (eap_side env) (eap sm2)"
    using run_good_trans [OF g1 run_good_keeps [OF r1 keeps_port_counter(4)]] r1 by (simp_all add: sm2_def)
  obtain res e where e: "eap_server_sm_step (eap_side env) (eap sm2) = Some (res, e)" "run_good env sm2 (Some (sm2\<lparr>eap := e\<rparr>))"
    using eap_step_good [OF g2(2)] by blast
  then have r3: "eap_reach (eap_side env) (eap (sm2\<lparr>eap := e\<rparr>))" by (simp add: run_good_def)
  note g3 = run_good_trans [OF g2(1) e(2)]
  have "run_good env sm (if n > 0 then step_run_loop env n sm1 else Some (eapol_auth_step sm1))"
    by (rule run_good_trans [OF g1 next_round [OF r1]])
  moreover have "run_good env sm (Some (notify_change env sm2))"
    by (rule run_good_trans [OF g2(1) run_good_keeps [OF g2(2) outs_keep(2)]])
  moreover have "run_good env sm (if n > 0 then step_run_loop env n (sm2\<lparr>eap := e\<rparr>) else Some (eapol_auth_step (sm2\<lparr>eap := e\<rparr>)))"
    by (rule run_good_trans [OF g3 next_round [OF r3]])
  moreover have "run_good env sm (Some (aaa_response env (sm2\<lparr>eap := e\<rparr>)))"
    by (rule run_good_trans [OF g3 run_good_keeps [OF r3 aaa_response_keeps]])
  ultimately show ?case
    using m e(1) by (cases "states_differ sm sm1"; cases "alive_at env (calls sm1)"; cases "res = 0"; cases "0 < n")
       (simp_all add: eapol_sm_sta_entry_alive_def sm2_def Let_def)
qed

lemma step_run_good: "eap_reach (eap_side env) (eap sm) \<Longrightarrow> run_good env sm (eapol_sm_step_run env sm)"
  unfolding eapol_sm_step_run_def by (rule step_run_loop_good)

lemma tick_good:
  assumes "eap_reach (eap_side env) (eap sm)" shows "run_good env sm (eapol_port_timers_tick env sm)"
proof -
  let ?sm = "on_eap (\<lambda>i. i\<lparr>retransWhile := count_down (retransWhile i)\<rparr>) (sm\<lparr>aWhile := count_down (aWhile sm),
     quietWhile := count_down (quietWhile sm), reAuthWhen := count_down (reAuthWhen sm)\<rparr>)"
  have "keeps_port sm (Some ?sm)"
    by (rule keeps_port_same [of _ "\<lambda>i. i\<lparr>retransWhile := count_down (retransWhile i)\<rparr>"]) (simp_all add: on_eap_def on_if_def)
  then have g: "run_good env sm (Some ?sm)" by (rule run_good_keeps [OF assms])
  then have r: "run_good env ?sm (eapol_sm_step_run env ?sm)" by (intro step_run_good) (simp add: run_good_def)
  then obtain sm1 where s: "eapol_sm_step_run env ?sm = Some sm1" "eap_reach (eap_side env) (eap sm1)" by (auto simp: run_good_def)
  have "run_good env ?sm (Some (emit_out Tick_Timeout sm1))"
    using run_good_trans [OF _ run_good_keeps [OF s(2) outs_keep(4)]] r s(1) by simp
  from run_good_trans [OF g this] show ?thesis by (simp add: eapol_port_timers_tick_def Let_def s(1))
qed

end

end
