(* ===== verification/Ieee8021x.thy ===== *)
theory Ieee8021x
  imports Eapol_Inv
begin

unbundle bit_operations_syntax

text \<open>
  The access point's side of IEEE 802.1X, from \<open>src/ap/ieee802_1x.c\<close>: reception of EAPOL
  frames, start and end of a station, notifications of the lower layers. The build has
  neither \<open>CONFIG_ERP\<close> nor \<open>CONFIG_IEEE80211R_AP\<close> nor \<open>CONFIG_FILS\<close>.

  A station has its flags, its EAPOL state machine (\<open>None\<close> before the first use) and the last
  frame saved before association; calls into the WPA authenticator and the accounting code
  are recorded in \<open>sta_outs\<close>. What the code asks of other modules is in \<open>hapd\<close>: the
  configuration, the station's key management and its PMKSA cache entry.
\<close>

section \<open>State\<close>

definition WLAN_STA_AUTH :: u32 where "WLAN_STA_AUTH = 0x1"
definition WLAN_STA_ASSOC :: u32 where "WLAN_STA_ASSOC = 0x2"
definition WLAN_STA_AUTHORIZED :: u32 where "WLAN_STA_AUTHORIZED = 0x20"
definition WLAN_STA_PREAUTH :: u32 where "WLAN_STA_PREAUTH = 0x100"
definition WLAN_STA_WPS :: u32 where "WLAN_STA_WPS = 0x1000"
definition WLAN_STA_MAYBE_WPS :: u32 where "WLAN_STA_MAYBE_WPS = 0x2000"
definition WLAN_STA_WPS2 :: u32 where "WLAN_STA_WPS2 = 0x10000"

definition IEEE802_1X_TYPE_EAP_PACKET :: u8 where "IEEE802_1X_TYPE_EAP_PACKET = 0"
definition IEEE802_1X_TYPE_EAPOL_START :: u8 where "IEEE802_1X_TYPE_EAPOL_START = 1"
definition IEEE802_1X_TYPE_EAPOL_LOGOFF :: u8 where "IEEE802_1X_TYPE_EAPOL_LOGOFF = 2"
definition IEEE802_1X_TYPE_EAPOL_KEY :: u8 where "IEEE802_1X_TYPE_EAPOL_KEY = 3"
definition IEEE802_1X_TYPE_EAPOL_ENCAPSULATED_ASF_ALERT :: u8 where "IEEE802_1X_TYPE_EAPOL_ENCAPSULATED_ASF_ALERT = 4"

definition EAPOL_KEY_TYPE_RSN :: u8 where "EAPOL_KEY_TYPE_RSN = 2"
definition EAPOL_KEY_TYPE_WPA :: u8 where "EAPOL_KEY_TYPE_WPA = 254"

definition sizeof_ieee802_1x_hdr :: nat where "sizeof_ieee802_1x_hdr = 4"
definition sizeof_ieee802_1x_eapol_key :: nat where "sizeof_ieee802_1x_eapol_key = 44"

text \<open>A VLAN description: the untagged VLAN and the tagged ones, \<open>None\<close> for an empty one.\<close>

type_synonym vlan_desc = "(int \<times> int list) option"

datatype sta_out =
    Wpa_Receive bytes | Wpa_Reauth_Event | Clear_Pmksa | Accounting_Stop | Set_Vlan vlan_desc | Bind_Vlan
  | Session_Timeout u32 | No_Session_Timeout | Radius_Send radius_msg | Set_Ptk_Rekey_Timer

record 'p sta_info =
  sta_flags :: u32
  eapol_sm :: "'p eapol_state_machine option"
  pending_eapol_rx :: "bytes option"
  acct_interim_interval :: u32
  session_timeout_set :: bool
  session_timeout_sec :: int
  disconnect_reason_code :: u32
  sta_outs :: "sta_out list"

record pmksa_data =
  pmksa_identity :: "bytes option"
  pmksa_cui :: "bytes option"
  pmksa_class :: "bytes list option"
  pmksa_eap_type_authsrv :: u8
  pmksa_vlan_desc :: vlan_desc
  pmksa_acct_multi_session_id :: u64

record 'p hapd =
  conf_ieee802_1x :: bool
  conf_hapd_wpa :: bool
  conf_osen :: bool
  conf_wps_state :: bool
  config_wps :: bool
  drv_wired :: bool
  has_wpa_sm :: bool
  sta_uses_psk :: bool
  sta_auth_ft :: bool
  sta_auth_fils :: bool
  sta_pmksa :: "pmksa_data option"
  hapd_malloc :: "nat \<Rightarrow> bool"
  alloc_sm_ok :: bool
  alloc_eap_ok :: bool
  new_session_id :: "u64 option"
  sta_identity :: "bytes option"
  sta_cui :: "bytes option"
  eapol_auth :: "'p eapol_env"

definition sta_flag :: "u32 \<Rightarrow> 'p sta_info \<Rightarrow> bool" where
  "sta_flag m sta \<longleftrightarrow> sta_flags sta AND m \<noteq> 0"

definition on_sm :: "('p eapol_state_machine \<Rightarrow> 'p eapol_state_machine) \<Rightarrow> 'p sta_info \<Rightarrow> 'p sta_info" where
  "on_sm f sta = sta\<lparr>eapol_sm := map_option f (eapol_sm sta)\<rparr>"

definition sta_out :: "sta_out \<Rightarrow> 'p sta_info \<Rightarrow> 'p sta_info" where
  "sta_out e sta = sta\<lparr>sta_outs := e # sta_outs sta\<rparr>"

section \<open>EAP packets\<close>

text \<open>\<open>wpabuf_alloc_copy\<close>: the copy, or nothing when the allocation fails.\<close>

definition alloc_copy :: "(nat \<Rightarrow> bool) \<Rightarrow> bytes \<Rightarrow> bytes option" where
  "alloc_copy malloc d = (if malloc (unat sizeof_wpabuf + length d) then Some d else None)"

definition handle_eap_response :: "(nat \<Rightarrow> bool) \<Rightarrow> bytes \<Rightarrow> 'p eapol_state_machine \<Rightarrow> 'p eapol_state_machine ub" where
  "handle_eap_response malloc eap_pkt sm =
     (if length eap_pkt < sizeof_eap_hdr + 1 then Some sm
      else do {
        type \<leftarrow> peek eap_pkt (int sizeof_eap_hdr);
        let sm = sm\<lparr>eap_type_supp := type, dot1xAuthEapolRespFramesRx := dot1xAuthEapolRespFramesRx sm + 1\<rparr>;
        Some ((on_eap (\<lambda>i. i\<lparr>eapRespData := alloc_copy malloc eap_pkt\<rparr>) sm)\<lparr>eapolEap := True\<rparr>) })"

definition handle_eap_initiate :: "bytes \<Rightarrow> 'p eapol_state_machine \<Rightarrow> 'p eapol_state_machine ub" where
  "handle_eap_initiate eap_pkt sm = Some sm"

definition handle_eap :: "(nat \<Rightarrow> bool) \<Rightarrow> bytes \<Rightarrow> 'p eapol_state_machine \<Rightarrow> 'p eapol_state_machine ub" where
  "handle_eap malloc buf sm =
     (if length buf < sizeof_eap_hdr then Some sm
      else do {
        eap_len \<leftarrow> eap_hdr_length buf;
        code \<leftarrow> peek buf 0;
        if eap_len < sizeof_eap_hdr then Some sm
        else if eap_len > length buf then Some sm
        else if code = EAP_CODE_RESPONSE then handle_eap_response malloc (take eap_len buf) sm
        else if code = EAP_CODE_INITIATE then handle_eap_initiate (take eap_len buf) sm
        else Some sm })"

section \<open>Stations\<close>

definition ieee802_1x_alloc_eapol_sm :: "'p hapd \<Rightarrow> bytes \<Rightarrow> 'p sta_info \<Rightarrow> 'p eapol_state_machine option ub" where
  "ieee802_1x_alloc_eapol_sm hapd a sta =
     (let fl = (if sta_flag WLAN_STA_PREAUTH sta then EAPOL_SM_PREAUTH else 0);
          fl = (if has_wpa_sm hapd then
                  let fl = fl OR EAPOL_SM_USES_WPA in
                  if sta_pmksa hapd \<noteq> None then fl OR EAPOL_SM_FROM_PMKSA_CACHE else fl
                else fl) in
      eapol_auth_alloc (eapol_auth hapd) a fl (alloc_sm_ok hapd) (alloc_eap_ok hapd) (new_session_id hapd)
        (sta_identity hapd) (sta_cui hapd))"

text \<open>\<open>malloc\<close> gives the size of \<open>struct pending_eapol_rx\<close> first, then the copy of the frame.\<close>

definition sizeof_pending_eapol_rx :: nat where "sizeof_pending_eapol_rx = 24"

definition ieee802_1x_save_eapol :: "(nat \<Rightarrow> bool) \<Rightarrow> bytes \<Rightarrow> 'p sta_info \<Rightarrow> 'p sta_info" where
  "ieee802_1x_save_eapol malloc buf sta =
     (if pending_eapol_rx sta = None \<and> \<not> malloc sizeof_pending_eapol_rx then sta
      else sta\<lparr>pending_eapol_rx := alloc_copy malloc buf\<rparr>)"

definition ieee802_1x_free_station :: "'p sta_info \<Rightarrow> 'p sta_info" where
  "ieee802_1x_free_station sta = sta\<lparr>pending_eapol_rx := None, eapol_sm := None\<rparr>"

text \<open>The frame types of the \<open>switch\<close> at the end of \<open>ieee802_1x_receive\<close>.\<close>

definition receive_type :: "'p hapd \<Rightarrow> u8 \<Rightarrow> bytes \<Rightarrow> 'p sta_info \<Rightarrow> 'p sta_info ub" where
  "receive_type hapd type body sta =
     (if type = IEEE802_1X_TYPE_EAP_PACKET then do {
        sm \<leftarrow> eapol_sm sta;
        sm \<leftarrow> handle_eap (hapd_malloc hapd) body sm;
        Some (sta\<lparr>eapol_sm := Some sm\<rparr>) }
      else if type = IEEE802_1X_TYPE_EAPOL_START then
        let sta = on_sm (\<lambda>sm. sm\<lparr>flags := flags sm AND NOT EAPOL_SM_WAIT_START\<rparr>) sta;
            sta = (if sta_pmksa hapd \<noteq> None then sta_out Clear_Pmksa sta else sta);
            sta = on_sm (\<lambda>sm. sm\<lparr>eapolStart := True,
                    dot1xAuthEapolStartFramesRx := dot1xAuthEapolStartFramesRx sm + 1,
                    eap := eap_server_clear_identity (eap sm)\<rparr>) sta in
        Some (sta_out Wpa_Reauth_Event sta)
      else if type = IEEE802_1X_TYPE_EAPOL_LOGOFF then
        Some (on_sm (\<lambda>sm. sm\<lparr>eapolLogoff := True,
                dot1xAuthEapolLogoffFramesRx := dot1xAuthEapolLogoffFramesRx sm + 1,
                eap := eap_server_clear_identity (eap sm)\<rparr>) (sta_out Accounting_Stop sta))
      else if type = IEEE802_1X_TYPE_EAPOL_KEY then Some sta
      else if type = IEEE802_1X_TYPE_EAPOL_ENCAPSULATED_ASF_ALERT then Some sta
      else Some (on_sm (\<lambda>sm. sm\<lparr>dot1xAuthInvalidEapolFramesRx := dot1xAuthInvalidEapolFramesRx sm + 1\<rparr>) sta))"

text \<open>The creation of a missing state machine in \<open>ieee802_1x_receive\<close>.\<close>

definition receive_alloc :: "'p hapd \<Rightarrow> bytes \<Rightarrow> 'p sta_info \<Rightarrow> 'p sta_info option ub" where
  "receive_alloc hapd a sta =
     (if eapol_sm sta \<noteq> None then Some (Some sta)
      else do {
        r \<leftarrow> ieee802_1x_alloc_eapol_sm hapd a sta;
        case r of
          None \<Rightarrow> Some None
        | Some sm \<Rightarrow>
          let wflags = sta_flags sta AND (WLAN_STA_WPS OR WLAN_STA_WPS2 OR WLAN_STA_MAYBE_WPS);
              sm = (if config_wps hapd \<and> \<not> conf_ieee802_1x hapd \<and> conf_wps_state hapd
                       \<and> (wflags = WLAN_STA_MAYBE_WPS \<or> wflags = (WLAN_STA_WPS OR WLAN_STA_MAYBE_WPS))
                    then sm\<lparr>flags := flags sm OR EAPOL_SM_WAIT_START\<rparr> else sm) in
          Some (Some (sta\<lparr>eapol_sm := Some (on_eap (\<lambda>i. i\<lparr>portEnabled := True\<rparr>) sm)\<rparr>)) })"

definition ieee802_1x_receive :: "'p hapd \<Rightarrow> bytes \<Rightarrow> bytes \<Rightarrow> 'p sta_info option \<Rightarrow> 'p sta_info option ub" where
  "ieee802_1x_receive hapd a buf sta_opt =
     (if \<not> conf_ieee802_1x hapd \<and> \<not> conf_hapd_wpa hapd \<and> \<not> conf_osen hapd \<and> \<not> conf_wps_state hapd then Some sta_opt
      else case sta_opt of
        None \<Rightarrow> Some None
      | Some sta \<Rightarrow>
        if \<not> sta_flag (WLAN_STA_ASSOC OR WLAN_STA_PREAUTH) sta \<and> \<not> drv_wired hapd
        then Some (Some (if sta_flag WLAN_STA_AUTH sta then ieee802_1x_save_eapol (hapd_malloc hapd) buf sta else sta))
        else if length buf < sizeof_ieee802_1x_hdr then Some (Some sta)
        else do {
          version \<leftarrow> peek buf 0;
          type \<leftarrow> peek buf 1;
          dl \<leftarrow> WPA_GET_BE16 (drop 2 buf);
          let datalen = unat dl;
          if length buf - sizeof_ieee802_1x_hdr < datalen
          then Some (Some (on_sm (\<lambda>sm. sm\<lparr>dot1xAuthEapLengthErrorFramesRx := dot1xAuthEapLengthErrorFramesRx sm + 1\<rparr>) sta))
          else do {
            let sta = on_sm (\<lambda>sm. sm\<lparr>dot1xAuthLastEapolFrameVersion := ucast version,
                        dot1xAuthEapolFramesRx := dot1xAuthEapolFramesRx sm + 1\<rparr>) sta;
            wpa_key \<leftarrow> (if datalen \<ge> sizeof_ieee802_1x_eapol_key \<and> type = IEEE802_1X_TYPE_EAPOL_KEY
                        then do { kt \<leftarrow> peek buf (int sizeof_ieee802_1x_hdr); Some (kt = EAPOL_KEY_TYPE_WPA \<or> kt = EAPOL_KEY_TYPE_RSN) }
                        else Some False);
            if wpa_key
            then Some (Some (sta_out (Wpa_Receive (take (sizeof_ieee802_1x_hdr + datalen) buf)) sta))
            else if \<not> conf_ieee802_1x hapd \<and> \<not> conf_osen hapd \<and> \<not> sta_flag (WLAN_STA_WPS OR WLAN_STA_MAYBE_WPS) sta
            then Some (Some sta)
            else if sta_uses_psk hapd then Some (Some sta)
            else do {
              r \<leftarrow> receive_alloc hapd a sta;
              case r of
                None \<Rightarrow> Some (Some sta)
              | Some sta \<Rightarrow> do {
                  sta \<leftarrow> receive_type hapd type (take datalen (drop sizeof_ieee802_1x_hdr buf)) sta;
                  Some (Some (on_sm eapol_auth_step sta)) } } } })"

text \<open>
  \<open>pmksa_cache_to_eapol_data\<close> of \<open>pmksa_cache_auth.c\<close>; the assignment of the VLAN is the output
  of the caller.
\<close>

definition pmksa_cache_to_eapol_data :: "(nat \<Rightarrow> bool) \<Rightarrow> pmksa_data \<Rightarrow> 'p eapol_state_machine \<Rightarrow> 'p eapol_state_machine" where
  "pmksa_cache_to_eapol_data malloc entry sm =
     (let sm = (case pmksa_identity entry of
                  None \<Rightarrow> sm
                | Some i \<Rightarrow> sm\<lparr>eapol_identity := (if malloc (length i) then Some i else None)\<rparr>);
          sm = (case pmksa_cui entry of None \<Rightarrow> sm | Some c \<Rightarrow> sm\<lparr>radius_cui := alloc_copy malloc c\<rparr>);
          sm = sm\<lparr>radius_class := snd (radius_copy_class malloc None (pmksa_class entry))\<rparr> in
      sm\<lparr>eap_type_authsrv := pmksa_eap_type_authsrv entry, acct_multi_session_id := pmksa_acct_multi_session_id entry\<rparr>)"

text \<open>The parts of \<open>ieee802_1x_new_station\<close> on the state machine: the flags and the enabled port, then
  the shortcut of a cached PMKSA or the start of an authentication.\<close>

definition new_station_prepare :: "'p hapd \<Rightarrow> 'p sta_info \<Rightarrow> 'p eapol_state_machine \<Rightarrow> 'p eapol_state_machine" where
  "new_station_prepare hapd sta sm =
     (let sm = (if config_wps hapd then
                  let sm = sm\<lparr>flags := flags sm AND NOT EAPOL_SM_WAIT_START\<rparr> in
                  if \<not> conf_ieee802_1x hapd \<and> conf_wps_state hapd \<and> \<not> sta_flag WLAN_STA_WPS2 sta
                  then sm\<lparr>flags := flags sm OR EAPOL_SM_WAIT_START\<rparr> else sm
                else sm) in
      on_eap (\<lambda>i. i\<lparr>portEnabled := True\<rparr>) sm)"

text \<open>The state machines put into the authenticated state because the keys are known already.\<close>

definition new_station_keyed :: "'p eapol_state_machine \<Rightarrow> 'p eapol_state_machine" where
  "new_station_keyed sm =
     (on_eap (\<lambda>i. i\<lparr>eapKeyAvailable := True\<rparr>) sm)\<lparr>keyRun := True,
        auth_pae_state := AUTH_PAE_AUTHENTICATING, be_auth_state := BE_AUTH_SUCCESS,
        authSuccess := True, authFail := False\<rparr>"

definition new_station_cached :: "(nat \<Rightarrow> bool) \<Rightarrow> pmksa_data \<Rightarrow> 'p eapol_state_machine \<Rightarrow> 'p eapol_state_machine" where
  "new_station_cached malloc e sm =
     (let sm = new_station_keyed sm;
          sm = sm\<lparr>eap := eap_sm_notify_cached (eap sm)\<rparr> in
      pmksa_cache_to_eapol_data malloc e sm)"

text \<open>The end of \<open>ieee802_1x_new_station\<close>: keys from fast transition, FILS or the PMKSA cache, or an
  authentication.\<close>

definition new_station_finish :: "'p hapd \<Rightarrow> bool \<Rightarrow> 'p eapol_state_machine \<Rightarrow> 'p sta_info \<Rightarrow> 'p sta_info" where
  "new_station_finish hapd reassoc sm sta =
     (if sta_auth_ft hapd \<or> sta_auth_fils hapd then
        let sm = (new_station_keyed sm)\<lparr>portValid := True\<rparr>;
            sm = sm\<lparr>eap := eap_sm_notify_cached (eap sm)\<rparr> in
        sta_out (if sta_auth_ft hapd then Bind_Vlan else Set_Ptk_Rekey_Timer) (sta\<lparr>eapol_sm := Some sm\<rparr>)
      else case sta_pmksa hapd of
        Some e \<Rightarrow>
          sta_out Bind_Vlan (sta_out (Set_Vlan (pmksa_vlan_desc e))
            (sta\<lparr>eapol_sm := Some (new_station_cached (hapd_malloc hapd) e sm)\<rparr>))
      | None \<Rightarrow>
          let sm = (if reassoc then sm\<lparr>reAuthenticate := True\<rparr> else sm) in
          sta\<lparr>eapol_sm := Some (eapol_auth_step sm)\<rparr>)"

definition ieee802_1x_new_station :: "'p hapd \<Rightarrow> bytes \<Rightarrow> 'p sta_info \<Rightarrow> 'p sta_info ub" where
  "ieee802_1x_new_station hapd a sta =
     (let force_1x = (config_wps hapd \<and> conf_wps_state hapd \<and>
            (conf_hapd_wpa hapd \<and> sta_flag WLAN_STA_MAYBE_WPS sta \<or> sta_flag WLAN_STA_WPS sta)) in
      if \<not> force_1x \<and> \<not> conf_ieee802_1x hapd \<and> \<not> conf_osen hapd then Some (ieee802_1x_free_station sta)
      else if sta_uses_psk hapd then Some (ieee802_1x_free_station sta)
      else do {
        let reassoc = (eapol_sm sta \<noteq> None);
        sm \<leftarrow> (if reassoc then Some (eapol_sm sta) else ieee802_1x_alloc_eapol_sm hapd a sta);
        case sm of
          None \<Rightarrow> Some sta
        | Some sm \<Rightarrow> Some (new_station_finish hapd reassoc (new_station_prepare hapd sta sm) sta) })"

section \<open>Notifications\<close>

definition ieee802_1x_notify_port_enabled :: "bool \<Rightarrow> 'p eapol_state_machine \<Rightarrow> 'p eapol_state_machine" where
  "ieee802_1x_notify_port_enabled enabled sm = eapol_auth_step (on_eap (\<lambda>i. i\<lparr>portEnabled := enabled\<rparr>) sm)"

definition ieee802_1x_notify_port_valid :: "bool \<Rightarrow> 'p eapol_state_machine \<Rightarrow> 'p eapol_state_machine" where
  "ieee802_1x_notify_port_valid valid sm = eapol_auth_step (sm\<lparr>portValid := valid\<rparr>)"

definition ieee802_1x_notify_pre_auth :: "bool \<Rightarrow> 'p eapol_state_machine \<Rightarrow> 'p eapol_state_machine" where
  "ieee802_1x_notify_pre_auth pre_auth sm =
     (if pre_auth then sm\<lparr>flags := flags sm OR EAPOL_SM_PREAUTH\<rparr>
      else sm\<lparr>flags := flags sm AND NOT EAPOL_SM_PREAUTH\<rparr>)"

definition ieee802_1x_sta_entry_alive :: "'p sta_info option \<Rightarrow> bool" where
  "ieee802_1x_sta_entry_alive sta = (case sta of None \<Rightarrow> False | Some s \<Rightarrow> eapol_sm s \<noteq> None)"

end
