(* ===== verification/Ieee8021x_Radius.thy ===== *)
theory Ieee8021x_Radius
  imports Ieee8021x Radius_Attrs
begin

unbundle bit_operations_syntax

text \<open>
  The RADIUS side of the access point's IEEE 802.1X code (\<open>src/ap/ieee802_1x.c\<close>): requests that
  carry the supplicant's EAP messages, and the server's responses with their consequences for
  the station's state machine. The build has neither \<open>CONFIG_HS20\<close> nor \<open>CONFIG_FILS\<close>.

  The answers of other modules and the configuration are fields of \<open>ap_radius\<close>: the attributes
  that \<open>add_common_radius_attr\<close> and \<open>add_sqlite_radius_attr\<close> add to a request, the VLAN
  functions of the station table, the clock, the RADIUS client's identifiers.
\<close>

section \<open>Configuration\<close>

datatype dynamic_vlan_mode = DYNAMIC_VLAN_DISABLED | DYNAMIC_VLAN_OPTIONAL | DYNAMIC_VLAN_REQUIRED

datatype RadiusRxResult = RADIUS_RX_PROCESSED | RADIUS_RX_QUEUED | RADIUS_RX_UNKNOWN | RADIUS_RX_INVALID_AUTHENTICATOR

definition EAP_ERP_TYPE_REAUTH :: u8 where "EAP_ERP_TYPE_REAUTH = 2"
definition RADIUS_ATTR_FRAMED_MTU :: u8 where "RADIUS_ATTR_FRAMED_MTU = 12"
definition RADIUS_ATTR_EAP_KEY_NAME :: u8 where "RADIUS_ATTR_EAP_KEY_NAME = 102"
definition RADIUS_TERMINATION_ACTION_DEFAULT :: u32 where "RADIUS_TERMINATION_ACTION_DEFAULT = 0"
definition RADIUS_TERMINATION_ACTION_RADIUS_REQUEST :: u32 where "RADIUS_TERMINATION_ACTION_RADIUS_REQUEST = 1"
definition MAX_NUM_TAGGED_VLAN :: nat where "MAX_NUM_TAGGED_VLAN = 32"

record ap_radius =
  r_env :: radius_env
  next_radius_id :: u8
  request_authenticator :: "bytes option"
  common_attrs :: "(u8 \<times> bytes) list"
  framed_mtu_configured :: bool
  radius_request_cui :: bool
  send_ok :: bool
  dynamic_vlan :: dynamic_vlan_mode
  vlan_valid :: "int \<times> int list \<Rightarrow> bool"
  set_vlan_res :: "vlan_desc \<Rightarrow> int"
  bind_vlan_res :: int
  conf_acct_interim_interval :: u32
  acct_active :: bool
  now_sec :: int

section \<open>Requests\<close>

definition ieee802_1x_learn_identity :: "(nat \<Rightarrow> bool) \<Rightarrow> bytes \<Rightarrow> 'p eapol_state_machine \<Rightarrow> 'p eapol_state_machine ub" where
  "ieee802_1x_learn_identity malloc msg sm =
     (if length msg \<le> sizeof_eap_hdr then Some sm
      else do {
        code \<leftarrow> peek msg 0;
        t \<leftarrow> peek msg (int sizeof_eap_hdr);
        if code = EAP_CODE_RESPONSE \<and> ucast t \<noteq> EAP_TYPE_IDENTITY \<or> code = EAP_CODE_INITIATE \<and> t \<noteq> EAP_ERP_TYPE_REAUTH
           \<or> code \<noteq> EAP_CODE_RESPONSE \<and> code \<noteq> EAP_CODE_INITIATE then Some sm
        else case eap_get_identity (eap sm) of
          None \<Rightarrow> Some sm
        | Some i \<Rightarrow>
          if malloc (length i + 1)
          then Some (sm\<lparr>eapol_identity := Some i, dot1xAuthEapolRespIdFramesRx := dot1xAuthEapolRespIdFramesRx sm + 1\<rparr>)
          else Some (sm\<lparr>eapol_identity := None\<rparr>) })"

text \<open>Attributes added one after the other; \<open>None\<close> when one cannot be added.\<close>

fun add_attr_list :: "radius_env \<Rightarrow> (u8 \<times> bytes) list \<Rightarrow> radius_msg \<Rightarrow> radius_msg option run" where
  "add_attr_list env [] msg = Ok (Some msg)"
| "add_attr_list env ((t, d) # as) msg =
     bindR (radius_msg_add_attr env msg t d) (\<lambda>(a, msg). if a = None then Ok None else add_attr_list env as msg)"

text \<open>The State attribute goes back only in reply to an Access-Challenge.\<close>

definition copy_state :: "radius_env \<Rightarrow> radius_msg option \<Rightarrow> radius_msg \<Rightarrow> radius_msg option run" where
  "copy_state env prev msg =
     (case prev of
        None \<Rightarrow> Ok (Some msg)
      | Some l \<Rightarrow>
        bindR (of_ub (hdr_code l)) (\<lambda>code.
          if code = RADIUS_CODE_ACCESS_CHALLENGE
          then bindR (radius_msg_copy_attr env msg l RADIUS_ATTR_STATE) (\<lambda>(res, msg). Ok (if res < 0 then None else Some msg))
          else Ok (Some msg)))"

definition bindRO :: "'a option run \<Rightarrow> ('a \<Rightarrow> 'b option run) \<Rightarrow> 'b option run" where
  "bindRO r f = bindR r (\<lambda>x. case x of None \<Rightarrow> Ok None | Some x \<Rightarrow> f x)"

text \<open>The request, from \<open>radius_msg_new\<close> to \<open>radius_client_send\<close>; \<open>None\<close> when it is given up.\<close>

definition build_request :: "ap_radius \<Rightarrow> bytes \<Rightarrow> 'p eapol_state_machine \<Rightarrow> radius_msg option run" where
  "build_request rad msg_eap sm =
     (let env = r_env rad in
      bindRO (radius_msg_new env RADIUS_CODE_ACCESS_REQUEST (next_radius_id rad)) (\<lambda>msg.
      bindRO (bindR (radius_msg_make_authenticator (request_authenticator rad) msg)
                (\<lambda>(r, msg). Ok (if r < 0 then None else Some msg))) (\<lambda>msg.
      bindRO (case eapol_identity sm of None \<Rightarrow> Ok (Some msg) | Some i \<Rightarrow> add_attr_list env [(RADIUS_ATTR_USER_NAME, i)] msg) (\<lambda>msg.
      bindRO (add_attr_list env (common_attrs rad) msg) (\<lambda>msg.
      bindRO (if framed_mtu_configured rad then Ok (Some msg)
              else add_attr_list env [(RADIUS_ATTR_FRAMED_MTU, WPA_PUT_BE32 1400)] msg) (\<lambda>msg.
      bindRO (bindR (radius_msg_add_eap env msg msg_eap) (\<lambda>(ok, msg). Ok (if ok then Some msg else None))) (\<lambda>msg.
      bindRO (copy_state env (last_recv_radius sm) msg) (\<lambda>msg.
        if radius_request_cui rad
        then add_attr_list env [(RADIUS_ATTR_CHARGEABLE_USER_IDENTITY, case radius_cui sm of Some c \<Rightarrow> c | None \<Rightarrow> [0])] msg
        else Ok (Some msg)))))))))"

definition ieee802_1x_encapsulate_radius :: "ap_radius \<Rightarrow> bytes \<Rightarrow> 'p sta_info \<Rightarrow> 'p sta_info run" where
  "ieee802_1x_encapsulate_radius rad msg_eap sta =
     (case eapol_sm sta of
        None \<Rightarrow> Ok sta
      | Some sm \<Rightarrow>
        bindR (of_ub (ieee802_1x_learn_identity (rmalloc (r_env rad)) msg_eap sm)) (\<lambda>sm.
          let sm = sm\<lparr>radius_identifier := uint (next_radius_id rad)\<rparr> in
          bindR (build_request rad msg_eap sm) (\<lambda>r.
            let sta = sta\<lparr>eapol_sm := Some sm\<rparr> in
            Ok (case r of Some msg \<Rightarrow> if send_ok rad then sta_out (Radius_Send msg) sta else sta | None \<Rightarrow> sta))))"

section \<open>Responses\<close>

text \<open>\<open>ieee802_1x_decapsulate_radius\<close>: the EAP message of the last response.\<close>

definition ieee802_1x_decapsulate_radius :: "radius_env \<Rightarrow> 'p eapol_state_machine \<Rightarrow> 'p eapol_state_machine run" where
  "ieee802_1x_decapsulate_radius env sm =
     (case last_recv_radius sm of
        None \<Rightarrow> Ok (on_eap (\<lambda>i. i\<lparr>aaaEapNoReq := True\<rparr>) sm)
      | Some msg \<Rightarrow>
        bindR (radius_msg_get_eap env msg) (\<lambda>r.
          case r of
            None \<Rightarrow> Ok (on_eap (\<lambda>i. i\<lparr>aaaEapNoReq := True\<rparr>) sm)
          | Some buf \<Rightarrow>
            let d = wpabuf_content buf in
            if length d < sizeof_eap_hdr then Ok (on_eap (\<lambda>i. i\<lparr>aaaEapNoReq := True\<rparr>) sm)
            else bindR (of_ub (peek d 0)) (\<lambda>code.
              let sm = (if code = EAP_CODE_REQUEST \<and> length d > sizeof_eap_hdr
                        then sm\<lparr>eap_type_authsrv := d ! sizeof_eap_hdr\<rparr> else sm) in
              Ok (on_eap (\<lambda>i. i\<lparr>aaaEapReq := True, aaaEapReqData := Some d\<rparr>) sm))))"

text \<open>\<open>ieee802_1x_get_keys\<close>: both MPPE keys, and the EAP key name as the session identifier.\<close>

definition ieee802_1x_get_keys ::
  "radius_env \<Rightarrow> radius_msg \<Rightarrow> radius_msg option \<Rightarrow> bytes \<Rightarrow> 'p eapol_state_machine \<Rightarrow> 'p eapol_state_machine run" where
  "ieee802_1x_get_keys env msg req shared_secret sm =
     bindR (of_ub (radius_msg_get_ms_keys env msg req shared_secret)) (\<lambda>keys.
       let sm = (case keys of
           Some k \<Rightarrow> (case (mppe_send k, mppe_recv k) of
               (Some s, Some r) \<Rightarrow>
                 on_eap (\<lambda>i. if rmalloc env (length s + length r)
                             then i\<lparr>aaaEapKeyData := Some (r @ s), aaaEapKeyAvailable := True\<rparr>
                             else i\<lparr>aaaEapKeyData := None\<rparr>) sm
             | _ \<Rightarrow> sm)
         | None \<Rightarrow> sm) in
       bindR (of_ub (radius_msg_get_attr_ptr msg RADIUS_ATTR_EAP_KEY_NAME None)) (\<lambda>r.
         case r of
           Some (buf, len) \<Rightarrow> bindR (of_ub (radius_read msg buf len)) (\<lambda>d.
             Ok (on_eap (\<lambda>i. i\<lparr>eapSessionId := (if rmalloc env len then Some d else None)\<rparr>) sm))
         | None \<Rightarrow> Ok (on_eap (\<lambda>i. i\<lparr>eapSessionId := map_option (\<lambda>_. []) (eapSessionId i)\<rparr>) sm)))"

text \<open>
  The walk over the Class attributes: \<open>attr_class\<close> and \<open>class_len\<close> are the value last found (\<open>None\<close>
  before the first). \<open>class_next\<close> is the inner loop, which passes empty values; its flag says
  whether one was found. After a failed search the outer loop still copies the value last found,
  and then ends.
\<close>

lemma find_attr_mem: "find_attr msg t start as = Some (Some a) \<Longrightarrow> a \<in> set as \<and> (\<forall>s. start = Some s \<longrightarrow> s < a)"
  by (induction as) (auto split: if_splits Option.bind_splits option.splits)

lemma get_attr_ptr_pos:
  assumes "radius_msg_get_attr_ptr msg t start = Some (Some (b, l))"
  shows "\<exists>a \<in> set (attr_pos msg). b = a + sizeof_radius_attr_hdr \<and> (\<forall>s. start = Some s \<longrightarrow> s < a)"
  using assms find_attr_mem [of msg t start "attr_pos msg"]
  by (auto simp: radius_msg_get_attr_ptr_def split: if_splits option.splits Option.bind_splits)

lemma filter_shrinks: "a \<in> set xs \<Longrightarrow> b < a \<Longrightarrow> a < c \<Longrightarrow> length (filter (\<lambda>x. c < x) xs) < length (filter (\<lambda>x. b < x) xs)" for a :: nat
proof (induction xs)
  case (Cons x xs)
  have "length (filter (\<lambda>x. c < x) xs) \<le> length (filter (\<lambda>x. b < x) xs)"
  proof -
    have "filter (\<lambda>x. c < x) xs = filter (\<lambda>x. c < x) (filter (\<lambda>x. b < x) xs)"
      using Cons.prems by (auto intro: filter_cong)
    then show ?thesis by (metis length_filter_le)
  qed
  with Cons show ?case by auto
qed simp

function class_next :: "radius_msg \<Rightarrow> (nat \<times> nat) option \<Rightarrow> (bool \<times> (nat \<times> nat) option) ub" where
  "class_next msg cur = do {
     r \<leftarrow> radius_msg_get_attr_ptr msg RADIUS_ATTR_CLASS (map_option fst cur);
     case r of
       None \<Rightarrow> Some (False, cur)
     | Some (buf, len) \<Rightarrow> if len < 1 then class_next msg (Some (buf, len)) else Some (True, Some (buf, len)) }"
  by auto
termination
proof (relation "measure (\<lambda>(msg, cur). case cur of None \<Rightarrow> Suc (length (attr_pos msg))
      | Some (b, _) \<Rightarrow> length (filter (\<lambda>x. b < x) (attr_pos msg)))")
  fix msg :: radius_msg and cur :: "(nat \<times> nat) option" and r z buf len
  assume "radius_msg_get_attr_ptr msg RADIUS_ATTR_CLASS (map_option fst cur) = Some r" "r = Some z" "(buf, len) = z"
  then obtain a where "a \<in> set (attr_pos msg)" "a < buf" "\<forall>b l. cur = Some (b, l) \<longrightarrow> b < a"
    using get_attr_ptr_pos [of msg RADIUS_ATTR_CLASS "map_option fst cur" buf len] by (auto simp: sizeof_radius_attr_hdr_def)
  then show "((msg, Some (buf, len)), msg, cur) \<in> measure (\<lambda>(msg, cur). case cur of None \<Rightarrow> Suc (length (attr_pos msg))
      | Some (b, _) \<Rightarrow> length (filter (\<lambda>x. b < x) (attr_pos msg)))"
    by (auto simp: le_imp_less_Suc filter_shrinks split: option.split)
qed simp

fun class_loop :: "radius_env \<Rightarrow> radius_msg \<Rightarrow> nat \<Rightarrow> (nat \<times> nat) option \<Rightarrow> bytes list ub" where
  "class_loop env msg 0 cur = Some []"
| "class_loop env msg (Suc n) cur = do {
     (found, cur) \<leftarrow> class_next msg cur;
     (attr_class, class_len) \<leftarrow> cur;
     if rmalloc env class_len
     then do { d \<leftarrow> radius_read msg attr_class class_len;
               ds \<leftarrow> (if found then class_loop env msg n cur else Some []);
               Some (d # ds) }
     else Some [] }"

definition ieee802_1x_store_radius_class :: "ap_radius \<Rightarrow> radius_msg \<Rightarrow> 'p eapol_state_machine \<Rightarrow> 'p eapol_state_machine ub" where
  "ieee802_1x_store_radius_class rad msg sm =
     (if \<not> acct_active rad then Some sm
      else do {
        count \<leftarrow> radius_msg_count_attr msg RADIUS_ATTR_CLASS 1;
        if count = 0 \<or> \<not> rmalloc (r_env rad) (count * sizeof_radius_attr_data) then Some (sm\<lparr>radius_class := None\<rparr>)
        else do {
          ds \<leftarrow> class_loop (r_env rad) msg count None;
          Some (sm\<lparr>radius_class := Some ds\<rparr>) } })"

definition ieee802_1x_update_sta_identity :: "radius_env \<Rightarrow> radius_msg \<Rightarrow> 'p eapol_state_machine \<Rightarrow> 'p eapol_state_machine ub" where
  "ieee802_1x_update_sta_identity env msg sm = do {
     r \<leftarrow> radius_msg_get_attr_ptr msg RADIUS_ATTR_USER_NAME None;
     case r of
       None \<Rightarrow> Some sm
     | Some (buf, len) \<Rightarrow> do {
         d \<leftarrow> radius_read msg buf len;
         Some (if rmalloc env (len + 1) then sm\<lparr>eapol_identity := Some d\<rparr> else sm) } }"

definition ieee802_1x_update_sta_cui :: "radius_env \<Rightarrow> radius_msg \<Rightarrow> 'p eapol_state_machine \<Rightarrow> 'p eapol_state_machine ub" where
  "ieee802_1x_update_sta_cui env msg sm = do {
     r \<leftarrow> radius_msg_get_attr_ptr msg RADIUS_ATTR_CHARGEABLE_USER_IDENTITY None;
     case r of
       None \<Rightarrow> Some sm
     | Some (buf, len) \<Rightarrow> do {
         d \<leftarrow> radius_read msg buf len;
         Some (case alloc_copy (rmalloc env) d of Some c \<Rightarrow> sm\<lparr>radius_cui := Some c\<rparr> | None \<Rightarrow> sm) } }"

text \<open>\<open>ieee802_1x_update_vlan\<close>: the result and the station; an invalid or missing VLAN makes the
  authentication fail.\<close>

definition ieee802_1x_update_vlan :: "ap_radius \<Rightarrow> radius_msg \<Rightarrow> 'p sta_info \<Rightarrow> (int \<times> 'p sta_info) ub" where
  "ieee802_1x_update_vlan rad msg sta = do {
     (r, u, ts) \<leftarrow> radius_msg_get_vlanid msg MAX_NUM_TAGGED_VLAN;
     let notempty = (r \<noteq> 0);
     let failed = on_sm (\<lambda>sm. sm\<lparr>authFail := True\<rparr>) sta;
     if notempty \<and> \<not> vlan_valid rad (u, ts) then Some (-1, sta_out (Set_Vlan None) failed)
     else if dynamic_vlan rad = DYNAMIC_VLAN_REQUIRED \<and> \<not> notempty then Some (-1, failed)
     else let desc = (if notempty then Some (u, ts) else None) in
       Some (set_vlan_res rad desc, sta_out (Set_Vlan desc) sta) }"

text \<open>The attributes an Access-Accept hands to the state machine.\<close>

definition accept_attrs ::
  "ap_radius \<Rightarrow> radius_msg \<Rightarrow> radius_msg option \<Rightarrow> bytes \<Rightarrow> 'p eapol_state_machine \<Rightarrow> 'p eapol_state_machine run" where
  "accept_attrs rad msg req secret sm =
     bindR (ieee802_1x_get_keys (r_env rad) msg req secret (on_eap (\<lambda>i. i\<lparr>aaaSuccess := True\<rparr>) sm)) (\<lambda>sm.
     bindR (of_ub (ieee802_1x_store_radius_class rad msg sm)) (\<lambda>sm.
     bindR (of_ub (ieee802_1x_update_sta_identity (r_env rad) msg sm)) (\<lambda>sm.
     of_ub (ieee802_1x_update_sta_cui (r_env rad) msg sm))))"

text \<open>The lifetime of the session, from the Session-Timeout and Termination-Action attributes.\<close>

definition accept_session :: "ap_radius \<Rightarrow> u32 option \<Rightarrow> u32 \<Rightarrow> 'p sta_info \<Rightarrow> 'p sta_info" where
  "accept_session rad session_timeout termination_action sta =
     (let st = (case session_timeout of Some t \<Rightarrow> uint t | None \<Rightarrow> 0);
          sta = sta\<lparr>session_timeout_set := session_timeout \<noteq> None, session_timeout_sec := now_sec rad + st\<rparr> in
      case session_timeout of
        Some t \<Rightarrow> if termination_action = RADIUS_TERMINATION_ACTION_RADIUS_REQUEST
                  then on_sm (\<lambda>sm. sm\<lparr>reAuthPeriod := t\<rparr>) sta else sta_out (Session_Timeout t) sta
      | None \<Rightarrow> sta_out No_Session_Timeout sta)"

text \<open>The branch for an Access-Accept: the flag says that \<open>aaaSuccess\<close> was set, and not left by a
  \<open>break\<close> before.\<close>

definition receive_accept ::
  "ap_radius \<Rightarrow> radius_msg \<Rightarrow> radius_msg option \<Rightarrow> bytes \<Rightarrow> u32 option \<Rightarrow> u32 \<Rightarrow> 'p sta_info \<Rightarrow> (bool \<times> 'p sta_info) run" where
  "receive_accept rad msg req secret session_timeout termination_action sta =
     bindR (of_ub (if dynamic_vlan rad \<noteq> DYNAMIC_VLAN_DISABLED then ieee802_1x_update_vlan rad msg sta else Some (0, sta))) (\<lambda>(r, sta).
       if r < 0 then Ok (False, sta)
       else
         let bound = sta_flag WLAN_STA_ASSOC sta;
             sta = (if bound then sta_out Bind_Vlan sta else sta) in
         if bound \<and> bind_vlan_res rad < 0 then Ok (False, sta)
         else
           let sta = accept_session rad session_timeout termination_action sta in
           case eapol_sm sta of
             None \<Rightarrow> Fault
           | Some sm \<Rightarrow> bindR (accept_attrs rad msg req secret sm) (\<lambda>sm. Ok (True, sta\<lparr>eapol_sm := Some sm\<rparr>)))"

text \<open>The \<open>switch\<close> on the code of a checked response; the flag says that a request is overridden.\<close>

definition receive_switch ::
  "ap_radius \<Rightarrow> radius_msg \<Rightarrow> radius_msg option \<Rightarrow> bytes \<Rightarrow> u8 \<Rightarrow> u32 option \<Rightarrow> u32 \<Rightarrow> 'p sta_info \<Rightarrow> (bool \<times> 'p sta_info) run" where
  "receive_switch rad msg req secret code session_timeout termination_action sta =
     (if code = RADIUS_CODE_ACCESS_ACCEPT
      then receive_accept rad msg req secret session_timeout termination_action sta
      else if code = RADIUS_CODE_ACCESS_REJECT
      then let sta = on_sm (on_eap (\<lambda>i. i\<lparr>aaaFail := True\<rparr>)) sta in
        bindR (of_ub (radius_msg_get_attr_int32 msg RADIUS_ATTR_WLAN_REASON_CODE)) (\<lambda>rc.
          Ok (True, case rc of Some v \<Rightarrow> sta\<lparr>disconnect_reason_code := v\<rparr> | None \<Rightarrow> sta))
      else Ok (False, on_sm (on_eap (\<lambda>i. i\<lparr>aaaEapReq := True,
             aaaMethodTimeout := (case session_timeout of Some t \<Rightarrow> sint t | None \<Rightarrow> 0)\<rparr>)) sta))"

text \<open>A checked response: its session attributes, the \<open>switch\<close>, and the EAP message it carries.\<close>

definition receive_checked ::
  "ap_radius \<Rightarrow> radius_msg \<Rightarrow> radius_msg option \<Rightarrow> bytes \<Rightarrow> u8 \<Rightarrow> 'p sta_info \<Rightarrow> 'p sta_info run" where
  "receive_checked rad msg req secret code sta =
     (let sta = on_sm (\<lambda>sm. sm\<lparr>radius_identifier := -1, last_recv_radius := Some msg\<rparr>) sta in
      bindR (of_ub (radius_msg_get_attr_int32 msg RADIUS_ATTR_SESSION_TIMEOUT)) (\<lambda>session_timeout.
      bindR (of_ub (radius_msg_get_attr_int32 msg RADIUS_ATTR_TERMINATION_ACTION)) (\<lambda>ta.
      bindR (of_ub (if conf_acct_interim_interval rad = 0 \<and> code = RADIUS_CODE_ACCESS_ACCEPT
              then radius_msg_get_attr_int32 msg RADIUS_ATTR_ACCT_INTERIM_INTERVAL else Some None)) (\<lambda>ai.
      let sta = (case ai of Some v \<Rightarrow> if v < 60 then sta else sta\<lparr>acct_interim_interval := v\<rparr> | None \<Rightarrow> sta);
          ta = (case ta of Some v \<Rightarrow> v | None \<Rightarrow> RADIUS_TERMINATION_ACTION_DEFAULT) in
      bindR (receive_switch rad msg req secret code session_timeout ta sta) (\<lambda>(override_eapReq, sta).
      case eapol_sm sta of
        None \<Rightarrow> Fault
      | Some sm \<Rightarrow>
        bindR (ieee802_1x_decapsulate_radius (r_env rad) sm) (\<lambda>sm.
          let sm = (if override_eapReq then on_eap (\<lambda>i. i\<lparr>aaaEapReq := False\<rparr>) sm else sm) in
          Ok (sta\<lparr>eapol_sm := Some (eapol_auth_step sm)\<rparr>)))))))"

text \<open>A response for one station, from the check of the authenticators on. An Access-Reject with
  neither a Message-Authenticator nor an EAP-Message is let through without the check.\<close>

definition unchecked_reject :: "radius_msg \<Rightarrow> u8 \<Rightarrow> bool ub" where
  "unchecked_reject msg code =
     (if code = RADIUS_CODE_ACCESS_REJECT then do {
        (a, _) \<leftarrow> radius_msg_get_attr msg RADIUS_ATTR_MESSAGE_AUTHENTICATOR None;
        (e, _) \<leftarrow> radius_msg_get_attr msg RADIUS_ATTR_EAP_MESSAGE None;
        Some (a < 0 \<and> e < 0) }
      else Some False)"

definition receive_auth_sta ::
  "ap_radius \<Rightarrow> radius_msg \<Rightarrow> radius_msg option \<Rightarrow> bytes \<Rightarrow> 'p sta_info \<Rightarrow> (RadiusRxResult \<times> 'p sta_info) run" where
  "receive_auth_sta rad msg req secret sta =
     bindR (of_ub (hdr_code msg)) (\<lambda>code.
     bindR (of_ub (unchecked_reject msg code)) (\<lambda>unchecked.
     bindR (if unchecked then Ok (0, msg) else radius_msg_verify (r_env rad) msg secret req True) (\<lambda>(v, msg).
       if v \<noteq> 0 then Ok (RADIUS_RX_INVALID_AUTHENTICATOR, sta)
       else if code \<noteq> RADIUS_CODE_ACCESS_ACCEPT \<and> code \<noteq> RADIUS_CODE_ACCESS_REJECT \<and> code \<noteq> RADIUS_CODE_ACCESS_CHALLENGE
       then Ok (RADIUS_RX_UNKNOWN, sta)
       else bindR (receive_checked rad msg req secret code sta) (\<lambda>sta. Ok (RADIUS_RX_QUEUED, sta)))))"

text \<open>The station a response belongs to, among the stations in the order of the table.\<close>

definition ieee802_1x_select_radius_identifier :: "u8 \<Rightarrow> 'p sta_info \<Rightarrow> bool" where
  "ieee802_1x_select_radius_identifier identifier sta \<longleftrightarrow>
     (case eapol_sm sta of None \<Rightarrow> False | Some sm \<Rightarrow> radius_identifier sm \<ge> 0 \<and> radius_identifier sm = uint identifier)"

fun search_station :: "u8 \<Rightarrow> 'p sta_info list \<Rightarrow> nat option" where
  "search_station identifier [] = None"
| "search_station identifier (sta # stas) =
     (if ieee802_1x_select_radius_identifier identifier sta then Some 0 else map_option Suc (search_station identifier stas))"

definition ieee802_1x_receive_auth ::
  "ap_radius \<Rightarrow> radius_msg \<Rightarrow> radius_msg option \<Rightarrow> bytes \<Rightarrow> 'p sta_info list \<Rightarrow> (RadiusRxResult \<times> 'p sta_info list) run" where
  "ieee802_1x_receive_auth rad msg req secret stas =
     bindR (of_ub (hdr_identifier msg)) (\<lambda>identifier.
       case search_station identifier stas of
         None \<Rightarrow> Ok (RADIUS_RX_UNKNOWN, stas)
       | Some k \<Rightarrow> bindR (receive_auth_sta rad msg req secret (stas ! k)) (\<lambda>(r, sta). Ok (r, stas[k := sta])))"

end
