(* ===== verification/Station.thy ===== *)
theory Station
  imports Ieee8021x_Radius
begin

unbundle bit_operations_syntax

text \<open>
  A station of the access point under all its events: frames from the air, association,
  RADIUS requests and responses, runs of the state machines, timers, notifications and
  configuration. The lemmas show what every event keeps: the EAP authenticator reachable, the
  port status consistent, and a closed port without grounds to open it.
\<close>

section \<open>Events\<close>

datatype 'p sta_event =
    Frame "'p hapd" bytes bytes
  | Assoc "'p hapd" bytes
  | Gone
  | Request ap_radius bytes
  | Response ap_radius radius_msg "radius_msg option" bytes
  | Run
  | Tick
  | Port_Enabled bool
  | Port_Valid bool
  | Pre_Auth bool
  | Set_Conf string string
  | Reauthenticate
  | Eap_Pending bool

definition with_sm ::
  "('p eapol_state_machine \<Rightarrow> 'p eapol_state_machine ub) \<Rightarrow> 'p sta_info \<Rightarrow> 'p sta_info run" where
  "with_sm f sta = (case eapol_sm sta of
     None \<Rightarrow> Ok sta
   | Some sm \<Rightarrow> bindR (of_ub (f sm)) (\<lambda>sm. Ok (sta\<lparr>eapol_sm := Some sm\<rparr>)))"

definition sta_step :: "'p eapol_env \<Rightarrow> 'p sta_event \<Rightarrow> 'p sta_info \<Rightarrow> 'p sta_info run" where
  "sta_step env e sta = (case e of
     Frame hapd a buf \<Rightarrow> bindR (of_ub (ieee802_1x_receive (hapd\<lparr>eapol_auth := env\<rparr>) a buf (Some sta)))
       (\<lambda>r. Ok (case r of Some s \<Rightarrow> s | None \<Rightarrow> sta))
   | Assoc hapd a \<Rightarrow> of_ub (ieee802_1x_new_station (hapd\<lparr>eapol_auth := env\<rparr>) a sta)
   | Gone \<Rightarrow> Ok (ieee802_1x_free_station sta)
   | Request rad d \<Rightarrow> ieee802_1x_encapsulate_radius rad d sta
   | Response rad msg req secret \<Rightarrow>
       if eapol_sm sta = None then Ok sta else bindR (receive_auth_sta rad msg req secret sta) (\<lambda>(_, s). Ok s)
   | Run \<Rightarrow> with_sm (eapol_sm_step_run env) sta
   | Tick \<Rightarrow> with_sm (eapol_port_timers_tick env) sta
   | Port_Enabled b \<Rightarrow> Ok (on_sm (ieee802_1x_notify_port_enabled b) sta)
   | Port_Valid b \<Rightarrow> Ok (on_sm (ieee802_1x_notify_port_valid b) sta)
   | Pre_Auth b \<Rightarrow> Ok (on_sm (ieee802_1x_notify_pre_auth b) sta)
   | Set_Conf p v \<Rightarrow> Ok (on_sm (\<lambda>sm. snd (eapol_auth_set_conf p v sm)) sta)
   | Reauthenticate \<Rightarrow> Ok (on_sm eapol_auth_reauthenticate sta)
   | Eap_Pending b \<Rightarrow> Ok (on_sm (\<lambda>sm. snd (eapol_auth_eap_pending_cb b sm)) sta))"

section \<open>What an event keeps\<close>

text \<open>The events that justify an open port.\<close>

definition keys_known :: "'p hapd \<Rightarrow> bool" where
  "keys_known hapd \<longleftrightarrow> sta_auth_ft hapd \<or> sta_auth_fils hapd \<or> sta_pmksa hapd \<noteq> None"

definition grants :: "'p sta_event \<Rightarrow> bool" where
  "grants e \<longleftrightarrow> (case e of
     Response rad msg req secret \<Rightarrow> hdr_code msg = Some RADIUS_CODE_ACCESS_ACCEPT
       \<and> (\<exists>msg'. radius_msg_verify (r_env rad) msg secret req True = Ok (0, msg'))
   | Set_Conf p v \<Rightarrow> caseeq p ''AdminControlledPortControl'' \<and> v = ''ForceAuthorized''
   | Assoc hapd a \<Rightarrow> keys_known hapd
   | _ \<Rightarrow> False)"

definition sm_keeps :: "'p eapol_env \<Rightarrow> bool \<Rightarrow> 'p eapol_state_machine \<Rightarrow> 'p eapol_state_machine \<Rightarrow> bool" where
  "sm_keeps env g sm sm' \<longleftrightarrow> (eap_reach (eap_side env) (eap sm) \<longrightarrow> eap_reach (eap_side env) (eap sm')
     \<and> (port_inv sm \<longrightarrow> port_inv sm') \<and> (no_local_success (eap_side env) \<longrightarrow> \<not> g \<longrightarrow> no_grant sm \<longrightarrow> no_grant sm'))"

definition sm_ok :: "'p eapol_env \<Rightarrow> 'p eapol_state_machine \<Rightarrow> bool" where
  "sm_ok env sm \<longleftrightarrow> eap_reach (eap_side env) (eap sm) \<and> port_inv sm"

definition sta_ok :: "'p eapol_env \<Rightarrow> 'p sta_info \<Rightarrow> bool" where
  "sta_ok env sta \<longleftrightarrow> (\<forall>sm. eapol_sm sta = Some sm \<longrightarrow> sm_ok env sm)"

definition sta_closed :: "'p sta_info \<Rightarrow> bool" where
  "sta_closed sta \<longleftrightarrow> (\<forall>sm. eapol_sm sta = Some sm \<longrightarrow> no_grant sm)"

definition sta_keeps :: "'p eapol_env \<Rightarrow> bool \<Rightarrow> 'p sta_info \<Rightarrow> 'p sta_info \<Rightarrow> bool" where
  "sta_keeps env g sta sta' \<longleftrightarrow> (sta_ok env sta \<longrightarrow> sta_ok env sta'
     \<and> (no_local_success (eap_side env) \<longrightarrow> \<not> g \<longrightarrow> sta_closed sta \<longrightarrow> sta_closed sta'))"

lemma sm_keeps_refl [intro]: "sm_keeps env g sm sm"
  by (simp add: sm_keeps_def)

lemma sm_keeps_trans: "sm_keeps env g a b \<Longrightarrow> sm_keeps env g b c \<Longrightarrow> sm_keeps env g a c"
  by (simp add: sm_keeps_def)

lemma sta_keeps_refl [intro]: "sta_keeps env g sta sta"
  by (simp add: sta_keeps_def)

lemma sta_keeps_trans: "sta_keeps env g a b \<Longrightarrow> sta_keeps env g b c \<Longrightarrow> sta_keeps env g a c"
  by (simp add: sta_keeps_def)

lemma sm_keeps_port: "keeps_port sm (Some sm') \<Longrightarrow> sm_keeps env g sm sm'"
  using run_good_keeps [of env sm "Some sm'"] by (auto simp: sm_keeps_def run_good_def)

lemma sm_keeps_run: "run_good env sm (Some sm') \<Longrightarrow> sm_keeps env g sm sm'"
  by (simp add: sm_keeps_def run_good_def)

text \<open>An update that touches neither the port nor the verdict.\<close>

lemma sm_keeps_same:
  assumes "eap_reach (eap_side env) (eap sm) \<Longrightarrow> eap_reach (eap_side env) (eap sm')"
    "eapSuccess (eif sm') = eapSuccess (eif sm)" "aaaSuccess (eif sm') = aaaSuccess (eif sm) \<or> g"
    "authPortStatus sm' = authPortStatus sm" "auth_pae_state sm' = auth_pae_state sm" "told (outs sm') = told (outs sm)"
    "authSuccess sm' = authSuccess sm" "portControl sm' = portControl sm"
  shows "sm_keeps env g sm sm'"
  using assms by (auto simp: sm_keeps_def port_inv_def no_grant_def)

lemma sta_keeps_sm:
  assumes "\<And>sm. eapol_sm sta = Some sm \<Longrightarrow> \<exists>sm'. eapol_sm sta' = Some sm' \<and> sm_keeps env g sm sm'" "eapol_sm sta = None \<Longrightarrow> eapol_sm sta' = None"
  shows "sta_keeps env g sta sta'"
proof (cases "eapol_sm sta")
  case None
  then show ?thesis using assms(2) by (simp add: sta_keeps_def sta_ok_def sta_closed_def)
next
  case (Some sm)
  then show ?thesis using assms(1) [OF Some] by (auto simp: sta_keeps_def sta_ok_def sta_closed_def sm_keeps_def sm_ok_def)
qed

lemma sta_keeps_on_sm: "(\<And>sm. sm_keeps env g sm (f sm)) \<Longrightarrow> sta_keeps env g sta (on_sm f sta)"
  by (rule sta_keeps_sm) (auto simp: on_sm_def)

lemma sta_keeps_eq: "eapol_sm sta' = eapol_sm sta \<Longrightarrow> sta_keeps env g sta sta'"
  by (rule sta_keeps_sm) auto

lemma sta_keeps_set: "eapol_sm sta = Some sm \<Longrightarrow> sm_keeps env g sm sm' \<Longrightarrow> sta_keeps env g sta (sta\<lparr>eapol_sm := Some sm'\<rparr>)"
  by (rule sta_keeps_sm) auto

lemma sta_keeps_none: "eapol_sm sta' = None \<Longrightarrow> sta_keeps env g sta sta'"
  by (simp add: sta_keeps_def sta_ok_def sta_closed_def)

lemma sta_keeps_new: "sm_ok env sm \<Longrightarrow> no_local_success (eap_side env) \<longrightarrow> \<not> g \<longrightarrow> no_grant sm \<Longrightarrow> sta_keeps env g sta (sta\<lparr>eapol_sm := Some sm\<rparr>)"
  by (simp add: sta_keeps_def sta_ok_def sta_closed_def)

section \<open>Creation and frames\<close>

definition same_port :: "'p eapol_state_machine \<Rightarrow> 'p eapol_state_machine \<Rightarrow> bool" where
  "same_port sm sm' \<longleftrightarrow> authPortStatus sm' = authPortStatus sm \<and> auth_pae_state sm' = auth_pae_state sm \<and> told (outs sm') = told (outs sm)
     \<and> authSuccess sm' = authSuccess sm \<and> portControl sm' = portControl sm \<and> eapSuccess (eif sm') = eapSuccess (eif sm) \<and> aaaSuccess (eif sm') = aaaSuccess (eif sm)"

lemma same_port_iff:
  assumes "same_port sm sm'" shows "port_inv sm' = port_inv sm" "no_grant sm' = no_grant sm"
  using assms by (simp_all only: same_port_def port_inv_def no_grant_def)

context eapol_authenticator
begin

lemma initialize_ok:
  assumes "eap_reach (eap_side env) (eap sm)" "port_inv sm" "no_grant sm"
  shows "\<exists>sm'. eapol_auth_initialize env sm = Some sm' \<and> sm_ok env sm' \<and> (no_local_success (eap_side env) \<longrightarrow> no_grant sm')"
proof -
  let ?a = "sm\<lparr>initializing := True, initialize := True\<rparr>"
  have "same_port sm ?a" by (simp add: same_port_def)
  then have "eap_reach (eap_side env) (eap ?a)" "port_inv ?a" "no_grant ?a" using assms same_port_iff [of sm ?a] by simp_all
  then obtain s1 where s1: "eapol_sm_step_run env ?a = Some s1" "eap_reach (eap_side env) (eap s1)" "port_inv s1"
    "no_local_success (eap_side env) \<longrightarrow> no_grant s1" using step_run_good [of ?a] by (auto simp: run_good_def)
  let ?b = "s1\<lparr>initialize := False\<rparr>"
  have "same_port s1 ?b" by (simp add: same_port_def)
  then have "eap_reach (eap_side env) (eap ?b)" "port_inv ?b" "no_local_success (eap_side env) \<longrightarrow> no_grant ?b"
    using s1 same_port_iff [of s1 ?b] by simp_all
  then obtain s2 where s2: "eapol_sm_step_run env ?b = Some s2" "eap_reach (eap_side env) (eap s2)" "port_inv s2"
    "no_local_success (eap_side env) \<longrightarrow> no_grant s2" using step_run_good [of ?b] by (auto simp: run_good_def)
  let ?c = "emit_out Tick_Timeout (emit_out Tick_Cancel (s2\<lparr>initializing := False\<rparr>))"
  have run: "eapol_auth_initialize env sm = Some ?c" using s1(1) s2(1) by (simp add: eapol_auth_initialize_def)
  have "same_port s2 ?c" "eap ?c = eap s2" by (simp_all add: same_port_def emit_out_def)
  then have "sm_ok env ?c" "no_local_success (eap_side env) \<longrightarrow> no_grant ?c"
    using s2 same_port_iff [of s2 ?c] by (simp_all add: sm_ok_def)
  with run show ?thesis by blast
qed

lemma fresh_ok: "eap_reach (eap_side env) (eap (eapol_fresh env a fl))" "port_inv (eapol_fresh env a fl)" "no_grant (eapol_fresh env a fl)"
proof -
  have e: "eap (eapol_fresh env a fl) = eap_server_sm_init" by (simp add: eapol_fresh_def eapol_zero_def)
  show "eap_reach (eap_side env) (eap (eapol_fresh env a fl))" unfolding e by (rule reach_init)
  show "port_inv (eapol_fresh env a fl)" by (simp add: eapol_fresh_def eapol_zero_def port_inv_def port_rule_def)
  show "no_grant (eapol_fresh env a fl)" unfolding no_grant_def e
    by (simp add: eapol_fresh_def eapol_zero_def eap_server_sm_init_def eap_sm_zero_def eap_if_zero_def)
qed

lemma alloc_ok:
  "\<exists>r. eapol_auth_alloc env a fl ok1 ok2 sid i c = Some r \<and> (\<forall>sm. r = Some sm \<longrightarrow> sm_ok env sm \<and> (no_local_success (eap_side env) \<longrightarrow> no_grant sm))"
proof -
  obtain s where s: "eapol_auth_initialize env (eapol_fresh env a fl) = Some s" "sm_ok env s" "no_local_success (eap_side env) \<longrightarrow> no_grant s"
    using initialize_ok [OF fresh_ok] by blast
  have "same_port s (s\<lparr>eapol_identity := i, radius_cui := c, acct_multi_session_id := k\<rparr>)" for k by (simp add: same_port_def)
  then have "sm_ok env (s\<lparr>eapol_identity := i, radius_cui := c, acct_multi_session_id := k\<rparr>)"
    "no_local_success (eap_side env) \<longrightarrow> no_grant (s\<lparr>eapol_identity := i, radius_cui := c, acct_multi_session_id := k\<rparr>)" for k
    using s(2,3) same_port_iff [of s "s\<lparr>eapol_identity := i, radius_cui := c, acct_multi_session_id := k\<rparr>"] by (simp_all add: sm_ok_def)
  then show ?thesis using s(1) by (cases sid) (simp_all add: eapol_auth_alloc_def)
qed

end

lemma clear_identity_if [simp]: "eap_if (eap_server_clear_identity s) = eap_if s"
  by (simp add: eap_server_clear_identity_def)

lemma handle_eap_ok: "\<exists>sm'. handle_eap malloc buf sm = Some sm' \<and> sm_keeps env g sm sm'"
proof (cases "length buf < sizeof_eap_hdr")
  case True
  then show ?thesis by (auto simp: handle_eap_def)
next
  case False
  then have "2 \<le> length (drop 2 buf)" "buf \<noteq> []" by (auto simp: sizeof_eap_hdr_def)
  then obtain n c where nc: "eap_hdr_length buf = Some n" "peek buf 0 = Some c"
    using get_be16_exists [of "drop 2 buf"] by (auto simp: eap_hdr_length_def peek_def)
  have "\<exists>sm'. handle_eap_response malloc p sm = Some sm' \<and> sm_keeps env g sm sm'" for p
  proof (cases "length p < sizeof_eap_hdr + 1")
    case True
    then show ?thesis by (auto simp: handle_eap_response_def)
  next
    case False
    then obtain t where t: "peek p (int sizeof_eap_hdr) = Some t" by (auto simp: peek_def)
    show ?thesis
      by (rule exI, rule conjI, use False t in \<open>simp add: handle_eap_response_def\<close>)
         (rule sm_keeps_same, simp add: on_eap_def reach_lower, simp_all add: on_eap_def, simp_all add: on_if_def)
  qed
  then show ?thesis using nc False by (auto simp: handle_eap_def handle_eap_initiate_def)
qed


lemma receive_type_ok:
  assumes "eapol_sm sta \<noteq> None"
  shows "\<exists>sta'. receive_type hapd type body sta = Some sta' \<and> sta_keeps env g sta sta'"
proof -
  have k: "sta_keeps env g sta (on_sm (\<lambda>sm. sm\<lparr>flags := flags sm AND m\<rparr>) sta)" for m :: u32 and sta :: "'a sta_info"
    by (rule sta_keeps_on_sm, rule sm_keeps_same) simp_all
  have st: "sta_keeps env g sta (on_sm (\<lambda>sm. sm\<lparr>eapolStart := True,
                    dot1xAuthEapolStartFramesRx := dot1xAuthEapolStartFramesRx sm + 1,
                    eap := eap_server_clear_identity (eap sm)\<rparr>) sta)" for sta :: "'a sta_info"
    by (rule sta_keeps_on_sm, rule sm_keeps_same) (simp_all add: reach_clear)
  have lo: "sta_keeps env g sta (on_sm (\<lambda>sm. sm\<lparr>eapolLogoff := True,
                dot1xAuthEapolLogoffFramesRx := dot1xAuthEapolLogoffFramesRx sm + 1,
                eap := eap_server_clear_identity (eap sm)\<rparr>) (sta_out Accounting_Stop sta))"
    by (rule sta_keeps_trans [OF sta_keeps_eq sta_keeps_on_sm], simp add: sta_out_def, rule sm_keeps_same) (simp_all add: reach_clear)
  have iv: "sta_keeps env g sta (on_sm (\<lambda>sm. sm\<lparr>dot1xAuthInvalidEapolFramesRx := dot1xAuthInvalidEapolFramesRx sm + 1\<rparr>) sta)"
    by (rule sta_keeps_on_sm, rule sm_keeps_same) simp_all
  have so: "sta_keeps env g sta (sta_out e sta)" for e and sta :: "'a sta_info" by (rule sta_keeps_eq) (simp add: sta_out_def)
  have pm: "sta_keeps env g sta (if c then sta_out Clear_Pmksa sta else sta)" for c and sta :: "'a sta_info" by (simp add: so sta_keeps_refl)
  obtain sm sm' where sm: "eapol_sm sta = Some sm" "handle_eap (hapd_malloc hapd) body sm = Some sm'" "sm_keeps env g sm sm'"
    using assms handle_eap_ok by blast
  show ?thesis
  proof (cases "type = IEEE802_1X_TYPE_EAP_PACKET")
    case True
    then show ?thesis using sm sta_keeps_set [OF sm(1,3)] by (simp add: receive_type_def)
  next
    case F1: False
    show ?thesis
    proof (cases "type = IEEE802_1X_TYPE_EAPOL_START")
      case True
      then have "receive_type hapd type body sta = Some (sta_out Wpa_Reauth_Event (on_sm (\<lambda>sm. sm\<lparr>eapolStart := True,
                    dot1xAuthEapolStartFramesRx := dot1xAuthEapolStartFramesRx sm + 1,
                    eap := eap_server_clear_identity (eap sm)\<rparr>)
          (if sta_pmksa hapd \<noteq> None then sta_out Clear_Pmksa (on_sm (\<lambda>sm. sm\<lparr>flags := flags sm AND NOT EAPOL_SM_WAIT_START\<rparr>) sta)
           else on_sm (\<lambda>sm. sm\<lparr>flags := flags sm AND NOT EAPOL_SM_WAIT_START\<rparr>) sta)))"
        using F1 by (simp only: receive_type_def Let_def if_True if_False simp_thms)
      then show ?thesis using sta_keeps_trans [OF sta_keeps_trans [OF sta_keeps_trans [OF k pm] st] so] by blast
    next
      case False
      then show ?thesis using F1 lo iv by (simp add: receive_type_def sta_keeps_refl)
    qed
  qed
qed

lemma on_eap_keeps:
  assumes "\<And>i. eapSuccess (f i) = eapSuccess i" "\<And>i. aaaSuccess (f i) = aaaSuccess i"
  shows "sm_keeps env g sm (on_eap f sm)"
  by (rule sm_keeps_same, simp add: on_eap_def reach_lower) (simp_all add: on_eap_def on_if_def assms)

lemma step_keeps_sm: "sm_keeps env g sm (eapol_auth_step sm)"
  by (rule sm_keeps_port) (rule outs_keep)

lemma flags_keeps: "sm_keeps env g sm (sm\<lparr>flags := v\<rparr>)"
  by (rule sm_keeps_same) simp_all

lemma new_sm_keeps:
  assumes "sm_ok env sm0" "no_local_success (eap_side env) \<longrightarrow> no_grant sm0" "sm_keeps env g sm0 sm"
  shows "sta_keeps env g sta (sta\<lparr>eapol_sm := Some sm\<rparr>)"
  using assms by (intro sta_keeps_new) (auto simp: sm_ok_def sm_keeps_def)

context eapol_authenticator
begin

lemma alloc_sm_ok: "\<exists>r. ieee802_1x_alloc_eapol_sm (hapd\<lparr>eapol_auth := env\<rparr>) a sta = Some r
    \<and> (\<forall>sm. r = Some sm \<longrightarrow> sm_ok env sm \<and> (no_local_success (eap_side env) \<longrightarrow> no_grant sm))"
  unfolding ieee802_1x_alloc_eapol_sm_def Let_def using alloc_ok by simp

lemma receive_alloc_ok:
  "\<exists>r. receive_alloc (hapd\<lparr>eapol_auth := env\<rparr>) a sta = Some r \<and> (\<forall>s. r = Some s \<longrightarrow> eapol_sm s \<noteq> None \<and> sta_keeps env g sta s)"
proof (cases "eapol_sm sta")
  case (Some sm)
  then show ?thesis by (auto simp: receive_alloc_def)
next
  case None
  obtain r where r: "ieee802_1x_alloc_eapol_sm (hapd\<lparr>eapol_auth := env\<rparr>) a sta = Some r"
    "\<And>sm. r = Some sm \<Longrightarrow> sm_ok env sm \<and> (no_local_success (eap_side env) \<longrightarrow> no_grant sm)"
    using alloc_sm_ok by blast
  have k: "sm_keeps env g sm (on_eap (\<lambda>i. i\<lparr>portEnabled := True\<rparr>) (if c then sm\<lparr>flags := v\<rparr> else sm))" for sm c v
    by (rule sm_keeps_trans [OF _ on_eap_keeps]) (auto simp: flags_keeps)
  show ?thesis
  proof (cases r)
    case None
    then show ?thesis using r(1) \<open>eapol_sm sta = None\<close> by (simp add: receive_alloc_def)
  next
    case (Some sm)
    show ?thesis
      using r(1) Some \<open>eapol_sm sta = None\<close> r(2) [OF Some] new_sm_keeps [OF _ _ k, of sm]
      by (simp add: receive_alloc_def Let_def del: if_split)
  qed
qed

lemma receive_ok:
  "\<exists>s. ieee802_1x_receive (hapd\<lparr>eapol_auth := env\<rparr>) a buf (Some sta) = Some (Some s) \<and> sta_keeps env g sta s"
proof -
  let ?h = "hapd\<lparr>eapol_auth := env\<rparr>"
  have so: "sta_keeps env g sta (sta_out e sta)" for e and sta :: "'p sta_info" by (rule sta_keeps_eq) (simp add: sta_out_def)
  have sv: "sta_keeps env g sta (ieee802_1x_save_eapol m buf sta)" for m
    by (rule sta_keeps_eq) (simp add: ieee802_1x_save_eapol_def)
  have le: "sta_keeps env g sta (on_sm (\<lambda>sm. sm\<lparr>dot1xAuthEapLengthErrorFramesRx := dot1xAuthEapLengthErrorFramesRx sm + 1\<rparr>) sta)"
    by (rule sta_keeps_on_sm, rule sm_keeps_same) simp_all
  have fr: "sta_keeps env g sta (on_sm (\<lambda>sm. sm\<lparr>dot1xAuthLastEapolFrameVersion := v, dot1xAuthEapolFramesRx := dot1xAuthEapolFramesRx sm + 1\<rparr>) sta)" for v
    by (rule sta_keeps_on_sm, rule sm_keeps_same) simp_all
  have rest: "\<exists>s. (receive_alloc ?h a sta1 \<bind> (\<lambda>r. case r of None \<Rightarrow> Some (Some sta1)
       | Some sta \<Rightarrow> receive_type ?h type body sta \<bind> (\<lambda>sta. Some (Some (on_sm eapol_auth_step sta))))) = Some (Some s) \<and> sta_keeps env g sta1 s"
    for sta1 type body
  proof -
    obtain r where r: "receive_alloc ?h a sta1 = Some r" "\<And>s. r = Some s \<Longrightarrow> eapol_sm s \<noteq> None \<and> sta_keeps env g sta1 s"
      using receive_alloc_ok by blast
    show ?thesis
    proof (cases r)
      case (Some s)
      then obtain t where t: "receive_type ?h type body s = Some t" "sta_keeps env g s t" using r(2) receive_type_ok by blast
      have "sta_keeps env g t (on_sm eapol_auth_step t)" by (rule sta_keeps_on_sm, rule step_keeps_sm)
      then have "sta_keeps env g sta1 (on_sm eapol_auth_step t)" using r(2) [OF Some] t(2) sta_keeps_trans by blast
      then show ?thesis using r(1) Some t(1) by simp
    qed (use r in auto)
  qed
  show ?thesis
  proof (cases "length buf < sizeof_ieee802_1x_hdr")
    case True
    then show ?thesis by (auto simp: ieee802_1x_receive_def sv sta_keeps_refl)
  next
    case False
    then have "2 \<le> length (drop 2 buf)" "1 < length buf" "buf \<noteq> []" by (auto simp: sizeof_ieee802_1x_hdr_def)
    then obtain dl v ty where p: "WPA_GET_BE16 (drop 2 buf) = Some dl" "peek buf 0 = Some v" "peek buf 1 = Some ty"
      using get_be16_exists [of "drop 2 buf"] by (auto simp: peek_def)
    have kt: "\<exists>b. (if n \<le> datalen \<and> c then do { kt \<leftarrow> peek buf (int sizeof_ieee802_1x_hdr); Some (P kt) } else Some False) = Some b"
      if "\<not> length buf - sizeof_ieee802_1x_hdr < datalen" "0 < n" for n datalen c P
      using that by (auto simp: peek_def)
    let ?s1 = "on_sm (\<lambda>sm. sm\<lparr>dot1xAuthLastEapolFrameVersion := ucast v, dot1xAuthEapolFramesRx := dot1xAuthEapolFramesRx sm + 1\<rparr>) sta"
    show ?thesis
    proof (cases "length buf - sizeof_ieee802_1x_hdr < unat dl")
      case True
      then show ?thesis using False p by (auto simp: ieee802_1x_receive_def sv sta_keeps_refl le)
    next
      case L: False
      obtain b where b: "(if sizeof_ieee802_1x_eapol_key \<le> unat dl \<and> ty = IEEE802_1X_TYPE_EAPOL_KEY
           then do { kt \<leftarrow> peek buf (int sizeof_ieee802_1x_hdr); Some (kt = EAPOL_KEY_TYPE_WPA \<or> kt = EAPOL_KEY_TYPE_RSN) } else Some False) = Some b"
        using kt [OF L, of sizeof_ieee802_1x_eapol_key "ty = IEEE802_1X_TYPE_EAPOL_KEY" "\<lambda>kt. kt = EAPOL_KEY_TYPE_WPA \<or> kt = EAPOL_KEY_TYPE_RSN"]
        by (auto simp: sizeof_ieee802_1x_eapol_key_def)
      obtain s where s: "(receive_alloc ?h a ?s1 \<bind> (\<lambda>r. case r of None \<Rightarrow> Some (Some ?s1)
       | Some sta \<Rightarrow> receive_type ?h ty (take (unat dl) (drop sizeof_ieee802_1x_hdr buf)) sta \<bind> (\<lambda>sta. Some (Some (on_sm eapol_auth_step sta))))) = Some (Some s)"
        "sta_keeps env g ?s1 s" using rest by blast
      have "sta_keeps env g sta s" "sta_keeps env g sta (sta_out e ?s1)" for e
        using sta_keeps_trans [OF fr s(2)] sta_keeps_trans [OF fr so] by blast+
      then show ?thesis using False L p b s(1) fr
        by (simp add: ieee802_1x_receive_def sv sta_keeps_refl Let_def)
    qed
  qed
qed

end

section \<open>Association, configuration and notifications\<close>

lemma pmksa_data_port: "same_port sm (pmksa_cache_to_eapol_data malloc e sm)" "eap (pmksa_cache_to_eapol_data malloc e sm) = eap sm"
  by (simp_all add: pmksa_cache_to_eapol_data_def same_port_def Let_def split: option.split)

text \<open>The shortcut of a cached PMKSA: the port status is not touched, the verdict is.\<close>

lemma keyed_keeps:
  "sm_keeps env True sm ((new_station_keyed sm)\<lparr>portValid := v\<rparr>)" "sm_keeps env True sm (new_station_keyed sm)"
  by (auto simp: sm_keeps_def new_station_keyed_def port_inv_def port_rule_def on_eap_def reach_lower)

lemma notify_cached_keeps: "sm_keeps env True sm (sm\<lparr>eap := eap_sm_notify_cached (eap sm)\<rparr>)"
  by (auto simp: sm_keeps_def port_inv_def reach_cached)

lemma cached_keeps: "sm_keeps env True sm (new_station_cached malloc e sm)"
proof -
  have "sm_keeps env True sm (pmksa_cache_to_eapol_data malloc e sm)" for sm :: "'a eapol_state_machine"
    using same_port_iff(1) [OF pmksa_data_port(1) [of sm malloc e]] pmksa_data_port(2) [of malloc e sm] by (simp add: sm_keeps_def)
  from sm_keeps_trans [OF sm_keeps_trans [OF keyed_keeps(2) notify_cached_keeps] this] show ?thesis
    by (simp only: new_station_cached_def Let_def)
qed

lemma finish_keeps:
  "\<exists>sm'. eapol_sm (new_station_finish hapd re sm sta) = Some sm' \<and> sm_keeps env (keys_known hapd) sm sm'"
proof (cases "sta_auth_ft hapd \<or> sta_auth_fils hapd")
  case True
  then have "keys_known hapd" by (auto simp: keys_known_def)
  then show ?thesis using True sm_keeps_trans [OF keyed_keeps(1) [of env sm True] notify_cached_keeps]
    by (simp add: new_station_finish_def Let_def sta_out_def)
next
  case F: False
  show ?thesis
  proof (cases "sta_pmksa hapd")
    case None
    let ?g = "keys_known hapd"
    have "sm_keeps env ?g sm (if re then sm\<lparr>reAuthenticate := True\<rparr> else sm)" by (cases re; simp add: sm_keeps_refl) (rule sm_keeps_same; simp)
    from sm_keeps_trans [OF this step_keeps_sm] show ?thesis using F None by (simp add: new_station_finish_def Let_def)
  next
    case (Some e)
    then show ?thesis using F cached_keeps [of env sm "hapd_malloc hapd" e]
      by (simp add: new_station_finish_def sta_out_def keys_known_def)
  qed
qed

lemma prepare_keeps: "sm_keeps env g sm (new_station_prepare hapd sta sm)"
  unfolding new_station_prepare_def Let_def
  by (rule sm_keeps_trans [OF _ on_eap_keeps]) (auto intro: flags_keeps sm_keeps_trans [OF flags_keeps flags_keeps])

lemma sta_outs_keep: "sta_keeps env g sta (sta_out e sta)"
  by (rule sta_keeps_eq) (simp add: sta_out_def)

context eapol_authenticator
begin

lemma new_station_ok:
  "\<exists>s. ieee802_1x_new_station (hapd\<lparr>eapol_auth := env\<rparr>) a sta = Some s \<and> sta_keeps env (keys_known hapd) sta s"
proof -
  let ?h = "hapd\<lparr>eapol_auth := env\<rparr>" and ?g = "keys_known hapd"
  define fsta where "fsta sm = new_station_finish ?h (eapol_sm sta \<noteq> None) (new_station_prepare ?h sta sm) sta" for sm
  have set: "sta_keeps env ?g sta s" if "sta_keeps env ?g sta (sta\<lparr>eapol_sm := eapol_sm s\<rparr>)" for s
    by (rule sta_keeps_trans [OF that sta_keeps_eq]) simp
  have fin: "\<exists>sm'. eapol_sm (fsta sm) = Some sm' \<and> sm_keeps env ?g sm sm'" for sm
  proof -
    obtain sm' where "eapol_sm (fsta sm) = Some sm'" "sm_keeps env (keys_known ?h) (new_station_prepare ?h sta sm) sm'"
      using finish_keeps unfolding fsta_def by blast
    moreover have "keys_known ?h = ?g" by (simp add: keys_known_def)
    ultimately show ?thesis using sm_keeps_trans [OF prepare_keeps] by auto
  qed
  obtain r where r: "ieee802_1x_alloc_eapol_sm ?h a sta = Some r"
    "\<And>sm. r = Some sm \<Longrightarrow> sm_ok env sm \<and> (no_local_success (eap_side env) \<longrightarrow> no_grant sm)"
    using alloc_sm_ok by blast
  have free: "sta_keeps env ?g sta (ieee802_1x_free_station sta)" by (rule sta_keeps_none) (simp add: ieee802_1x_free_station_def)
  have old: "sta_keeps env ?g sta (fsta sm)" if "eapol_sm sta = Some sm" for sm
    using fin [of sm] sta_keeps_set [OF that] set [of "fsta sm"] by auto
  have new: "sta_keeps env ?g sta (fsta sm)" if "r = Some sm" for sm
    using fin [of sm] new_sm_keeps [of env sm ?g _ sta] r(2) [OF that] set [of "fsta sm"] by auto
  have body: "\<exists>s. ((if eapol_sm sta \<noteq> None then Some (eapol_sm sta) else ieee802_1x_alloc_eapol_sm ?h a sta) \<bind>
      (\<lambda>sm. case sm of None \<Rightarrow> Some sta | Some sm \<Rightarrow> Some (fsta sm))) = Some s \<and> sta_keeps env ?g sta s"
    using r(1) new old by (cases "eapol_sm sta"; cases r) (auto simp: sta_keeps_refl)
  have pick: "\<exists>s. (if A then Some x else if B then Some x else b) = Some s \<and> K s" if "\<exists>s. b = Some s \<and> K s" "K x"
    for A B x K and b :: "'p sta_info ub" using that by simp
  show ?thesis
    unfolding ieee802_1x_new_station_def Let_def
    by (rule pick [OF body [unfolded fsta_def] free])
qed

end

lemma notify_keeps:
  "sm_keeps env g sm (ieee802_1x_notify_port_enabled b sm)" "sm_keeps env g sm (ieee802_1x_notify_port_valid b sm)"
  "sm_keeps env g sm (ieee802_1x_notify_pre_auth b sm)" "sm_keeps env g sm (eapol_auth_reauthenticate sm)"
proof -
  show "sm_keeps env g sm (ieee802_1x_notify_port_enabled b sm)"
    unfolding ieee802_1x_notify_port_enabled_def by (rule sm_keeps_trans [OF on_eap_keeps step_keeps_sm]) simp_all
  show "sm_keeps env g sm (ieee802_1x_notify_port_valid b sm)"
    unfolding ieee802_1x_notify_port_valid_def by (rule sm_keeps_trans [OF _ step_keeps_sm], rule sm_keeps_same) simp_all
  show "sm_keeps env g sm (ieee802_1x_notify_pre_auth b sm)" by (simp add: ieee802_1x_notify_pre_auth_def flags_keeps)
  show "sm_keeps env g sm (eapol_auth_reauthenticate sm)"
    unfolding eapol_auth_reauthenticate_def by (rule sm_keeps_trans [OF _ step_keeps_sm], rule sm_keeps_same) simp_all
qed

lemma pending_keeps: "sm_keeps env g sm (snd (eapol_auth_eap_pending_cb b sm))"
proof -
  have "sm_keeps env g sm (sm\<lparr>eap := eap_sm_pending_cb (eap sm)\<rparr>)"
    by (rule sm_keeps_same, simp add: reach_pending) (simp_all add: eap_sm_pending_cb_def)
  from sm_keeps_trans [OF this step_keeps_sm] show ?thesis by (simp add: eapol_auth_eap_pending_cb_def sm_keeps_refl)
qed

text \<open>Every configuration but \<open>ForceAuthorized\<close> leaves a closed port closed.\<close>

lemma set_conf_keeps:
  "sm_keeps env (caseeq p ''AdminControlledPortControl'' \<and> v = ''ForceAuthorized'') sm (snd (eapol_auth_set_conf p v sm))"
proof -
  have plain: "sm_keeps env g sm (sm\<lparr>adminControlledDirections := d\<rparr>)" "sm_keeps env g sm (sm\<lparr>reAuthEnabled := b\<rparr>)"
    "sm_keeps env g sm (sm\<lparr>keyTxEnabled := b\<rparr>)" "sm_keeps env g sm (sm\<lparr>quietPeriod := n\<rparr>)" "sm_keeps env g sm (sm\<lparr>serverTimeout := n\<rparr>)"
    "sm_keeps env g sm (sm\<lparr>reAuthPeriod := n\<rparr>)" for g d b n
    by (rule sm_keeps_same; simp)+
  have pc: "c \<noteq> ForceAuthorized \<or> g \<Longrightarrow> sm_keeps env g sm (sm\<lparr>portControl := c\<rparr>)" for g c
    by (auto simp: sm_keeps_def port_inv_def no_grant_def)
  have pick: "(c \<Longrightarrow> sm_keeps env g sm a) \<Longrightarrow> (\<not> c \<Longrightarrow> sm_keeps env g sm b) \<Longrightarrow> sm_keeps env g sm (if c then a else b)" for c g a b
    by simp
  show ?thesis
    unfolding eapol_auth_set_conf_def if_distrib [of snd] snd_conv
    by (intro pick sm_keeps_refl plain sm_keeps_trans [OF _ step_keeps_sm] pc) (simp_all only: PortTypes.distinct simp_thms)
qed

section \<open>RADIUS\<close>

lemma of_ub_eq: "of_ub r = Ok x \<longleftrightarrow> r = Some x"
  by (cases r) simp_all

lemma get_keys_keeps: "ieee802_1x_get_keys env0 msg req secret sm = Ok sm' \<Longrightarrow> sm_keeps env g sm sm'"
proof -
  assume *: "ieee802_1x_get_keys env0 msg req secret sm = Ok sm'"
  have a: "sm_keeps env g sm (on_eap (\<lambda>i. if c then i\<lparr>aaaEapKeyData := x, aaaEapKeyAvailable := True\<rparr> else i\<lparr>aaaEapKeyData := None\<rparr>) sm)"
    and b: "sm_keeps env g sm (on_eap (\<lambda>i. i\<lparr>eapSessionId := y\<rparr>) sm)"
    and c: "sm_keeps env g sm (on_eap (\<lambda>i. i\<lparr>eapSessionId := map_option (\<lambda>_. []) (eapSessionId i)\<rparr>) sm)"
    for c x y and sm :: "'a eapol_state_machine" by (rule on_eap_keeps; simp)+
  have tail: "sm_keeps env g sm sm'" if "bindR (of_ub (radius_msg_get_attr_ptr msg RADIUS_ATTR_EAP_KEY_NAME None)) (\<lambda>r.
         case r of
           Some (buf, len) \<Rightarrow> bindR (of_ub (radius_read msg buf len)) (\<lambda>d.
             Ok (on_eap (\<lambda>i. i\<lparr>eapSessionId := (if rmalloc env0 len then Some d else None)\<rparr>) sm))
         | None \<Rightarrow> Ok (on_eap (\<lambda>i. i\<lparr>eapSessionId := map_option (\<lambda>_. []) (eapSessionId i)\<rparr>) sm)) = Ok sm'"
    for sm :: "'a eapol_state_machine"
    using that by (auto simp: bindR_eq_Ok split: option.splits intro: b c)
  obtain keys where "radius_msg_get_ms_keys env0 msg req secret = Some keys" using * by (auto simp: ieee802_1x_get_keys_def bindR_eq_Ok of_ub_eq)
  from tail [OF * [unfolded ieee802_1x_get_keys_def Let_def this of_ub.simps bindR.simps]]
  show ?thesis by (rule sm_keeps_trans [rotated]) (auto split: option.split intro: a)
qed

lemma plain_keeps:
  "sm_keeps env g sm (sm\<lparr>radius_class := x1\<rparr>)" "sm_keeps env g sm (sm\<lparr>eapol_identity := x2\<rparr>)" "sm_keeps env g sm (sm\<lparr>radius_cui := x3\<rparr>)"
  "sm_keeps env g sm (sm\<lparr>radius_identifier := x4\<rparr>)" "sm_keeps env g sm (sm\<lparr>last_recv_radius := x5\<rparr>)" "sm_keeps env g sm (sm\<lparr>reAuthPeriod := x6\<rparr>)"
  "sm_keeps env g sm (sm\<lparr>eap_type_authsrv := x7\<rparr>)" "sm_keeps env g sm (sm\<lparr>authFail := x8\<rparr>)"
  "sm_keeps env g sm (sm\<lparr>eapol_identity := x2, dot1xAuthEapolRespIdFramesRx := x9\<rparr>)"
  "sm_keeps env g sm (sm\<lparr>radius_identifier := x4, last_recv_radius := x5\<rparr>)"
  by (rule sm_keeps_same; simp)+

lemma store_class_keeps: "ieee802_1x_store_radius_class rad msg sm = Some sm' \<Longrightarrow> sm_keeps env g sm sm'"
  by (auto simp: ieee802_1x_store_radius_class_def plain_keeps sm_keeps_refl split: if_splits Option.bind_splits)

lemma update_identity_keeps: "ieee802_1x_update_sta_identity env0 msg sm = Some sm' \<Longrightarrow> sm_keeps env g sm sm'"
  by (auto simp: ieee802_1x_update_sta_identity_def plain_keeps sm_keeps_refl split: if_splits option.splits Option.bind_splits)

lemma update_cui_keeps: "ieee802_1x_update_sta_cui env0 msg sm = Some sm' \<Longrightarrow> sm_keeps env g sm sm'"
  by (auto simp: ieee802_1x_update_sta_cui_def plain_keeps sm_keeps_refl split: if_splits option.splits Option.bind_splits)

lemma decapsulate_keeps: "ieee802_1x_decapsulate_radius env0 sm = Ok sm' \<Longrightarrow> sm_keeps env g sm sm'"
proof -
  assume *: "ieee802_1x_decapsulate_radius env0 sm = Ok sm'"
  have a: "sm_keeps env g sm (on_eap (\<lambda>i. i\<lparr>aaaEapNoReq := True\<rparr>) sm)"
    and b: "sm_keeps env g sm (on_eap (\<lambda>i. i\<lparr>aaaEapReq := True, aaaEapReqData := d\<rparr>) sm)"
    for d and sm :: "'a eapol_state_machine" by (rule on_eap_keeps; simp)+
  show ?thesis using *
    by (auto simp: ieee802_1x_decapsulate_radius_def Let_def bindR_eq_Ok of_ub_eq split: option.splits if_splits
        intro: a b sm_keeps_trans [OF plain_keeps(7) b])
qed

lemma update_vlan_keeps: "ieee802_1x_update_vlan rad msg sta = Some (r, sta') \<Longrightarrow> sta_keeps env g sta sta'"
proof -
  assume *: "ieee802_1x_update_vlan rad msg sta = Some (r, sta')"
  have "sta_keeps env g sta (on_sm (\<lambda>sm. sm\<lparr>authFail := True\<rparr>) sta)" by (rule sta_keeps_on_sm, rule plain_keeps)
  then show ?thesis using * sta_keeps_trans [OF _ sta_outs_keep]
    by (auto simp: ieee802_1x_update_vlan_def Let_def sta_outs_keep split: if_splits Option.bind_splits)
qed

lemma learn_identity_keeps: "ieee802_1x_learn_identity m msg sm = Some sm' \<Longrightarrow> sm_keeps env g sm sm'"
  by (auto simp: ieee802_1x_learn_identity_def plain_keeps sm_keeps_refl split: if_splits option.splits Option.bind_splits)

lemma encapsulate_keeps:
  assumes "ieee802_1x_encapsulate_radius rad d sta = Ok sta'" shows "sta_keeps env g sta sta'"
proof (cases "eapol_sm sta")
  case None
  then show ?thesis using assms by (simp add: ieee802_1x_encapsulate_radius_def sta_keeps_refl)
next
  case (Some sm)
  then obtain sm1 where "ieee802_1x_learn_identity (rmalloc (r_env rad)) d sm = Some sm1"
    and s: "eapol_sm sta' = Some (sm1\<lparr>radius_identifier := uint (next_radius_id rad)\<rparr>)"
    using assms by (auto simp: ieee802_1x_encapsulate_radius_def bindR_eq_Ok of_ub_eq Let_def sta_out_def split: option.splits if_splits)
  then have "sm_keeps env g sm (sm1\<lparr>radius_identifier := uint (next_radius_id rad)\<rparr>)"
    using sm_keeps_trans [OF learn_identity_keeps plain_keeps(4)] by blast
  then show ?thesis using Some s by (auto intro: sta_keeps_sm)
qed

lemma accept_attrs_keeps:
  assumes "accept_attrs rad msg req secret sm = Ok sm'" shows "sm_keeps env True sm sm'"
proof -
  obtain ka kb kc where
      ka: "ieee802_1x_get_keys (r_env rad) msg req secret (on_eap (\<lambda>i. i\<lparr>aaaSuccess := True\<rparr>) sm) = Ok ka"
    and kb: "ieee802_1x_store_radius_class rad msg ka = Some kb" and kc: "ieee802_1x_update_sta_identity (r_env rad) msg kb = Some kc"
    and kd: "ieee802_1x_update_sta_cui (r_env rad) msg kc = Some sm'"
    using assms unfolding accept_attrs_def bindR_eq_Ok of_ub_eq by blast
  have "sm_keeps env True sm (on_eap (\<lambda>i. i\<lparr>aaaSuccess := True\<rparr>) sm)"
    by (rule sm_keeps_same, simp add: on_eap_def reach_lower) (simp_all add: on_eap_def on_if_def)
  from sm_keeps_trans [OF sm_keeps_trans [OF this get_keys_keeps [OF ka]] sm_keeps_trans [OF store_class_keeps [OF kb]
      sm_keeps_trans [OF update_identity_keeps [OF kc] update_cui_keeps [OF kd]]]] show ?thesis .
qed

lemma accept_session_keeps: "sta_keeps env g sta (accept_session rad st ta sta)"
proof -
  let ?s = "sta\<lparr>session_timeout_set := st \<noteq> None, session_timeout_sec := now_sec rad + (case st of Some t \<Rightarrow> uint t | None \<Rightarrow> 0)\<rparr>"
  have "sta_keeps env g sta ?s" by (rule sta_keeps_eq) simp
  moreover have "sta_keeps env g ?s (on_sm (\<lambda>sm. sm\<lparr>reAuthPeriod := t\<rparr>) ?s)" for t by (rule sta_keeps_on_sm) (rule plain_keeps)
  ultimately show ?thesis unfolding accept_session_def Let_def
    by (auto split: option.split intro: sta_keeps_trans sta_outs_keep)
qed

lemma receive_accept_keeps:
  assumes "receive_accept rad msg req secret st ta sta = Ok (b, sta')" shows "sta_keeps env True sta sta'"
proof -
  obtain r s1 where v: "(if dynamic_vlan rad \<noteq> DYNAMIC_VLAN_DISABLED then ieee802_1x_update_vlan rad msg sta else Some (0, sta)) = Some (r, s1)"
    using assms unfolding receive_accept_def bindR_eq_Ok of_ub_eq by auto
  then have k1: "sta_keeps env True sta s1" by (auto split: if_splits intro: update_vlan_keeps)
  define s2 where "s2 = (if sta_flag WLAN_STA_ASSOC s1 then sta_out Bind_Vlan s1 else s1)"
  define s3 where "s3 = accept_session rad st ta s2"
  have k2: "sta_keeps env True sta s2" unfolding s2_def using k1 sta_keeps_trans [OF k1 sta_outs_keep] by simp
  have k3: "sta_keeps env True sta s3" unfolding s3_def by (rule sta_keeps_trans [OF k2 accept_session_keeps])
  have eq: "(if r < 0 then Ok (False, s1) else if sta_flag WLAN_STA_ASSOC s1 \<and> bind_vlan_res rad < 0 then Ok (False, s2)
     else case eapol_sm s3 of None \<Rightarrow> Fault
       | Some sm \<Rightarrow> bindR (accept_attrs rad msg req secret sm) (\<lambda>sm. Ok (True, s3\<lparr>eapol_sm := Some sm\<rparr>))) = Ok (b, sta')"
    using assms unfolding receive_accept_def v of_ub.simps bindR.simps prod.case Let_def s3_def s2_def .
  then consider "sta' = s1" | "sta' = s2" | sm kd where "eapol_sm s3 = Some sm" "accept_attrs rad msg req secret sm = Ok kd" "sta' = s3\<lparr>eapol_sm := Some kd\<rparr>"
    by (auto simp: bindR_eq_Ok split: if_split_asm option.split_asm)
  then show ?thesis
  proof cases
    case 3
    from sta_keeps_trans [OF k3 sta_keeps_set [OF 3(1) accept_attrs_keeps [OF 3(2)]]] show ?thesis unfolding 3(3) .
  qed (use k1 k2 in simp_all)
qed

lemma receive_switch_keeps:
  assumes "receive_switch rad msg req secret code st ta sta = Ok (b, sta')" "code = RADIUS_CODE_ACCESS_ACCEPT \<longrightarrow> g"
  shows "sta_keeps env g sta sta'"
proof -
  have rej: "sta_keeps env g sta (on_sm (on_eap (\<lambda>i. i\<lparr>aaaFail := True\<rparr>)) sta)"
    and chal: "sta_keeps env g sta (on_sm (on_eap (\<lambda>i. i\<lparr>aaaEapReq := True, aaaMethodTimeout := n\<rparr>)) sta)" for n
    by (rule sta_keeps_on_sm, rule on_eap_keeps; simp)+
  have "sta_keeps env g s (s\<lparr>disconnect_reason_code := n\<rparr>)" for s n by (rule sta_keeps_eq) simp
  note rej sta_keeps_trans [OF rej this]
  then show ?thesis using assms chal receive_accept_keeps [of rad msg req secret st ta sta b sta']
    by (cases "code = RADIUS_CODE_ACCESS_ACCEPT")
       (auto simp: receive_switch_def Let_def bindR_eq_Ok split: if_splits option.splits)
qed

lemma receive_checked_keeps:
  assumes "receive_checked rad msg req secret code sta = Ok sta'" "code = RADIUS_CODE_ACCESS_ACCEPT \<longrightarrow> g"
  shows "sta_keeps env g sta sta'"
proof -
  let ?s1 = "on_sm (\<lambda>sm. sm\<lparr>radius_identifier := -1, last_recv_radius := Some msg\<rparr>) sta"
  have k1: "sta_keeps env g sta ?s1" by (rule sta_keeps_on_sm) (rule plain_keeps)
  obtain t ta x s2 o3 s3 where s2: "s2 = (case x of Some v \<Rightarrow> if v < 60 then ?s1 else ?s1\<lparr>acct_interim_interval := v\<rparr> | None \<Rightarrow> ?s1)"
    and s3: "receive_switch rad msg req secret code t ta s2 = Ok (o3, s3)"
    and rest: "(case eapol_sm s3 of None \<Rightarrow> Fault
      | Some sm \<Rightarrow> bindR (ieee802_1x_decapsulate_radius (r_env rad) sm) (\<lambda>sm.
          let sm = (if o3 then on_eap (\<lambda>i. i\<lparr>aaaEapReq := False\<rparr>) sm else sm) in
          Ok (s3\<lparr>eapol_sm := Some (eapol_auth_step sm)\<rparr>))) = Ok sta'"
    using assms(1) unfolding receive_checked_def Let_def bindR_eq_Ok [of "of_ub _"] bindR_eq_Ok [of "receive_switch _ _ _ _ _ _ _ _"]
    by (auto simp del: option.case_eq_if)
  have "sta_keeps env g ?s1 (?s1\<lparr>acct_interim_interval := n\<rparr>)" for n by (rule sta_keeps_eq) simp
  then have k2: "sta_keeps env g sta s2"
    using k1 sta_keeps_trans [OF k1] by (simp add: s2 split: option.split)
  obtain sm4 sm5 where s4: "eapol_sm s3 = Some sm4" "ieee802_1x_decapsulate_radius (r_env rad) sm4 = Ok sm5"
     "sta' = s3\<lparr>eapol_sm := Some (eapol_auth_step (if o3 then on_eap (\<lambda>i. i\<lparr>aaaEapReq := False\<rparr>) sm5 else sm5))\<rparr>"
    using rest by (auto simp: bindR_eq_Ok Let_def split: option.splits)
  have "sm_keeps env g sm5 (on_eap (\<lambda>i. i\<lparr>aaaEapReq := False\<rparr>) sm5)" by (rule on_eap_keeps) simp_all
  then have "sm_keeps env g sm5 (if o3 then on_eap (\<lambda>i. i\<lparr>aaaEapReq := False\<rparr>) sm5 else sm5)" by (simp add: sm_keeps_refl)
  from sm_keeps_trans [OF decapsulate_keeps [OF s4(2)] sm_keeps_trans [OF this step_keeps_sm]]
  have "sta_keeps env g s3 sta'" unfolding s4(3) by (rule sta_keeps_set [OF s4(1)])
  from sta_keeps_trans [OF sta_keeps_trans [OF k2 receive_switch_keeps [OF s3 assms(2)]] this] show ?thesis .
qed

text \<open>A response keeps a closed port closed, unless it is an Access-Accept that passes the check.\<close>

lemma receive_auth_keeps:
  assumes run: "receive_auth_sta rad msg req secret sta = Ok (res, sta')"
    and g: "hdr_code msg = Some RADIUS_CODE_ACCESS_ACCEPT \<Longrightarrow> \<exists>m. radius_msg_verify (r_env rad) msg secret req True = Ok (0, m) \<Longrightarrow> g"
  shows "sta_keeps env g sta sta'"
proof -
  obtain code u v m where h: "hdr_code msg = Some code" and u: "unchecked_reject msg code = Some u"
    and v: "(if u then Ok (0, msg) else radius_msg_verify (r_env rad) msg secret req True) = Ok (v, m)"
    using run unfolding receive_auth_sta_def bindR_eq_Ok of_ub_eq by auto
  have ng: "code = RADIUS_CODE_ACCESS_ACCEPT \<longrightarrow> g" if "v = 0"
  proof
    assume c: "code = RADIUS_CODE_ACCESS_ACCEPT"
    then have "\<not> u" using u by (auto simp: unchecked_reject_def RADIUS_CODE_ACCESS_ACCEPT_def RADIUS_CODE_ACCESS_REJECT_def)
    then show g using c g h v that by simp
  qed
  consider "sta' = sta" | "v = 0" "receive_checked rad m req secret code sta = Ok sta'"
    using run unfolding receive_auth_sta_def h of_ub.simps bindR.simps u v prod.case by (auto simp: bindR_eq_Ok split: if_split_asm)
  then show ?thesis
  proof cases
    case 1
    then show ?thesis by (simp add: sta_keeps_refl)
  next
    case 2
    from receive_checked_keeps [OF 2(2) ng [OF 2(1)]] show ?thesis .
  qed
qed

section \<open>Every event\<close>

context eapol_authenticator
begin

lemma with_sm_ok:
  assumes "\<And>sm. eap_reach (eap_side env) (eap sm) \<Longrightarrow> run_good env sm (f sm)" "sta_ok env sta"
  shows "\<exists>s. with_sm f sta = Ok s \<and> sta_keeps env g sta s"
proof (cases "eapol_sm sta")
  case None
  then show ?thesis by (simp add: with_sm_def sta_keeps_refl)
next
  case (Some sm)
  then have "run_good env sm (f sm)" using assms by (simp add: sta_ok_def sm_ok_def)
  moreover from this obtain sm' where "f sm = Some sm'" by (auto simp: run_good_def)
  ultimately have "f sm = Some sm'" "sm_keeps env g sm sm'" by (simp_all add: sm_keeps_run)
  then show ?thesis using Some sta_keeps_set [OF Some] by (simp add: with_sm_def)
qed

lemma sta_step_keeps:
  assumes "sta_step env e sta = Ok sta'" "sta_ok env sta" shows "sta_keeps env (grants e) sta sta'"
proof (cases e)
  case (Frame hapd a buf)
  then show ?thesis using assms(1) receive_ok [of hapd a buf sta "grants e"] by (auto simp: sta_step_def)
next
  case (Assoc hapd a)
  then show ?thesis using assms(1) new_station_ok [of hapd a sta] by (auto simp: sta_step_def grants_def)
next
  case Gone
  then show ?thesis using assms(1) by (auto simp: sta_step_def ieee802_1x_free_station_def intro: sta_keeps_none)
next
  case (Request rad d)
  then show ?thesis using assms(1) by (auto simp: sta_step_def intro: encapsulate_keeps)
next
  case (Response rad msg req secret)
  show ?thesis
  proof (cases "eapol_sm sta")
    case None
    then show ?thesis using assms(1) Response by (simp add: sta_step_def sta_keeps_refl)
  next
    case (Some sm)
    then obtain res where "receive_auth_sta rad msg req secret sta = Ok (res, sta')"
      using assms(1) Response by (auto simp: sta_step_def bindR_eq_Ok)
    then show ?thesis by (rule receive_auth_keeps) (simp add: grants_def Response)
  qed
next
  case Run
  then show ?thesis using assms with_sm_ok [OF step_run_good assms(2)] by (auto simp: sta_step_def)
next
  case Tick
  then show ?thesis using assms with_sm_ok [OF tick_good assms(2)] by (auto simp: sta_step_def)
next
  case (Port_Enabled b)
  then show ?thesis using assms(1) by (auto simp: sta_step_def intro: sta_keeps_on_sm notify_keeps)
next
  case (Port_Valid b)
  then show ?thesis using assms(1) by (auto simp: sta_step_def intro: sta_keeps_on_sm notify_keeps)
next
  case (Pre_Auth b)
  then show ?thesis using assms(1) by (auto simp: sta_step_def intro: sta_keeps_on_sm notify_keeps)
next
  case (Set_Conf p v)
  then show ?thesis using assms(1) by (simp add: sta_step_def grants_def) (blast intro: sta_keeps_on_sm set_conf_keeps)
next
  case Reauthenticate
  then show ?thesis using assms(1) by (auto simp: sta_step_def intro: sta_keeps_on_sm notify_keeps)
next
  case (Eap_Pending b)
  then show ?thesis using assms(1) by (auto simp: sta_step_def intro: sta_keeps_on_sm pending_keeps)
qed

end

section \<open>Histories\<close>

text \<open>A history: the events one after the other, up to the first that does not return.\<close>

fun run_all :: "('e \<Rightarrow> 's \<Rightarrow> 's run) \<Rightarrow> 'e list \<Rightarrow> 's \<Rightarrow> 's run" where
  "run_all step [] s = Ok s"
| "run_all step (e # es) s = bindR (step e s) (run_all step es)"

locale event_system =
  fixes step :: "'e \<Rightarrow> 's \<Rightarrow> 's run"
    and guard :: "'e \<Rightarrow> bool"
    and inv :: "'s \<Rightarrow> bool"
  assumes inv_step: "step e s = Ok s' \<Longrightarrow> guard e \<Longrightarrow> inv s \<Longrightarrow> inv s'"
begin

lemma inv_run: "run_all step es s = Ok s' \<Longrightarrow> list_all guard es \<Longrightarrow> inv s \<Longrightarrow> inv s'"
  by (induction es arbitrary: s) (auto simp: bindR_eq_Ok intro: inv_step)

end

sublocale eapol_authenticator \<subseteq> consistent: event_system "sta_step env" "\<lambda>_. True" "sta_ok env"
  by unfold_locales (use sta_step_keeps in \<open>auto simp: sta_keeps_def\<close>)

sublocale eapol_authenticator \<subseteq> closed: event_system "sta_step env" "\<lambda>e. \<not> grants e \<and> no_local_success (eap_side env)"
    "\<lambda>sta. sta_ok env sta \<and> sta_closed sta"
  by unfold_locales (use sta_step_keeps in \<open>auto simp: sta_keeps_def\<close>)

text \<open>An access point that relays EAP to a RADIUS server: Identity is its only local method.\<close>

definition relay_ap :: "eap_identity_data eapol_env \<Rightarrow> eap_config \<Rightarrow> (nat \<Rightarrow> nat \<Rightarrow> bool) \<Rightarrow> (nat \<Rightarrow> nat) \<Rightarrow> eap_identity_data eapol_env" where
  "relay_ap env conf mem rnd = env\<lparr>eap_side := relay_env conf mem rnd None\<rparr>"

lemma relay_side: "eap_side (relay_ap env conf mem rnd) = relay_env conf mem rnd None"
  by (simp add: relay_ap_def)

interpretation ap: eapol_authenticator "relay_ap env conf mem rnd" for env conf mem rnd
  by unfold_locales (simp_all add: relay_side relay_contract relay_no_reauth_start)

lemma relay_no_local_success: "no_local_success (relay_env conf mem rnd reauth)"
  unfolding no_local_success_def method_success_def ptr_ok_def
  by (auto simp: the_method_def eap_server_get_eap_method_def relay_env_def relay_identity_def eap_server_identity_register_def split: if_splits)

end
