(* ===== verification/Station_Theorems.thy ===== *)
theory Station_Theorems
  imports Station Radius_Keys Eap_Theorems
begin

unbundle bit_operations_syntax

text \<open>
  The properties of a station of a relaying access point over every history of events: when its
  port may be open, that the port status is the one last reported through the callback
  \<open>set_port_authorized\<close>, that no frame and no run of the state machines faults, and how RADIUS responses are accepted. A complete authentication serves
  as the example.
\<close>

section \<open>An example\<close>

definition demo_eapol :: "eap_identity_data eapol_env" where
  "demo_eapol = relay_ap \<lparr>eap_side = demo_env None, alive_at = (\<lambda>_. True), config_wep = False, eap_reauth_period = 3600,
     conf_wpa = True, has_default_wep_key = False, individual_wep_key_len = 0\<rparr>
     \<lparr>eap_server = False, backend_auth = False, max_auth_rounds = 100, max_auth_rounds_short = 50\<rparr> (\<lambda>_ _. True) (\<lambda>_. 7)"

definition demo_hapd :: "eap_identity_data hapd" where
  "demo_hapd = \<lparr>conf_ieee802_1x = True, conf_hapd_wpa = True, conf_osen = False, conf_wps_state = False, config_wps = False,
     drv_wired = False, has_wpa_sm = True, sta_uses_psk = False, sta_auth_ft = False, sta_auth_fils = False, sta_pmksa = None, hapd_malloc = (\<lambda>_. True),
     alloc_sm_ok = True, alloc_eap_ok = True, new_session_id = Some 1, sta_identity = None, sta_cui = None, eapol_auth = demo_eapol\<rparr>"

definition demo_ap :: ap_radius where
  "demo_ap = \<lparr>r_env = demo_radius, next_radius_id = 5, request_authenticator = Some (replicate 16 3), common_attrs = [], framed_mtu_configured = False,
     radius_request_cui = False, send_ok = True, dynamic_vlan = DYNAMIC_VLAN_DISABLED, vlan_valid = (\<lambda>_. True), set_vlan_res = (\<lambda>_. 0),
     bind_vlan_res = 0, conf_acct_interim_interval = 0, acct_active = False, now_sec = 1000\<rparr>"

definition demo_sta :: "eap_identity_data sta_info" where
  "demo_sta = \<lparr>sta_flags = WLAN_STA_ASSOC, eapol_sm = None, pending_eapol_rx = None, acct_interim_interval = 0,
     session_timeout_set = False, session_timeout_sec = 0, disconnect_reason_code = 0, sta_outs = []\<rparr>"

definition raw_msg :: "bytes \<Rightarrow> nat list \<Rightarrow> radius_msg" where
  "raw_msg d ps = \<lparr>rbuf = \<lparr>bsize = word_of_nat (length d), used = word_of_nat (length d), bdata = d, bflags = 0\<rparr>, attr_pos = ps, attr_size = 16\<rparr>"

definition accept_msg :: radius_msg where
  "accept_msg = raw_msg ([2, 5, 0, 44] @ replicate 16 9 @ [79, 6, 3, 7, 0, 4] @ [80, 18] @ replicate 16 7) [20, 26]"

definition request_msg :: radius_msg where
  "request_msg = raw_msg ([1, 5, 0, 20] @ replicate 16 3) []"

definition demo_history :: "eap_identity_data sta_event list" where
  "demo_history = [Frame demo_hapd (replicate 6 1) [2, 1, 0, 0], Run, Frame demo_hapd (replicate 6 1) [2, 0, 0, 6, 2, 7, 0, 6, 1, 97], Run,
     Request demo_ap [2, 7, 0, 6, 1, 97], Response demo_ap accept_msg (Some request_msg) [1, 2], Run, Port_Valid True, Run]"

definition port_after :: "'p eapol_env \<Rightarrow> 'p sta_event list \<Rightarrow> 'p sta_info \<Rightarrow> PortState option" where
  "port_after env es sta = (case run_all (sta_step env) es sta of Ok s \<Rightarrow> map_option authPortStatus (eapol_sm s) | _ \<Rightarrow> None)"

lemma demo_open: "port_after demo_eapol demo_history demo_sta = Some Authorized"
  by code_simp

lemma demo_run:
  obtains s sm where "run_all (sta_step demo_eapol) demo_history demo_sta = Ok s" "eapol_sm s = Some sm" "authPortStatus sm = Authorized"
  using demo_open by (auto simp: port_after_def split: run.splits)

section \<open>The controlled port\<close>

text \<open>
  C1. In an access point that relays EAP to a RADIUS server (\<open>relay_ap\<close>: the only local method is Identity,
  whose private data can be allocated, every other allocation may fail, and EAP-Initiate/Re-auth-Start
  is off), whatever the sequence of frames, associations, RADIUS messages, timers, notifications and
  configuration changes, as far as it returned: the controlled
  port of a station is open only if one of the events justified it, which is an Access-Accept that
  passed \<open>radius_msg_verify\<close> with a Message-Authenticator, an association with keys known already
  (fast transition, FILS or a cached PMKSA), or the administrator's \<open>ForceAuthorized\<close>.
\<close>

theorem ap_port_safety:
  assumes "run_all (sta_step (relay_ap env conf mem rnd)) es sta = Ok sta'" "eapol_sm sta = None" "eapol_sm sta' = Some sm"
    "authPortStatus sm = Authorized"
  shows "\<exists>e \<in> set es. grants e"
proof (rule ccontr)
  assume "\<not> (\<exists>e \<in> set es. grants e)"
  then have "list_all (\<lambda>e. \<not> grants e \<and> no_local_success (eap_side (relay_ap env conf mem rnd))) es"
    by (simp add: list_all_iff relay_side relay_no_local_success)
  from ap.closed.inv_run [OF assms(1) this] have "sta_closed sta'" using assms(2) by (simp add: sta_ok_def sta_closed_def)
  then show False using assms(3,4) by (simp add: sta_closed_def no_grant_def)
qed

theorem ap_port_safety_witness: "\<exists>e \<in> set demo_history. grants e"
proof -
  obtain s sm where s: "run_all (sta_step demo_eapol) demo_history demo_sta = Ok s" "eapol_sm s = Some sm" "authPortStatus sm = Authorized"
    by (rule demo_run)
  show ?thesis by (rule ap_port_safety [OF s(1) [unfolded demo_eapol_def] _ s(2,3)]) (simp add: demo_sta_def)
qed

text \<open>
  C2. On every history of a station in a relaying access point (\<open>relay_ap\<close>) the port status of its
  802.1X state machines is the one they last reported through the callback \<open>set_port_authorized\<close>, and it
  agrees with the state of the authenticator PAE machine: closed in \<open>DISCONNECTED\<close>, \<open>HELD\<close> and
  \<open>FORCE_UNAUTH\<close>, open in \<open>AUTHENTICATED\<close> and \<open>FORCE_AUTH\<close>. What the access point makes of the report
  (\<open>ieee802_1x_set_sta_authorized\<close>, which ignores it for a pre-authenticating station) and what it tells the
  driver on its own (\<open>ap_sta_disconnect\<close>) is not part of the model.
\<close>

theorem ap_port_consistent:
  assumes "run_all (sta_step (relay_ap env conf mem rnd)) es sta = Ok sta'" "eapol_sm sta = None" "eapol_sm sta' = Some sm"
  shows "authPortStatus sm = told (outs sm) \<and> (case auth_pae_state sm of
      AUTH_PAE_DISCONNECTED \<Rightarrow> authPortStatus sm = Unauthorized
    | AUTH_PAE_HELD \<Rightarrow> authPortStatus sm = Unauthorized
    | AUTH_PAE_FORCE_UNAUTH \<Rightarrow> authPortStatus sm = Unauthorized
    | AUTH_PAE_AUTHENTICATED \<Rightarrow> authPortStatus sm = Authorized
    | AUTH_PAE_FORCE_AUTH \<Rightarrow> authPortStatus sm = Authorized
    | _ \<Rightarrow> True)"
proof -
  have "sta_ok (relay_ap env conf mem rnd) sta" using assms(2) by (simp add: sta_ok_def)
  from ap.consistent.inv_run [OF assms(1) _ this] have "sta_ok (relay_ap env conf mem rnd) sta'" by (simp add: list_all_iff)
  then have "port_inv sm" using assms(3) by (simp add: sta_ok_def sm_ok_def)
  then show ?thesis by (simp add: port_inv_def port_rule_def)
qed

theorem ap_port_consistent_witness:
  "\<exists>s sm. run_all (sta_step demo_eapol) demo_history demo_sta = Ok s \<and> eapol_sm s = Some sm \<and> authPortStatus sm = Authorized \<and> told (outs sm) = Authorized"
proof -
  obtain s sm where s: "run_all (sta_step demo_eapol) demo_history demo_sta = Ok s" "eapol_sm s = Some sm" "authPortStatus sm = Authorized"
    by (rule demo_run)
  with ap_port_consistent [OF s(1) [unfolded demo_eapol_def] _ s(2)] show ?thesis by (simp add: demo_sta_def)
qed

section \<open>No frame and no run faults\<close>

text \<open>
  C6. \<open>ieee802_1x_receive\<close> returns on every frame, of any length and content, for every station and
  configuration: no read outside the frame, no NULL state machine, no endless loop in the creation
  of the state machines.
\<close>

theorem ap_receive_total:
  "\<exists>sta'. ieee802_1x_receive (hapd\<lparr>eapol_auth := relay_ap env conf mem rnd\<rparr>) a buf (Some sta) = Some (Some sta')"
  using ap.receive_ok by blast

text \<open>
  C5. In a relaying access point (\<open>relay_ap\<close>) in which the private data of the Identity method can be
  allocated and EAP-Initiate/Re-auth-Start is off, after every history of a station that returned so far a
  further run of the state machines returns, and so does a tick of the timers: the 100 rounds of
  \<open>eapol_sm_step_run\<close>, each with its loop of the EAP authenticator inside, end without a fault. Every other
  allocation of the EAP authenticator may fail at any time. Both conditions are needed
  (\<open>eap_propose_identity_loops\<close>, \<open>eap_null_method\<close>).
\<close>

theorem ap_run_returns:
  assumes "run_all (sta_step (relay_ap env conf mem rnd)) es sta = Ok sta'" "eapol_sm sta = None"
  shows "\<exists>s t. sta_step (relay_ap env conf mem rnd) Run sta' = Ok s \<and> sta_step (relay_ap env conf mem rnd) Tick sta' = Ok t"
proof -
  have "sta_ok (relay_ap env conf mem rnd) sta" using assms(2) by (simp add: sta_ok_def)
  from ap.consistent.inv_run [OF assms(1) _ this] have ok: "sta_ok (relay_ap env conf mem rnd) sta'" by (simp add: list_all_iff)
  from ap.with_sm_ok [OF ap.step_run_good ok] ap.with_sm_ok [OF ap.tick_good ok] show ?thesis
    by (auto simp: sta_step_def)
qed

theorem ap_run_returns_witness:
  "\<exists>s t u. run_all (sta_step demo_eapol) demo_history demo_sta = Ok s \<and> sta_step demo_eapol Run s = Ok t \<and> sta_step demo_eapol Tick s = Ok u"
proof -
  obtain s sm where s: "run_all (sta_step demo_eapol) demo_history demo_sta = Ok s" "eapol_sm s = Some sm" "authPortStatus sm = Authorized"
    by (rule demo_run)
  with ap_run_returns [OF s(1) [unfolded demo_eapol_def]] show ?thesis unfolding demo_eapol_def by (simp add: demo_sta_def)
qed

section \<open>Verdicts of the server\<close>

lemma copy_aaa_fields:
  "EAP_state (copy_aaa_req env s) = EAP_state s" "num_rounds (copy_aaa_req env s) = num_rounds s"
  "num_rounds_short (copy_aaa_req env s) = num_rounds_short s" "sm_changed (copy_aaa_req env s) = sm_changed s"
  "eapRestart (eap_if (copy_aaa_req env s)) = eapRestart (eap_if s)" "portEnabled (eap_if (copy_aaa_req env s)) = portEnabled (eap_if s)"
  by (simp_all add: copy_aaa_req_def on_if_def tick_def)

lemmas verdict_fields = copy_aaa_fields SM_ENTRY_def on_if_def tick_def

text \<open>
  C13. A verdict of the server is acted on: when the EAP authenticator waits in \<open>AAA_IDLE\<close> with the
  port enabled, no restart requested and the round limits kept, one call of \<open>eap_server_sm_step\<close>
  returns in \<open>FAILURE2\<close> with \<open>eapFail\<close> for a rejection, and in \<open>SUCCESS2\<close> with \<open>eapSuccess\<close> for an
  acceptance; a rejection has precedence.
\<close>

theorem eap_verdict_acted:
  assumes "EAP_state sm = EAP_AAA_IDLE" "portEnabled (eap_if sm)" "\<not> eapRestart (eap_if sm)"
    "num_rounds sm \<le> max_auth_rounds (cfg env)" "num_rounds_short sm \<le> max_auth_rounds_short (cfg env)"
    "aaaFail (eap_if sm) \<or> aaaSuccess (eap_if sm)"
  shows "\<exists>sm'. eap_server_sm_step env sm = Some (1, sm') \<and>
     (if aaaFail (eap_if sm) then EAP_state sm' = EAP_FAILURE2 \<and> eapFail (eap_if sm')
      else EAP_state sm' = EAP_SUCCESS2 \<and> eapSuccess (eap_if sm'))"
proof -
  let ?s = "sm\<lparr>sm_changed := False\<rparr>"
  have calm: "sm_EAP_Step env s = eap_switch env s"
    if "portEnabled (eap_if s)" "\<not> eapRestart (eap_if s)" "num_rounds s \<le> max_auth_rounds (cfg env)"
      "num_rounds_short s \<le> max_auth_rounds_short (cfg env)" for s
  proof -
    have "\<not> max_auth_rounds (cfg env) < num_rounds s" "\<not> max_auth_rounds_short (cfg env) < num_rounds_short s"
      using that(3,4) by (simp_all only: not_less)
    then show ?thesis using that(1,2) by (simp add: sm_EAP_Step_def)
  qed
  have ends: "eap_server_sm_step env sm = Some (1, s\<lparr>sm_changed := False\<rparr>)"
    if s: "eap_switch env ?s = Some s" "sm_changed s" "EAP_state s = EAP_FAILURE2 \<or> EAP_state s = EAP_SUCCESS2"
      and f: "eapRestart (eap_if s) = eapRestart (eap_if sm)" "portEnabled (eap_if s) = portEnabled (eap_if sm)"
        "num_rounds s = num_rounds sm" "num_rounds_short s = num_rounds_short sm" for s
  proof -
    have 1: "sm_EAP_Step env ?s = Some s" using s(1) assms calm [of ?s] by simp
    have "eap_switch env (s\<lparr>sm_changed := False\<rparr>) = Some (s\<lparr>sm_changed := False\<rparr>)"
      using s(3) by (elim disjE) (simp_all add: eap_switch_def)
    then have "sm_EAP_Step env (s\<lparr>sm_changed := False\<rparr>) = Some (s\<lparr>sm_changed := False\<rparr>)"
      using f assms(2-5) calm [of "s\<lparr>sm_changed := False\<rparr>"] by simp
    then have 2: "sm_step_loop env 1 s = Some (1, s\<lparr>sm_changed := False\<rparr>)" by (subst sm_step_loop.simps) simp
    show ?thesis unfolding eap_server_sm_step_def by (subst sm_step_loop.simps) (simp add: 1 2 s(2))
  qed
  show ?thesis
  proof (cases "aaaFail (eap_if sm)")
    case True
    let ?t = "on_if (\<lambda>i. i\<lparr>eapFail := True\<rparr>) (copy_aaa_req env (SM_ENTRY EAP_FAILURE2 False ?s))"
    have "eap_switch env ?s = Some ?t" using True assms(1) by (simp add: eap_switch_def enter_FAILURE2_def)
    from ends [OF this] show ?thesis using True by (simp add: verdict_fields)
  next
    case False
    let ?u = "copy_aaa_req env (SM_ENTRY EAP_SUCCESS2 False ?s)"
    let ?v = "tick (on_if (\<lambda>i. i\<lparr>eapKeyAvailable := aaaEapKeyAvailable i,
                 eapKeyData := (if aaaEapKeyAvailable i
                   then snd (eap_copy_data (malloc_now env ?u) (eapKeyData i) (aaaEapKeyData i)) else None)\<rparr>) ?u)"
    let ?t = "(on_if (\<lambda>i. i\<lparr>eapSuccess := True\<rparr>) ?v)\<lparr>start_reauth := True\<rparr>"
    have "eap_switch env ?s = Some ?t" using False assms(1,6) by (simp add: eap_switch_def enter_SUCCESS2_def Let_def)
    from ends [OF this] show ?thesis using False by (simp add: verdict_fields)
  qed
qed

theorem eap_verdict_acted_witness:
  "\<exists>sm'. eap_server_sm_step (demo_env None) demo_accepted = Some (1, sm') \<and> EAP_state sm' = EAP_SUCCESS2 \<and> eapSuccess (eap_if sm')"
proof -
  have v: "EAP_state demo_accepted = EAP_AAA_IDLE" "portEnabled (eap_if demo_accepted)" "\<not> eapRestart (eap_if demo_accepted)"
    "num_rounds demo_accepted \<le> max_auth_rounds (cfg (demo_env None))"
    "num_rounds_short demo_accepted \<le> max_auth_rounds_short (cfg (demo_env None))"
    "\<not> aaaFail (eap_if demo_accepted)" "aaaSuccess (eap_if demo_accepted)" by code_simp+
  from eap_verdict_acted [OF v(1-5)] v(6,7) show ?thesis by simp
qed

text \<open>
  C32. An Access-Reject with no attributes is accepted for every shared secret and every value of
  its Response Authenticator: nothing of it is checked, and the station fails.
\<close>

theorem ap_reject_unauthenticated:
  assumes "length auth = 16" "eapol_sm sta = Some sm"
  shows "\<exists>sta' sm'. receive_auth_sta rad (raw_msg ([3, i, 0, 20] @ auth) []) req secret sta = Ok (RADIUS_RX_QUEUED, sta')
     \<and> eapol_sm sta' = Some sm' \<and> aaaFail (eif sm') \<and> \<not> aaaEapReq (eif sm')"
proof -
  define m where "m = raw_msg ([3, i, 0, 20] @ auth) []"
  have a: "radius_msg_get_attr m t None = Some (-1, [])" "radius_msg_get_attr_int32 m t = Some None" "radius_msg_get_eap env m = Ok None" for t env
    by (simp_all add: radius_msg_get_attr_def radius_msg_get_attr_int32_def radius_msg_get_eap_def raw_msg_def m_def)
  have h: "hdr_code m = Some RADIUS_CODE_ACCESS_REJECT" by (simp add: hdr_code_def raw_msg_def peek_def RADIUS_CODE_ACCESS_REJECT_def m_def)
  have u: "unchecked_reject m RADIUS_CODE_ACCESS_REJECT = Some True" by (simp add: unchecked_reject_def a)
  have ne: "RADIUS_CODE_ACCESS_REJECT \<noteq> RADIUS_CODE_ACCESS_ACCEPT" by (simp add: RADIUS_CODE_ACCESS_REJECT_def RADIUS_CODE_ACCESS_ACCEPT_def)
  show ?thesis
    unfolding m_def [symmetric]
    using assms ne by (simp add: receive_auth_sta_def h u receive_checked_def receive_switch_def a on_sm_def
        ieee802_1x_decapsulate_radius_def on_eap_def on_if_def eapol_auth_step_def emit_out_def)
qed

theorem ap_reject_unauthenticated_witness:
  "\<exists>sta' sm'. receive_auth_sta demo_ap (raw_msg ([3, 5, 0, 20] @ replicate 16 0) []) None [1, 2]
       (demo_sta\<lparr>eapol_sm := Some (eapol_fresh demo_eapol [] 0)\<rparr>) = Ok (RADIUS_RX_QUEUED, sta')
     \<and> eapol_sm sta' = Some sm' \<and> aaaFail (eif sm') \<and> \<not> aaaEapReq (eif sm')"
  by (rule ap_reject_unauthenticated) simp_all

section \<open>Class attributes\<close>

text \<open>The walk over the Class attributes of a message that has an empty one and another directly behind it.\<close>

lemma class_walk:
  assumes rep: "radius_rep msg h (xs @ [(RADIUS_ATTR_CLASS, []), (RADIUS_ATTR_CLASS, v)] @ ys)"
    and other: "\<forall>a \<in> set (xs @ ys). fst a \<noteq> RADIUS_ATTR_CLASS"
  defines "p \<equiv> length h + length (enc_attrs xs)"
  shows "class_next msg None = Some (False, Some (p + 2, 0))" "radius_read msg (p + 2) 0 = Some []"
    "radius_msg_count_attr msg RADIUS_ATTR_CLASS 1 = Some (if v = [] then 0 else 1)"
proof -
  let ?E = "(RADIUS_ATTR_CLASS, []) :: radius_attr" and ?V = "(RADIUS_ATTR_CLASS, v)"
  obtain post where b: "bdata (rbuf msg) = h @ enc_attrs (xs @ [?E, ?V] @ ys) @ post" "length h = sizeof_radius_hdr"
    using rep_bdata [OF rep] .
  have ok: "attrs_ok (xs @ [?E, ?V] @ ys)" using rep by (simp add: radius_rep_def)
  have e: "bdata (rbuf msg) = (h @ enc_attrs xs) @ enc_attr ?E @ (enc_attr ?V @ enc_attrs ys @ post)"
    and w: "bdata (rbuf msg) = (h @ enc_attrs xs @ enc_attr ?E) @ enc_attr ?V @ (enc_attrs ys @ post)"
    and x: "bdata (rbuf msg) = h @ enc_attrs xs @ (enc_attr ?E @ enc_attr ?V @ enc_attrs ys @ post)"
    and y: "bdata (rbuf msg) = (h @ enc_attrs xs @ enc_attr ?E @ enc_attr ?V) @ enc_attrs ys @ post"
    using b(1) by simp_all
  note ae = attr_access [OF e, simplified] and aw = attr_access [OF w, simplified]
  have pos: "attr_pos msg = offsets (length h) xs @ [p, p + 2] @ offsets (p + 2 + length (enc_attr ?V)) ys"
    using rep b(2) by (simp add: radius_rep_def p_def sizeof_radius_attr_hdr_def add.assoc)
  have sx: "find_attr msg RADIUS_ATTR_CLASS s (offsets (length h) xs) = Some None" for s
    by (rule find_attr_skip [OF x]) (use ok other in simp_all)
  have "find_attr msg RADIUS_ATTR_CLASS s (offsets (length (h @ enc_attrs xs @ enc_attr ?E @ enc_attr ?V)) ys) = Some None" for s
    by (rule find_attr_skip [OF y]) (use ok other in simp_all)
  then have sy: "find_attr msg RADIUS_ATTR_CLASS s (offsets (p + 2 + length (enc_attr ?V)) ys) = Some None" for s
    by (simp add: p_def sizeof_radius_attr_hdr_def add.assoc)
  have tE: "attr_type msg p = Some RADIUS_ATTR_CLASS" "attr_length msg p = Some 2" and tV: "attr_type msg (p + 2) = Some RADIUS_ATTR_CLASS"
    using ae(1,2) aw(1) ok by (simp_all add: p_def sizeof_radius_attr_hdr_def add.assoc)
  have first: "radius_msg_get_attr_ptr msg RADIUS_ATTR_CLASS None = Some (Some (p + 2, 0))"
    using sx [of None] tE by (simp add: radius_msg_get_attr_ptr_def pos find_attr_append sizeof_radius_attr_hdr_def)
  have second: "radius_msg_get_attr_ptr msg RADIUS_ATTR_CLASS (Some (p + 2)) = Some None"
    using sx [of "Some (p + 2)"] sy [of "Some (p + 2)"] tE tV by (simp add: radius_msg_get_attr_ptr_def pos find_attr_append)
  have "class_next msg (Some (p + 2, 0)) = Some (False, Some (p + 2, 0))" using second by (subst class_next.simps) simp
  then show "class_next msg None = Some (False, Some (p + 2, 0))" by (subst class_next.simps) (simp add: first)
  show "radius_read msg (p + 2) 0 = Some []"
    using ae(3) [of 0] by (simp add: p_def sizeof_radius_attr_hdr_def)
  have "filter (\<lambda>a. fst a = RADIUS_ATTR_CLASS \<and> 1 \<le> length (snd a)) zs = []" if "set zs \<subseteq> set (xs @ ys)" for zs
    using that other by (auto simp: filter_empty_conv)
  then have "filter (\<lambda>a. fst a = RADIUS_ATTR_CLASS \<and> 1 \<le> length (snd a)) (xs @ [?E, ?V] @ ys) = (if v = [] then [] else [?V])"
    by (cases v) simp_all
  then show "radius_msg_count_attr msg RADIUS_ATTR_CLASS 1 = Some (if v = [] then 0 else 1)"
    using count_attrs_eq [OF b(1) ok, of RADIUS_ATTR_CLASS 1] rep b(2)
    by (simp add: radius_msg_count_attr_def radius_rep_def del: filter_append)
qed

text \<open>
  C33. A Class attribute with a value is lost when it directly follows an empty one: in every message
  whose only Class attributes are an empty one and one with a value directly behind it, \<open>radius_msg_count_attr\<close>
  counts the one value, and \<open>ieee802_1x_store_radius_class\<close> stores an empty one in its place. The search for the next
  attribute starts behind the start of the value last found, which for an empty value is the header
  of the next attribute.
\<close>

theorem ap_class_lost:
  assumes "radius_rep msg h (xs @ [(RADIUS_ATTR_CLASS, []), (RADIUS_ATTR_CLASS, v)] @ ys)"
    "\<forall>a \<in> set (xs @ ys). fst a \<noteq> RADIUS_ATTR_CLASS" "v \<noteq> []" "acct_active rad" "\<And>n. rmalloc (r_env rad) n"
  shows "radius_msg_count_attr msg RADIUS_ATTR_CLASS 1 = Some 1
     \<and> ieee802_1x_store_radius_class rad msg sm = Some (sm\<lparr>radius_class := Some [[]]\<rparr>)"
  using class_walk [OF assms(1,2)] assms(3-5) by (simp add: ieee802_1x_store_radius_class_def numeral_eq_Suc)

text \<open>An Access-Accept with an empty Class attribute directly in front of one with a value.\<close>

definition class_msg :: radius_msg where
  "class_msg = raw_msg ([2, 5, 0, 25] @ replicate 16 0 @ [25, 2] @ [25, 3, 120]) [20, 22]"

lemma class_msg_rep:
  "radius_rep class_msg ([2, 5, 0, 25] @ replicate 16 0) ([] @ [(RADIUS_ATTR_CLASS, []), (RADIUS_ATTR_CLASS, [120])] @ [])"
  by (simp add: radius_rep_def class_msg_def raw_msg_def wf_wpabuf_def radius_content_def wpabuf_content_def wpabuf_len_def
      wpabuf_head_def sizeof_radius_hdr_def PTRDIFF_LIMIT_def enc_attr_def sizeof_radius_attr_hdr_def RADIUS_ATTR_CLASS_def
      RADIUS_MAX_ATTR_LEN_def)

theorem ap_class_lost_witness:
  "radius_msg_parse demo_radius (Some ([2, 5, 0, 25] @ replicate 16 0 @ [25, 2] @ [25, 3, 120])) = Ok (Some class_msg)
   \<and> ieee802_1x_store_radius_class (demo_ap\<lparr>acct_active := True\<rparr>) class_msg (eapol_fresh demo_eapol [] 0)
     = Some ((eapol_fresh demo_eapol [] 0)\<lparr>radius_class := Some [[]]\<rparr>)"
proof
  show "radius_msg_parse demo_radius (Some ([2, 5, 0, 25] @ replicate 16 0 @ [25, 2] @ [25, 3, 120])) = Ok (Some class_msg)"
    unfolding class_msg_def raw_msg_def demo_radius_def by code_simp
  show "ieee802_1x_store_radius_class (demo_ap\<lparr>acct_active := True\<rparr>) class_msg (eapol_fresh demo_eapol [] 0)
     = Some ((eapol_fresh demo_eapol [] 0)\<lparr>radius_class := Some [[]]\<rparr>)"
    by (rule ap_class_lost [OF class_msg_rep, THEN conjunct2]) (simp_all add: demo_ap_def demo_memory)
qed

end
