(* ===== verification/Linked_List.thy ===== *)
theory Linked_List
  imports Wpabuf
begin

text \<open>
  Singly linked lists of the C code in an explicit store from addresses to objects. A pointer is an
  address, NULL is \<open>None\<close>, and the access to an address that is not in the store is a fault. The loops
  are partial functions, so that \<open>None\<close> is a fault or a loop that does not end; \<open>seg\<close> relates a list to
  its addresses, and every loop is shown to return on such a list.
\<close>

section \<open>Loops over linked lists\<close>

text \<open>
  The loop that unlinks an entry: \<open>get\<close> and \<open>put\<close> are the link field. The search returns \<open>prev\<close>, if the
  entry is found.
\<close>

partial_function (option) find_prev ::
  "('e \<Rightarrow> nat option) \<Rightarrow> (nat \<Rightarrow> 'e option) \<Rightarrow> nat \<Rightarrow> nat option \<Rightarrow> nat option \<Rightarrow> nat option option ub" where
  "find_prev get st entry prev pos =
     (case pos of
        None \<Rightarrow> Some None
      | Some p \<Rightarrow> if p = entry then Some (Some prev)
                  else Option.bind (st p) (\<lambda>e. find_prev get st entry (Some p) (get e)))"

definition unlink ::
  "('e \<Rightarrow> nat option) \<Rightarrow> (nat option \<Rightarrow> 'e \<Rightarrow> 'e) \<Rightarrow> nat \<Rightarrow> nat option \<Rightarrow> (nat \<Rightarrow> 'e option)
     \<Rightarrow> (nat option \<times> (nat \<Rightarrow> 'e option)) ub" where
  "unlink get put entry head st = do {
     r \<leftarrow> find_prev get st entry None head;
     case r of
       None \<Rightarrow> Some (head, st)
     | Some prev \<Rightarrow> do {
         e \<leftarrow> st entry;
         case prev of
           None \<Rightarrow> Some (get e, st)
         | Some p \<Rightarrow> do { pe \<leftarrow> st p; Some (head, st(p \<mapsto> put (get e) pe)) } } }"

text \<open>The place of a new entry in the list ordered by expiration: \<open>prev\<close> at the end of the loop.\<close>

partial_function (option) find_place ::
  "('e \<Rightarrow> bool) \<Rightarrow> ('e \<Rightarrow> nat option) \<Rightarrow> (nat \<Rightarrow> 'e option) \<Rightarrow> nat option \<Rightarrow> nat option \<Rightarrow> nat option ub" where
  "find_place later get st prev pos =
     (case pos of
        None \<Rightarrow> Some prev
      | Some p \<Rightarrow> Option.bind (st p) (\<lambda>e. if later e then Some prev else find_place later get st (Some p) (get e)))"

declare find_prev.simps [code] find_place.simps [code]

text \<open>The walk to the first entry that matches.\<close>

partial_function (option) get_walk ::
  "('e \<Rightarrow> nat option) \<Rightarrow> ('e \<Rightarrow> bool ub) \<Rightarrow> (nat \<Rightarrow> 'e option) \<Rightarrow> nat option \<Rightarrow> nat option ub" where
  "get_walk get match st pos =
     (case pos of
        None \<Rightarrow> Some None
      | Some p \<Rightarrow> Option.bind (st p) (\<lambda>e. Option.bind (match e) (\<lambda>b.
          if b then Some (Some p) else get_walk get match st (get e))))"

declare get_walk.simps [code]

text \<open>The release of every entry of a list.\<close>

partial_function (option) deinit_loop :: "('e \<Rightarrow> nat option) \<Rightarrow> nat option \<Rightarrow> (nat \<Rightarrow> 'e option) \<Rightarrow> (nat \<Rightarrow> 'e option) ub" where
  "deinit_loop get entry st =
     (case entry of
        None \<Rightarrow> Some st
      | Some p \<Rightarrow> Option.bind (st p) (\<lambda>e. deinit_loop get (get e) (st(p := None))))"

declare deinit_loop.simps [code]

text \<open>
  Removal of all entries that match: \<open>prev\<close> and \<open>entry\<close> are the variables of the loop, the result is the
  head, the store and the number of entries removed.
\<close>

partial_function (option) remove_where ::
  "('e \<Rightarrow> nat option) \<Rightarrow> (nat option \<Rightarrow> 'e \<Rightarrow> 'e) \<Rightarrow> ('e \<Rightarrow> bool ub) \<Rightarrow> nat option \<Rightarrow> nat option \<Rightarrow> nat option
     \<Rightarrow> (nat \<Rightarrow> 'e option) \<Rightarrow> nat \<Rightarrow> (nat option \<times> (nat \<Rightarrow> 'e option) \<times> nat) ub" where
  "remove_where get put match prev entry head st n =
     (case entry of
        None \<Rightarrow> Some (head, st, n)
      | Some p \<Rightarrow> Option.bind (st p) (\<lambda>e. Option.bind (match e) (\<lambda>b.
          if \<not> b then remove_where get put match (Some p) (get e) head st n
          else case prev of
            None \<Rightarrow> remove_where get put match None (get e) (get e) (st(p := None)) (n + 1)
          | Some q \<Rightarrow> Option.bind (st q) (\<lambda>qe.
              remove_where get put match (Some q) (get e) head (st(q \<mapsto> put (get e) qe, p := None)) (n + 1)))))"

text \<open>A loop that changes every entry, and one that collects from every entry.\<close>

partial_function (option) for_each ::
  "('e \<Rightarrow> nat option) \<Rightarrow> ('e \<Rightarrow> 'e ub) \<Rightarrow> nat option \<Rightarrow> (nat \<Rightarrow> 'e option) \<Rightarrow> (nat \<Rightarrow> 'e option) ub" where
  "for_each get f entry st =
     (case entry of
        None \<Rightarrow> Some st
      | Some p \<Rightarrow> Option.bind (st p) (\<lambda>e. Option.bind (f e) (\<lambda>e'. for_each get f (get e') (st(p \<mapsto> e')))))"

partial_function (option) fold_list ::
  "('e \<Rightarrow> nat option) \<Rightarrow> ('e \<Rightarrow> 'a \<Rightarrow> 'a) \<Rightarrow> nat option \<Rightarrow> (nat \<Rightarrow> 'e option) \<Rightarrow> 'a \<Rightarrow> 'a ub" where
  "fold_list get f entry st acc =
     (case entry of
        None \<Rightarrow> Some acc
      | Some p \<Rightarrow> Option.bind (st p) (\<lambda>e. fold_list get f (get e) st (f e acc)))"

text \<open>The search for a request: \<open>prev_req\<close> and \<open>req\<close>.\<close>

partial_function (option) find_req ::
  "('e \<Rightarrow> nat option) \<Rightarrow> ('e \<Rightarrow> bool ub) \<Rightarrow> (nat \<Rightarrow> 'e option) \<Rightarrow> nat option \<Rightarrow> nat option \<Rightarrow> (nat option \<times> nat) option ub" where
  "find_req get match st prev req =
     (case req of
        None \<Rightarrow> Some None
      | Some p \<Rightarrow> Option.bind (st p) (\<lambda>e. Option.bind (match e) (\<lambda>b.
          if b then Some (Some (prev, p)) else find_req get match st (Some p) (get e))))"

text \<open>The last entry of the list behind \<open>entry\<close>, with its predecessor.\<close>

partial_function (option) find_last ::
  "('e \<Rightarrow> nat option) \<Rightarrow> (nat \<Rightarrow> 'e option) \<Rightarrow> nat option \<Rightarrow> nat \<Rightarrow> (nat option \<times> nat) ub" where
  "find_last get st prev entry =
     Option.bind (st entry) (\<lambda>e. case get e of None \<Rightarrow> Some (prev, entry) | Some n \<Rightarrow> find_last get st (Some entry) n)"

declare remove_where.simps [code] for_each.simps [code] fold_list.simps [code] find_req.simps [code] find_last.simps [code]

section \<open>Linked lists in a store\<close>

fun seg :: "('e \<Rightarrow> nat option) \<Rightarrow> (nat \<Rightarrow> 'e option) \<Rightarrow> nat option \<Rightarrow> nat list \<Rightarrow> nat option \<Rightarrow> bool" where
  "seg get st p [] q \<longleftrightarrow> p = q"
| "seg get st p (x # xs) q \<longleftrightarrow> p = Some x \<and> (\<exists>e. st x = Some e \<and> seg get st (get e) xs q)"

lemma seg_append: "seg get st p (xs @ ys) r \<longleftrightarrow> (\<exists>q. seg get st p xs q \<and> seg get st q ys r)"
  by (induction xs arbitrary: p) auto

lemma seg_cong:
  "(\<And>x. x \<in> set xs \<Longrightarrow> map_option get (st' x) = map_option get (st x)) \<Longrightarrow> seg get st' p xs q = seg get st p xs q"
proof (induction xs arbitrary: p)
  case (Cons x xs)
  have "map_option get (st' x) = map_option get (st x)" using Cons.prems by simp
  then show ?case using Cons by (cases "st x"; cases "st' x") auto
qed simp

lemma seg_in_store: "seg get st p xs q \<Longrightarrow> x \<in> set xs \<Longrightarrow> \<exists>e. st x = Some e"
  by (induction xs arbitrary: p) auto

lemma find_prev_seg:
  "seg get st p xs (Some a) \<Longrightarrow> a \<notin> set xs \<Longrightarrow> find_prev get st a prev p = Some (Some (if xs = [] then prev else Some (last xs)))"
  by (induction xs arbitrary: p prev) (auto simp: find_prev.simps)

text \<open>A link field of the entries: what is written is read back.\<close>

locale link_field =
  fixes get :: "'e \<Rightarrow> nat option"
    and put :: "nat option \<Rightarrow> 'e \<Rightarrow> 'e"
  assumes get_put [simp]: "get (put v e) = v"
begin

lemma seg_last_update:
  assumes "seg get st p (xs @ [b]) q" "distinct (xs @ [b])" "st b = Some pe"
  shows "seg get (st(b \<mapsto> put r pe)) p (xs @ [b]) r"
proof -
  obtain z where z: "seg get st p xs z" "z = Some b" using assms by (auto simp: seg_append)
  have "seg get (st(b \<mapsto> put r pe)) p xs z" using z(1) assms(2) by (subst seg_cong [of xs get _ st]) auto
  then show ?thesis using z(2) by (auto simp: seg_append)
qed

text \<open>The loop unlinks exactly the entry, and changes at most the link of its predecessor.\<close>

lemma unlink_ok:
  assumes "seg get st head (xs @ a # ys) None" "distinct (xs @ a # ys)"
  shows "\<exists>h st'. unlink get put a head st = Some (h, st') \<and> seg get st' h (xs @ ys) None
    \<and> (st' = st \<or> (\<exists>p pe v. p \<in> set xs \<and> st p = Some pe \<and> st' = st(p \<mapsto> put v pe)))"
proof -
  obtain e where e: "st a = Some e" "seg get st head xs (Some a)" "seg get st (get e) ys None"
    using assms(1) by (auto simp: seg_append)
  have f: "find_prev get st a None head = Some (Some (if xs = [] then None else Some (last xs)))"
    using find_prev_seg [OF e(2)] assms(2) by simp
  show ?thesis
  proof (cases xs rule: rev_cases)
    case Nil
    then show ?thesis using e f by (simp add: unlink_def)
  next
    case (snoc zs b)
    then obtain pe where b: "st b = Some pe" using seg_in_store [OF e(2), of b] by auto
    let ?st = "st(b \<mapsto> put (get e) pe)"
    have "seg get ?st head xs (get e)" using seg_last_update [of st head zs b "Some a" pe "get e"] e(2) snoc assms(2) b by simp
    moreover have "seg get ?st (get e) ys None" using e(3) snoc assms(2) by (subst seg_cong [of ys get _ st]) auto
    ultimately have "seg get ?st head (xs @ ys) None" by (auto simp: seg_append)
    moreover have "unlink get put a head st = Some (head, ?st)" using e f b snoc by (simp add: unlink_def)
    ultimately show ?thesis using b snoc by auto
  qed
qed

text \<open>Insertion behind a prefix, for the list that is searched for the place.\<close>

lemma insert_behind:
  assumes "seg get st head (xs @ [b] @ ys) None" "distinct (xs @ [b] @ ys)" "a \<notin> set (xs @ [b] @ ys)" "st b = Some pe"
  shows "seg get (st(a \<mapsto> put (get pe) e, b \<mapsto> put (Some a) pe)) head (xs @ [b] @ a # ys) None"
proof -
  let ?st = "st(a \<mapsto> put (get pe) e, b \<mapsto> put (Some a) pe)"
  have s: "seg get st head xs (Some b)" "seg get st (get pe) ys None" using assms(1,4) by (auto simp: seg_append)
  have "seg get ?st head xs (Some b)" "seg get ?st (get pe) ys None"
    using s assms(2,3) by (subst seg_cong [of _ get _ st]; auto)+
  then show ?thesis using assms(3) by (auto simp: seg_append)
qed

end

lemma find_place_seg:
  "seg get st p xs None \<Longrightarrow> find_place later get st prev p =
     Some (if takeWhile (\<lambda>x. \<not> later (the (st x))) xs = [] then prev else Some (last (takeWhile (\<lambda>x. \<not> later (the (st x))) xs)))"
proof (induction xs arbitrary: p prev)
  case Nil
  then show ?case by (simp add: find_place.simps)
next
  case (Cons x xs)
  then obtain e where e: "p = Some x" "st x = Some e" "seg get st (get e) xs None" by auto
  then show ?case using Cons.IH [OF e(3), of "Some x"] by (simp add: find_place.simps [of later get st prev])
qed

lemma get_walk_seg:
  "seg get st p xs None \<Longrightarrow> (\<And>x. x \<in> set xs \<Longrightarrow> match (the (st x)) = Some (m x)) \<Longrightarrow> get_walk get match st p = Some (List.find m xs)"
proof (induction xs arbitrary: p)
  case Nil
  then show ?case by (simp add: get_walk.simps)
next
  case (Cons x xs)
  then obtain e where e: "p = Some x" "st x = Some e" "seg get st (get e) xs None" by auto
  have "match e = Some (m x)" using Cons.prems(2) [of x] e(2) by simp
  then show ?case using Cons.IH [OF e(3)] Cons.prems(2) e by (simp add: get_walk.simps [of get match st "Some x"] List.find.simps)
qed

lemma deinit_loop_seg:
  "seg get st p xs None \<Longrightarrow> distinct xs \<Longrightarrow> deinit_loop get p st = Some (\<lambda>x. if x \<in> set xs then None else st x)"
proof (induction xs arbitrary: p st)
  case Nil
  then show ?case by (simp add: deinit_loop.simps)
next
  case (Cons x xs)
  then obtain e where e: "p = Some x" "st x = Some e" "seg get st (get e) xs None" by auto
  have "seg get (st(x := None)) (get e) xs None" using e(3) Cons.prems(2) by (subst seg_cong [of _ _ _ st]) auto
  then have "deinit_loop get (get e) (st(x := None)) = Some (\<lambda>y. if y \<in> set xs then None else (st(x := None)) y)"
    using Cons.IH Cons.prems(2) by simp
  then show ?case using e(1,2) by (subst deinit_loop.simps) (auto simp: fun_eq_iff)
qed

lemma for_each_seg:
  assumes "seg get st p xs None" "distinct xs" "\<And>x. x \<in> set xs \<Longrightarrow> \<exists>e'. f (the (st x)) = Some e' \<and> get e' = get (the (st x))"
  shows "\<exists>st'. for_each get f p st = Some st' \<and> seg get st' p xs None \<and> (\<forall>x. st' x = (if x \<in> set xs then f (the (st x)) else st x))"
  using assms
proof (induction xs arbitrary: p st)
  case Nil
  then show ?case by (simp add: for_each.simps)
next
  case (Cons x xs)
  then obtain e where e: "p = Some x" "st x = Some e" "seg get st (get e) xs None" by auto
  obtain e' where e': "f e = Some e'" "get e' = get e" using Cons.prems(3) [of x] e(2) by auto
  have s: "seg get (st(x \<mapsto> e')) (get e) xs None" using e(3) Cons.prems(2) by (subst seg_cong [of _ _ _ st]) auto
  have "\<exists>e''. f (the ((st(x \<mapsto> e')) y)) = Some e'' \<and> get e'' = get (the ((st(x \<mapsto> e')) y))" if "y \<in> set xs" for y
    using Cons.prems(2,3) that by auto
  from Cons.IH [OF s _ this] obtain st' where st': "for_each get f (get e) (st(x \<mapsto> e')) = Some st'" "seg get st' (get e) xs None"
      "\<forall>y. st' y = (if y \<in> set xs then f (the ((st(x \<mapsto> e')) y)) else (st(x \<mapsto> e')) y)"
    using Cons.prems(2) by (simp only: distinct.simps) blast
  have "st' x = Some e'" using st'(3) [rule_format, of x] Cons.prems(2) by simp
  then have "seg get st' p (x # xs) None" using st'(2) e(1) e'(2) by simp
  moreover have "st' y = (if y \<in> set (x # xs) then f (the (st y)) else st y)" for y
    using st'(3) [rule_format, of y] e(2) e'(1) Cons.prems(2) by auto
  moreover have "for_each get f p st = Some st'" using st'(1) e e' by (subst for_each.simps) simp
  ultimately show ?case by blast
qed

lemma for_each_defined:
  "for_each get f p st = Some st' \<Longrightarrow> seg get st p xs None \<Longrightarrow> distinct xs \<Longrightarrow> (\<And>e e'. f e = Some e' \<Longrightarrow> get e' = get e) \<Longrightarrow>
   x \<in> set xs \<Longrightarrow> \<exists>e'. f (the (st x)) = Some e' \<and> get e' = get (the (st x))"
proof (induction xs arbitrary: p st)
  case (Cons y xs)
  then obtain e where e: "p = Some y" "st y = Some e" "seg get st (get e) xs None" by auto
  obtain e' where e': "f e = Some e'" "for_each get f (get e') (st(y \<mapsto> e')) = Some st'"
    using Cons.prems(1) e by (subst (asm) for_each.simps) (auto simp: bind_eq_Some_conv)
  have g: "get e' = get e" using Cons.prems(4) e'(1) by simp
  have s: "seg get (st(y \<mapsto> e')) (get e') xs None" unfolding g using e(3) Cons.prems(3) by (subst seg_cong [of _ _ _ st]) auto
  show ?case
  proof (cases "x = y")
    case True
    then show ?thesis using e(2) e'(1) g by simp
  next
    case False
    then show ?thesis using Cons.IH [OF e'(2) s _ Cons.prems(4)] Cons.prems(3,5) by simp
  qed
qed simp

lemma fold_list_seg: "seg get st p xs None \<Longrightarrow> fold_list get f p st acc = Some (fold f (map (\<lambda>x. the (st x)) xs) acc)"
proof (induction xs arbitrary: p acc)
  case Nil
  then show ?case by (simp add: fold_list.simps)
next
  case (Cons x xs)
  then obtain e where e: "p = Some x" "st x = Some e" "seg get st (get e) xs None" by auto
  then show ?case using Cons.IH [OF e(3)] by (subst fold_list.simps) simp
qed

lemma find_req_seg:
  "seg get st p xs None \<Longrightarrow> (\<And>x. x \<in> set xs \<Longrightarrow> match (the (st x)) = Some (m x)) \<Longrightarrow>
   (find_req get match st prev p = Some None \<and> (\<forall>x \<in> set xs. \<not> m x))
   \<or> (\<exists>as x bs. xs = as @ x # bs \<and> m x \<and> (\<forall>y \<in> set as. \<not> m y)
        \<and> find_req get match st prev p = Some (Some (if as = [] then prev else Some (last as), x)))"
proof (induction xs arbitrary: p prev)
  case Nil
  then show ?case by (simp add: find_req.simps)
next
  case (Cons x xs)
  then obtain e where e: "p = Some x" "st x = Some e" "seg get st (get e) xs None" by auto
  have m: "match e = Some (m x)" using Cons.prems(2) [of x] e(2) by simp
  show ?case
  proof (cases "m x")
    case True
    then have "find_req get match st prev p = Some (Some (prev, x))" using e m by (subst find_req.simps) simp
    then show ?thesis using True by (intro disjI2 exI [of _ "[]"] exI [of _ x] exI [of _ xs]) simp
  next
    case False
    have r: "find_req get match st prev p = find_req get match st (Some x) (get e)" using e m False by (subst find_req.simps) simp
    consider (none) "find_req get match st (Some x) (get e) = Some None" "\<forall>y \<in> set xs. \<not> m y"
      | (some) as y bs where "xs = as @ y # bs" "m y" "\<forall>z \<in> set as. \<not> m z"
          "find_req get match st (Some x) (get e) = Some (Some (if as = [] then Some x else Some (last as), y))"
      using Cons.IH [OF e(3), of "Some x"] Cons.prems(2) by auto
    then show ?thesis
    proof cases
      case none
      then show ?thesis using r False by simp
    next
      case some
      then show ?thesis using r False by (intro disjI2 exI [of _ "x # as"] exI [of _ y] exI [of _ bs]) simp
    qed
  qed
qed

lemma find_last_seg:
  "seg get st (Some a) (a # xs) None \<Longrightarrow>
   find_last get st prev a = Some (if xs = [] then prev else Some (last (a # butlast xs)), last (a # xs))"
proof (induction xs arbitrary: a prev)
  case Nil
  then show ?case by (subst find_last.simps) auto
next
  case (Cons b xs)
  then obtain e where e: "st a = Some e" "get e = Some b" "seg get st (Some b) (b # xs) None" by auto
  then show ?case using Cons.IH [of b "Some a"] by (subst find_last.simps) (auto simp: last.simps butlast.simps)
qed

context link_field
begin

text \<open>The removal leaves the other entries in their order, and changes nothing but links in them.\<close>

lemma remove_where_ok:
  assumes "seg get st head (xs @ ys) None" "distinct (xs @ ys)" "\<And>y. y \<in> set ys \<Longrightarrow> match (the (st y)) = Some (m y)"
    "entry = (case ys of [] \<Rightarrow> None | y # _ \<Rightarrow> Some y)" "prev = (if xs = [] then None else Some (last xs))" "\<And>v e. g (put v e) = g e"
  shows "\<exists>h st'. remove_where get put match prev entry head st n = Some (h, st', n + length (filter m ys))
    \<and> seg get st' h (xs @ filter (\<lambda>y. \<not> m y) ys) None
    \<and> (\<forall>x. if x \<in> set ys \<and> m x then st' x = None else map_option g (st' x) = map_option g (st x))"
  using assms
proof (induction ys arbitrary: xs st head entry prev n)
  case Nil
  then show ?case by (subst remove_where.simps) simp
next
  case (Cons y ys)
  obtain q e where e: "st y = Some e" "seg get st head xs (Some y)" "seg get st (get e) ys None" "entry = Some y"
    using Cons.prems(1,4) by (auto simp: seg_append)
  have m: "match e = Some (m y)" using Cons.prems(3) [of y] e(1) by simp
  have d: "distinct xs" "distinct ys" "y \<notin> set xs" "y \<notin> set ys" "set xs \<inter> set ys = {}" using Cons.prems(2) by auto
  have nx: "get e = (case ys of [] \<Rightarrow> None | z # _ \<Rightarrow> Some z)" using e(3) by (cases ys) auto
  show ?case
  proof (cases "m y")
    case False
    have s: "seg get st head ((xs @ [y]) @ ys) None" using Cons.prems(1) by simp
    have "\<exists>h st'. remove_where get put match (Some y) (get e) head st n = Some (h, st', n + length (filter m ys))
        \<and> seg get st' h ((xs @ [y]) @ filter (\<lambda>y. \<not> m y) ys) None
        \<and> (\<forall>x. if x \<in> set ys \<and> m x then st' x = None else map_option g (st' x) = map_option g (st x))"
      using Cons.prems(2,3,6) nx by (intro Cons.IH [OF s]) auto
    moreover have "remove_where get put match prev entry head st n = remove_where get put match (Some y) (get e) head st n"
      using e m False by (subst remove_where.simps) simp
    ultimately show ?thesis using False by auto
  next
    case True
    show ?thesis
    proof (cases xs rule: rev_cases)
      case Nil
      let ?st = "st(y := None)"
      have s: "seg get ?st (get e) ([] @ ys) None" using e(3) d(4) by (subst seg_cong [of _ _ _ st]) auto
      have "\<exists>h st'. remove_where get put match None (get e) (get e) ?st (n + 1) = Some (h, st', n + 1 + length (filter m ys))
        \<and> seg get st' h ([] @ filter (\<lambda>y. \<not> m y) ys) None
        \<and> (\<forall>x. if x \<in> set ys \<and> m x then st' x = None else map_option g (st' x) = map_option g (?st x))"
        using Cons.prems(2,3,6) nx d(4) by (intro Cons.IH [OF s]) auto
      moreover have "remove_where get put match prev entry head st n = remove_where get put match None (get e) (get e) ?st (n + 1)"
        using e m True Nil Cons.prems(5) by (subst remove_where.simps) simp
      ultimately show ?thesis using True Nil d(4) by (auto split: if_splits)
    next
      case (snoc zs q)
      then obtain qe where qe: "st q = Some qe" using seg_in_store [OF e(2), of q] by auto
      let ?st = "st(q \<mapsto> put (get e) qe, y := None)"
      have qy: "q \<noteq> y" "q \<notin> set ys" using d snoc by auto
      have "seg get (st(q \<mapsto> put (get e) qe)) head (zs @ [q]) (get e)" using seg_last_update [of st head zs q "Some y" qe] e(2) snoc d(1) qe by simp
      then have "seg get ?st head xs (get e)" using snoc d(3) by (subst seg_cong [of _ _ _ "st(q \<mapsto> put (get e) qe)"]) auto
      moreover have "seg get ?st (get e) ys None" using e(3) d(4) qy by (subst seg_cong [of _ _ _ st]) auto
      ultimately have s: "seg get ?st head (xs @ ys) None" by (auto simp: seg_append)
      have "\<exists>h st'. remove_where get put match (Some q) (get e) head ?st (n + 1) = Some (h, st', n + 1 + length (filter m ys))
        \<and> seg get st' h (xs @ filter (\<lambda>y. \<not> m y) ys) None
        \<and> (\<forall>x. if x \<in> set ys \<and> m x then st' x = None else map_option g (st' x) = map_option g (?st x))"
        using Cons.prems(2,3,6) nx d(4) qy snoc by (intro Cons.IH [OF s]) auto
      moreover have "remove_where get put match prev entry head st n = remove_where get put match (Some q) (get e) head ?st (n + 1)"
        using e m True snoc qe Cons.prems(5) by (subst remove_where.simps) simp
      moreover have "map_option g (?st x) = (if x = y then None else map_option g (st x))" for x using qe Cons.prems(6) by simp
      ultimately show ?thesis using True d(4) by (auto split: if_splits)
    qed
  qed
qed

end

end
