(* ===== verification/Pmksa_Cache.thy ===== *)
theory Pmksa_Cache
  imports Ieee8021x Hex_Strings Linked_List
begin

unbundle bit_operations_syntax

text \<open>
  The cache of pairwise master keys of the access point, \<open>src/ap/pmksa_cache_auth.c\<close>: entries in one
  list ordered by expiration and in the lists of a hash table over their PMKID. Both lists run
  through the same objects, so the objects live in an explicit store from addresses to entries
  (\<open>Linked_List\<close>). An entry that is not linked yet is passed as a value with its address.

  Parameters: the addresses and the success of allocations, the clock, the key derivations
  \<open>rsn_pmkid\<close> of \<open>common/wpa_common.c\<close>. Timers and \<open>free_cb\<close> are outputs.
\<close>

section \<open>Data\<close>

definition PMKID_LEN :: nat where "PMKID_LEN = 16"
definition PMK_LEN_MAX :: nat where "PMK_LEN_MAX = 64"
definition PMKID_HASH_SIZE :: nat where "PMKID_HASH_SIZE = 128"
definition pmksa_cache_max_entries :: int where "pmksa_cache_max_entries = 1024"
definition dot11RSNAConfigPMKLifetime :: int where "dot11RSNAConfigPMKLifetime = 43200"

definition WPA_KEY_MGMT_SAE :: u32 where "WPA_KEY_MGMT_SAE = push_bit 10 1"
definition WPA_KEY_MGMT_FT_SAE :: u32 where "WPA_KEY_MGMT_FT_SAE = push_bit 11 1"
definition WPA_KEY_MGMT_IEEE8021X_SUITE_B :: u32 where "WPA_KEY_MGMT_IEEE8021X_SUITE_B = push_bit 16 1"
definition WPA_KEY_MGMT_IEEE8021X_SUITE_B_192 :: u32 where "WPA_KEY_MGMT_IEEE8021X_SUITE_B_192 = push_bit 17 1"
definition WPA_KEY_MGMT_FILS_SHA256 :: u32 where "WPA_KEY_MGMT_FILS_SHA256 = push_bit 18 1"
definition WPA_KEY_MGMT_FILS_SHA384 :: u32 where "WPA_KEY_MGMT_FILS_SHA384 = push_bit 19 1"
definition WPA_KEY_MGMT_FT_FILS_SHA256 :: u32 where "WPA_KEY_MGMT_FT_FILS_SHA256 = push_bit 20 1"
definition WPA_KEY_MGMT_FT_FILS_SHA384 :: u32 where "WPA_KEY_MGMT_FT_FILS_SHA384 = push_bit 21 1"

definition wpa_key_mgmt_sae :: "u32 \<Rightarrow> bool" where
  "wpa_key_mgmt_sae akm \<longleftrightarrow> akm AND (WPA_KEY_MGMT_SAE OR WPA_KEY_MGMT_FT_SAE) \<noteq> 0"

definition wpa_key_mgmt_fils :: "u32 \<Rightarrow> bool" where
  "wpa_key_mgmt_fils akm \<longleftrightarrow> akm AND (WPA_KEY_MGMT_FILS_SHA256 OR WPA_KEY_MGMT_FILS_SHA384
     OR WPA_KEY_MGMT_FT_FILS_SHA256 OR WPA_KEY_MGMT_FT_FILS_SHA384) \<noteq> 0"

definition wpa_key_mgmt_suite_b :: "u32 \<Rightarrow> bool" where
  "wpa_key_mgmt_suite_b akm \<longleftrightarrow> akm AND (WPA_KEY_MGMT_IEEE8021X_SUITE_B OR WPA_KEY_MGMT_IEEE8021X_SUITE_B_192) \<noteq> 0"

record rsn_pmksa_cache_entry =
  e_next :: "nat option"
  e_hnext :: "nat option"
  e_pmkid :: bytes
  e_pmk :: bytes
  e_expiration :: int
  e_akmp :: u32
  e_spa :: bytes
  e_opportunistic :: bool
  e_data :: pmksa_data

datatype cache_out = Free_Cb nat rsn_pmksa_cache_entry | Cancel_Expire | Register_Expire u32

record rsn_pmksa_cache =
  store :: "nat \<Rightarrow> rsn_pmksa_cache_entry option"
  pmkid_heads :: "nat option list"
  pmksa_head :: "nat option"
  pmksa_count :: int
  cache_outs :: "cache_out list"

definition PMKID_HASH :: "bytes \<Rightarrow> nat ub" where
  "PMKID_HASH pmkid = map_option (\<lambda>b. unat (b AND 0x7f)) (peek pmkid 0)"

definition cache_out :: "cache_out \<Rightarrow> rsn_pmksa_cache \<Rightarrow> rsn_pmksa_cache" where
  "cache_out e c = c\<lparr>cache_outs := e # cache_outs c\<rparr>"

section \<open>Operations\<close>

definition pmksa_cache_free_entry :: "nat \<Rightarrow> rsn_pmksa_cache \<Rightarrow> rsn_pmksa_cache ub" where
  "pmksa_cache_free_entry entry c = do {
     e \<leftarrow> store c entry;
     let c = cache_out (Free_Cb entry e) (c\<lparr>pmksa_count := pmksa_count c - 1\<rparr>);
     hash \<leftarrow> PMKID_HASH (e_pmkid e);
     (hd', st) \<leftarrow> unlink e_hnext (\<lambda>v e. e\<lparr>e_hnext := v\<rparr>) entry (pmkid_heads c ! hash) (store c);
     let c = c\<lparr>pmkid_heads := (pmkid_heads c)[hash := hd'], store := st\<rparr>;
     (hd', st) \<leftarrow> unlink e_next (\<lambda>v e. e\<lparr>e_next := v\<rparr>) entry (pmksa_head c) (store c);
     Some (c\<lparr>pmksa_head := hd', store := st(entry := None)\<rparr>) }"

partial_function (option) pmksa_cache_auth_flush :: "rsn_pmksa_cache \<Rightarrow> rsn_pmksa_cache ub" where
  "pmksa_cache_auth_flush c =
     (case pmksa_head c of
        None \<Rightarrow> Some c
      | Some p \<Rightarrow> Option.bind (pmksa_cache_free_entry p c) pmksa_cache_auth_flush)"

text \<open>
  \<open>sec\<close> is an \<open>int\<close>, to which the difference of the times is converted, and \<open>sec + 1\<close> is converted to
  \<open>unsigned int\<close>. The sum of INT_MAX and 1, which C leaves undefined, wraps around here.
\<close>

definition pmksa_cache_set_expiration :: "int \<Rightarrow> rsn_pmksa_cache \<Rightarrow> rsn_pmksa_cache ub" where
  "pmksa_cache_set_expiration now c =
     (let c = cache_out Cancel_Expire c in
      case pmksa_head c of
        None \<Rightarrow> Some c
      | Some p \<Rightarrow> do {
          e \<leftarrow> store c p;
          let sec = signed_take_bit 31 (e_expiration e - now);
          let sec = (if sec < 0 then 0 else sec);
          Some (cache_out (Register_Expire (word_of_int (sec + 1))) c) })"

partial_function (option) expire_loop :: "int \<Rightarrow> rsn_pmksa_cache \<Rightarrow> rsn_pmksa_cache ub" where
  "expire_loop now c =
     (case pmksa_head c of
        None \<Rightarrow> Some c
      | Some p \<Rightarrow> (case store c p of
          None \<Rightarrow> None
        | Some e \<Rightarrow> if e_expiration e \<le> now then Option.bind (pmksa_cache_free_entry p c) (expire_loop now) else Some c))"

declare pmksa_cache_auth_flush.simps [code] expire_loop.simps [code]

definition pmksa_cache_expire :: "int \<Rightarrow> rsn_pmksa_cache \<Rightarrow> rsn_pmksa_cache ub" where
  "pmksa_cache_expire now c = do { c \<leftarrow> expire_loop now c; pmksa_cache_set_expiration now c }"

definition pmksa_data_zero :: pmksa_data where
  "pmksa_data_zero = \<lparr>pmksa_identity = None, pmksa_cui = None, pmksa_class = None, pmksa_eap_type_authsrv = 0,
     pmksa_vlan_desc = None, pmksa_acct_multi_session_id = 0\<rparr>"

definition sizeof_vlan_description :: nat where "sizeof_vlan_description = 136"

definition pmksa_cache_from_eapol_data ::
  "(nat \<Rightarrow> bool) \<Rightarrow> vlan_desc \<Rightarrow> 'p eapol_state_machine option \<Rightarrow> pmksa_data \<Rightarrow> pmksa_data" where
  "pmksa_cache_from_eapol_data malloc vlan eapol d =
     (case eapol of
        None \<Rightarrow> d
      | Some sm \<Rightarrow>
        let d = (case eapol_identity sm of
                   None \<Rightarrow> d
                 | Some i \<Rightarrow> d\<lparr>pmksa_identity := (if malloc (length i) then Some i else None)\<rparr>);
            d = (case radius_cui sm of None \<Rightarrow> d | Some c \<Rightarrow> d\<lparr>pmksa_cui := alloc_copy malloc c\<rparr>);
            d = d\<lparr>pmksa_class := snd (radius_copy_class malloc (pmksa_class d) (radius_class sm))\<rparr>;
            d = d\<lparr>pmksa_eap_type_authsrv := eap_type_authsrv sm\<rparr>;
            d = d\<lparr>pmksa_vlan_desc := (if vlan \<noteq> None \<and> malloc sizeof_vlan_description then vlan else None)\<rparr> in
        d\<lparr>pmksa_acct_multi_session_id := acct_multi_session_id sm\<rparr>)"

text \<open>The entry enters the list behind \<open>prev\<close>.\<close>

definition link_behind :: "nat option \<Rightarrow> nat \<Rightarrow> rsn_pmksa_cache_entry \<Rightarrow> rsn_pmksa_cache \<Rightarrow> rsn_pmksa_cache ub" where
  "link_behind prev a entry c =
     (case prev of
        None \<Rightarrow> Some (c\<lparr>store := (store c)(a \<mapsto> entry\<lparr>e_next := pmksa_head c\<rparr>), pmksa_head := Some a\<rparr>)
      | Some p \<Rightarrow> do {
          pe \<leftarrow> store c p;
          Some (c\<lparr>store := (store c)(a \<mapsto> entry\<lparr>e_next := e_next pe\<rparr>, p \<mapsto> pe\<lparr>e_next := Some a\<rparr>)\<rparr>) })"

definition pmksa_cache_link_entry :: "int \<Rightarrow> nat \<Rightarrow> rsn_pmksa_cache_entry \<Rightarrow> rsn_pmksa_cache \<Rightarrow> rsn_pmksa_cache ub" where
  "pmksa_cache_link_entry now a entry c = do {
     prev \<leftarrow> find_place (\<lambda>e. e_expiration e > e_expiration entry) e_next (store c) None (pmksa_head c);
     c \<leftarrow> link_behind prev a entry c;
     hash \<leftarrow> PMKID_HASH (e_pmkid entry);
     e \<leftarrow> store c a;
     let c = c\<lparr>store := (store c)(a \<mapsto> e\<lparr>e_hnext := pmkid_heads c ! hash\<rparr>), pmkid_heads := (pmkid_heads c)[hash := Some a],
               pmksa_count := pmksa_count c + 1\<rparr>;
     if prev = None then pmksa_cache_set_expiration now c else Some c }"

definition spa_matches :: "bytes option \<Rightarrow> rsn_pmksa_cache_entry \<Rightarrow> bool ub" where
  "spa_matches spa e = (case spa of None \<Rightarrow> Some True | Some s \<Rightarrow> mem_equal (e_spa e) s ETH_ALEN)"

definition pmksa_cache_auth_get :: "rsn_pmksa_cache \<Rightarrow> bytes option \<Rightarrow> bytes option \<Rightarrow> nat option ub" where
  "pmksa_cache_auth_get c spa pmkid =
     (case pmkid of
        Some i \<Rightarrow> do {
          hash \<leftarrow> PMKID_HASH i;
          get_walk e_hnext (\<lambda>e. do { b \<leftarrow> spa_matches spa e; if b then mem_equal (e_pmkid e) i PMKID_LEN else Some False })
            (store c) (pmkid_heads c ! hash) }
      | None \<Rightarrow> get_walk e_next (spa_matches spa) (store c) (pmksa_head c))"

text \<open>\<open>rsn_pmkid pmk aa spa akmp\<close> is the PMKID of a key.\<close>

definition pmksa_cache_get_okc ::
  "(bytes \<Rightarrow> bytes \<Rightarrow> bytes \<Rightarrow> u32 \<Rightarrow> bytes) \<Rightarrow> rsn_pmksa_cache \<Rightarrow> bytes \<Rightarrow> bytes \<Rightarrow> bytes \<Rightarrow> nat option ub" where
  "pmksa_cache_get_okc rsn_pmkid c aa spa pmkid =
     get_walk e_next (\<lambda>e. do {
       b \<leftarrow> mem_equal (e_spa e) spa ETH_ALEN;
       if \<not> b then Some False
       else if wpa_key_mgmt_sae (e_akmp e) \<or> wpa_key_mgmt_fils (e_akmp e) then mem_equal (e_pmkid e) pmkid PMKID_LEN
       else mem_equal (rsn_pmkid (e_pmk e) aa spa (e_akmp e)) pmkid PMKID_LEN }) (store c) (pmksa_head c)"

definition pmksa_cache_auth_add_entry :: "int \<Rightarrow> (nat \<times> rsn_pmksa_cache_entry) option \<Rightarrow> rsn_pmksa_cache \<Rightarrow> (int \<times> rsn_pmksa_cache) ub" where
  "pmksa_cache_auth_add_entry now entry c =
     (case entry of
        None \<Rightarrow> Some (-1, c)
      | Some (a, e) \<Rightarrow> do {
          pos \<leftarrow> pmksa_cache_auth_get c (Some (e_spa e)) None;
          c \<leftarrow> (case pos of Some p \<Rightarrow> pmksa_cache_free_entry p c | None \<Rightarrow> Some c);
          c \<leftarrow> (case pmksa_head c of
                  Some p \<Rightarrow> if pmksa_count c \<ge> pmksa_cache_max_entries then pmksa_cache_free_entry p c else Some c
                | None \<Rightarrow> Some c);
          c \<leftarrow> pmksa_cache_link_entry now a e c;
          Some (0, c) })"

record pmkid_fns =
  rsn_pmkid :: "bytes \<Rightarrow> bytes \<Rightarrow> bytes \<Rightarrow> u32 \<Rightarrow> bytes"
  rsn_pmkid_suite_b :: "bytes \<Rightarrow> bytes \<Rightarrow> bytes \<Rightarrow> bytes"
  rsn_pmkid_suite_b_192 :: "bytes \<Rightarrow> bytes \<Rightarrow> bytes \<Rightarrow> bytes"

text \<open>\<open>new\<close> is the address \<open>os_zalloc\<close> gives to the entry.\<close>

definition pmksa_cache_auth_create_entry ::
  "pmkid_fns \<Rightarrow> (nat \<Rightarrow> bool) \<Rightarrow> nat option \<Rightarrow> int \<Rightarrow> vlan_desc \<Rightarrow> bytes \<Rightarrow> bytes option \<Rightarrow> bytes option \<Rightarrow> bytes \<Rightarrow> bytes \<Rightarrow> int
     \<Rightarrow> 'p eapol_state_machine option \<Rightarrow> u32 \<Rightarrow> (nat \<times> rsn_pmksa_cache_entry) option" where
  "pmksa_cache_auth_create_entry fns malloc new now vlan pmk pmkid kck aa spa session_timeout eapol akmp =
     (if length pmk > PMK_LEN_MAX then None
      else if wpa_key_mgmt_suite_b akmp \<and> kck = None then None
      else case new of
        None \<Rightarrow> None
      | Some a \<Rightarrow>
        let k = (case kck of Some k \<Rightarrow> k | None \<Rightarrow> []);
            i = (case pmkid of
                   Some i \<Rightarrow> take PMKID_LEN i
                 | None \<Rightarrow> if akmp = WPA_KEY_MGMT_IEEE8021X_SUITE_B_192 then rsn_pmkid_suite_b_192 fns k aa spa
                           else if wpa_key_mgmt_suite_b akmp then rsn_pmkid_suite_b fns k aa spa
                           else rsn_pmkid fns pmk aa spa akmp) in
        Some (a, \<lparr>e_next = None, e_hnext = None, e_pmkid = i, e_pmk = pmk,
                  e_expiration = now + (if session_timeout > 0 then session_timeout else dot11RSNAConfigPMKLifetime),
                  e_akmp = akmp, e_spa = take ETH_ALEN spa, e_opportunistic = False,
                  e_data = pmksa_cache_from_eapol_data malloc vlan eapol pmksa_data_zero\<rparr>))"

definition pmksa_cache_auth_add ::
  "pmkid_fns \<Rightarrow> (nat \<Rightarrow> bool) \<Rightarrow> nat option \<Rightarrow> int \<Rightarrow> vlan_desc \<Rightarrow> bytes \<Rightarrow> bytes option \<Rightarrow> bytes option \<Rightarrow> bytes \<Rightarrow> bytes \<Rightarrow> int
     \<Rightarrow> 'p eapol_state_machine option \<Rightarrow> u32 \<Rightarrow> rsn_pmksa_cache \<Rightarrow> (nat option \<times> rsn_pmksa_cache) ub" where
  "pmksa_cache_auth_add fns malloc new now vlan pmk pmkid kck aa spa session_timeout eapol akmp c =
     (let entry = pmksa_cache_auth_create_entry fns malloc new now vlan pmk pmkid kck aa spa session_timeout eapol akmp in
      do {
        (r, c) \<leftarrow> pmksa_cache_auth_add_entry now entry c;
        Some (if r < 0 then None else map_option fst entry, c) })"

definition pmksa_cache_add_okc ::
  "(nat \<Rightarrow> bool) \<Rightarrow> nat option \<Rightarrow> int \<Rightarrow> rsn_pmksa_cache_entry \<Rightarrow> bytes \<Rightarrow> rsn_pmksa_cache \<Rightarrow> (nat option \<times> rsn_pmksa_cache) ub" where
  "pmksa_cache_add_okc malloc new now old pmkid c =
     (case new of
        None \<Rightarrow> Some (None, c)
      | Some a \<Rightarrow>
        let d = e_data old;
            n = pmksa_data_zero\<lparr>
              pmksa_identity := (case pmksa_identity d of None \<Rightarrow> None | Some i \<Rightarrow> if malloc (length i) then Some i else None),
              pmksa_cui := (case pmksa_cui d of None \<Rightarrow> None | Some u \<Rightarrow> alloc_copy malloc u),
              pmksa_class := snd (radius_copy_class malloc None (pmksa_class d)),
              pmksa_eap_type_authsrv := pmksa_eap_type_authsrv d,
              pmksa_vlan_desc := (if pmksa_vlan_desc d \<noteq> None \<and> malloc sizeof_vlan_description then pmksa_vlan_desc d else None)\<rparr>;
            e = \<lparr>e_next = None, e_hnext = None, e_pmkid = take PMKID_LEN pmkid, e_pmk = e_pmk old, e_expiration = e_expiration old,
                 e_akmp = e_akmp old, e_spa = e_spa old, e_opportunistic = True, e_data = n\<rparr> in
        do {
          c \<leftarrow> pmksa_cache_link_entry now a e c;
          Some (Some a, c) })"

definition pmksa_cache_auth_init :: "bool \<Rightarrow> rsn_pmksa_cache option" where
  "pmksa_cache_auth_init ok =
     (if ok then Some \<lparr>store = (\<lambda>_. None), pmkid_heads = replicate PMKID_HASH_SIZE None, pmksa_head = None,
                       pmksa_count = 0, cache_outs = []\<rparr> else None)"

text \<open>What is left allocated, and the timeouts; the cache itself is released too.\<close>

definition pmksa_cache_auth_deinit :: "rsn_pmksa_cache option \<Rightarrow> ((nat \<Rightarrow> rsn_pmksa_cache_entry option) \<times> cache_out list) ub" where
  "pmksa_cache_auth_deinit pmksa =
     (case pmksa of
        None \<Rightarrow> Some (\<lambda>_. None, [])
      | Some c \<Rightarrow> do {
          st \<leftarrow> deinit_loop e_next (pmksa_head c) (store c);
          Some (st, Cancel_Expire # cache_outs c) })"

section \<open>Dynamic authorization\<close>

record radius_das_attrs =
  das_sta_addr :: "bytes option"
  das_user_name :: "bytes option"
  das_acct_session_id :: "bytes option"
  das_acct_multi_session_id :: "bytes option"
  das_cui :: "bytes option"

text \<open>The text of \<open>"%016llX"\<close>.\<close>

definition fmt_016llX :: "u64 \<Rightarrow> bytes" where
  "fmt_016llX v = concat (map (fmt_02x True) (WPA_PUT_BE64 v))"

text \<open>One criterion: no attribute, a match or a mismatch.\<close>

definition das_criterion :: "bytes option \<Rightarrow> (bytes \<Rightarrow> bool ub) \<Rightarrow> (nat \<Rightarrow> nat ub) \<Rightarrow> nat \<Rightarrow> nat ub" where
  "das_criterion attr test rest match =
     (case attr of
        None \<Rightarrow> rest match
      | Some v \<Rightarrow> do { b \<leftarrow> test v; if b then rest (match + 1) else Some 0 })"

definition das_attr_match :: "rsn_pmksa_cache_entry \<Rightarrow> radius_das_attrs \<Rightarrow> nat ub" where
  "das_attr_match e attr =
     das_criterion (das_sta_addr attr) (\<lambda>v. mem_equal v (e_spa e) ETH_ALEN) (
     das_criterion (das_acct_multi_session_id attr)
       (\<lambda>v. if length v \<noteq> 16 then Some False else mem_equal v (fmt_016llX (pmksa_acct_multi_session_id (e_data e))) 16) (
     das_criterion (das_cui attr)
       (\<lambda>v. case pmksa_cui (e_data e) of None \<Rightarrow> Some False | Some u \<Rightarrow> if length v \<noteq> length u then Some False else mem_equal v u (length v)) (
     das_criterion (das_user_name attr)
       (\<lambda>v. case pmksa_identity (e_data e) of None \<Rightarrow> Some False | Some u \<Rightarrow> if length v \<noteq> length u then Some False else mem_equal v u (length v))
       Some))) 0"

partial_function (option) das_loop ::
  "radius_das_attrs \<Rightarrow> nat option \<Rightarrow> nat \<Rightarrow> rsn_pmksa_cache \<Rightarrow> (nat \<times> rsn_pmksa_cache) ub" where
  "das_loop attr entry found c =
     (case entry of
        None \<Rightarrow> Some (found, c)
      | Some p \<Rightarrow> (case store c p of
          None \<Rightarrow> None
        | Some e \<Rightarrow> Option.bind (das_attr_match e attr) (\<lambda>n.
            if n \<noteq> 0 then Option.bind (pmksa_cache_free_entry p c) (das_loop attr (e_next e) (found + 1))
            else das_loop attr (e_next e) found c)))"

declare das_loop.simps [code]

definition pmksa_cache_auth_radius_das_disconnect :: "radius_das_attrs \<Rightarrow> rsn_pmksa_cache \<Rightarrow> (int \<times> rsn_pmksa_cache) ub" where
  "pmksa_cache_auth_radius_das_disconnect attr c =
     (if das_acct_session_id attr \<noteq> None then Some (-1, c)
      else do { (found, c) \<leftarrow> das_loop attr (pmksa_head c) 0 c; Some (if found \<noteq> 0 then 0 else -1, c) })"

end
