(* ===== verification/Pmksa_Inv.thy ===== *)
theory Pmksa_Inv
  imports Pmksa_Cache
begin

unbundle bit_operations_syntax

text \<open>
  The PMKSA cache refines a list of entries ordered by expiration: \<open>cache_rep\<close> relates the store with
  its two kinds of linked lists to that list, and every operation of the cache is shown to return and
  to act on the list as its abstract counterpart.
\<close>

interpretation nx: link_field e_next "\<lambda>v e. e\<lparr>e_next := v\<rparr>"
  by unfold_locales simp

interpretation hx: link_field e_hnext "\<lambda>v e. e\<lparr>e_hnext := v\<rparr>"
  by unfold_locales simp

section \<open>The abstraction\<close>

text \<open>An entry without its links, and the index of its hash list.\<close>

definition payload :: "rsn_pmksa_cache_entry \<Rightarrow> rsn_pmksa_cache_entry" where
  "payload e = e\<lparr>e_next := None, e_hnext := None\<rparr>"

definition bucket :: "rsn_pmksa_cache_entry \<Rightarrow> nat" where
  "bucket e = unat (hd (e_pmkid e) AND 0x7f)"

definition entry_ok :: "rsn_pmksa_cache_entry \<Rightarrow> bool" where
  "entry_ok e \<longleftrightarrow> length (e_pmkid e) = PMKID_LEN \<and> length (e_spa e) = ETH_ALEN"

lemma payload_simps [simp]:
  "payload (e\<lparr>e_next := v\<rparr>) = payload e" "payload (e\<lparr>e_hnext := v\<rparr>) = payload e" "payload (payload e) = payload e"
  "e_pmkid (payload e) = e_pmkid e" "e_spa (payload e) = e_spa e" "e_expiration (payload e) = e_expiration e"
  "e_pmk (payload e) = e_pmk e" "e_akmp (payload e) = e_akmp e" "e_data (payload e) = e_data e"
  "bucket (payload e) = bucket e" "entry_ok (payload e) = entry_ok e"
  by (simp_all add: payload_def bucket_def entry_ok_def)

lemma payload_fields:
  assumes "payload e' = e"
  shows "e_pmkid e' = e_pmkid e" "e_spa e' = e_spa e" "e_expiration e' = e_expiration e" "e_pmk e' = e_pmk e"
    "e_akmp e' = e_akmp e" "e_data e' = e_data e" "bucket e' = bucket e"
  unfolding assms [symmetric] by simp_all

lemma bucket_links [simp]:
  "bucket (e\<lparr>e_next := v\<rparr>) = bucket e" "bucket (e\<lparr>e_hnext := v\<rparr>) = bucket e"
  by (simp_all add: bucket_def)

lemma and_7f_lt: "unat (x AND 0x7f :: u8) < 128"
proof -
  have "x AND 0x7f = take_bit 7 x" by (simp add: take_bit_eq_mask mask_eq_exp_minus_1)
  then have "unat (x AND 0x7f) = take_bit 7 (unat x)" by (simp add: unsigned_take_bit_eq)
  then show ?thesis by (simp add: take_bit_eq_mod)
qed

lemma bucket_lt [simp]: "bucket e < PMKID_HASH_SIZE"
  using and_7f_lt by (simp add: bucket_def PMKID_HASH_SIZE_def)

lemma PMKID_HASH_bucket: "length (e_pmkid e) = PMKID_LEN \<Longrightarrow> PMKID_HASH (e_pmkid e) = Some (bucket e)"
  by (cases "e_pmkid e") (auto simp: PMKID_HASH_def bucket_def PMKID_LEN_def peek_def)

text \<open>The hash table: the lists of the buckets, with their members.\<close>

definition buckets_ok :: "(nat \<Rightarrow> rsn_pmksa_cache_entry option) \<Rightarrow> nat option list \<Rightarrow> (nat \<Rightarrow> nat set) \<Rightarrow> bool" where
  "buckets_ok st heads K \<longleftrightarrow> length heads = PMKID_HASH_SIZE \<and>
     (\<forall>h < PMKID_HASH_SIZE. \<exists>B. distinct B \<and> seg e_hnext st (heads ! h) B None \<and> set B = K h)"

lemma buckets_cong:
  assumes "buckets_ok st heads K" "\<And>h x. h < PMKID_HASH_SIZE \<Longrightarrow> x \<in> K h \<Longrightarrow> map_option e_hnext (st' x) = map_option e_hnext (st x)"
  shows "buckets_ok st' heads K"
  unfolding buckets_ok_def
proof (intro conjI allI impI)
  show "length heads = PMKID_HASH_SIZE" using assms(1) by (simp add: buckets_ok_def)
  fix h assume h: "h < PMKID_HASH_SIZE"
  then obtain B where B: "distinct B" "seg e_hnext st (heads ! h) B None" "set B = K h"
    using assms(1) by (auto simp: buckets_ok_def)
  then have "seg e_hnext st' (heads ! h) B None" using assms(2) [OF h] by (subst seg_cong [of B _ _ st]) auto
  then show "\<exists>B. distinct B \<and> seg e_hnext st' (heads ! h) B None \<and> set B = K h" using B by blast
qed

lemma buckets_unlink:
  assumes "buckets_ok st heads K" "h < PMKID_HASH_SIZE" "a \<in> K h" "\<And>i j. i \<noteq> j \<Longrightarrow> K i \<inter> K j = {}"
  shows "\<exists>hd' st'. unlink e_hnext (\<lambda>v e. e\<lparr>e_hnext := v\<rparr>) a (heads ! h) st = Some (hd', st')
    \<and> buckets_ok st' (heads[h := hd']) (\<lambda>i. K i - {a})
    \<and> (\<forall>x. map_option e_next (st' x) = map_option e_next (st x) \<and> map_option payload (st' x) = map_option payload (st x))"
proof -
  obtain B where B: "distinct B" "seg e_hnext st (heads ! h) B None" "set B = K h"
    using assms(1,2) by (auto simp: buckets_ok_def)
  then obtain xs ys where xy: "B = xs @ a # ys" using assms(3) split_list by metis
  obtain hd' st' where u: "unlink e_hnext (\<lambda>v e. e\<lparr>e_hnext := v\<rparr>) a (heads ! h) st = Some (hd', st')"
      "seg e_hnext st' hd' (xs @ ys) None"
      "st' = st \<or> (\<exists>p pe v. p \<in> set xs \<and> st p = Some pe \<and> st' = st(p \<mapsto> pe\<lparr>e_hnext := v\<rparr>))"
    using hx.unlink_ok [of st "heads ! h" xs a ys] B xy by blast
  have same: "map_option e_next (st' x) = map_option e_next (st x) \<and> map_option payload (st' x) = map_option payload (st x)" for x
    using u(3) by auto
  have "set xs \<subseteq> K h" using B(3) xy by auto
  then have out: "st' x = st x" if "x \<notin> K h" for x using u(3) that by (metis fun_upd_other subsetD)
  have len: "length heads = PMKID_HASH_SIZE" using assms(1) by (simp add: buckets_ok_def)
  have "\<exists>C. distinct C \<and> seg e_hnext st' (heads[h := hd'] ! i) C None \<and> set C = K i - {a}" if i: "i < PMKID_HASH_SIZE" for i
  proof (cases "i = h")
    case True
    have "distinct (xs @ ys)" "set (xs @ ys) = K h - {a}" using B xy by auto
    moreover have "heads[h := hd'] ! i = hd'" using True len assms(2) by simp
    ultimately show ?thesis using True u(2) by (intro exI [of _ "xs @ ys"]) simp
  next
    case False
    obtain C where C: "distinct C" "seg e_hnext st (heads ! i) C None" "set C = K i" using assms(1) i by (auto simp: buckets_ok_def)
    have d: "K i \<inter> K h = {}" using assms(4) False by simp
    then have "st' x = st x" if "x \<in> set C" for x using out [of x] that C(3) by blast
    then have "seg e_hnext st' (heads ! i) C None" using C(2) by (subst seg_cong [of C _ _ st]) auto
    moreover have "K i - {a} = K i" using d assms(3) by auto
    ultimately show ?thesis using False C by auto
  qed
  then have "buckets_ok st' (heads[h := hd']) (\<lambda>i. K i - {a})" using len by (simp add: buckets_ok_def)
  then show ?thesis using u(1) same by blast
qed

lemma buckets_insert:
  assumes "buckets_ok st heads K" "h < PMKID_HASH_SIZE" "\<And>i. a \<notin> K i"
  shows "buckets_ok (st(a \<mapsto> e\<lparr>e_hnext := heads ! h\<rparr>)) (heads[h := Some a]) (K(h := insert a (K h)))"
proof -
  let ?st = "st(a \<mapsto> e\<lparr>e_hnext := heads ! h\<rparr>)"
  have k: "buckets_ok ?st heads K" using assms(1,3) by (elim buckets_cong) auto
  then obtain B where B: "distinct B" "seg e_hnext ?st (heads ! h) B None" "set B = K h"
    using assms(2) unfolding buckets_ok_def by blast
  have "seg e_hnext ?st (Some a) (a # B) None" "distinct (a # B)" "set (a # B) = insert a (K h)" using B assms(3) [of h] by auto
  then have "\<exists>B. distinct B \<and> seg e_hnext ?st (Some a) B None \<and> set B = insert a (K h)" by blast
  then show ?thesis using k assms(2) unfolding buckets_ok_def by (simp add: nth_list_update del: seg.simps)
qed

text \<open>
  \<open>cache_rep c L\<close>: the cache \<open>c\<close> holds the entries \<open>L\<close>, in the order of the list, with their addresses
  and nothing else is allocated.
\<close>

type_synonym entries = "(nat \<times> rsn_pmksa_cache_entry) list"

definition members :: "entries \<Rightarrow> nat \<Rightarrow> nat set" where
  "members L h = fst ` {x \<in> set L. bucket (snd x) = h}"

definition cache_rep :: "rsn_pmksa_cache \<Rightarrow> entries \<Rightarrow> bool" where
  "cache_rep c L \<longleftrightarrow>
     distinct (map fst L) \<and> seg e_next (store c) (pmksa_head c) (map fst L) None
     \<and> (\<forall>a. map_option payload (store c a) = map_of L a)
     \<and> buckets_ok (store c) (pmkid_heads c) (members L)
     \<and> sorted (map (e_expiration \<circ> snd) L) \<and> pmksa_count c = int (length L) \<and> (\<forall>x \<in> set L. entry_ok (snd x))"

lemma members_disjoint: "distinct (map fst L) \<Longrightarrow> i \<noteq> j \<Longrightarrow> members L i \<inter> members L j = {}"
  by (auto simp: members_def) (metis eq_key_imp_eq_value)

lemma cache_rep_lookup: "cache_rep c L \<Longrightarrow> (a, e) \<in> set L \<Longrightarrow> \<exists>e'. store c a = Some e' \<and> payload e' = e"
proof -
  assume r: "cache_rep c L" "(a, e) \<in> set L"
  then have "map_of L a = Some e" by (simp add: cache_rep_def)
  then show ?thesis using r(1) unfolding cache_rep_def by (metis map_option_eq_Some)
qed

lemma cache_rep_entry: "cache_rep c L \<Longrightarrow> store c a = Some e \<Longrightarrow> (a, payload e) \<in> set L"
proof -
  assume r: "cache_rep c L" "store c a = Some e"
  then have "map_of L a = Some (payload e)" unfolding cache_rep_def by (metis option.simps(9))
  then show ?thesis by (rule map_of_SomeD)
qed

text \<open>The abstract operations.\<close>

definition abs_free :: "nat \<Rightarrow> entries \<Rightarrow> entries" where
  "abs_free a L = filter (\<lambda>x. fst x \<noteq> a) L"

definition abs_link :: "nat \<Rightarrow> rsn_pmksa_cache_entry \<Rightarrow> entries \<Rightarrow> entries" where
  "abs_link a e L = takeWhile (\<lambda>x. e_expiration (snd x) \<le> e_expiration e) L @ (a, payload e)
     # dropWhile (\<lambda>x. e_expiration (snd x) \<le> e_expiration e) L"

lemma abs_free_split: "distinct (map fst (L1 @ (a, e) # L2)) \<Longrightarrow> abs_free a (L1 @ (a, e) # L2) = L1 @ L2"
proof -
  assume d: "distinct (map fst (L1 @ (a, e) # L2))"
  have "filter (\<lambda>x. fst x \<noteq> a) L1 = L1" "filter (\<lambda>x. fst x \<noteq> a) L2 = L2" using d by (force intro: filter_True)+
  then show ?thesis by (simp add: abs_free_def)
qed

lemma members_free: "members (abs_free a L) i = members L i - {a}"
  by (auto simp: members_def abs_free_def)

lemma map_of_abs_free: "map_of (abs_free a L) x = (if x = a then None else map_of L x)"
  by (induction L) (auto simp: abs_free_def)

lemma sorted_abs_free: "sorted (map (e_expiration \<circ> snd) L) \<Longrightarrow> sorted (map (e_expiration \<circ> snd) (abs_free a L))"
  by (simp add: abs_free_def sorted_filter)

text \<open>Freeing an entry removes it from both lists and from the store.\<close>

lemma free_ok:
  assumes rep: "cache_rep c L" and mem: "(a, e) \<in> set L"
  shows "\<exists>c' e'. pmksa_cache_free_entry a c = Some c' \<and> cache_rep c' (abs_free a L)
    \<and> payload e' = e \<and> cache_outs c' = Free_Cb a e' # cache_outs c"
proof -
  have d: "distinct (map fst L)" using rep by (simp add: cache_rep_def)
  obtain e' where e': "store c a = Some e'" "payload e' = e" using cache_rep_lookup [OF rep mem] by auto
  have be: "bucket e = bucket e'" using e' by auto
  have "a \<in> members L (bucket e')" using mem be by (force simp: members_def)
  then obtain h1 st1 where u1: "unlink e_hnext (\<lambda>v e. e\<lparr>e_hnext := v\<rparr>) a (pmkid_heads c ! bucket e') (store c) = Some (h1, st1)"
      "buckets_ok st1 ((pmkid_heads c)[bucket e' := h1]) (\<lambda>i. members L i - {a})"
      "\<forall>x. map_option e_next (st1 x) = map_option e_next (store c x) \<and> map_option payload (st1 x) = map_option payload (store c x)"
    using buckets_unlink [of "store c" "pmkid_heads c" "members L" "bucket e'" a] rep members_disjoint [OF d]
    by (auto simp: cache_rep_def)
  obtain L1 L2 where L: "L = L1 @ (a, e) # L2" using mem split_list by metis
  have fr: "abs_free a L = L1 @ L2" using abs_free_split d L by simp
  have "seg e_next st1 (pmksa_head c) (map fst L) None"
    using rep u1(3) by (subst seg_cong [of _ _ _ "store c"]) (auto simp: cache_rep_def)
  then obtain h2 st2 where u2: "unlink e_next (\<lambda>v e. e\<lparr>e_next := v\<rparr>) a (pmksa_head c) st1 = Some (h2, st2)"
      "seg e_next st2 h2 (map fst (L1 @ L2)) None"
      "st2 = st1 \<or> (\<exists>p pe v. p \<in> set (map fst L1) \<and> st1 p = Some pe \<and> st2 = st1(p \<mapsto> pe\<lparr>e_next := v\<rparr>))"
    using nx.unlink_ok [of st1 "pmksa_head c" "map fst L1" a "map fst L2"] d L
    by (simp only: map_append list.map fst_conv) blast
  have "map_option payload (st2 x) = map_option payload (st1 x)" "map_option e_hnext (st2 x) = map_option e_hnext (st1 x)" for x
    using u2(3) by auto
  then have p2: "map_option payload (st2 x) = map_option payload (store c x)" "map_option e_hnext (st2 x) = map_option e_hnext (st1 x)" for x
    using u1(3) by simp_all
  have pl: "map_option payload (store c x) = map_of L x" for x using rep by (simp add: cache_rep_def)
  define c' where "c' = c\<lparr>store := st2(a := None), pmkid_heads := (pmkid_heads c)[bucket e' := h1], pmksa_head := h2,
     pmksa_count := pmksa_count c - 1, cache_outs := Free_Cb a e' # cache_outs c\<rparr>"
  have ok: "entry_ok e" "\<forall>x \<in> set L. entry_ok (snd x)" "pmksa_count c = int (length L)" "sorted (map (e_expiration \<circ> snd) L)"
    using rep mem by (auto simp: cache_rep_def)
  then have "length (e_pmkid e') = PMKID_LEN" using e' by (auto simp: entry_ok_def)
  then have run: "pmksa_cache_free_entry a c = Some c'"
    using e'(1) u1(1) u2(1) by (simp add: pmksa_cache_free_entry_def PMKID_HASH_bucket cache_out_def c'_def)
  have "buckets_ok (st2(a := None)) ((pmkid_heads c)[bucket e' := h1]) (\<lambda>i. members L i - {a})"
    using u1(2) by (rule buckets_cong) (use p2 in auto)
  moreover have "seg e_next (st2(a := None)) h2 (map fst (abs_free a L)) None"
    unfolding fr using u2(2) d L by (subst seg_cong [of _ _ _ st2]) auto
  moreover have "\<forall>x. map_option payload ((st2(a := None)) x) = map_of (abs_free a L) x"
    using p2(1) pl by (simp add: map_of_abs_free)
  moreover have "members (abs_free a L) = (\<lambda>i. members L i - {a})" by (simp add: members_free fun_eq_iff)
  moreover have "distinct (map fst (abs_free a L))" using d by (simp add: abs_free_def distinct_map_filter)
  moreover have "pmksa_count c - 1 = int (length (abs_free a L))" using ok L fr by simp
  moreover have "\<forall>x \<in> set (abs_free a L). entry_ok (snd x)" using ok by (simp add: abs_free_def)
  ultimately have "cache_rep c' (abs_free a L)" using sorted_abs_free [OF ok(4), of a] unfolding cache_rep_def c'_def by simp
  then show ?thesis using run e' by (auto simp: c'_def)
qed

text \<open>A new entry goes behind the entries that do not expire later.\<close>

definition earlier :: "rsn_pmksa_cache_entry \<Rightarrow> nat \<times> rsn_pmksa_cache_entry \<Rightarrow> bool" where
  "earlier e x \<longleftrightarrow> e_expiration (snd x) \<le> e_expiration e"

lemma abs_link_eq: "abs_link a e L = takeWhile (earlier e) L @ (a, payload e) # dropWhile (earlier e) L"
  by (simp add: abs_link_def earlier_def [abs_def])

lemma abs_link_simps [simp]:
  "length (abs_link a e L) = Suc (length L)" "set (abs_link a e L) = insert (a, payload e) (set L)"
  "distinct (map fst (abs_link a e L)) \<longleftrightarrow> a \<notin> fst ` set L \<and> distinct (map fst L)"
proof -
  have L: "takeWhile (earlier e) L @ dropWhile (earlier e) L = L" by simp
  show "length (abs_link a e L) = Suc (length L)" by (metis L abs_link_eq add_Suc_right length_Cons length_append)
  show "set (abs_link a e L) = insert (a, payload e) (set L)"
    by (metis L Un_insert_right abs_link_eq list.simps(15) set_append)
  have "distinct (map fst (T @ (a, payload e) # D)) \<longleftrightarrow> a \<notin> fst ` set (T @ D) \<and> distinct (map fst (T @ D))" for T D by auto
  then show "distinct (map fst (abs_link a e L)) \<longleftrightarrow> a \<notin> fst ` set L \<and> distinct (map fst L)" by (metis L abs_link_eq)
qed

lemma map_of_insert: "a \<notin> fst ` set (T @ D) \<Longrightarrow> map_of (T @ (a, e) # D) x = (if x = a then Some e else map_of (T @ D) x)"
  by (induction T) auto

lemma map_of_abs_link: "a \<notin> fst ` set L \<Longrightarrow> map_of (abs_link a e L) x = (if x = a then Some (payload e) else map_of L x)"
  unfolding abs_link_eq by (subst map_of_insert) simp_all

lemma sorted_insert:
  fixes f :: "'a \<Rightarrow> 'b :: linorder"
  shows "sorted (map f (T @ D)) \<Longrightarrow> (\<And>x. x \<in> set T \<Longrightarrow> f x \<le> f v) \<Longrightarrow> (\<And>x. x \<in> set D \<Longrightarrow> f v \<le> f x) \<Longrightarrow> sorted (map f (T @ v # D))"
  by (auto simp: sorted_append)

lemma sorted_abs_link:
  assumes "sorted (map (e_expiration \<circ> snd) L)"
  shows "sorted (map (e_expiration \<circ> snd) (abs_link a e L))"
proof -
  let ?T = "takeWhile (earlier e) L" and ?D = "dropWhile (earlier e) L"
  have s: "sorted (map (e_expiration \<circ> snd) (?T @ ?D))" using assms by (simp only: takeWhile_dropWhile_id)
  have t: "e_expiration (snd x) \<le> e_expiration e" if "x \<in> set ?T" for x using set_takeWhileD [OF that] by (simp add: earlier_def)
  have "e_expiration e \<le> e_expiration (snd x)" if "x \<in> set ?D" for x
  proof -
    have "?D \<noteq> []" using that by force
    then obtain y ys where Cons: "?D = y # ys" by (meson list.exhaust)
    then have "\<not> earlier e y" using hd_dropWhile [of "earlier e" L] by (metis list.distinct(1) list.sel(1))
    moreover have "e_expiration (snd y) \<le> e_expiration (snd x)" using s that unfolding Cons by (auto simp: sorted_append)
    ultimately show ?thesis by (simp add: earlier_def)
  qed
  then show ?thesis unfolding abs_link_eq using s t by (intro sorted_insert) (simp_all only: o_apply payload_simps snd_conv)
qed

definition place :: "rsn_pmksa_cache_entry \<Rightarrow> entries \<Rightarrow> nat option" where
  "place e L = (if takeWhile (earlier e) L = [] then None else Some (fst (last (takeWhile (earlier e) L))))"

lemma find_place_rep:
  assumes "cache_rep c L"
  shows "find_place (\<lambda>e. e_expiration e > e_expiration entry) e_next (store c) None (pmksa_head c) = Some (place entry L)"
proof -
  have "(\<not> e_expiration (the (store c (fst x))) > e_expiration entry) = earlier entry x" if x: "x \<in> set L" for x
  proof -
    obtain e' where "store c (fst x) = Some e'" "payload e' = snd x" using cache_rep_lookup [OF assms, of "fst x" "snd x"] x by auto
    then show ?thesis using payload_fields(3) [of e' "snd x"] by (simp add: earlier_def not_less)
  qed
  then have "takeWhile (\<lambda>x. \<not> e_expiration (the (store c x)) > e_expiration entry) (map fst L) = map fst (takeWhile (earlier entry) L)"
    by (simp add: takeWhile_map comp_def cong: takeWhile_cong)
  moreover have "seg e_next (store c) (pmksa_head c) (map fst L) None" using assms by (simp add: cache_rep_def)
  ultimately show ?thesis by (simp add: find_place_seg place_def last_map)
qed

lemma link_next:
  assumes rep: "cache_rep c L" and new: "a \<notin> fst ` set L"
  shows "\<exists>e1 st1 head1. link_behind (place entry L) a entry c = Some (c\<lparr>store := st1, pmksa_head := head1\<rparr>)
    \<and> seg e_next st1 head1 (map fst (abs_link a entry L)) None \<and> st1 a = Some e1 \<and> payload e1 = payload entry
    \<and> (\<forall>x. x \<noteq> a \<longrightarrow> map_option payload (st1 x) = map_option payload (store c x) \<and> map_option e_hnext (st1 x) = map_option e_hnext (store c x))"
proof (cases "takeWhile (earlier entry) L" rule: rev_cases)
  case Nil
  then have "dropWhile (earlier entry) L = L" using takeWhile_dropWhile_id [of "earlier entry" L] by simp
  moreover have "seg e_next ((store c)(a \<mapsto> entry\<lparr>e_next := pmksa_head c\<rparr>)) (pmksa_head c) (map fst L) None"
    using rep new by (subst seg_cong [of _ _ _ "store c"]) (auto simp: cache_rep_def)
  ultimately show ?thesis using Nil
    by (intro exI [of _ "entry\<lparr>e_next := pmksa_head c\<rparr>"] exI [of _ "(store c)(a \<mapsto> entry\<lparr>e_next := pmksa_head c\<rparr>)"] exI [of _ "Some a"])
       (simp add: abs_link_eq place_def link_behind_def)
next
  case (snoc zs z)
  let ?b = "fst z"
  have L: "L = zs @ [z] @ dropWhile (earlier entry) L" using takeWhile_dropWhile_id [of "earlier entry" L] snoc by simp
  then have z: "z \<in> set L" by (metis append_Cons in_set_conv_decomp)
  then obtain pe where pe: "store c ?b = Some pe" using cache_rep_lookup [OF rep, of ?b "snd z"] by auto
  let ?st = "(store c)(a \<mapsto> entry\<lparr>e_next := e_next pe\<rparr>, ?b \<mapsto> pe\<lparr>e_next := Some a\<rparr>)"
  have ba: "?b \<noteq> a" using z new by auto
  have r: "seg e_next (store c) (pmksa_head c) (map fst L) None" "distinct (map fst L)" using rep by (auto simp: cache_rep_def)
  have m: "map fst L = map fst zs @ [?b] @ map fst (dropWhile (earlier entry) L)" by (subst L) simp
  have "a \<notin> set (map fst L)" using new by simp
  then have "seg e_next ?st (pmksa_head c) (map fst (abs_link a entry L)) None"
    using nx.insert_behind [of "store c" "pmksa_head c" "map fst zs" ?b _ a pe entry, OF _ _ _ pe] r m snoc by (simp add: abs_link_eq)
  then show ?thesis using snoc pe ba
    by (intro exI [of _ "entry\<lparr>e_next := e_next pe\<rparr>"] exI [of _ ?st] exI [of _ "pmksa_head c"]) (simp add: place_def link_behind_def)
qed

text \<open>The seconds of the expiry timer, for the entry that expires first.\<close>

definition expire_secs :: "int \<Rightarrow> rsn_pmksa_cache_entry \<Rightarrow> u32" where
  "expire_secs now e = word_of_int (max 0 (signed_take_bit 31 (e_expiration e - now)) + 1)"

lemma set_expiration_ok:
  assumes "cache_rep c L"
  shows "\<exists>c'. pmksa_cache_set_expiration now c = Some c' \<and> cache_rep c' L \<and> pmkid_heads c' = pmkid_heads c
    \<and> cache_outs c' = (case L of [] \<Rightarrow> [] | x # _ \<Rightarrow> [Register_Expire (expire_secs now (snd x))]) @ Cancel_Expire # cache_outs c"
proof (cases L)
  case Nil
  then show ?thesis using assms by (simp add: pmksa_cache_set_expiration_def cache_rep_def cache_out_def)
next
  case (Cons x L')
  then obtain e' where e: "pmksa_head c = Some (fst x)" "store c (fst x) = Some e'" "payload e' = snd x"
    using assms cache_rep_lookup [OF assms, of "fst x" "snd x"] by (auto simp: cache_rep_def)
  then have "pmksa_cache_set_expiration now c = Some (c\<lparr>cache_outs := Register_Expire (expire_secs now (snd x)) # Cancel_Expire # cache_outs c\<rparr>)"
    by (simp add: pmksa_cache_set_expiration_def cache_out_def expire_secs_def payload_fields(3) [OF e(3)] max_def Let_def)
  then show ?thesis using assms Cons by (simp add: cache_rep_def)
qed

lemma link_ok:
  assumes rep: "cache_rep c L" and new: "a \<notin> fst ` set L" and ok: "entry_ok entry"
  shows "\<exists>c'. pmksa_cache_link_entry now a entry c = Some c' \<and> cache_rep c' (abs_link a entry L)
    \<and> pmkid_heads c' ! bucket entry = Some a
    \<and> cache_outs c' = (if takeWhile (earlier entry) L = [] then [Register_Expire (expire_secs now entry), Cancel_Expire] else []) @ cache_outs c"
proof -
  obtain e1 st1 head1 where n: "link_behind (place entry L) a entry c = Some (c\<lparr>store := st1, pmksa_head := head1\<rparr>)"
    and n2: "seg e_next st1 head1 (map fst (abs_link a entry L)) None" "st1 a = Some e1" "payload e1 = payload entry"
    and n3: "\<And>x. x \<noteq> a \<Longrightarrow> map_option payload (st1 x) = map_option payload (store c x) \<and> map_option e_hnext (st1 x) = map_option e_hnext (store c x)"
    using link_next [OF rep new, of entry] by metis
  define st2 where "st2 = st1(a \<mapsto> e1\<lparr>e_hnext := pmkid_heads c ! bucket entry\<rparr>)"
  define c2 where "c2 = (c\<lparr>store := st1, pmksa_head := head1\<rparr>)\<lparr>store := st2, pmkid_heads := (pmkid_heads c)[bucket entry := Some a],
      pmksa_count := pmksa_count c + 1\<rparr>"
  have r: "distinct (map fst L)" "buckets_ok (store c) (pmkid_heads c) (members L)" "sorted (map (e_expiration \<circ> snd) L)"
      "pmksa_count c = int (length L)" "\<forall>x \<in> set L. entry_ok (snd x)" "\<And>a. map_option payload (store c a) = map_of L a"
    using rep by (auto simp: cache_rep_def)
  have na: "a \<notin> members L i" for i using new by (auto simp: members_def)
  have "buckets_ok st1 (pmkid_heads c) (members L)" using r(2) by (rule buckets_cong) (use n3 na in metis)
  then have "buckets_ok st2 ((pmkid_heads c)[bucket entry := Some a]) ((members L)(bucket entry := insert a (members L (bucket entry))))"
    unfolding st2_def using na by (intro buckets_insert) auto
  moreover have "members (abs_link a entry L) = (members L)(bucket entry := insert a (members L (bucket entry)))"
    by (force simp: members_def fun_eq_iff)
  moreover have "seg e_next st2 head1 (map fst (abs_link a entry L)) None"
    using n2 by (subst seg_cong [of _ _ _ st1]) (auto simp: st2_def)
  moreover have "map_option payload (st2 x) = map_of (abs_link a entry L) x" for x
    using n2(3) n3 [of x] r(1,6) new by (auto simp: st2_def map_of_abs_link)
  ultimately have rep2: "cache_rep c2 (abs_link a entry L)"
    using r new ok n2 sorted_abs_link [OF r(3)] by (auto simp: cache_rep_def c2_def)
  have "PMKID_HASH (e_pmkid entry) = Some (bucket entry)" using ok by (simp add: entry_ok_def PMKID_HASH_bucket)
  then have run: "pmksa_cache_link_entry now a entry c = (if place entry L = None then pmksa_cache_set_expiration now c2 else Some c2)"
    using n n2(2) by (simp add: pmksa_cache_link_entry_def find_place_rep [OF rep] c2_def st2_def Let_def)
  have hd2: "pmkid_heads c2 ! bucket entry = Some a" using r(2) by (simp add: c2_def buckets_ok_def)
  show ?thesis
  proof (cases "takeWhile (earlier entry) L = []")
    case True
    then have "abs_link a entry L = (a, payload entry) # dropWhile (earlier entry) L" by (simp add: abs_link_eq)
    moreover have "expire_secs now (payload entry) = expire_secs now entry" "cache_outs c2 = cache_outs c"
      by (simp_all add: expire_secs_def c2_def)
    moreover obtain c' where "pmksa_cache_set_expiration now c2 = Some c'" "cache_rep c' (abs_link a entry L)" "pmkid_heads c' = pmkid_heads c2"
        "cache_outs c' = (case abs_link a entry L of [] \<Rightarrow> [] | x # _ \<Rightarrow> [Register_Expire (expire_secs now (snd x))]) @ Cancel_Expire # cache_outs c2"
      using set_expiration_ok [OF rep2, of now] by blast
    ultimately show ?thesis using run True hd2 by (simp add: place_def)
  next
    case False
    then show ?thesis using run rep2 hd2 by (simp add: place_def c2_def)
  qed
qed

end
