(* ===== verification/Pmksa_Theorems.thy ===== *)
theory Pmksa_Theorems
  imports Pmksa_Inv
begin

unbundle bit_operations_syntax

text \<open>
  The operations of the PMKSA cache against the list of its entries: lookups find an entry exactly
  when there is one, expiry removes exactly what has expired, and every history of operations from
  the empty cache returns and keeps the two lists and the count consistent.
\<close>

section \<open>Lookups\<close>

lemma cache_rep_next_seg: "cache_rep c L \<Longrightarrow> seg e_next (store c) (pmksa_head c) (map fst L) None"
  by (simp add: cache_rep_def)

lemma cache_rep_ok: "cache_rep c L \<Longrightarrow> store c x = Some e \<Longrightarrow> entry_ok e"
  using cache_rep_entry [of c L x e] unfolding cache_rep_def by (metis payload_simps(11) snd_conv)

lemma fresh_address: "cache_rep c L \<Longrightarrow> store c a = None \<Longrightarrow> a \<notin> fst ` set L"
  by (auto dest: cache_rep_lookup)

lemma find_map: "List.find p (map f xs) = map_option f (List.find (p \<circ> f) xs)"
  by (induction xs) auto

lemma get_walk_list:
  assumes rep: "cache_rep c L" and m: "\<And>e. entry_ok e \<Longrightarrow> match e = Some (m (payload e))"
  shows "get_walk e_next match (store c) (pmksa_head c) = Some (map_option fst (List.find (m \<circ> snd) L))"
proof -
  have p: "payload (the (store c (fst x))) = snd x" if "x \<in> set L" for x
    using cache_rep_lookup [OF rep, of "fst x" "snd x"] that by auto
  have "match (the (store c x)) = Some (m (payload (the (store c x))))" if "x \<in> set (map fst L)" for x
    using seg_in_store [OF cache_rep_next_seg [OF rep] that] m cache_rep_ok [OF rep] by auto
  then have "get_walk e_next match (store c) (pmksa_head c) = Some (List.find (\<lambda>x. m (payload (the (store c x)))) (map fst L))"
    using get_walk_seg [OF cache_rep_next_seg [OF rep], of match "\<lambda>x. m (payload (the (store c x)))"] by simp
  also have "\<dots> = Some (map_option fst (List.find (m \<circ> snd) L))"
    unfolding find_map using p by (auto intro!: arg_cong [where f = "map_option fst"] find_cong)
  finally show ?thesis .
qed

lemma get_spa_ok:
  assumes "cache_rep c L" "length s = ETH_ALEN"
  shows "pmksa_cache_auth_get c (Some s) None = Some (map_option fst (List.find (\<lambda>x. e_spa (snd x) = s) L))"
  using get_walk_list [OF assms(1), of "spa_matches (Some s)" "\<lambda>e. e_spa e = s"] assms(2)
  by (simp add: pmksa_cache_auth_get_def spa_matches_def mem_equal_iff entry_ok_def comp_def)

text \<open>What a lookup by PMKID looks for.\<close>

definition wanted :: "bytes option \<Rightarrow> bytes \<Rightarrow> rsn_pmksa_cache_entry \<Rightarrow> bool" where
  "wanted spa pmkid e \<longleftrightarrow> (case spa of None \<Rightarrow> True | Some s \<Rightarrow> e_spa e = s) \<and> e_pmkid e = pmkid"

definition pmkid_match :: "bytes option \<Rightarrow> bytes \<Rightarrow> rsn_pmksa_cache_entry \<Rightarrow> bool ub" where
  "pmkid_match spa i = (\<lambda>e. do { b \<leftarrow> spa_matches spa e; if b then mem_equal (e_pmkid e) i PMKID_LEN else Some False })"

lemma pmkid_match_ok:
  assumes "entry_ok e" "length i = PMKID_LEN" "\<And>s. spa = Some s \<Longrightarrow> length s = ETH_ALEN"
  shows "pmkid_match spa i e = Some (wanted spa i e)"
  using assms by (cases spa) (auto simp: pmkid_match_def wanted_def spa_matches_def mem_equal_iff entry_ok_def)

lemma bucket_of_pmkid: "length i = PMKID_LEN \<Longrightarrow> e_pmkid e = i \<Longrightarrow> PMKID_HASH i = Some (bucket e)"
  using PMKID_HASH_bucket [of e] by simp

lemma get_pmkid_walk:
  assumes "length i = PMKID_LEN" "h = unat (hd i AND 0x7f)"
  shows "pmksa_cache_auth_get c spa (Some i) = get_walk e_hnext (pmkid_match spa i) (store c) (pmkid_heads c ! h)"
  using assms by (cases i) (auto simp: pmksa_cache_auth_get_def PMKID_HASH_def peek_def PMKID_LEN_def pmkid_match_def)

lemma get_pmkid_ok:
  assumes rep: "cache_rep c L" and i: "length i = PMKID_LEN" and s: "\<And>s. spa = Some s \<Longrightarrow> length s = ETH_ALEN"
  shows "\<exists>r. pmksa_cache_auth_get c spa (Some i) = Some r \<and>
    (case r of None \<Rightarrow> \<forall>(a, e) \<in> set L. \<not> wanted spa i e | Some a \<Rightarrow> \<exists>e. (a, e) \<in> set L \<and> wanted spa i e)"
proof -
  let ?h = "unat (hd i AND 0x7f)"
  have "?h < PMKID_HASH_SIZE" using and_7f_lt by (simp add: PMKID_HASH_SIZE_def)
  then obtain B where B: "seg e_hnext (store c) (pmkid_heads c ! ?h) B None" "set B = members L ?h"
    using rep unfolding cache_rep_def buckets_ok_def by blast
  let ?m = "\<lambda>x. wanted spa i (the (store c x))"
  have "pmkid_match spa i (the (store c x)) = Some (?m x)" if "x \<in> set B" for x
    using seg_in_store [OF B(1) that] pmkid_match_ok [OF _ i s] cache_rep_ok [OF rep] by auto
  then have g: "pmksa_cache_auth_get c spa (Some i) = Some (List.find ?m B)"
    using get_walk_seg [OF B(1)] by (simp add: get_pmkid_walk [OF i refl])
  have w: "wanted spa i e = wanted spa i (the (store c a))" if "(a, e) \<in> set L" for a e
    using cache_rep_lookup [OF rep that] by (auto simp: wanted_def split: option.splits)
  show ?thesis
  proof (cases "List.find ?m B")
    case None
    have "\<not> wanted spa i e" if "(a, e) \<in> set L" for a e
    proof
      assume "wanted spa i e"
      then have "a \<in> members L ?h" "?m a" using that w [OF that] by (force simp: members_def bucket_def wanted_def)+
      then show False using None B(2) by (auto simp: find_None_iff)
    qed
    then show ?thesis using g None by auto
  next
    case (Some a)
    then have "a \<in> set B" "?m a" by (auto simp: find_Some_iff)
    then obtain e where "(a, e) \<in> set L" using B(2) by (auto simp: members_def)
    then show ?thesis using g Some w \<open>?m a\<close> by auto
  qed
qed

text \<open>OKC finds the first entry of the station whose key gives the PMKID for this access point.\<close>

definition okc_wanted :: "(bytes \<Rightarrow> bytes \<Rightarrow> bytes \<Rightarrow> u32 \<Rightarrow> bytes) \<Rightarrow> bytes \<Rightarrow> bytes \<Rightarrow> bytes \<Rightarrow> rsn_pmksa_cache_entry \<Rightarrow> bool" where
  "okc_wanted f aa spa pmkid e \<longleftrightarrow> e_spa e = spa \<and>
     pmkid = (if wpa_key_mgmt_sae (e_akmp e) \<or> wpa_key_mgmt_fils (e_akmp e) then e_pmkid e else f (e_pmk e) aa spa (e_akmp e))"

lemma get_okc_ok:
  assumes "cache_rep c L" "length spa = ETH_ALEN" "length pmkid = PMKID_LEN" "\<And>k m. length (f k aa spa m) = PMKID_LEN"
  shows "pmksa_cache_get_okc f c aa spa pmkid = Some (map_option fst (List.find (okc_wanted f aa spa pmkid \<circ> snd) L))"
  unfolding pmksa_cache_get_okc_def using assms
  by (intro get_walk_list) (auto simp: mem_equal_iff entry_ok_def okc_wanted_def)

section \<open>Removal\<close>

text \<open>The release of the cache leaves no entry allocated.\<close>

lemma deinit_ok: "cache_rep c L \<Longrightarrow> pmksa_cache_auth_deinit (Some c) = Some (\<lambda>_. None, Cancel_Expire # cache_outs c)"
proof -
  assume rep: "cache_rep c L"
  have "store c x = None" if "x \<notin> set (map fst L)" for x
    using cache_rep_entry [OF rep, of x] that by (cases "store c x") force+
  then have "(\<lambda>x. if x \<in> set (map fst L) then None else store c x) = (\<lambda>_. None)" by auto
  moreover have "deinit_loop e_next (pmksa_head c) (store c) = Some (\<lambda>x. if x \<in> set (map fst L) then None else store c x)"
    using rep by (intro deinit_loop_seg) (simp_all add: cache_rep_def)
  ultimately show ?thesis by (simp only: pmksa_cache_auth_deinit_def) simp
qed

lemma free_head:
  assumes "cache_rep c (x # L)"
  shows "\<exists>c' e'. pmksa_head c = Some (fst x) \<and> store c (fst x) = Some e' \<and> payload e' = snd x
    \<and> pmksa_cache_free_entry (fst x) c = Some c' \<and> cache_rep c' L"
proof -
  have "abs_free (fst x) (x # L) = L" using abs_free_split [of "[]" "fst x" "snd x" L] assms by (simp add: cache_rep_def)
  moreover have "pmksa_head c = Some (fst x)" using assms by (simp add: cache_rep_def)
  ultimately show ?thesis
    using free_ok [OF assms, of "fst x" "snd x"] cache_rep_lookup [OF assms, of "fst x" "snd x"] by auto
qed

lemma flush_ok: "cache_rep c L \<Longrightarrow> \<exists>c'. pmksa_cache_auth_flush c = Some c' \<and> cache_rep c' []"
proof (induction L arbitrary: c)
  case Nil
  then show ?case by (subst pmksa_cache_auth_flush.simps) (simp add: cache_rep_def)
next
  case (Cons x L)
  then show ?case using free_head [OF Cons.prems] by (subst pmksa_cache_auth_flush.simps) auto
qed

lemma expire_loop_ok:
  "cache_rep c L \<Longrightarrow> \<exists>c'. expire_loop now c = Some c' \<and> cache_rep c' (dropWhile (\<lambda>x. e_expiration (snd x) \<le> now) L)"
proof (induction L arbitrary: c)
  case Nil
  then show ?case by (subst expire_loop.simps) (simp add: cache_rep_def)
next
  case (Cons x L)
  obtain c' e' where h: "pmksa_head c = Some (fst x)" "store c (fst x) = Some e'" "payload e' = snd x"
      "pmksa_cache_free_entry (fst x) c = Some c'" "cache_rep c' L" using free_head [OF Cons.prems] by blast
  then show ?case using Cons payload_fields(3) [OF h(3)] by (subst expire_loop.simps) auto
qed

lemma dropWhile_sorted:
  fixes f :: "'a \<Rightarrow> 'b :: linorder"
  shows "sorted (map f xs) \<Longrightarrow> dropWhile (\<lambda>x. f x \<le> v) xs = filter (\<lambda>x. v < f x) xs"
proof (induction xs)
  case (Cons x xs)
  then show ?case by (auto simp: not_le intro!: filter_True [symmetric])
qed simp

lemma expire_ok:
  assumes "cache_rep c L"
  shows "\<exists>c' os. pmksa_cache_expire now c = Some c' \<and> cache_rep c' (filter (\<lambda>x. now < e_expiration (snd x)) L)
    \<and> cache_outs c' = (case filter (\<lambda>x. now < e_expiration (snd x)) L of [] \<Rightarrow> [] | x # _ \<Rightarrow> [Register_Expire (expire_secs now (snd x))]) @ Cancel_Expire # os"
proof -
  let ?K = "filter (\<lambda>x. now < e_expiration (snd x)) L"
  have "sorted (map (\<lambda>x. e_expiration (snd x)) L)" using assms by (simp add: cache_rep_def comp_def)
  then obtain c1 where c1: "expire_loop now c = Some c1" "cache_rep c1 ?K"
    using expire_loop_ok [OF assms(1), of now] by (auto simp: dropWhile_sorted)
  then show ?thesis using set_expiration_ok [OF c1(2), of now] by (simp add: pmksa_cache_expire_def) blast
qed

text \<open>The entries a disconnect request names: every attribute it carries matches, and it carries one.\<close>

definition das_hit :: "radius_das_attrs \<Rightarrow> rsn_pmksa_cache_entry \<Rightarrow> bool" where
  "das_hit attr e \<longleftrightarrow>
     (das_sta_addr attr \<noteq> None \<or> das_acct_multi_session_id attr \<noteq> None \<or> das_cui attr \<noteq> None \<or> das_user_name attr \<noteq> None)
     \<and> das_sta_addr attr \<in> {None, Some (e_spa e)}
     \<and> das_acct_multi_session_id attr \<in> {None, Some (fmt_016llX (pmksa_acct_multi_session_id (e_data e)))}
     \<and> das_cui attr \<in> {None, pmksa_cui (e_data e)} \<and> das_user_name attr \<in> {None, pmksa_identity (e_data e)}"

lemma length_fmt_016llX [simp]: "length (fmt_016llX v) = 16"
  by (simp add: fmt_016llX_def WPA_PUT_BE64_def)

lemma mem_equal_len: "(if length v \<noteq> length u then Some False else mem_equal v u (length v)) = Some (v = u)"
  using mem_equal_iff [of v "length v" u] by auto

lemma das_criterion_eq:
  "(\<And>v. attr = Some v \<Longrightarrow> test v = Some (b v)) \<Longrightarrow>
   das_criterion attr test rest m = (case attr of None \<Rightarrow> rest m | Some v \<Rightarrow> if b v then rest (m + 1) else Some 0)"
  by (cases attr) (auto simp: das_criterion_def)

lemma das_attr_match_ok:
  assumes "entry_ok e" "\<And>s. das_sta_addr attr = Some s \<Longrightarrow> length s = ETH_ALEN"
  shows "\<exists>n. das_attr_match e attr = Some n \<and> (n \<noteq> 0) = das_hit attr e"
proof -
  have sta: "das_criterion (das_sta_addr attr) (\<lambda>v. mem_equal v (e_spa e) ETH_ALEN) rest m =
      (case das_sta_addr attr of None \<Rightarrow> rest m | Some v \<Rightarrow> if v = e_spa e then rest (m + 1) else Some 0)" for rest m
    using assms by (intro das_criterion_eq) (auto simp: mem_equal_iff entry_ok_def)
  let ?t = "\<lambda>u v. case u of None \<Rightarrow> Some False | Some u \<Rightarrow> if length v \<noteq> length u then Some False else mem_equal v u (length v)"
  have opt: "das_criterion a (?t u) rest m = (case a of None \<Rightarrow> rest m | Some v \<Rightarrow> if u = Some v then rest (m + 1) else Some 0)" for a u rest m
    by (intro das_criterion_eq) (cases u; simp only: option.case mem_equal_len; auto)
  let ?f = "fmt_016llX (pmksa_acct_multi_session_id (e_data e))"
  have ms: "das_criterion a (\<lambda>v. if length v \<noteq> 16 then Some False else mem_equal v ?f 16) rest m =
      (case a of None \<Rightarrow> rest m | Some v \<Rightarrow> if v = ?f then rest (m + 1) else Some 0)" for a rest m
    by (intro das_criterion_eq) (auto simp: mem_equal_iff)
  show ?thesis unfolding das_attr_match_def sta ms opt das_hit_def by (auto split: option.splits)
qed

lemma seg_next: "seg get st p (xs @ x # ys) None \<Longrightarrow> st x = Some e \<Longrightarrow> get e = (case ys of [] \<Rightarrow> None | y # _ \<Rightarrow> Some y)"
  by (cases ys) (auto simp: seg_append)

lemma das_loop_ok:
  assumes "\<And>s. das_sta_addr attr = Some s \<Longrightarrow> length s = ETH_ALEN"
  shows "cache_rep c (L1 @ L2) \<Longrightarrow> entry = (case L2 of [] \<Rightarrow> None | x # _ \<Rightarrow> Some (fst x)) \<Longrightarrow>
    \<exists>c'. das_loop attr entry n c = Some (n + length (filter (\<lambda>x. das_hit attr (snd x)) L2), c')
      \<and> cache_rep c' (L1 @ filter (\<lambda>x. \<not> das_hit attr (snd x)) L2)"
proof (induction L2 arbitrary: L1 c entry n)
  case Nil
  then show ?case by (subst das_loop.simps) simp
next
  case (Cons x L2)
  have x: "entry = Some (fst x)" using Cons.prems by simp
  obtain e where e: "store c (fst x) = Some e" "payload e = snd x" using cache_rep_lookup [OF Cons.prems(1), of "fst x" "snd x"] by auto
  have "das_hit attr e = das_hit attr (snd x)" unfolding e(2) [symmetric] das_hit_def by simp
  then obtain k where k: "das_attr_match e attr = Some k" "(k \<noteq> 0) = das_hit attr (snd x)"
    using das_attr_match_ok [OF cache_rep_ok [OF Cons.prems(1) e(1)] assms] by auto
  have nxt: "e_next e = (case L2 of [] \<Rightarrow> None | y # _ \<Rightarrow> Some (fst y))"
    using seg_next [of e_next "store c" "pmksa_head c" "map fst L1" "fst x" "map fst L2" e] cache_rep_next_seg [OF Cons.prems(1)] e(1)
    by (simp split: list.splits)
  show ?case
  proof (cases "das_hit attr (snd x)")
    case True
    have "abs_free (fst x) (L1 @ x # L2) = L1 @ L2"
      using abs_free_split [of L1 "fst x" "snd x" L2] Cons.prems(1) by (simp add: cache_rep_def)
    then obtain c1 where c1: "pmksa_cache_free_entry (fst x) c = Some c1" "cache_rep c1 (L1 @ L2)"
      using free_ok [OF Cons.prems(1), of "fst x" "snd x"] by auto
    show ?thesis using Cons.IH [OF c1(2) nxt, of "n + 1"] True k e x c1(1) by (subst das_loop.simps) simp
  next
    case False
    have "cache_rep c ((L1 @ [x]) @ L2)" using Cons.prems(1) by simp
    from Cons.IH [OF this nxt, of n] show ?thesis using False k e x by (subst das_loop.simps) simp
  qed
qed

section \<open>Addition\<close>

definition replace_spa :: "bytes \<Rightarrow> entries \<Rightarrow> entries" where
  "replace_spa s L = (case List.find (\<lambda>x. e_spa (snd x) = s) L of None \<Rightarrow> L | Some x \<Rightarrow> abs_free (fst x) L)"

definition evict :: "entries \<Rightarrow> entries" where
  "evict L = (if int (length L) \<ge> pmksa_cache_max_entries then tl L else L)"

definition abs_add :: "nat \<Rightarrow> rsn_pmksa_cache_entry \<Rightarrow> entries \<Rightarrow> entries" where
  "abs_add a e L = abs_link a e (evict (replace_spa (e_spa e) L))"

lemma set_replace_spa: "set (replace_spa s L) \<subseteq> set L"
  by (auto simp: replace_spa_def abs_free_def split: option.splits)

lemma set_evict: "set (evict L) \<subseteq> set L"
  by (cases L) (auto simp: evict_def)

lemma length_abs_add: "int (length L) \<le> pmksa_cache_max_entries \<Longrightarrow> int (length (abs_add a e L)) \<le> pmksa_cache_max_entries"
proof -
  assume "int (length L) \<le> pmksa_cache_max_entries"
  moreover have "length (replace_spa s L) \<le> length L" for s
    by (auto simp: replace_spa_def abs_free_def split: option.splits)
  ultimately have "int (length (replace_spa (e_spa e) L)) \<le> pmksa_cache_max_entries" by (smt (verit) of_nat_le_iff)
  then show ?thesis by (auto simp: abs_add_def evict_def pmksa_cache_max_entries_def)
qed

lemma replace_ok:
  assumes "cache_rep c L" "length s = ETH_ALEN"
  shows "\<exists>pos c'. pmksa_cache_auth_get c (Some s) None = Some pos
    \<and> (case pos of Some p \<Rightarrow> pmksa_cache_free_entry p c | None \<Rightarrow> Some c) = Some c' \<and> cache_rep c' (replace_spa s L)"
proof (cases "List.find (\<lambda>x. e_spa (snd x) = s) L")
  case None
  then show ?thesis using assms get_spa_ok [OF assms] by (simp add: replace_spa_def)
next
  case (Some x)
  then have "(fst x, snd x) \<in> set L" by (auto simp: find_Some_iff)
  from free_ok [OF assms(1) this] obtain c' where "pmksa_cache_free_entry (fst x) c = Some c'" "cache_rep c' (abs_free (fst x) L)" by blast
  then show ?thesis using Some get_spa_ok [OF assms] by (simp add: replace_spa_def)
qed

lemma evict_ok:
  assumes "cache_rep c L"
  shows "\<exists>c'. (case pmksa_head c of
                Some p \<Rightarrow> if pmksa_count c \<ge> pmksa_cache_max_entries then pmksa_cache_free_entry p c else Some c
              | None \<Rightarrow> Some c) = Some c' \<and> cache_rep c' (evict L)"
proof (cases L)
  case Nil
  then show ?thesis using assms by (simp add: evict_def cache_rep_def)
next
  case (Cons x L')
  have "pmksa_count c = int (length L)" using assms by (simp add: cache_rep_def)
  then show ?thesis using free_head [of c x L'] assms Cons by (auto simp: evict_def)
qed

lemma add_entry_ok:
  assumes rep: "cache_rep c L" and new: "store c a = None" and ok: "entry_ok e"
  shows "\<exists>c'. pmksa_cache_auth_add_entry now (Some (a, e)) c = Some (0, c') \<and> cache_rep c' (abs_add a e L)
    \<and> pmkid_heads c' ! bucket e = Some a"
proof -
  have "length (e_spa e) = ETH_ALEN" using ok by (simp add: entry_ok_def)
  then obtain pos c1 where c1: "pmksa_cache_auth_get c (Some (e_spa e)) None = Some pos"
      "(case pos of Some p \<Rightarrow> pmksa_cache_free_entry p c | None \<Rightarrow> Some c) = Some c1" "cache_rep c1 (replace_spa (e_spa e) L)"
    using replace_ok [OF rep] by blast
  obtain c2 where c2: "(case pmksa_head c1 of
                Some p \<Rightarrow> if pmksa_count c1 \<ge> pmksa_cache_max_entries then pmksa_cache_free_entry p c1 else Some c1
              | None \<Rightarrow> Some c1) = Some c2" "cache_rep c2 (evict (replace_spa (e_spa e) L))"
    using evict_ok [OF c1(3)] by blast
  have "a \<notin> fst ` set L" using fresh_address [OF rep new] .
  then have "a \<notin> fst ` set (evict (replace_spa (e_spa e) L))" using set_evict set_replace_spa by blast
  from link_ok [OF c2(2) this ok, of now] obtain c3 where
    "pmksa_cache_link_entry now a e c2 = Some c3" "cache_rep c3 (abs_add a e L)" "pmkid_heads c3 ! bucket e = Some a"
    by (auto simp: abs_add_def)
  then show ?thesis using c1(1,2) c2(1) by (simp add: pmksa_cache_auth_add_entry_def)
qed

section \<open>Histories\<close>

text \<open>
  The caches of an access point: what its operations make of the empty cache. A new entry has an
  address that is not in use. OKC copies an entry, which may be one of the cache of another
  authenticator.
\<close>

inductive cache_reach :: "rsn_pmksa_cache \<Rightarrow> bool" where
  init: "pmksa_cache_auth_init ok = Some c \<Longrightarrow> cache_reach c"
| add: "cache_reach c \<Longrightarrow> store c a = None \<Longrightarrow> entry_ok e \<Longrightarrow>
    pmksa_cache_auth_add_entry now (Some (a, e)) c = Some (r, c') \<Longrightarrow> cache_reach c'"
| okc: "cache_reach c \<Longrightarrow> entry_ok old \<Longrightarrow> store c a = None \<Longrightarrow> length pmkid = PMKID_LEN \<Longrightarrow>
    pmksa_cache_add_okc malloc (Some a) now old pmkid c = Some (r, c') \<Longrightarrow> cache_reach c'"
| free: "cache_reach c \<Longrightarrow> store c a = Some e \<Longrightarrow> pmksa_cache_free_entry a c = Some c' \<Longrightarrow> cache_reach c'"
| flush: "cache_reach c \<Longrightarrow> pmksa_cache_auth_flush c = Some c' \<Longrightarrow> cache_reach c'"
| expire: "cache_reach c \<Longrightarrow> pmksa_cache_expire now c = Some c' \<Longrightarrow> cache_reach c'"
| das: "cache_reach c \<Longrightarrow> (\<And>s. das_sta_addr attr = Some s \<Longrightarrow> length s = ETH_ALEN) \<Longrightarrow>
    pmksa_cache_auth_radius_das_disconnect attr c = Some (n, c') \<Longrightarrow> cache_reach c'"

lemma init_ok: "pmksa_cache_auth_init ok = Some c \<Longrightarrow> cache_rep c []"
  by (auto simp: pmksa_cache_auth_init_def cache_rep_def buckets_ok_def members_def split: if_splits)

lemma okc_ok:
  assumes rep: "cache_rep c L" and old: "entry_ok old" and new: "store c a = None" and i: "length pmkid = PMKID_LEN"
  shows "\<exists>c' e. pmksa_cache_add_okc malloc (Some a) now old pmkid c = Some (Some a, c') \<and> cache_rep c' (abs_link a e L)
    \<and> e_pmkid e = pmkid \<and> e_pmk e = e_pmk old \<and> e_spa e = e_spa old"
proof -
  define e where "e = \<lparr>e_next = None, e_hnext = None, e_pmkid = take PMKID_LEN pmkid, e_pmk = e_pmk old, e_expiration = e_expiration old,
    e_akmp = e_akmp old, e_spa = e_spa old, e_opportunistic = True,
    e_data = pmksa_data_zero\<lparr>
      pmksa_identity := (case pmksa_identity (e_data old) of None \<Rightarrow> None | Some i \<Rightarrow> if malloc (length i) then Some i else None),
      pmksa_cui := (case pmksa_cui (e_data old) of None \<Rightarrow> None | Some u \<Rightarrow> alloc_copy malloc u),
      pmksa_class := snd (radius_copy_class malloc None (pmksa_class (e_data old))),
      pmksa_eap_type_authsrv := pmksa_eap_type_authsrv (e_data old),
      pmksa_vlan_desc := (if pmksa_vlan_desc (e_data old) \<noteq> None \<and> malloc sizeof_vlan_description then pmksa_vlan_desc (e_data old) else None)\<rparr>\<rparr>"
  have "a \<notin> fst ` set L" using fresh_address [OF rep new] .
  moreover have "entry_ok e" using old i by (simp add: e_def entry_ok_def)
  ultimately obtain c' where "pmksa_cache_link_entry now a e c = Some c'" "cache_rep c' (abs_link a e L)"
    using link_ok [OF rep] by blast
  moreover have "pmksa_cache_add_okc malloc (Some a) now old pmkid c = do { c \<leftarrow> pmksa_cache_link_entry now a e c; Some (Some a, c) }"
    by (simp add: pmksa_cache_add_okc_def e_def Let_def)
  ultimately show ?thesis using i by (intro exI [of _ c'] exI [of _ e]) (simp add: e_def)
qed

lemma das_ok:
  assumes "cache_rep c L" "\<And>s. das_sta_addr attr = Some s \<Longrightarrow> length s = ETH_ALEN" "das_acct_session_id attr = None"
  shows "\<exists>c'. pmksa_cache_auth_radius_das_disconnect attr c = Some (if \<exists>x \<in> set L. das_hit attr (snd x) then 0 else -1, c')
    \<and> cache_rep c' (filter (\<lambda>x. \<not> das_hit attr (snd x)) L)"
proof -
  have "pmksa_head c = (case L of [] \<Rightarrow> None | x # _ \<Rightarrow> Some (fst x))" using cache_rep_next_seg [OF assms(1)] by (cases L) auto
  then obtain c' where c': "das_loop attr (pmksa_head c) 0 c = Some (length (filter (\<lambda>x. das_hit attr (snd x)) L), c')"
      "cache_rep c' (filter (\<lambda>x. \<not> das_hit attr (snd x)) L)"
    using das_loop_ok [of attr c "[]" L "pmksa_head c" 0, OF assms(2)] assms(1) by auto
  have "(length (filter (\<lambda>x. das_hit attr (snd x)) L) \<noteq> 0) = (\<exists>x \<in> set L. das_hit attr (snd x))" by (simp add: filter_empty_conv)
  then show ?thesis using c' assms(3) by (simp only: pmksa_cache_auth_radius_das_disconnect_def) simp
qed

lemma reach_rep: "cache_reach c \<Longrightarrow> \<exists>L. cache_rep c L"
proof (induction rule: cache_reach.induct)
  case (init ok c)
  then show ?case using init_ok by blast
next
  case (add c a e now r c')
  then show ?case using add_entry_ok [of c _ a e now] by fastforce
next
  case (okc c old a pmkid malloc now r c')
  then show ?case using okc_ok [of c _ old a pmkid malloc now] by fastforce
next
  case (free c a e c')
  then obtain L where L: "cache_rep c L" by blast
  show ?case using free_ok [OF L cache_rep_entry [OF L free.hyps(2)]] free.hyps(3) by auto
next
  case (flush c c')
  then show ?case using flush_ok [of c] by fastforce
next
  case (expire c now c')
  then show ?case using expire_ok [of c _ now] by fastforce
next
  case (das c attr n c')
  then obtain L where L: "cache_rep c L" by blast
  show ?case
  proof (cases "das_acct_session_id attr")
    case None
    then show ?thesis using das_ok [OF L das.hyps(2) None] das.hyps(3) by auto
  next
    case (Some v)
    then show ?thesis using das.hyps(3) L by (auto simp: pmksa_cache_auth_radius_das_disconnect_def)
  qed
qed

section \<open>The properties of the cache\<close>

text \<open>A concrete history: an entry is added to the empty cache.\<close>

definition demo_entry :: "u8 \<Rightarrow> rsn_pmksa_cache_entry" where
  "demo_entry x = \<lparr>e_next = None, e_hnext = None, e_pmkid = replicate 16 x, e_pmk = [], e_expiration = 100, e_akmp = 1,
     e_spa = replicate 6 x, e_opportunistic = False, e_data = pmksa_data_zero\<rparr>"

definition demo_cache :: rsn_pmksa_cache where
  "demo_cache = the (pmksa_cache_auth_init True)"

lemma demo_entry_ok: "entry_ok (demo_entry x)"
  by (simp add: entry_ok_def demo_entry_def PMKID_LEN_def ETH_ALEN_def)

lemma demo_cache_reach: "cache_reach demo_cache"
  by (rule cache_reach.init [of True]) (simp add: demo_cache_def pmksa_cache_auth_init_def)

lemma demo_add: "\<exists>c. cache_reach c \<and> cache_rep c [(7, demo_entry 1)]"
proof -
  have rep: "cache_rep demo_cache []" using init_ok [of True demo_cache] by (simp add: demo_cache_def pmksa_cache_auth_init_def)
  have new: "store demo_cache 7 = None" by (simp add: demo_cache_def pmksa_cache_auth_init_def)
  obtain c where c: "pmksa_cache_auth_add_entry 0 (Some (7, demo_entry 1)) demo_cache = Some (0, c)" "cache_rep c (abs_add 7 (demo_entry 1) [])"
    using add_entry_ok [OF rep new demo_entry_ok] by blast
  have "abs_add 7 (demo_entry 1) [] = [(7, demo_entry 1)]"
    by (simp add: abs_add_def abs_link_def evict_def replace_spa_def payload_def demo_entry_def pmksa_cache_max_entries_def)
  then show ?thesis using c cache_reach.add [OF demo_cache_reach new demo_entry_ok c(1)] by auto
qed

text \<open>
  C19: in every cache that operations of the access point produce from the empty one, the list
  through \<open>next\<close> holds each allocated entry once, ordered by expiration, each list of the hash table
  holds exactly the entries whose PMKID hashes to it, and \<open>pmksa_count\<close> is their number.
\<close>

theorem pmksa_cache_consistent:
  assumes "cache_reach c"
  shows "\<exists>L. map_option payload \<circ> store c = map_of L \<and> distinct (map fst L)
    \<and> seg e_next (store c) (pmksa_head c) (map fst L) None \<and> sorted (map (e_expiration \<circ> snd) L)
    \<and> pmksa_count c = int (length L)
    \<and> (\<forall>h < PMKID_HASH_SIZE. \<exists>B. distinct B \<and> seg e_hnext (store c) (pmkid_heads c ! h) B None
          \<and> set B = {a. \<exists>e. (a, e) \<in> set L \<and> bucket e = h})"
proof -
  obtain L where L: "cache_rep c L" using reach_rep [OF assms] by blast
  have "members L h = {a. \<exists>e. (a, e) \<in> set L \<and> bucket e = h}" for h by (force simp: members_def)
  then show ?thesis using L by (intro exI [of _ L]) (auto simp: cache_rep_def buckets_ok_def comp_def)
qed

theorem pmksa_cache_consistent_witness:
  "\<exists>(c :: rsn_pmksa_cache) L. store c 7 \<noteq> None \<and> map_option payload \<circ> store c = map_of L \<and> seg e_next (store c) (pmksa_head c) (map fst L) None"
proof -
  obtain c where c: "cache_reach c" "cache_rep c [(7, demo_entry 1)]" using demo_add by blast
  have "store c 7 \<noteq> None" using cache_rep_lookup [OF c(2), of 7 "demo_entry 1"] by auto
  moreover obtain L where "map_option payload \<circ> store c = map_of L" "seg e_next (store c) (pmksa_head c) (map fst L) None"
    using pmksa_cache_consistent [OF c(1)] by blast
  ultimately show ?thesis by blast
qed

text \<open>
  C20: \<open>pmksa_cache_auth_add\<close> on such a cache returns the new entry, for a key of at most 64 bytes with a
  given PMKID and with the KCK present where the key management needs it, and the lookup of the
  station and the PMKID finds this very entry, with its key.
\<close>

theorem pmksa_add_then_get:
  assumes "cache_reach c" "store c a = None" "length pmk \<le> PMK_LEN_MAX" "length pmkid = PMKID_LEN" "length spa = ETH_ALEN"
    "\<not> (wpa_key_mgmt_suite_b akmp \<and> kck = None)"
  shows "\<exists>c' e. pmksa_cache_auth_add fns malloc (Some a) now vlan pmk (Some pmkid) kck aa spa timeout eapol akmp c = Some (Some a, c')
    \<and> cache_reach c' \<and> pmksa_cache_auth_get c' (Some spa) (Some pmkid) = Some (Some a) \<and> store c' a = Some e \<and> e_pmk e = pmk"
proof -
  obtain L where L: "cache_rep c L" using reach_rep [OF assms(1)] by blast
  obtain e where e: "pmksa_cache_auth_create_entry fns malloc (Some a) now vlan pmk (Some pmkid) kck aa spa timeout eapol akmp = Some (a, e)"
      "e_pmkid e = pmkid" "e_spa e = spa" "e_pmk e = pmk"
    using assms by (auto simp: pmksa_cache_auth_create_entry_def Let_def)
  have ok: "entry_ok e" using e assms by (simp add: entry_ok_def)
  obtain c' where c': "pmksa_cache_auth_add_entry now (Some (a, e)) c = Some (0, c')" "cache_rep c' (abs_add a e L)"
      "pmkid_heads c' ! bucket e = Some a" using add_entry_ok [OF L assms(2) ok] by blast
  obtain e' where e': "store c' a = Some e'" "payload e' = payload e"
    using cache_rep_lookup [OF c'(2), of a "payload e"] by (auto simp: abs_add_def)
  have f: "e_pmkid e' = pmkid" "e_spa e' = spa" "e_pmk e' = pmk" using payload_fields [OF e'(2)] e by auto
  have "wanted (Some spa) pmkid e'" using f by (simp add: wanted_def)
  then have "pmkid_match (Some spa) pmkid e' = Some True" 
    using pmkid_match_ok [OF cache_rep_ok [OF c'(2) e'(1)], of pmkid "Some spa"] assms by simp
  moreover have "pmksa_cache_auth_get c' (Some spa) (Some pmkid) = get_walk e_hnext (pmkid_match (Some spa) pmkid) (store c') (Some a)"
    using get_pmkid_walk [OF assms(4) refl, of c' "Some spa"] c'(3) e(2) by (simp add: bucket_def)
  ultimately have "pmksa_cache_auth_get c' (Some spa) (Some pmkid) = Some (Some a)" using e'(1) by (simp add: get_walk.simps)
  moreover have "cache_reach c'" using cache_reach.add [OF assms(1,2) ok c'(1)] .
  ultimately show ?thesis using c'(1) e'(1) f e(1) by (simp add: pmksa_cache_auth_add_def)
qed

theorem pmksa_add_then_get_witness:
  "\<exists>c' e. pmksa_cache_auth_add \<lparr>rsn_pmkid = \<lambda>_ _ _ _. [], rsn_pmkid_suite_b = \<lambda>_ _ _. [], rsn_pmkid_suite_b_192 = \<lambda>_ _ _. []\<rparr>
     (\<lambda>_. True) (Some 3) 0 None [5] (Some (replicate 16 2)) None (replicate 6 0) (replicate 6 9) 0 (None :: unit eapol_state_machine option) 1
     demo_cache = Some (Some 3, c')
   \<and> pmksa_cache_auth_get c' (Some (replicate 6 9)) (Some (replicate 16 2)) = Some (Some 3) \<and> store c' 3 = Some e \<and> e_pmk e = [5]"
proof -
  have "store demo_cache 3 = None" by (simp add: demo_cache_def pmksa_cache_auth_init_def)
  moreover have "\<not> wpa_key_mgmt_suite_b 1" by code_simp
  ultimately show ?thesis
    using pmksa_add_then_get [OF demo_cache_reach, of 3 "[5]" "replicate 16 2" "replicate 6 9" 1 None]
    by (simp add: PMK_LEN_MAX_def PMKID_LEN_def ETH_ALEN_def) blast
qed

text \<open>
  C21: \<open>pmksa_cache_expire\<close> returns, removes exactly the entries whose expiration has come, keeps the
  others in their order, and arms the timer for the one that expires first, if there is one.
\<close>

theorem pmksa_expire_exact:
  assumes "cache_rep c L"
  shows "\<exists>c' K os. pmksa_cache_expire now c = Some c' \<and> K = filter (\<lambda>(a, e). now < e_expiration e) L \<and> cache_rep c' K
    \<and> cache_outs c' = (if K = [] then [] else [Register_Expire (expire_secs now (snd (hd K)))]) @ Cancel_Expire # os"
proof -
  let ?K = "filter (\<lambda>(a, e). now < e_expiration e) L"
  obtain c' os where "pmksa_cache_expire now c = Some c'" "cache_rep c' ?K"
      "cache_outs c' = (case ?K of [] \<Rightarrow> [] | x # _ \<Rightarrow> [Register_Expire (expire_secs now (snd x))]) @ Cancel_Expire # os"
    using expire_ok [OF assms, of now] by (auto simp: case_prod_unfold)
  then show ?thesis by (cases ?K) auto
qed

theorem pmksa_expire_exact_witness:
  "\<exists>c c'. cache_rep c [(7, demo_entry 1)] \<and> pmksa_cache_expire 100 c = Some c' \<and> cache_rep c' []"
proof -
  obtain c where c: "cache_rep c [(7, demo_entry 1)]" using demo_add by blast
  have "filter (\<lambda>(a, e). 100 < e_expiration e) [(7 :: nat, demo_entry 1)] = []" by (simp add: demo_entry_def)
  then show ?thesis using pmksa_expire_exact [OF c, of 100] c by (simp only:) blast
qed

text \<open>
  C22: a RADIUS disconnect request with no Acct-Session-Id removes exactly the entries for which every
  attribute it carries matches, none if it carries none, and reports success exactly if it removed one.
\<close>

theorem pmksa_das_exact:
  assumes "cache_rep c L" "\<And>s. das_sta_addr attr = Some s \<Longrightarrow> length s = ETH_ALEN" "das_acct_session_id attr = None"
  shows "\<exists>r c'. pmksa_cache_auth_radius_das_disconnect attr c = Some (r, c')
    \<and> cache_rep c' (filter (\<lambda>(a, e). \<not> das_hit attr e) L) \<and> (r = 0 \<longleftrightarrow> (\<exists>(a, e) \<in> set L. das_hit attr e)) \<and> r \<in> {0, -1}"
  using das_ok [of c L attr, OF assms] by (simp add: case_prod_unfold) fastforce

theorem pmksa_das_exact_witness:
  "\<exists>c c'. cache_rep c [(7, demo_entry 1)] \<and> cache_rep c' [] \<and> pmksa_cache_auth_radius_das_disconnect
     \<lparr>das_sta_addr = Some (replicate 6 1), das_user_name = None, das_acct_session_id = None, das_acct_multi_session_id = None, das_cui = None\<rparr>
     c = Some (0, c')"
proof -
  let ?attr = "\<lparr>das_sta_addr = Some (replicate 6 1), das_user_name = None, das_acct_session_id = None, das_acct_multi_session_id = None, das_cui = None\<rparr>"
  obtain c where c: "cache_rep c [(7, demo_entry 1)]" using demo_add by blast
  have h: "das_hit ?attr (demo_entry 1)" by (simp add: das_hit_def demo_entry_def)
  obtain r c' where "pmksa_cache_auth_radius_das_disconnect ?attr c = Some (r, c')"
      "cache_rep c' (filter (\<lambda>(a, e). \<not> das_hit ?attr e) [(7, demo_entry 1)])"
      "r = 0 \<longleftrightarrow> (\<exists>(a, e) \<in> set [(7 :: nat, demo_entry 1)]. das_hit ?attr e)"
    using pmksa_das_exact [OF c, of ?attr] by (auto simp: ETH_ALEN_def)
  then show ?thesis using h c by auto
qed

text \<open>The histories in which every entry comes from \<open>pmksa_cache_auth_add_entry\<close>, none from \<open>pmksa_cache_add_okc\<close>.\<close>

inductive capped_reach :: "rsn_pmksa_cache \<Rightarrow> bool" where
  init: "pmksa_cache_auth_init ok = Some c \<Longrightarrow> capped_reach c"
| add: "capped_reach c \<Longrightarrow> store c a = None \<Longrightarrow> entry_ok e \<Longrightarrow>
    pmksa_cache_auth_add_entry now (Some (a, e)) c = Some (r, c') \<Longrightarrow> capped_reach c'"
| free: "capped_reach c \<Longrightarrow> store c a = Some e \<Longrightarrow> pmksa_cache_free_entry a c = Some c' \<Longrightarrow> capped_reach c'"
| flush: "capped_reach c \<Longrightarrow> pmksa_cache_auth_flush c = Some c' \<Longrightarrow> capped_reach c'"
| expire: "capped_reach c \<Longrightarrow> pmksa_cache_expire now c = Some c' \<Longrightarrow> capped_reach c'"
| das: "capped_reach c \<Longrightarrow> (\<And>s. das_sta_addr attr = Some s \<Longrightarrow> length s = ETH_ALEN) \<Longrightarrow>
    pmksa_cache_auth_radius_das_disconnect attr c = Some (n, c') \<Longrightarrow> capped_reach c'"

lemma capped_reach_reach: "capped_reach c \<Longrightarrow> cache_reach c"
  by (induction rule: capped_reach.induct) (blast intro: cache_reach.intros)+

lemma capped_rep: "capped_reach c \<Longrightarrow> \<exists>L. cache_rep c L \<and> int (length L) \<le> pmksa_cache_max_entries"
proof (induction rule: capped_reach.induct)
  case (init ok c)
  then have "cache_rep c []" by (rule init_ok)
  then show ?case by (intro exI [of _ "[]"]) (simp add: pmksa_cache_max_entries_def)
next
  case (add c a e now r c')
  then obtain L where L: "cache_rep c L" "int (length L) \<le> pmksa_cache_max_entries" by blast
  have "cache_rep c' (abs_add a e L)" using add_entry_ok [OF L(1) add.hyps(2,3), of now] add.hyps(4) by auto
  then show ?case using length_abs_add [OF L(2)] by blast
next
  case (free c a e c')
  then obtain L where L: "cache_rep c L" "int (length L) \<le> pmksa_cache_max_entries" by blast
  have "length (abs_free a L) \<le> length L" by (simp add: abs_free_def)
  moreover have "cache_rep c' (abs_free a L)" using free_ok [OF L(1) cache_rep_entry [OF L(1) free.hyps(2)]] free.hyps(3) by auto
  ultimately show ?case using L(2) by (intro exI [of _ "abs_free a L"]) linarith
next
  case (flush c c')
  then have "cache_rep c' []" using flush_ok [of c] by auto
  then show ?case by (intro exI [of _ "[]"]) (simp add: pmksa_cache_max_entries_def)
next
  case (expire c now c')
  then obtain L where L: "cache_rep c L" "int (length L) \<le> pmksa_cache_max_entries" by blast
  let ?L = "filter (\<lambda>x. now < e_expiration (snd x)) L"
  have "cache_rep c' ?L" using expire_ok [OF L(1), of now] expire.hyps(2) by auto
  moreover have "length ?L \<le> length L" by (rule length_filter_le)
  ultimately show ?case using L(2) by (intro exI [of _ ?L]) linarith
next
  case (das c attr n c')
  then obtain L where L: "cache_rep c L" "int (length L) \<le> pmksa_cache_max_entries" by blast
  show ?case
  proof (cases "das_acct_session_id attr")
    case None
    let ?L = "filter (\<lambda>x. \<not> das_hit attr (snd x)) L"
    have "cache_rep c' ?L" using das_ok [OF L(1) das.hyps(2) None] das.hyps(3) by auto
    moreover have "length ?L \<le> length L" by (rule length_filter_le)
    ultimately show ?thesis using L(2) by (intro exI [of _ ?L]) linarith
  next
    case (Some v)
    then show ?thesis using das.hyps(3) L by (auto simp: pmksa_cache_auth_radius_das_disconnect_def)
  qed
qed

text \<open>
  C23: on every history in which no opportunistic entry is made (\<open>pmksa_cache_add_okc\<close>), the cache never has more
  than 1024 entries: \<open>pmksa_cache_auth_add_entry\<close> removes the entry that expires first from a full cache. The
  example is a full cache, to which an entry of another station is added.
\<close>

theorem pmksa_count_bound:
  assumes "capped_reach c"
  shows "0 \<le> pmksa_count c \<and> pmksa_count c \<le> pmksa_cache_max_entries"
  using capped_rep [OF assms] by (auto simp: cache_rep_def)

text \<open>A history of 1024 stations fills the cache.\<close>

definition nth_entry :: "nat \<Rightarrow> rsn_pmksa_cache_entry" where
  "nth_entry n = (demo_entry 1)\<lparr>e_spa := [0, 0, 0, 0, word_of_nat (n div 256), word_of_nat (n mod 256)]\<rparr>"

lemma nth_entry_ok: "entry_ok (nth_entry n)"
  by (simp add: nth_entry_def entry_ok_def demo_entry_def PMKID_LEN_def ETH_ALEN_def)

lemma nth_entry_inj:
  assumes "e_spa (nth_entry m) = e_spa (nth_entry n)" "m \<le> 1024" "n \<le> 1024"
  shows "m = n"
proof -
  have w: "k = l" if "(word_of_nat k :: u8) = word_of_nat l" "k < 256" "l < 256" for k l
    using arg_cong [OF that(1), of unat] that(2,3) by (simp add: unat_of_nat)
  have "(word_of_nat (m div 256) :: u8) = word_of_nat (n div 256)" "(word_of_nat (m mod 256) :: u8) = word_of_nat (n mod 256)"
    using assms(1) by (simp_all add: nth_entry_def)
  moreover have "m div 256 < 256" "n div 256 < 256" "m mod 256 < 256" "n mod 256 < 256" using assms(2,3) by simp_all
  ultimately have e: "m div 256 = n div 256" "m mod 256 = n mod 256" by (blast intro: w)+
  have "m = m div 256 * 256 + m mod 256" by (rule div_mult_mod_eq [symmetric])
  also have "\<dots> = n" unfolding e by (rule div_mult_mod_eq)
  finally show ?thesis .
qed

lemma unused_address:
  assumes "cache_rep c L" "\<And>x. x \<in> set L \<Longrightarrow> fst x < n" shows "store c n = None"
proof (rule ccontr)
  assume "store c n \<noteq> None"
  then obtain e where "store c n = Some e" by blast
  from cache_rep_entry [OF assms(1) this] show False using assms(2) by fastforce
qed

lemma length_abs_link: "length (abs_link a e L) = Suc (length L)"
  by (simp add: abs_link_def) (metis length_append takeWhile_dropWhile_id)

lemma cache_of_size:
  "n \<le> 1024 \<Longrightarrow> \<exists>c L. capped_reach c \<and> cache_rep c L \<and> length L = n
     \<and> (\<forall>x \<in> set L. fst x < n \<and> (\<exists>k < n. e_spa (snd x) = e_spa (nth_entry k)))"
proof (induction n)
  case 0
  have "pmksa_cache_auth_init True = Some demo_cache" by (simp add: demo_cache_def pmksa_cache_auth_init_def)
  then show ?case using capped_reach.init init_ok by fastforce
next
  case (Suc n)
  then obtain c L where c: "capped_reach c" "cache_rep c L" "length L = n"
      "\<And>x. x \<in> set L \<Longrightarrow> fst x < n \<and> (\<exists>k < n. e_spa (snd x) = e_spa (nth_entry k))" by (auto)
  have new: "store c n = None" using unused_address [OF c(2)] c(4) by blast
  obtain c' where c': "pmksa_cache_auth_add_entry 0 (Some (n, nth_entry n)) c = Some (0, c')" "cache_rep c' (abs_add n (nth_entry n) L)"
    using add_entry_ok [OF c(2) new nth_entry_ok] by blast
  have "List.find (\<lambda>x. e_spa (snd x) = e_spa (nth_entry n)) L = None"
    unfolding find_None_iff using c(4) nth_entry_inj [of _ n] Suc.prems by fastforce
  then have a: "abs_add n (nth_entry n) L = abs_link n (nth_entry n) L"
    using Suc.prems c(3) by (simp add: abs_add_def replace_spa_def evict_def pmksa_cache_max_entries_def)
  have "set (abs_link n (nth_entry n) L) \<subseteq> insert (n, payload (nth_entry n)) (set L)"
    by (auto simp: abs_link_def dest: set_takeWhileD set_dropWhileD)
  then have "\<forall>x \<in> set (abs_link n (nth_entry n) L). fst x < Suc n \<and> (\<exists>k < Suc n. e_spa (snd x) = e_spa (nth_entry k))"
    using c(4) by (force simp: payload_def less_Suc_eq)
  then show ?case
    using c'(2) capped_reach.add [OF c(1) new nth_entry_ok c'(1)] c(3) unfolding a by (metis length_abs_link)
qed

lemma full_cache:
  obtains c L where "capped_reach c" "cache_rep c L" "length L = 1024" "store c 1024 = None"
proof -
  obtain c L where c: "capped_reach c" "cache_rep c L" "length L = 1024" "\<forall>x \<in> set L. fst x < 1024"
    using cache_of_size [of 1024] by fastforce
  have "store c 1024 = None" using unused_address [OF c(2)] c(4) by blast
  then show ?thesis using that c by blast
qed

theorem pmksa_count_bound_witness:
  "\<exists>c c'. capped_reach c \<and> pmksa_count c = 1024 \<and> pmksa_cache_auth_add_entry 0 (Some (1024, nth_entry 1024)) c = Some (0, c')
     \<and> 0 \<le> pmksa_count c' \<and> pmksa_count c' \<le> pmksa_cache_max_entries"
proof -
  obtain c L where c: "capped_reach c" "cache_rep c L" "length L = 1024" "store c 1024 = None" by (rule full_cache)
  obtain c' where c': "pmksa_cache_auth_add_entry 0 (Some (1024, nth_entry 1024)) c = Some (0, c')"
    using add_entry_ok [OF c(2,4) nth_entry_ok] by blast
  have "pmksa_count c = 1024" using c(2,3) by (simp add: cache_rep_def)
  then show ?thesis using c(1) c' pmksa_count_bound [OF capped_reach.add [OF c(1,4) nth_entry_ok c']] by blast
qed

text \<open>With opportunistic entries the limit is not kept: one more is linked to a full cache.\<close>

lemma pmksa_okc_over_limit: "\<exists>c. cache_reach c \<and> pmksa_count c = pmksa_cache_max_entries + 1"
proof -
  obtain c L where c: "capped_reach c" "cache_rep c L" "length L = 1024" "store c 1024 = None" by (rule full_cache)
  obtain c' e where c': "pmksa_cache_add_okc (\<lambda>_. True) (Some 1024) 0 (nth_entry 0) (replicate PMKID_LEN 9) c = Some (Some 1024, c')"
      "cache_rep c' (abs_link 1024 e L)"
    using okc_ok [OF c(2) nth_entry_ok c(4), of "replicate PMKID_LEN 9"] by fastforce
  have "cache_reach c'"
    using cache_reach.okc [OF capped_reach_reach [OF c(1)] nth_entry_ok c(4) _ c'(1)] by simp
  moreover have "pmksa_count c' = pmksa_cache_max_entries + 1"
    using c'(2) c(3) by (simp add: cache_rep_def length_abs_link pmksa_cache_max_entries_def)
  ultimately show ?thesis by blast
qed

end
