(* ===== verification/Radius_Client.thy ===== *)
theory Radius_Client
  imports Ieee8021x_Radius Linked_List "HOL-Library.Signed_Division"
begin

unbundle bit_operations_syntax

text \<open>
  The RADIUS client, \<open>src/radius/radius_client.c\<close>: the list of pending requests with their
  retransmission, the change of servers, and the delivery of responses to the handlers. The entries
  of the list live in an explicit store (\<open>Linked_List\<close>), since functions keep pointers to entries while
  they call others that remove some. \<open>None\<close> is a fault, an abort or a loop that does not end.

  The authentication and the accounting side have the same fields and mostly the same code; here a
  side is a record, and \<open>auth\<close> tells which one is meant. The system calls are parameters: their
  results may depend on the number of calls made so far. The clock is constant during a call. Timers,
  transmissions and the callback for interim updates are recorded in \<open>client_outs\<close>. A handler is a
  function on the state \<open>'w\<close> of its owner and on the message, which it may change for the handlers behind it; it
  reads the request. Left out: text output,
  socket options, the destination port.
\<close>

section \<open>Data\<close>

definition RADIUS_CLIENT_FIRST_WAIT :: int where "RADIUS_CLIENT_FIRST_WAIT = 3"
definition RADIUS_CLIENT_MAX_WAIT :: int where "RADIUS_CLIENT_MAX_WAIT = 120"
definition RADIUS_CLIENT_MAX_FAILOVER :: int where "RADIUS_CLIENT_MAX_FAILOVER = 3"
definition RADIUS_CLIENT_MAX_ENTRIES :: u64 where "RADIUS_CLIENT_MAX_ENTRIES = 30"
definition RADIUS_CLIENT_NUM_FAILOVER :: int where "RADIUS_CLIENT_NUM_FAILOVER = 4"
definition RADIUS_CODE_ACCOUNTING_RESPONSE :: u8 where "RADIUS_CODE_ACCOUNTING_RESPONSE = 5"
definition RADIUS_ATTR_ACCT_DELAY_TIME :: u8 where "RADIUS_ATTR_ACCT_DELAY_TIME = 41"

datatype RadiusType = RADIUS_AUTH | RADIUS_ACCT | RADIUS_ACCT_INTERIM

datatype address_family = AF_INET | AF_INET6 | AF_UNSPEC

record hostapd_radius_server =
  srv_af :: address_family
  srv_secret :: "bytes option"
  srv_round_trip_time :: int
  srv_requests :: u32
  srv_retransmissions :: u32
  srv_access_accepts :: u32
  srv_access_rejects :: u32
  srv_access_challenges :: u32
  srv_responses :: u32
  srv_malformed_responses :: u32
  srv_bad_authenticators :: u32
  srv_timeouts :: u32
  srv_unknown_types :: u32

type_synonym 'w radius_rx_handler = "radius_msg \<Rightarrow> radius_msg \<Rightarrow> bytes \<Rightarrow> 'w \<Rightarrow> (RadiusRxResult \<times> radius_msg \<times> 'w) run"

record radius_msg_list =
  l_addr :: bytes
  l_msg :: radius_msg
  l_msg_type :: RadiusType
  l_first_try :: int
  l_next_try :: int
  l_attempts :: int
  l_accu_attempts :: int
  l_next_wait :: int
  l_last_attempt :: "int \<times> int"
  l_shared_secret :: bytes
  l_next :: "nat option"

text \<open>One side: the servers with the index of the current one, the sockets, the handlers.\<close>

record 'w radius_side =
  servers :: "hostapd_radius_server list"
  server :: "nat option"
  serv_sock :: int
  serv_sock6 :: int
  cur_sock :: int
  rx_handlers :: "'w radius_rx_handler list"

datatype client_out = Cancel_Timer | Register_Timer int | Transmit int bytes | Interim_Error bytes | Register_Retry int | Cancel_Retry

record 'w radius_client_data =
  auth_side :: "'w radius_side"
  acct_side :: "'w radius_side"
  msg_store :: "nat \<Rightarrow> radius_msg_list option"
  msgs :: "nat option"
  num_msgs :: u64
  next_radius_identifier :: u8
  interim_error_cb :: bool
  client_outs :: "client_out list"
  io_count :: nat

datatype send_result = Sent | Send_Failed bool

text \<open>
  The system: the descriptor of a new socket (negative on failure), whether \<open>connect\<close>, \<open>bind\<close> and the
  registration with the event loop succeed, the result of \<open>send\<close> (\<open>Send_Failed True\<close> for the errors that
  make the client connect again), and the forced client address.
\<close>

record client_env =
  c_radius :: radius_env
  config_ipv6 :: bool
  sys_socket :: "nat \<Rightarrow> int"
  sys_connect :: "nat \<Rightarrow> bool"
  sys_bind :: "nat \<Rightarrow> bool"
  sys_register :: "nat \<Rightarrow> bool"
  sys_send :: "nat \<Rightarrow> send_result"
  force_client_addr :: "address_family option"
  retry_primary_interval :: int

definition run_ub :: "'a run \<Rightarrow> 'a ub" where
  "run_ub r = (case r of Ok x \<Rightarrow> Some x | _ \<Rightarrow> None)"

definition is_acct :: "RadiusType \<Rightarrow> bool" where
  "is_acct t \<longleftrightarrow> t = RADIUS_ACCT \<or> t = RADIUS_ACCT_INTERIM"

definition side :: "bool \<Rightarrow> 'w radius_client_data \<Rightarrow> 'w radius_side" where
  "side auth c = (if auth then auth_side c else acct_side c)"

definition on_side :: "bool \<Rightarrow> ('w radius_side \<Rightarrow> 'w radius_side) \<Rightarrow> 'w radius_client_data \<Rightarrow> 'w radius_client_data" where
  "on_side auth f c = (if auth then c\<lparr>auth_side := f (auth_side c)\<rparr> else c\<lparr>acct_side := f (acct_side c)\<rparr>)"

definition client_out :: "client_out \<Rightarrow> 'w radius_client_data \<Rightarrow> 'w radius_client_data" where
  "client_out e c = c\<lparr>client_outs := e # client_outs c\<rparr>"

definition sys_call :: "(nat \<Rightarrow> 'r) \<Rightarrow> 'w radius_client_data \<Rightarrow> 'r \<times> 'w radius_client_data" where
  "sys_call f c = (f (io_count c), c\<lparr>io_count := io_count c + 1\<rparr>)"

text \<open>A change of the current server through its pointer.\<close>

definition on_server :: "bool \<Rightarrow> (hostapd_radius_server \<Rightarrow> hostapd_radius_server) \<Rightarrow> 'w radius_client_data \<Rightarrow> 'w radius_client_data ub" where
  "on_server auth f c =
     (case server (side auth c) of
        None \<Rightarrow> None
      | Some i \<Rightarrow> if i < length (servers (side auth c))
                  then Some (on_side auth (\<lambda>s. s\<lparr>servers := (servers s)[i := f (servers s ! i)]\<rparr>) c) else None)"

section \<open>The list of pending requests\<close>

abbreviation put_next :: "nat option \<Rightarrow> radius_msg_list \<Rightarrow> radius_msg_list" where
  "put_next v e \<equiv> e\<lparr>l_next := v\<rparr>"

definition remove_msgs :: "(radius_msg_list \<Rightarrow> bool ub) \<Rightarrow> 'w radius_client_data \<Rightarrow> (nat \<times> 'w radius_client_data) ub" where
  "remove_msgs match c = do {
     (head, st, n) \<leftarrow> remove_where l_next put_next match None (msgs c) (msgs c) (msg_store c) 0;
     Some (n, c\<lparr>msgs := head, msg_store := st\<rparr>) }"

definition radius_client_flush :: "bool \<Rightarrow> 'w radius_client_data \<Rightarrow> 'w radius_client_data ub" where
  "radius_client_flush only_auth c = do {
     (n, c) \<leftarrow> remove_msgs (\<lambda>e. Some (\<not> only_auth \<or> l_msg_type e = RADIUS_AUTH)) c;
     let c = c\<lparr>num_msgs := num_msgs c - word_of_nat n\<rparr>;
     Some (if msgs c = None then client_out Cancel_Timer c else c) }"

definition radius_client_flush_auth :: "bytes \<Rightarrow> 'w radius_client_data \<Rightarrow> 'w radius_client_data ub" where
  "radius_client_flush_auth addr c = do {
     (n, c) \<leftarrow> remove_msgs (\<lambda>e. if l_msg_type e = RADIUS_AUTH then mem_equal (l_addr e) addr ETH_ALEN else Some False) c;
     Some (c\<lparr>num_msgs := num_msgs c - word_of_nat n\<rparr>) }"

text \<open>\<open>num_msgs\<close> is not changed.\<close>

definition radius_client_get_id :: "'w radius_client_data \<Rightarrow> (u8 \<times> 'w radius_client_data) ub" where
  "radius_client_get_id c = (let id = next_radius_identifier c in do {
     (n, c) \<leftarrow> remove_msgs (\<lambda>e. map_option (\<lambda>i. i = id) (hdr_identifier (l_msg e))) (c\<lparr>next_radius_identifier := id + 1\<rparr>);
     Some (id, c) })"

definition radius_client_update_acct_msgs :: "client_env \<Rightarrow> bytes \<Rightarrow> 'w radius_client_data \<Rightarrow> 'w radius_client_data ub" where
  "radius_client_update_acct_msgs env secret c = do {
     st \<leftarrow> for_each l_next (\<lambda>e. if l_msg_type e = RADIUS_ACCT
            then do { m \<leftarrow> run_ub (radius_msg_finish_acct (c_radius env) (l_msg e) secret);
                      Some (e\<lparr>l_shared_secret := secret, l_msg := m\<rparr>) }
            else Some e) (msgs c) (msg_store c);
     Some (c\<lparr>msg_store := st\<rparr>) }"

section \<open>Servers and sockets\<close>

definition secret_bytes :: "hostapd_radius_server \<Rightarrow> bytes" where
  "secret_bytes s = (case srv_secret s of None \<Rightarrow> [] | Some b \<Rightarrow> b)"

text \<open>The beginning of \<open>radius_change_server\<close>: what happens to the pending messages.\<close>

definition change_messages :: "client_env \<Rightarrow> bool \<Rightarrow> nat \<Rightarrow> nat option \<Rightarrow> 'w radius_client_data \<Rightarrow> 'w radius_client_data ub" where
  "change_messages env auth nserv oserv c = do {
     c \<leftarrow> (if oserv = Some nserv \<and> auth then radius_client_flush True c else Some c);
     c \<leftarrow> (case oserv of
             None \<Rightarrow> Some c
           | Some i \<Rightarrow>
             let n = secret_bytes (servers (side auth c) ! nserv); old = secret_bytes (servers (side auth c) ! i) in
             if i \<noteq> nserv \<and> n \<noteq> old
             then if auth then radius_client_flush True c else radius_client_update_acct_msgs env n c
             else Some c);
     st \<leftarrow> (if oserv = None then Some (msg_store c)
            else for_each l_next (\<lambda>e. Some (if l_msg_type e \<noteq> (if auth then RADIUS_AUTH else RADIUS_ACCT) then e
                   else e\<lparr>l_next_try := l_first_try e + RADIUS_CLIENT_FIRST_WAIT, l_attempts := 0,
                          l_next_wait := RADIUS_CLIENT_FIRST_WAIT * 2\<rparr>)) (msgs c) (msg_store c));
     let c = c\<lparr>msg_store := st\<rparr>;
     Some (if msgs c \<noteq> None then client_out (Register_Timer RADIUS_CLIENT_FIRST_WAIT) (client_out Cancel_Timer c) else c) }"

text \<open>Its end: the socket is connected to the new server.\<close>

definition connect_server :: "client_env \<Rightarrow> bool \<Rightarrow> nat \<Rightarrow> 'w radius_client_data \<Rightarrow> int \<times> 'w radius_client_data" where
  "connect_server env auth nserv c =
     (let s = side auth c; af = srv_af (servers s ! nserv) in
      if af = AF_UNSPEC \<or> (af = AF_INET6 \<and> \<not> config_ipv6 env) then (-1, c)
      else
      let sel = (if af = AF_INET then serv_sock s else serv_sock6 s) in
      if sel < 0 then (-1, c)
      else
      let (_, c) = sys_call (sys_connect env) c;
          (ok, c) = (case force_client_addr env of
                       None \<Rightarrow> (True, c)
                     | Some caf \<Rightarrow> if caf = AF_UNSPEC \<or> (caf = AF_INET6 \<and> \<not> config_ipv6 env) then (False, c)
                                   else sys_call (sys_bind env) c) in
      if \<not> ok then (-1, c)
      else
      let (ok, c) = sys_call (sys_connect env) c in
      if \<not> ok then (-1, c)
      else (0, on_side auth (\<lambda>s. s\<lparr>cur_sock := sel\<rparr>) c))"

definition radius_change_server :: "client_env \<Rightarrow> bool \<Rightarrow> nat \<Rightarrow> nat option \<Rightarrow> 'w radius_client_data \<Rightarrow> (int \<times> 'w radius_client_data) ub" where
  "radius_change_server env auth nserv oserv c = do {
     c \<leftarrow> change_messages env auth nserv oserv c;
     Some (connect_server env auth nserv c) }"

text \<open>\<open>radius_close_auth_sockets\<close> and \<open>radius_close_acct_sockets\<close>.\<close>

definition close_sockets :: "bool \<Rightarrow> 'w radius_client_data \<Rightarrow> 'w radius_client_data" where
  "close_sockets auth c = on_side auth (\<lambda>s. s\<lparr>cur_sock := -1, serv_sock := -1, serv_sock6 := -1\<rparr>) c"

text \<open>\<open>radius_client_init_auth\<close> and \<open>radius_client_init_acct\<close>.\<close>

definition open_sockets :: "client_env \<Rightarrow> bool \<Rightarrow> 'w radius_client_data \<Rightarrow> (int \<times> 'w radius_client_data) ub" where
  "open_sockets env auth c =
     (let c = close_sockets auth c;
          (s4, c) = sys_call (sys_socket env) c;
          (s6, c) = (if config_ipv6 env then sys_call (sys_socket env) c else (-1, c));
          c = on_side auth (\<lambda>s. s\<lparr>serv_sock := s4, serv_sock6 := s6\<rparr>) c in
      if s4 < 0 \<and> s6 < 0 then Some (-1, c)
      else case server (side auth c) of
        None \<Rightarrow> None
      | Some i \<Rightarrow> do {
          (_, c) \<leftarrow> radius_change_server env auth i None c;
          let (ok4, c) = (if s4 \<ge> 0 then sys_call (sys_register env) c else (True, c));
          if \<not> ok4 then Some (-1, close_sockets auth c)
          else do {
            let (ok6, c) = (if s6 \<ge> 0 then sys_call (sys_register env) c else (True, c));
            Some (if \<not> ok6 then (-1, close_sockets auth c) else (0, c)) } })"

definition radius_client_init_auth :: "client_env \<Rightarrow> 'w radius_client_data \<Rightarrow> (int \<times> 'w radius_client_data) ub" where
  "radius_client_init_auth env c = open_sockets env True c"

definition radius_client_init_acct :: "client_env \<Rightarrow> 'w radius_client_data \<Rightarrow> (int \<times> 'w radius_client_data) ub" where
  "radius_client_init_acct env c = open_sockets env False c"

definition init_side :: "client_env \<Rightarrow> bool \<Rightarrow> 'w radius_client_data \<Rightarrow> (int \<times> 'w radius_client_data) ub" where
  "init_side env auth c = (if auth then radius_client_init_auth env c else radius_client_init_acct env c)"

text \<open>\<open>radius_client_auth_failover\<close> and \<open>radius_client_acct_failover\<close>.\<close>

definition failover :: "client_env \<Rightarrow> bool \<Rightarrow> 'w radius_client_data \<Rightarrow> 'w radius_client_data ub" where
  "failover env auth c = do {
     n \<leftarrow> fold_list l_next (\<lambda>e k. if is_acct (l_msg_type e) = auth then k else k + 1) (msgs c) (msg_store c) (0 :: nat);
     old \<leftarrow> server (side auth c);
     c \<leftarrow> on_server auth (\<lambda>s. s\<lparr>srv_timeouts := srv_timeouts s + word_of_nat n\<rparr>) c;
     let new = (if old + 1 \<ge> length (servers (side auth c)) then 0 else old + 1);
     let c = on_side auth (\<lambda>s. s\<lparr>server := Some new\<rparr>) c;
     (_, c) \<leftarrow> radius_change_server env auth new (Some old) c;
     Some c }"

definition radius_client_auth_failover :: "client_env \<Rightarrow> 'w radius_client_data \<Rightarrow> 'w radius_client_data ub" where
  "radius_client_auth_failover env c = failover env True c"

definition radius_client_acct_failover :: "client_env \<Rightarrow> 'w radius_client_data \<Rightarrow> 'w radius_client_data ub" where
  "radius_client_acct_failover env c = failover env False c"

definition failover_side :: "client_env \<Rightarrow> bool \<Rightarrow> 'w radius_client_data \<Rightarrow> 'w radius_client_data ub" where
  "failover_side env auth c = (if auth then radius_client_auth_failover env c else radius_client_acct_failover env c)"

text \<open>\<open>radius_retry_primary_timer\<close>: back to the first server of a side.\<close>

definition retry_primary :: "client_env \<Rightarrow> bool \<Rightarrow> 'w radius_client_data \<Rightarrow> 'w radius_client_data ub" where
  "retry_primary env auth c =
     (case server (side auth c) of
        Some oserv \<Rightarrow>
          if cur_sock (side auth c) \<ge> 0 \<and> servers (side auth c) \<noteq> [] \<and> oserv \<noteq> 0
          then do {
            (r, c) \<leftarrow> radius_change_server env auth 0 (Some oserv) (on_side auth (\<lambda>s. s\<lparr>server := Some 0\<rparr>) c);
            if r < 0 then do {
              (_, c) \<leftarrow> radius_change_server env auth oserv (Some oserv) (on_side auth (\<lambda>s. s\<lparr>server := Some oserv\<rparr>) c);
              Some c }
            else Some c }
          else Some c
      | None \<Rightarrow> if cur_sock (side auth c) \<ge> 0 \<and> servers (side auth c) \<noteq> []
                then do {
                  (r, c) \<leftarrow> radius_change_server env auth 0 None (on_side auth (\<lambda>s. s\<lparr>server := Some 0\<rparr>) c);
                  if r < 0 then None else Some c }
                else Some c)"

definition radius_retry_primary_timer :: "client_env \<Rightarrow> 'w radius_client_data \<Rightarrow> 'w radius_client_data ub" where
  "radius_retry_primary_timer env c = do {
     c \<leftarrow> retry_primary env True c;
     c \<leftarrow> retry_primary env False c;
     Some (if retry_primary_interval env \<noteq> 0 then client_out (Register_Retry (retry_primary_interval env)) c else c) }"

section \<open>Requests\<close>

definition radius_client_handle_send_error :: "client_env \<Rightarrow> bool \<Rightarrow> RadiusType \<Rightarrow> 'w radius_client_data \<Rightarrow> (int \<times> 'w radius_client_data) ub" where
  "radius_client_handle_send_error env reconnect msg_type c =
     (if reconnect
      then if is_acct msg_type then do { (_, c) \<leftarrow> radius_client_init_acct env c; Some (0, c) }
           else do { (_, c) \<leftarrow> radius_client_init_auth env c; Some (1, c) }
      else Some (0, c))"

text \<open>The earliest next transmission; \<open>first\<close> is 0 before the first entry.\<close>

definition earliest :: "radius_msg_list \<Rightarrow> int \<Rightarrow> int" where
  "earliest e first = (if first = 0 \<or> l_next_try e < first then l_next_try e else first)"

definition register_timer :: "int \<Rightarrow> int \<Rightarrow> 'w radius_client_data \<Rightarrow> 'w radius_client_data" where
  "register_timer first now c = client_out (Register_Timer ((if first < now then now else first) - now)) (client_out Cancel_Timer c)"

definition radius_client_update_timeout :: "int \<times> int \<Rightarrow> 'w radius_client_data \<Rightarrow> 'w radius_client_data ub" where
  "radius_client_update_timeout now c =
     (if msgs c = None then Some (client_out Cancel_Timer c)
      else do {
        first \<leftarrow> fold_list l_next earliest (msgs c) (msg_store c) 0;
        Some (register_timer first (fst now) c) })"

definition cap_wait :: "int \<Rightarrow> int" where
  "cap_wait w = (if w > RADIUS_CLIENT_MAX_WAIT then RADIUS_CLIENT_MAX_WAIT else w)"

text \<open>\<open>new\<close> is the address of the new entry; the message is released when there is none.\<close>

definition radius_client_list_add ::
  "bool \<Rightarrow> nat option \<Rightarrow> int \<times> int \<Rightarrow> radius_msg \<Rightarrow> RadiusType \<Rightarrow> bytes \<Rightarrow> bytes option \<Rightarrow> 'w radius_client_data \<Rightarrow> 'w radius_client_data ub" where
  "radius_client_list_add terminated new now msg msg_type secret addr c =
     (if terminated then Some c
      else case new of
        None \<Rightarrow> Some c
      | Some a \<Rightarrow> do {
          let entry = \<lparr>l_addr = (case addr of Some d \<Rightarrow> take ETH_ALEN d | None \<Rightarrow> replicate ETH_ALEN 0), l_msg = msg, l_msg_type = msg_type,
                       l_first_try = fst now, l_next_try = fst now + RADIUS_CLIENT_FIRST_WAIT, l_attempts = 1, l_accu_attempts = 1,
                       l_next_wait = cap_wait (RADIUS_CLIENT_FIRST_WAIT * 2), l_last_attempt = now, l_shared_secret = secret,
                       l_next = msgs c\<rparr>;
          c \<leftarrow> radius_client_update_timeout now (c\<lparr>msg_store := (msg_store c)(a \<mapsto> entry), msgs := Some a\<rparr>);
          if num_msgs c \<ge> RADIUS_CLIENT_MAX_ENTRIES
          then do {
            (prev, last) \<leftarrow> find_last l_next (msg_store c) None a;
            case prev of
              None \<Rightarrow> Some c
            | Some p \<Rightarrow> do { pe \<leftarrow> msg_store c p; Some (c\<lparr>msg_store := (msg_store c)(p \<mapsto> put_next None pe, last := None)\<rparr>) } }
          else Some (c\<lparr>num_msgs := num_msgs c + 1\<rparr>) })"

definition transmit :: "client_env \<Rightarrow> int \<Rightarrow> radius_msg \<Rightarrow> 'w radius_client_data \<Rightarrow> send_result \<times> 'w radius_client_data" where
  "transmit env s msg c = sys_call (sys_send env) (client_out (Transmit s (radius_content msg)) c)"

definition radius_client_send ::
  "client_env \<Rightarrow> bool \<Rightarrow> nat option \<Rightarrow> int \<times> int \<Rightarrow> radius_msg \<Rightarrow> RadiusType \<Rightarrow> bytes option \<Rightarrow> 'w radius_client_data \<Rightarrow> (int \<times> 'w radius_client_data) ub" where
  "radius_client_send env terminated new now msg msg_type addr c =
     (let auth = (\<not> is_acct msg_type) in do {
        c \<leftarrow> (if server (side auth c) \<noteq> None \<and> cur_sock (side auth c) < 0 then map_option snd (init_side env auth c) else Some c);
        case server (side auth c) of
          None \<Rightarrow> Some (-1, c)
        | Some i \<Rightarrow>
          (case srv_secret (servers (side auth c) ! i) of
             None \<Rightarrow> Some (-1, c)
           | Some secret \<Rightarrow>
             if cur_sock (side auth c) < 0 then Some (-1, c)
             else do {
               msg \<leftarrow> (if auth then map_option snd (run_ub (radius_msg_finish (c_radius env) msg (Some secret)))
                       else run_ub (radius_msg_finish_acct (c_radius env) msg secret));
               c \<leftarrow> on_server auth (\<lambda>s. s\<lparr>srv_requests := srv_requests s + 1\<rparr>) c;
               let (res, c) = transmit env (cur_sock (side auth c)) msg c;
               c \<leftarrow> (case res of
                       Sent \<Rightarrow> Some c
                     | Send_Failed reconnect \<Rightarrow> map_option snd (radius_client_handle_send_error env reconnect msg_type c));
               c \<leftarrow> radius_client_list_add terminated new now msg msg_type secret addr c;
               Some (0, c) }) })"

section \<open>Retransmission\<close>

text \<open>The message of an accounting request gets a new identifier and its waiting time.\<close>

definition refresh_acct :: "client_env \<Rightarrow> nat \<Rightarrow> int \<Rightarrow> 'w radius_client_data \<Rightarrow> 'w radius_client_data ub" where
  "refresh_acct env entry now c = do {
     e \<leftarrow> msg_store c entry;
     a \<leftarrow> (if l_msg_type e = RADIUS_ACCT then radius_msg_get_attr_ptr (l_msg e) RADIUS_ATTR_ACCT_DELAY_TIME None else Some None);
     case a of
       None \<Rightarrow> Some c
     | Some (pos, n) \<Rightarrow> if n \<noteq> 4 then Some c else do {
         (id, c) \<leftarrow> radius_client_get_id c;
         e \<leftarrow> msg_store c entry;
         m \<leftarrow> run_ub (radius_write (l_msg e) 1 [id]);
         m \<leftarrow> run_ub (radius_write m pos (WPA_PUT_BE32 (word_of_int (now - l_first_try e))));
         m \<leftarrow> run_ub (radius_msg_finish_acct (c_radius env) m (l_shared_secret e));
         Some (c\<lparr>msg_store := (msg_store c)(entry \<mapsto> e\<lparr>l_msg := m\<rparr>)\<rparr>) } }"

definition send_again :: "client_env \<Rightarrow> nat \<Rightarrow> int \<times> int \<Rightarrow> int \<Rightarrow> 'w radius_client_data \<Rightarrow> (bool \<times> 'w radius_client_data) ub" where
  "send_again env entry now s c = do {
     e \<leftarrow> msg_store c entry;
     let e = e\<lparr>l_attempts := l_attempts e + 1, l_accu_attempts := l_accu_attempts e + 1, l_last_attempt := now\<rparr>;
     let (res, c) = transmit env s (l_msg e) (c\<lparr>msg_store := (msg_store c)(entry \<mapsto> e)\<rparr>);
     (flushed, c) \<leftarrow> (case res of Sent \<Rightarrow> Some (0, c) | Send_Failed reconnect \<Rightarrow> radius_client_handle_send_error env reconnect (l_msg_type e) c);
     if flushed > 0 then Some (False, c)
     else do {
       e \<leftarrow> msg_store c entry;
       Some (False, c\<lparr>msg_store := (msg_store c)(entry \<mapsto> e\<lparr>l_next_try := fst now + l_next_wait e, l_next_wait := cap_wait (l_next_wait e * 2)\<rparr>)\<rparr>) } }"

text \<open>The choice of the socket: also the number of messages before a change of the server.\<close>

definition choose_socket :: "client_env \<Rightarrow> bool \<Rightarrow> 'w radius_client_data \<Rightarrow> (u64 \<times> 'w radius_client_data) ub" where
  "choose_socket env auth c = do {
     c \<leftarrow> (if cur_sock (side auth c) < 0 then map_option snd (init_side env auth c) else Some c);
     if cur_sock (side auth c) < 0 \<and> length (servers (side auth c)) > 1
     then map_option (\<lambda>c'. (num_msgs c, c')) (failover_side env auth c) else Some (num_msgs c, c) }"

definition count_attempt :: "radius_msg_list \<Rightarrow> hostapd_radius_server \<Rightarrow> hostapd_radius_server" where
  "count_attempt e v = (if l_attempts e = 0 then v\<lparr>srv_requests := srv_requests v + 1\<rparr>
     else v\<lparr>srv_timeouts := srv_timeouts v + 1, srv_retransmissions := srv_retransmissions v + 1\<rparr>)"

text \<open>The result tells whether the entry is to be removed.\<close>

definition radius_client_retransmit :: "client_env \<Rightarrow> nat \<Rightarrow> int \<times> int \<Rightarrow> 'w radius_client_data \<Rightarrow> (bool \<times> 'w radius_client_data) ub" where
  "radius_client_retransmit env entry now c = do {
     e \<leftarrow> msg_store c entry;
     let t = l_msg_type e;
     let auth = (\<not> is_acct t);
     (before, c) \<leftarrow> choose_socket env auth c;
     if num_msgs c \<noteq> before then Some (False, c)
     else do {
       e \<leftarrow> msg_store c entry;
       let s = cur_sock (side auth c);
       c \<leftarrow> on_server auth (count_attempt e) c;
       if t = RADIUS_ACCT_INTERIM then Some (True, if interim_error_cb c then client_out (Interim_Error (l_addr e)) c else c)
       else if s < 0 then Some (True, c)
       else do {
         c \<leftarrow> refresh_acct env entry (fst now) c;
         e \<leftarrow> msg_store c entry;
         if l_accu_attempts e \<ge> RADIUS_CLIENT_MAX_FAILOVER * RADIUS_CLIENT_NUM_FAILOVER * int (length (servers (side auth c)))
         then Some (True, c)
         else send_again env entry now s c } } }"

text \<open>The first loop of \<open>radius_client_timer\<close>: the sides whose server does not answer.\<close>

definition failover_wanted :: "int \<Rightarrow> 'w radius_client_data \<Rightarrow> bool \<Rightarrow> radius_msg_list \<Rightarrow> bool" where
  "failover_wanted now c auth e \<longleftrightarrow> now \<ge> l_next_try e \<and> is_acct (l_msg_type e) \<noteq> auth \<and>
     (l_attempts e \<ge> RADIUS_CLIENT_NUM_FAILOVER
      \<or> cur_sock (side (l_msg_type e = RADIUS_AUTH) c) < 0 \<and> l_attempts e > 0)"

text \<open>The removal of \<open>entry\<close> in its second loop; the result is the next entry and the client.\<close>

definition remove_entry :: "nat option \<Rightarrow> nat \<Rightarrow> 'w radius_client_data \<Rightarrow> (nat option \<times> 'w radius_client_data) ub" where
  "remove_entry prev entry c = do {
     e \<leftarrow> msg_store c entry;
     c \<leftarrow> (case prev of
             None \<Rightarrow> Some (c\<lparr>msgs := l_next e\<rparr>)
           | Some p \<Rightarrow> do { pe \<leftarrow> msg_store c p; Some (c\<lparr>msg_store := (msg_store c)(p \<mapsto> put_next (l_next e) pe)\<rparr>) });
     Some (l_next e, c\<lparr>msg_store := (msg_store c)(entry := None), num_msgs := num_msgs c - 1\<rparr>) }"

partial_function (option) timer_loop ::
  "client_env \<Rightarrow> int \<times> int \<Rightarrow> nat option \<Rightarrow> nat option \<Rightarrow> int \<Rightarrow> 'w radius_client_data \<Rightarrow> (int \<times> 'w radius_client_data) ub" where
  "timer_loop env now prev entry first c =
     (case entry of
        None \<Rightarrow> Some (first, c)
      | Some p \<Rightarrow> (case msg_store c p of None \<Rightarrow> None | Some e \<Rightarrow>
         (case (if fst now \<ge> l_next_try e then radius_client_retransmit env p now c else Some (False, c)) of
            None \<Rightarrow> None
          | Some (remove, c') \<Rightarrow>
            if remove then (case remove_entry prev p c' of None \<Rightarrow> None | Some (nx, c'') \<Rightarrow> timer_loop env now prev nx first c'')
            else if num_msgs c' \<noteq> num_msgs c then timer_loop env now None (msgs c') first c'
            else (case msg_store c' p of None \<Rightarrow> None | Some e \<Rightarrow>
                    timer_loop env now (Some p) (l_next e) (earliest e first) c'))))"

declare timer_loop.simps [code]

definition radius_client_timer :: "client_env \<Rightarrow> int \<times> int \<Rightarrow> 'w radius_client_data \<Rightarrow> 'w radius_client_data ub" where
  "radius_client_timer env now c =
     (if msgs c = None then Some c
      else do {
        (auth, acct) \<leftarrow> fold_list l_next (\<lambda>e (x, y). (x \<or> failover_wanted (fst now) c True e, y \<or> failover_wanted (fst now) c False e))
                         (msgs c) (msg_store c) (False, False);
        c \<leftarrow> (if auth then failover_side env True c else Some c);
        c \<leftarrow> (if acct then failover_side env False c else Some c);
        (first, c) \<leftarrow> timer_loop env now None (msgs c) 0 c;
        Some (if msgs c \<noteq> None then register_timer first (fst now) c else c) })"

section \<open>Responses\<close>

datatype rx_packet = Rx_Error | Rx_Truncated | Rx bytes

text \<open>The handlers in their order, until one has processed or queued the message.\<close>

fun run_handlers ::
  "'w radius_rx_handler list \<Rightarrow> radius_msg \<Rightarrow> radius_msg \<Rightarrow> bytes \<Rightarrow> bool \<Rightarrow> 'w \<Rightarrow> (bool \<times> bool \<times> 'w) ub" where
  "run_handlers [] msg req secret invalid w = Some (False, invalid, w)"
| "run_handlers (h # hs) msg req secret invalid w = do {
     (r, msg, w) \<leftarrow> run_ub (h msg req secret w);
     case r of
       RADIUS_RX_PROCESSED \<Rightarrow> Some (True, invalid, w)
     | RADIUS_RX_QUEUED \<Rightarrow> Some (True, invalid, w)
     | RADIUS_RX_INVALID_AUTHENTICATOR \<Rightarrow> run_handlers hs msg req secret True w
     | RADIUS_RX_UNKNOWN \<Rightarrow> run_handlers hs msg req secret invalid w }"

definition count_response :: "u8 \<Rightarrow> hostapd_radius_server \<Rightarrow> hostapd_radius_server" where
  "count_response code s =
     (if code = RADIUS_CODE_ACCESS_ACCEPT then s\<lparr>srv_access_accepts := srv_access_accepts s + 1\<rparr>
      else if code = RADIUS_CODE_ACCESS_REJECT then s\<lparr>srv_access_rejects := srv_access_rejects s + 1\<rparr>
      else if code = RADIUS_CODE_ACCESS_CHALLENGE then s\<lparr>srv_access_challenges := srv_access_challenges s + 1\<rparr>
      else if code = RADIUS_CODE_ACCOUNTING_RESPONSE then s\<lparr>srv_responses := srv_responses s + 1\<rparr> else s)"

definition counted :: "u8 \<Rightarrow> bool" where
  "counted code \<longleftrightarrow> code \<in> {RADIUS_CODE_ACCESS_ACCEPT, RADIUS_CODE_ACCESS_REJECT, RADIUS_CODE_ACCESS_CHALLENGE, RADIUS_CODE_ACCOUNTING_RESPONSE}"

definition answers :: "RadiusType \<Rightarrow> u8 \<Rightarrow> radius_msg_list \<Rightarrow> bool ub" where
  "answers msg_type ident e =
     (if l_msg_type e = msg_type \<or> l_msg_type e = RADIUS_ACCT_INTERIM \<and> msg_type = RADIUS_ACCT
      then map_option (\<lambda>i. i = ident) (hdr_identifier (l_msg e)) else Some False)"

text \<open>In hundredths of a second, converted to \<open>int\<close>.\<close>

definition roundtrip :: "int \<times> int \<Rightarrow> radius_msg_list \<Rightarrow> int" where
  "roundtrip now e = c_int ((fst now - fst (l_last_attempt e)) * 100 + (snd now - snd (l_last_attempt e)) sdiv 10000)"

text \<open>The request is taken from the list before the handlers run and released behind them.\<close>

definition deliver ::
  "bool \<Rightarrow> int \<times> int \<Rightarrow> radius_msg \<Rightarrow> nat option \<Rightarrow> nat \<Rightarrow> 'w radius_client_data \<Rightarrow> 'w \<Rightarrow> ('w radius_client_data \<times> 'w) ub" where
  "deliver auth now msg prev_req req c w = do {
     e \<leftarrow> msg_store c req;
     c \<leftarrow> on_server auth (\<lambda>s. s\<lparr>srv_round_trip_time := roundtrip now e\<rparr>) c;
     c \<leftarrow> (case prev_req of
             None \<Rightarrow> Some (c\<lparr>msgs := l_next e\<rparr>)
           | Some p \<Rightarrow> do { pe \<leftarrow> msg_store c p; Some (c\<lparr>msg_store := (msg_store c)(p \<mapsto> put_next (l_next e) pe)\<rparr>) });
     let c = c\<lparr>num_msgs := num_msgs c - 1\<rparr>;
     (handled, invalid, w) \<leftarrow> run_handlers (rx_handlers (side auth c)) msg (l_msg e) (l_shared_secret e) False w;
     c \<leftarrow> (if handled then Some c
           else on_server auth (\<lambda>s. if invalid then s\<lparr>srv_bad_authenticators := srv_bad_authenticators s + 1\<rparr>
                                   else s\<lparr>srv_unknown_types := srv_unknown_types s + 1\<rparr>) c);
     Some (c\<lparr>msg_store := (msg_store c)(req := None)\<rparr>, w) }"

definition radius_client_receive ::
  "client_env \<Rightarrow> int \<times> int \<Rightarrow> RadiusType \<Rightarrow> rx_packet \<Rightarrow> 'w radius_client_data \<Rightarrow> 'w \<Rightarrow> ('w radius_client_data \<times> 'w) ub" where
  "radius_client_receive env now msg_type packet c w =
     (let auth = (msg_type \<noteq> RADIUS_ACCT) in
      case packet of
        Rx buf \<Rightarrow> do {
          m \<leftarrow> run_ub (radius_msg_parse (c_radius env) (Some buf));
          case m of
            None \<Rightarrow> do { c \<leftarrow> on_server auth (\<lambda>s. s\<lparr>srv_malformed_responses := srv_malformed_responses s + 1\<rparr>) c; Some (c, w) }
          | Some msg \<Rightarrow> do {
              code \<leftarrow> hdr_code msg;
              ident \<leftarrow> hdr_identifier msg;
              c \<leftarrow> (if counted code then on_server auth (count_response code) c else Some c);
              r \<leftarrow> find_req l_next (answers msg_type ident) (msg_store c) None (msgs c);
              case r of
                None \<Rightarrow> Some (c, w)
              | Some (prev_req, req) \<Rightarrow> deliver auth now msg prev_req req c w } }
      | _ \<Rightarrow> Some (c, w))"

section \<open>The client\<close>

definition radius_client_register ::
  "bool \<Rightarrow> RadiusType \<Rightarrow> 'w radius_rx_handler \<Rightarrow> 'w radius_client_data \<Rightarrow> int \<times> 'w radius_client_data" where
  "radius_client_register realloc_ok msg_type h c =
     (if \<not> realloc_ok then (-1, c) else (0, on_side (msg_type \<noteq> RADIUS_ACCT) (\<lambda>s. s\<lparr>rx_handlers := rx_handlers s @ [h]\<rparr>) c))"

definition radius_client_set_interim_error_cb :: "bool \<Rightarrow> 'w radius_client_data \<Rightarrow> 'w radius_client_data" where
  "radius_client_set_interim_error_cb cb c = c\<lparr>interim_error_cb := cb\<rparr>"

text \<open>A new configuration: other servers, with their own current ones.\<close>

definition radius_client_reconfig ::
  "hostapd_radius_server list \<Rightarrow> nat option \<Rightarrow> hostapd_radius_server list \<Rightarrow> nat option \<Rightarrow> 'w radius_client_data \<Rightarrow> 'w radius_client_data" where
  "radius_client_reconfig auth_servers auth_server acct_servers acct_server c =
     on_side True (\<lambda>s. s\<lparr>servers := auth_servers, server := auth_server\<rparr>)
       (on_side False (\<lambda>s. s\<lparr>servers := acct_servers, server := acct_server\<rparr>) c)"

definition radius_client_deinit :: "'w radius_client_data \<Rightarrow> 'w radius_client_data ub" where
  "radius_client_deinit c = radius_client_flush False (client_out Cancel_Retry (close_sockets False (close_sockets True c)))"

definition new_side :: "hostapd_radius_server list \<Rightarrow> nat option \<Rightarrow> 'w radius_side" where
  "new_side s i = \<lparr>servers = s, server = i, serv_sock = -1, serv_sock6 = -1, cur_sock = -1, rx_handlers = []\<rparr>"

text \<open>The result is the client, or none after the release of a client that could not be opened.\<close>

definition radius_client_init ::
  "client_env \<Rightarrow> bool \<Rightarrow> hostapd_radius_server list \<Rightarrow> nat option \<Rightarrow> hostapd_radius_server list \<Rightarrow> nat option
     \<Rightarrow> 'w radius_client_data option ub" where
  "radius_client_init env zalloc_ok auth_servers auth_server acct_servers acct_server =
     (if \<not> zalloc_ok then Some None
      else do {
        let c = \<lparr>auth_side = new_side auth_servers auth_server, acct_side = new_side acct_servers acct_server, msg_store = (\<lambda>_. None),
                 msgs = None, num_msgs = 0, next_radius_identifier = 0, interim_error_cb = False, client_outs = [], io_count = 0\<rparr>;
        (r, c) \<leftarrow> (if auth_server \<noteq> None then radius_client_init_auth env c else Some (0, c));
        if r \<noteq> 0 then do { _ \<leftarrow> radius_client_deinit c; Some None }
        else do {
          (r, c) \<leftarrow> (if acct_server \<noteq> None then radius_client_init_acct env c else Some (0, c));
          if r \<noteq> 0 then do { _ \<leftarrow> radius_client_deinit c; Some None }
          else Some (Some (if retry_primary_interval env \<noteq> 0 then client_out (Register_Retry (retry_primary_interval env)) c else c)) } })"

end
