(* ===== verification/Radius_Client_Inv.thy ===== *)
theory Radius_Client_Inv
  imports Radius_Client Radius_Theorems
begin

text \<open>
  What every operation of the RADIUS client entry_keeps of its list of pending requests: it is a list
  without repetition of exactly the allocated entries, at most \<open>num_msgs\<close> long, and \<open>num_msgs\<close> is at most
  30. All operations but the addition of a request only remove entries (\<open>evolves\<close>).
\<close>

interpretation lx: link_field l_next put_next
  by unfold_locales simp

section \<open>The list of pending requests\<close>

definition has_hdr :: "radius_msg \<Rightarrow> bool" where
  "has_hdr m \<longleftrightarrow> sizeof_radius_hdr \<le> length (bdata (rbuf m))"

definition body :: "radius_msg_list \<Rightarrow> radius_msg_list" where
  "body e = e\<lparr>l_next := None\<rparr>"

definition list_rep :: "'w radius_client_data \<Rightarrow> nat list \<Rightarrow> bool" where
  "list_rep c L \<longleftrightarrow> distinct L \<and> seg l_next (msg_store c) (msgs c) L None \<and> dom (msg_store c) = set L
     \<and> (\<forall>x e. msg_store c x = Some e \<longrightarrow> has_hdr (l_msg e) \<and> length (l_addr e) = ETH_ALEN)"

definition pending :: "'w radius_client_data \<Rightarrow> nat list \<Rightarrow> bool" where
  "pending c L \<longleftrightarrow> list_rep c L \<and> length L \<le> unat (num_msgs c) \<and> num_msgs c \<le> RADIUS_CLIENT_MAX_ENTRIES"

definition evolves :: "'w radius_client_data \<Rightarrow> nat list \<Rightarrow> bool" where
  "evolves c L \<longleftrightarrow> (\<exists>K. pending c (filter K L))"

lemma body_put [simp]: "body (put_next v e) = body e"
  by (simp add: body_def)

lemma body_eqD: "body e = body e' \<Longrightarrow> l_msg e = l_msg e' \<and> l_addr e = l_addr e' \<and> l_msg_type e = l_msg_type e' \<and> l_shared_secret e = l_shared_secret e'"
  unfolding body_def by (metis radius_msg_list.select_convs(1,2,3,10) radius_msg_list.surjective radius_msg_list.update_convs(11))

lemma good_evolves: "pending c L \<Longrightarrow> evolves c L"
  unfolding evolves_def by (intro exI [of _ "\<lambda>_. True"]) simp

lemma evolves_trans: "pending c (filter K L) \<Longrightarrow> (\<And>M. pending c M \<Longrightarrow> evolves c' M) \<Longrightarrow> evolves c' L"
  unfolding evolves_def by (metis filter_filter)

lemma evolvesE: "evolves c L \<Longrightarrow> (\<And>M. pending c M \<Longrightarrow> evolves c' M) \<Longrightarrow> evolves c' L"
  by (metis evolves_def evolves_trans)

text \<open>Operations that do not touch the list.\<close>

definition same_list :: "'w radius_client_data \<Rightarrow> 'w radius_client_data \<Rightarrow> bool" where
  "same_list c c' \<longleftrightarrow> msgs c' = msgs c \<and> msg_store c' = msg_store c \<and> num_msgs c' = num_msgs c"

lemma same_list_good: "same_list c c' \<Longrightarrow> pending c' L = pending c L"
  by (simp add: same_list_def pending_def list_rep_def)

lemma same_list_trans: "same_list c c' \<Longrightarrow> same_list c' c'' \<Longrightarrow> same_list c c''"
  by (simp add: same_list_def)

lemma same_list_ops [simp]:
  "same_list c c" "same_list c (on_side auth f c)" "same_list c (client_out e c)" "same_list c (close_sockets auth c)"
  "same_list c (snd (sys_call g c))" "same_list c (c\<lparr>next_radius_identifier := i\<rparr>)"
  by (simp_all add: same_list_def on_side_def client_out_def close_sockets_def sys_call_def)

lemma same_list_server: "on_server auth f c = Some c' \<Longrightarrow> same_list c c'"
  by (auto simp: on_server_def split: option.splits if_splits)

lemma has_hdr_identifier: "has_hdr m \<Longrightarrow> \<exists>i. hdr_identifier m = Some i"
  by (auto simp: has_hdr_def hdr_identifier_def peek_def sizeof_radius_hdr_def)

lemma list_rep_in: "list_rep c L \<Longrightarrow> x \<in> set L \<Longrightarrow> \<exists>e. msg_store c x = Some e \<and> has_hdr (l_msg e) \<and> length (l_addr e) = ETH_ALEN"
  unfolding list_rep_def by (metis domIff not_Some_eq)

text \<open>Removal of the entries that match.\<close>

lemma remove_msgs_ok:
  assumes rep: "list_rep c L" and m: "\<And>e. has_hdr (l_msg e) \<Longrightarrow> length (l_addr e) = ETH_ALEN \<Longrightarrow> match e = Some (m e)"
  defines "M \<equiv> filter (\<lambda>x. \<not> m (the (msg_store c x))) L"
  shows "\<exists>c'. remove_msgs match c = Some (length L - length M, c') \<and> list_rep c' M \<and> c' = c\<lparr>msgs := msgs c', msg_store := msg_store c'\<rparr>
    \<and> (\<forall>x \<in> set M. map_option body (msg_store c' x) = map_option body (msg_store c x))"
proof -
  have r: "distinct L" "seg l_next (msg_store c) (msgs c) L None" "dom (msg_store c) = set L" using rep by (auto simp: list_rep_def)
  have "match (the (msg_store c y)) = Some (m (the (msg_store c y)))" if "y \<in> set L" for y
    using list_rep_in [OF rep that] m by auto
  then obtain h st' where h: "remove_where l_next put_next match None (msgs c) (msgs c) (msg_store c) 0
        = Some (h, st', length (filter (\<lambda>x. m (the (msg_store c x))) L))"
      "seg l_next st' h M None"
      "\<forall>x. if x \<in> set L \<and> m (the (msg_store c x)) then st' x = None else map_option body (st' x) = map_option body (msg_store c x)"
    using lx.remove_where_ok [of "msg_store c" "msgs c" "[]" L match "\<lambda>x. m (the (msg_store c x))" "msgs c" None body 0] r
    by (cases L) (auto simp: M_def)
  define c' where "c' = c\<lparr>msgs := h, msg_store := st'\<rparr>"
  have n: "length (filter (\<lambda>x. m (the (msg_store c x))) L) = length L - length M"
    unfolding M_def using sum_length_filter_compl [of "\<lambda>x. m (the (msg_store c x))" L] by simp
  have b: "map_option body (st' x) = map_option body (msg_store c x)" if "x \<in> set M" for x
    using h(3) [rule_format, of x] that by (auto simp: M_def)
  have "dom st' = set M"
  proof (intro set_eqI iffI)
    fix x
    assume "x \<in> dom st'"
    moreover have "st' x = None" if "x \<notin> set L"
    proof -
      have "msg_store c x = None" using r(3) that by (metis domIff)
      then show ?thesis using h(3) [rule_format, of x] that by simp
    qed
    ultimately show "x \<in> set M" using h(3) [rule_format, of x] by (cases "x \<in> set L") (auto simp: M_def split: if_splits)
  next
    fix x
    assume "x \<in> set M"
    then have "x \<in> dom (msg_store c)" "map_option body (st' x) = map_option body (msg_store c x)" using b [of x] r(3) by (auto simp: M_def)
    then show "x \<in> dom st'" by (metis domIff option.map_disc_iff)
  qed
  moreover have "has_hdr (l_msg e) \<and> length (l_addr e) = ETH_ALEN" if e: "st' x = Some e" for x e
  proof -
    have x: "x \<in> set M" using e \<open>dom st' = set M\<close> by auto
    then obtain e0 where e0: "msg_store c x = Some e0" "has_hdr (l_msg e0)" "length (l_addr e0) = ETH_ALEN"
      using list_rep_in [OF rep, of x] by (auto simp: M_def)
    then show ?thesis using b [OF x] e body_eqD [of e e0] by simp
  qed
  ultimately have "list_rep c' M" using h(2) r(1) by (simp add: list_rep_def c'_def M_def)
  moreover have "remove_msgs match c = Some (length L - length M, c')" using h(1) n by (simp add: remove_msgs_def c'_def)
  ultimately show ?thesis using b by (intro exI [of _ c']) (simp add: c'_def)
qed

lemma unat_minus_nat: "n \<le> unat w \<Longrightarrow> unat (w - word_of_nat n) = unat w - n" for w :: u64
proof -
  assume n: "n \<le> unat w"
  have "unat w < 2 ^ 64" using unsigned_less [of w, where 'a = nat] by simp
  then have "n < 2 ^ 64" using n by simp
  then have u: "unat (word_of_nat n :: u64) = n" by (simp add: unsigned_of_nat take_bit_eq_mod)
  then have "word_of_nat n \<le> w" using n by (simp add: word_le_nat_alt)
  then show ?thesis using u by (simp add: unat_sub)
qed

lemma good_removed:
  assumes "pending c L" "list_rep c' (filter K L)" "num_msgs c' = num_msgs c \<or> num_msgs c' = num_msgs c - word_of_nat (length L - length (filter K L))"
  shows "pending c' (filter K L)"
proof -
  have l: "length (filter K L) \<le> length L" "length L \<le> unat (num_msgs c)" "num_msgs c \<le> RADIUS_CLIENT_MAX_ENTRIES"
    using assms(1) by (simp_all add: pending_def)
  have "unat (num_msgs c - word_of_nat (length L - length (filter K L))) = unat (num_msgs c) - (length L - length (filter K L))"
    using l by (intro unat_minus_nat) simp
  then have "unat (num_msgs c') = unat (num_msgs c) \<or> unat (num_msgs c') = unat (num_msgs c) - (length L - length (filter K L))"
    using assms(3) by metis
  then have "length (filter K L) \<le> unat (num_msgs c') \<and> unat (num_msgs c') \<le> unat (num_msgs c)" using l(1,2) by linarith
  then show ?thesis using assms(2) l(3) by (simp add: pending_def word_le_nat_alt)
qed

lemma client_flush_ok: "pending c L \<Longrightarrow> \<exists>c'. radius_client_flush b c = Some c' \<and> evolves c' L"
proof -
  assume g: "pending c L"
  let ?M = "filter (\<lambda>x. \<not> (\<not> b \<or> l_msg_type (the (msg_store c x)) = RADIUS_AUTH)) L"
  obtain c1 where c1: "remove_msgs (\<lambda>e. Some (\<not> b \<or> l_msg_type e = RADIUS_AUTH)) c = Some (length L - length ?M, c1)" "list_rep c1 ?M"
      "c1 = c\<lparr>msgs := msgs c1, msg_store := msg_store c1\<rparr>"
    using remove_msgs_ok [of c L "\<lambda>e. Some (\<not> b \<or> l_msg_type e = RADIUS_AUTH)" "\<lambda>e. \<not> b \<or> l_msg_type e = RADIUS_AUTH"] g by (auto simp: pending_def)
  define c2 where "c2 = c1\<lparr>num_msgs := num_msgs c1 - word_of_nat (length L - length ?M)\<rparr>"
  have "num_msgs c1 = num_msgs c" by (subst c1(3)) simp
  then have "pending c2 ?M" using c1(2) by (intro good_removed [OF g]) (simp_all add: c2_def list_rep_def)
  moreover have "radius_client_flush b c = Some (if msgs c2 = None then client_out Cancel_Timer c2 else c2)"
    using c1(1) by (simp add: radius_client_flush_def c2_def Let_def)
  ultimately show ?thesis unfolding evolves_def using same_list_good [OF same_list_ops(3)] by (metis (mono_tags, lifting))
qed

text \<open>A new identifier belongs to no pending request any more; \<open>num_msgs\<close> stays.\<close>

definition pending_id :: "'w radius_client_data \<Rightarrow> nat \<Rightarrow> u8 option" where
  "pending_id c x = Option.bind (msg_store c x) (\<lambda>e. hdr_identifier (l_msg e))"

lemma get_id_ok:
  assumes g: "pending c L"
  defines "M \<equiv> filter (\<lambda>x. pending_id c x \<noteq> Some (next_radius_identifier c)) L"
  shows "\<exists>c'. radius_client_get_id c = Some (next_radius_identifier c, c') \<and> pending c' M \<and> num_msgs c' = num_msgs c
    \<and> (\<forall>x \<in> set M. map_option body (msg_store c' x) = map_option body (msg_store c x)) \<and> auth_side c' = auth_side c \<and> acct_side c' = acct_side c
    \<and> next_radius_identifier c' = next_radius_identifier c + 1"
proof -
  let ?c = "c\<lparr>next_radius_identifier := next_radius_identifier c + 1\<rparr>" and ?m = "\<lambda>e. hdr_identifier (l_msg e) = Some (next_radius_identifier c)"
  have r: "list_rep ?c L" "list_rep c L" using g by (simp_all add: pending_def list_rep_def)
  have M: "M = filter (\<lambda>x. \<not> ?m (the (msg_store ?c x))) L"
    unfolding M_def
  proof (intro filter_cong refl)
    fix x
    assume "x \<in> set L"
    then obtain e where "msg_store c x = Some e" using list_rep_in [OF r(2)] by blast
    then show "(pending_id c x \<noteq> Some (next_radius_identifier c)) = (\<not> ?m (the (msg_store ?c x)))" by (simp add: pending_id_def)
  qed
  have m: "map_option (\<lambda>i. i = next_radius_identifier c) (hdr_identifier (l_msg e)) = Some (?m e)" if "has_hdr (l_msg e)" for e
    using has_hdr_identifier [OF that] by auto
  obtain c' where c': "remove_msgs (\<lambda>e. map_option (\<lambda>i. i = next_radius_identifier c) (hdr_identifier (l_msg e))) ?c = Some (length L - length M, c')"
      "list_rep c' M" "c' = ?c\<lparr>msgs := msgs c', msg_store := msg_store c'\<rparr>"
      "\<forall>x \<in> set M. map_option body (msg_store c' x) = map_option body (msg_store ?c x)"
    using remove_msgs_ok [OF r(1), of "\<lambda>e. map_option (\<lambda>i. i = next_radius_identifier c) (hdr_identifier (l_msg e))" ?m] m unfolding M by blast
  have n: "num_msgs c' = num_msgs c" "auth_side c' = auth_side c" "acct_side c' = acct_side c" "next_radius_identifier c' = next_radius_identifier c + 1"
    by (subst c'(3), simp)+
  have "pending c' M" using good_removed [OF g c'(2) [unfolded M_def]] n(1) by (simp add: M_def)
  then show ?thesis using c'(1,4) n by (simp add: radius_client_get_id_def Let_def)
qed

end
