(* ===== verification/Radius_Client_Steps.thy ===== *)
theory Radius_Client_Steps
  imports Radius_Client_Inv
begin

text \<open>
  All operations of the RADIUS client but the addition of a request only remove entries from its list
  (\<open>shrinks\<close>), whatever the system calls return; the changes of servers, the retransmission and the timer
  are composed from this.
\<close>

section \<open>Operations that remove entries\<close>

definition shrinks :: "'w radius_client_data \<Rightarrow> 'w radius_client_data \<Rightarrow> bool" where
  "shrinks c c' \<longleftrightarrow> (\<forall>L. pending c L \<longrightarrow> evolves c' L)"

lemma shrinks_trans [trans]: "shrinks c c' \<Longrightarrow> shrinks c' c'' \<Longrightarrow> shrinks c c''"
  unfolding shrinks_def by (metis evolves_def evolves_trans)

lemma same_list_shrinks: "same_list c c' \<Longrightarrow> shrinks c c'"
  by (simp add: shrinks_def good_evolves same_list_good)

lemma shrinks_refl [simp]: "shrinks c c"
  by (simp add: same_list_shrinks)

lemma shrinks_out: "shrinks c c' \<Longrightarrow> shrinks c (client_out e c')"
  by (metis same_list_ops(3) same_list_shrinks shrinks_trans)

text \<open>A change of entries that entry_keeps the links, the headers and the lengths of the addresses.\<close>

definition entry_keeps :: "radius_msg_list \<Rightarrow> radius_msg_list \<Rightarrow> bool" where
  "entry_keeps e e' \<longleftrightarrow> l_next e' = l_next e \<and> length (l_addr e') = length (l_addr e) \<and> (has_hdr (l_msg e) \<longrightarrow> has_hdr (l_msg e'))"

lemma good_store:
  assumes "pending c L" "\<And>x. rel_option entry_keeps (msg_store c x) (st x)"
  shows "pending (c\<lparr>msg_store := st\<rparr>) L"
proof -
  have r: "list_rep c L" and b: "length L \<le> unat (num_msgs c)" "num_msgs c \<le> RADIUS_CLIENT_MAX_ENTRIES" using assms(1) by (simp_all add: pending_def)
  have "map_option l_next (st x) = map_option l_next (msg_store c x)" for x
    using assms(2) [of x] by (cases "st x"; cases "msg_store c x") (auto simp: entry_keeps_def)
  then have "seg l_next st (msgs c) L None" using r seg_cong [of L l_next st "msg_store c"] by (auto simp: list_rep_def)
  moreover have "dom st = set L"
  proof -
    have "(st x = None) = (msg_store c x = None)" for x using assms(2) [of x] by (cases "st x"; cases "msg_store c x") auto
    then show ?thesis using r by (auto simp: list_rep_def dom_def)
  qed
  moreover have "has_hdr (l_msg e) \<and> length (l_addr e) = ETH_ALEN" if e: "st x = Some e" for x e
  proof -
    obtain e0 where e0: "msg_store c x = Some e0" "entry_keeps e0 e" using assms(2) [of x] unfolding e by (cases "msg_store c x") auto
    then show ?thesis using r by (auto simp: entry_keeps_def list_rep_def)
  qed
  ultimately show ?thesis using r b by (simp add: pending_def list_rep_def)
qed

lemma keeps_refl [simp]: "entry_keeps e e"
  by (simp add: entry_keeps_def)

lemma good_put: "pending c L \<Longrightarrow> msg_store c x = Some e \<Longrightarrow> entry_keeps e e' \<Longrightarrow> pending (c\<lparr>msg_store := (msg_store c)(x \<mapsto> e')\<rparr>) L"
  by (rule good_store) (auto simp: option.rel_refl)

lemma good_for_each:
  assumes g: "pending c L" and f: "for_each l_next f (msgs c) (msg_store c) = Some st" "\<And>e e'. f e = Some e' \<Longrightarrow> entry_keeps e e'"
  shows "pending (c\<lparr>msg_store := st\<rparr>) L"
proof (rule good_store [OF g])
  have r: "seg l_next (msg_store c) (msgs c) L None" "distinct L" "dom (msg_store c) = set L" using g by (auto simp: pending_def list_rep_def)
  have d: "\<exists>e'. f (the (msg_store c x)) = Some e' \<and> l_next e' = l_next (the (msg_store c x))" if "x \<in> set L" for x
    using for_each_defined [OF f(1) r(1,2) _ that] f(2) by (auto simp: entry_keeps_def)
  then have st: "st x = (if x \<in> set L then f (the (msg_store c x)) else msg_store c x)" for x
    using for_each_seg [OF r(1,2), of f] f(1) by auto
  fix x
  show "rel_option entry_keeps (msg_store c x) (st x)"
  proof (cases "x \<in> set L")
    case True
    then obtain e e' where "msg_store c x = Some e" "f e = Some e'" using d [OF True] r(3) by force
    then show ?thesis using st [of x] True f(2) by simp
  next
    case False
    then show ?thesis using st [of x] r(3) by (auto simp: option.rel_refl)
  qed
qed

text \<open>Writes keep the length of a message.\<close>

lemma run_ub_Some [simp]: "run_ub r = Some x \<longleftrightarrow> r = Ok x"
  by (cases r) (auto simp: run_ub_def)

lemma write_length: "radius_write m i d = Ok m' \<Longrightarrow> length (bdata (rbuf m')) = length (bdata (rbuf m))"
  by (auto simp: radius_write_def put_at_def bindR_eq_Ok memcpy_at_def of_ub_def split: option.splits if_splits)

lemma store_mac_length: "store_mac r i m = Ok m' \<Longrightarrow> length (bdata (rbuf m')) = length (bdata (rbuf m))"
  by (auto simp: store_mac_def write_length split: option.splits)

lemma set_hdr_length_length: "set_hdr_length m = Ok m' \<Longrightarrow> length (bdata (rbuf m')) = length (bdata (rbuf m))"
  by (auto simp: set_hdr_length_def write_length)

lemma finish_acct_length: "radius_msg_finish_acct env m secret = Ok m' \<Longrightarrow> length (bdata (rbuf m')) = length (bdata (rbuf m))"
  by (auto simp: radius_msg_finish_acct_def bindR_eq_Ok set_hdr_authenticator_def dest!: store_mac_length set_hdr_length_length write_length)

lemmas length_keeps = write_length store_mac_length set_hdr_length_length finish_acct_length


text \<open>Every change of servers and sockets only removes entries.\<close>

lemma shrinks_via: "same_list c c1 \<Longrightarrow> shrinks c1 c2 \<Longrightarrow> shrinks c c2"
  by (metis same_list_shrinks shrinks_trans)

lemma shrinks_flush: "radius_client_flush b c = Some c' \<Longrightarrow> shrinks c c'"
  by (metis client_flush_ok option.inject shrinks_def)

lemma shrinks_update_acct: "radius_client_update_acct_msgs env secret c = Some c' \<Longrightarrow> shrinks c c'"
  unfolding shrinks_def radius_client_update_acct_msgs_def bind_eq_Some_conv
  by (auto intro!: good_evolves good_for_each simp: entry_keeps_def has_hdr_def finish_acct_length bind_eq_Some_conv split: if_splits)

lemma shrinks_change_messages: "change_messages env auth n oserv c = Some c' \<Longrightarrow> shrinks c c'"
proof -
  assume h: "change_messages env auth n oserv c = Some c'"
  then obtain c1 c2 st where c1: "(if oserv = Some n \<and> auth then radius_client_flush True c else Some c) = Some c1"
      and c2: "(case oserv of None \<Rightarrow> Some c1 | Some i \<Rightarrow>
             let nn = secret_bytes (servers (side auth c1) ! n); old = secret_bytes (servers (side auth c1) ! i) in
             if i \<noteq> n \<and> nn \<noteq> old then if auth then radius_client_flush True c1 else radius_client_update_acct_msgs env nn c1
             else Some c1) = Some c2"
      and st: "(if oserv = None then Some (msg_store c2)
            else for_each l_next (\<lambda>e. Some (if l_msg_type e \<noteq> (if auth then RADIUS_AUTH else RADIUS_ACCT) then e
                   else e\<lparr>l_next_try := l_first_try e + RADIUS_CLIENT_FIRST_WAIT, l_attempts := 0,
                          l_next_wait := RADIUS_CLIENT_FIRST_WAIT * 2\<rparr>)) (msgs c2) (msg_store c2)) = Some st"
      and c': "c' = (let c = c2\<lparr>msg_store := st\<rparr> in
          if msgs c \<noteq> None then client_out (Register_Timer RADIUS_CLIENT_FIRST_WAIT) (client_out Cancel_Timer c) else c)"
    unfolding change_messages_def bind_eq_Some_conv Let_def by auto
  have "shrinks c c1" using c1 shrinks_flush by (auto split: if_splits)
  also have "shrinks c1 c2" using c2 shrinks_flush shrinks_update_acct by (auto simp: Let_def split: option.splits if_splits)
  also have "shrinks c2 (c2\<lparr>msg_store := st\<rparr>)" unfolding shrinks_def
  proof (intro allI impI good_evolves)
    fix L
    assume g: "pending c2 L"
    show "pending (c2\<lparr>msg_store := st\<rparr>) L"
    proof (cases oserv)
      case None
      then have "st = msg_store c2" using st by simp
      then show ?thesis using g by simp
    next
      case (Some i)
      show ?thesis by (rule good_for_each [OF g st [unfolded if_not_P [OF option.distinct(2) [of i], folded Some]]]) (auto simp: entry_keeps_def)
    qed
  qed
  also have "shrinks (c2\<lparr>msg_store := st\<rparr>) c'"
    unfolding c' Let_def by (auto intro!: shrinks_out)
  finally show ?thesis .
qed

lemma same_list_call: "sys_call g c = (x, c') \<Longrightarrow> same_list c c'"
  using same_list_ops(5) [of c g] by simp

lemma same_list_connect: "connect_server env auth n c = (x, c') \<Longrightarrow> same_list c c'"
  by (auto simp: connect_server_def Let_def sys_call_def on_side_def same_list_def split: option.splits if_splits prod.splits)

lemma shrinks_change_server: "radius_change_server env auth n oserv c = Some (x, c') \<Longrightarrow> shrinks c c'"
  unfolding radius_change_server_def bind_eq_Some_conv
  by (auto dest!: shrinks_change_messages same_list_connect intro: shrinks_trans same_list_shrinks)


text \<open>Shape of the code that opens sockets.\<close>

lemma shrinks_open_sockets: "open_sockets env auth c = Some (x, c') \<Longrightarrow> shrinks c c'"
proof -
  assume h: "open_sockets env auth c = Some (x, c')"
  obtain s4 c4 where p4: "sys_call (sys_socket env) (close_sockets auth c) = (s4, c4)" by fastforce
  obtain s6 c6 where p6: "(if config_ipv6 env then sys_call (sys_socket env) c4 else (-1, c4)) = (s6, c6)" by fastforce
  define c1 where "c1 = on_side auth (\<lambda>s. s\<lparr>serv_sock := s4, serv_sock6 := s6\<rparr>) c6"
  have s: "same_list c c1" using p4 p6 unfolding c1_def
    by (auto simp: same_list_def on_side_def sys_call_def close_sockets_def split: if_splits)
  have o: "open_sockets env auth c = (if s4 < 0 \<and> s6 < 0 then Some (-1, c1)
      else case server (side auth c1) of
        None \<Rightarrow> None
      | Some i \<Rightarrow> do {
          (_, c) \<leftarrow> radius_change_server env auth i None c1;
          let (ok4, c) = (if s4 \<ge> 0 then sys_call (sys_register env) c else (True, c));
          if \<not> ok4 then Some (-1, close_sockets auth c)
          else do {
            let (ok6, c) = (if s6 \<ge> 0 then sys_call (sys_register env) c else (True, c));
            Some (if \<not> ok6 then (-1, close_sockets auth c) else (0, c)) } })"
    unfolding open_sockets_def Let_def p4 prod.case p6 c1_def ..
  have "c' = c1 \<or> (\<exists>i y c2. radius_change_server env auth i None c1 = Some (y, c2) \<and> same_list c2 c')"
  proof (cases "s4 < 0 \<and> s6 < 0")
    case True
    then show ?thesis using h o by simp
  next
    case False
    then obtain i y c2 where "radius_change_server env auth i None c1 = Some (y, c2)"
        "(let (ok4, c) = (if s4 \<ge> 0 then sys_call (sys_register env) c2 else (True, c2)) in
          if \<not> ok4 then Some (-1, close_sockets auth c)
          else let (ok6, c) = (if s6 \<ge> 0 then sys_call (sys_register env) c else (True, c)) in
            Some (if \<not> ok6 then (-1, close_sockets auth c) else (0, c))) = Some (x, c')"
      using h o unfolding bind_eq_Some_conv by (auto split: option.splits simp: bind_eq_Some_conv)
    moreover from this(2) have "same_list c2 c'"
      by (auto simp: sys_call_def close_sockets_def on_side_def same_list_def Let_def split: if_splits)
    ultimately show ?thesis by blast
  qed
  then show ?thesis
  proof (elim disjE exE conjE)
    assume "c' = c1" then show ?thesis using s same_list_shrinks by simp
  next
    fix i y c2
    assume "radius_change_server env auth i None c1 = Some (y, c2)" "same_list c2 c'"
    then have "shrinks c1 c'" by (metis same_list_shrinks shrinks_change_server shrinks_trans)
    then show ?thesis using s shrinks_via by blast
  qed
qed

lemma shrinks_init_side: "init_side env auth c = Some (x, c') \<Longrightarrow> shrinks c c'"
  by (auto simp: init_side_def radius_client_init_auth_def radius_client_init_acct_def shrinks_open_sockets split: if_splits)

lemma shrinks_failover: "failover env auth c = Some c' \<Longrightarrow> shrinks c c'"
proof -
  assume "failover env auth c = Some c'"
  then obtain f n old x c1 where "on_server auth f c = Some c1"
      "radius_change_server env auth n (Some old) (on_side auth (\<lambda>s. s\<lparr>server := Some n\<rparr>) c1) = Some (x, c')"
    unfolding failover_def bind_eq_Some_conv Let_def by auto
  then show ?thesis by (meson same_list_ops(2) same_list_server shrinks_change_server shrinks_via)
qed

lemma shrinks_failover_side: "failover_side env auth c = Some c' \<Longrightarrow> shrinks c c'"
  by (auto simp: failover_side_def radius_client_auth_failover_def radius_client_acct_failover_def shrinks_failover split: if_splits)

lemma shrinks_try_server: "radius_change_server env auth n oserv (on_side auth f c) = Some (x, c') \<Longrightarrow> shrinks c c'"
  by (rule shrinks_via [OF same_list_ops(2)]) (rule shrinks_change_server)

lemma shrinks_retry_primary: "retry_primary env auth c = Some c' \<Longrightarrow> shrinks c c'"
  unfolding retry_primary_def
  by (auto simp: bind_eq_Some_conv split: option.splits if_splits dest!: shrinks_try_server elim: shrinks_trans)

lemma shrinks_retry: "radius_retry_primary_timer env c = Some c' \<Longrightarrow> shrinks c c'"
  unfolding radius_retry_primary_timer_def
  by (auto simp: bind_eq_Some_conv split: if_splits dest!: shrinks_retry_primary intro: shrinks_trans shrinks_out)

lemma shrinks_send_error: "radius_client_handle_send_error env b t c = Some (x, c') \<Longrightarrow> shrinks c c'"
  unfolding radius_client_handle_send_error_def radius_client_init_auth_def radius_client_init_acct_def
  by (auto simp: bind_eq_Some_conv split: if_splits dest!: shrinks_open_sockets)


text \<open>Retransmission.\<close>

lemma shrinks_put: "msg_store c x = Some e \<Longrightarrow> entry_keeps e e' \<Longrightarrow> shrinks c (c\<lparr>msg_store := (msg_store c)(x \<mapsto> e')\<rparr>)"
  by (simp add: shrinks_def good_evolves good_put)

lemma shrinks_get_id: "radius_client_get_id c = Some (i, c') \<Longrightarrow> shrinks c c'"
  unfolding shrinks_def evolves_def
proof (intro allI impI)
  fix L
  assume h: "radius_client_get_id c = Some (i, c')" and g: "pending c L"
  show "\<exists>K. pending c' (filter K L)"
    using get_id_ok [OF g] h by (intro exI [of _ "\<lambda>x. pending_id c x \<noteq> Some (next_radius_identifier c)"]) simp
qed

lemma shrinks_refresh: "refresh_acct env x now c = Some c' \<Longrightarrow> shrinks c c'"
proof -
  assume h: "refresh_acct env x now c = Some c'"
  then obtain e0 a where a: "msg_store c x = Some e0"
      "(if l_msg_type e0 = RADIUS_ACCT then radius_msg_get_attr_ptr (l_msg e0) RADIUS_ATTR_ACCT_DELAY_TIME None else Some None) = Some a"
    unfolding refresh_acct_def bind_eq_Some_conv by blast
  show ?thesis
  proof (cases "\<exists>pos. a = Some (pos, 4)")
    case False
    then show ?thesis using h a by (auto simp: refresh_acct_def split: option.splits if_splits)
  next
    case True
    then obtain pos i c1 e m1 m2 m3 where g: "radius_client_get_id c = Some (i, c1)" "msg_store c1 x = Some e"
      "radius_write (l_msg e) 1 [i] = Ok m1" "radius_write m1 pos (WPA_PUT_BE32 (word_of_int (now - l_first_try e))) = Ok m2"
      "radius_msg_finish_acct (c_radius env) m2 (l_shared_secret e) = Ok m3"
      "c' = c1\<lparr>msg_store := (msg_store c1)(x \<mapsto> e\<lparr>l_msg := m3\<rparr>)\<rparr>"
      using h a by (auto simp: refresh_acct_def bind_eq_Some_conv)
    then have "entry_keeps e (e\<lparr>l_msg := m3\<rparr>)" by (simp add: entry_keeps_def has_hdr_def length_keeps)
    then have "shrinks c1 c'" unfolding g(6) by (rule shrinks_put [OF g(2)])
    then show ?thesis by (rule shrinks_trans [OF shrinks_get_id [OF g(1)]])
  qed
qed

lemma same_list_transmit: "transmit env s m c = (r, c') \<Longrightarrow> same_list c c'"
  unfolding transmit_def by (metis same_list_call same_list_ops(3) same_list_trans)

lemma shrinks_send_again: "send_again env x now s c = Some (r, c') \<Longrightarrow> shrinks c c'"
proof -
  assume h: "send_again env x now s c = Some (r, c')"
  then obtain e where e: "msg_store c x = Some e" by (cases "msg_store c x") (simp_all add: send_again_def)
  define e1 where "e1 = e\<lparr>l_attempts := l_attempts e + 1, l_accu_attempts := l_accu_attempts e + 1, l_last_attempt := now\<rparr>"
  obtain res c1 where t: "transmit env s (l_msg e1) (c\<lparr>msg_store := (msg_store c)(x \<mapsto> e1)\<rparr>) = (res, c1)" by fastforce
  let ?next = "\<lambda>e. e\<lparr>l_next_try := fst now + l_next_wait e, l_next_wait := cap_wait (l_next_wait e * 2)\<rparr>"
  have h1: "do {(flushed, c) \<leftarrow> (case res of Sent \<Rightarrow> Some (0, c1) | Send_Failed b \<Rightarrow> radius_client_handle_send_error env b (l_msg_type e1) c1);
      if flushed > 0 then Some (False, c)
      else do { e \<leftarrow> msg_store c x; Some (False, c\<lparr>msg_store := (msg_store c)(x \<mapsto> ?next e)\<rparr>) } } = Some (r, c')"
    using h unfolding send_again_def e bind.bind_lunit Let_def e1_def [symmetric] t prod.case .
  then obtain f c2 where c2: "(case res of Sent \<Rightarrow> Some (0, c1) | Send_Failed b \<Rightarrow> radius_client_handle_send_error env b (l_msg_type e1) c1) = Some (f, c2)"
    and c': "c' = c2 \<or> (\<exists>e. msg_store c2 x = Some e \<and> c' = c2\<lparr>msg_store := (msg_store c2)(x \<mapsto> ?next e)\<rparr>)"
    unfolding bind_eq_Some_conv [where f = "case res of Sent \<Rightarrow> Some (0, c1) | Send_Failed b \<Rightarrow> radius_client_handle_send_error env b (l_msg_type e1) c1"]
    by (auto simp: bind_eq_Some_conv split: if_splits)
  have "shrinks c (c\<lparr>msg_store := (msg_store c)(x \<mapsto> e1)\<rparr>)" by (rule shrinks_put [OF e]) (simp add: entry_keeps_def e1_def)
  also have "shrinks (c\<lparr>msg_store := (msg_store c)(x \<mapsto> e1)\<rparr>) c1" by (rule same_list_shrinks [OF same_list_transmit [OF t]])
  also have "shrinks c1 c2" using c2 shrinks_send_error by (auto split: send_result.splits)
  also have "shrinks c2 c'" using c' shrinks_put [of c2 x] by (auto simp: entry_keeps_def)
  finally show ?thesis .
qed

lemma shrinks_choose: "choose_socket env auth c = Some (n, c') \<Longrightarrow> shrinks c c'"
  unfolding choose_socket_def bind_eq_Some_conv
  by (auto simp: split: if_splits dest!: shrinks_init_side shrinks_failover_side intro: shrinks_trans)

lemma shrinks_retransmit: "radius_client_retransmit env x now c = Some (r, c') \<Longrightarrow> shrinks c c'"
proof -
  assume h: "radius_client_retransmit env x now c = Some (r, c')"
  then obtain e where e: "msg_store c x = Some e" by (cases "msg_store c x") (simp_all add: radius_client_retransmit_def)
  define auth where "auth = (\<not> is_acct (l_msg_type e))"
  obtain n c1 where c1: "choose_socket env auth c = Some (n, c1)"
    using h e by (cases "choose_socket env auth c") (auto simp: radius_client_retransmit_def auth_def)
  have "shrinks c1 c'"
  proof (cases "num_msgs c1 = n")
    case False
    then show ?thesis using h e c1 by (simp add: radius_client_retransmit_def auth_def [symmetric] Let_def)
  next
    case True
    then obtain e1 c2 where c2: "on_server auth (count_attempt e1) c1 = Some c2" and
        c': "(if l_msg_type e = RADIUS_ACCT_INTERIM then Some (True, if interim_error_cb c2 then client_out (Interim_Error (l_addr e1)) c2 else c2)
          else if cur_sock (side auth c1) < 0 then Some (True, c2)
          else do {
            c \<leftarrow> refresh_acct env x (fst now) c2;
            e \<leftarrow> msg_store c x;
            if l_accu_attempts e \<ge> RADIUS_CLIENT_MAX_FAILOVER * RADIUS_CLIENT_NUM_FAILOVER * int (length (servers (side auth c)))
            then Some (True, c)
            else send_again env x now (cur_sock (side auth c1)) c }) = Some (r, c')"
      using h unfolding radius_client_retransmit_def e bind.bind_lunit Let_def auth_def [symmetric] c1 prod.case
      by (simp only: simp_thms if_False bind_eq_Some_conv) blast
    have "shrinks c1 c2" by (rule same_list_shrinks [OF same_list_server [OF c2]])
    also have "shrinks c2 c'" using c'
      by (auto simp: bind_eq_Some_conv split: if_splits intro!: shrinks_out dest!: shrinks_refresh shrinks_send_again intro: shrinks_trans)
    finally show ?thesis .
  qed
  then show ?thesis using shrinks_choose [OF c1] shrinks_trans by blast
qed

section \<open>The timer\<close>

lemma unat_pred: "0 < unat w \<Longrightarrow> unat (w - 1) = unat w - 1" for w :: u64
  using unat_minus_nat [of 1 w] by simp

lemma good_less: "length M < length L \<Longrightarrow> pending c L \<Longrightarrow> length M \<le> unat (num_msgs c - 1) \<and> num_msgs c - 1 \<le> RADIUS_CLIENT_MAX_ENTRIES"
  using unat_pred [of "num_msgs c"] by (auto simp: pending_def word_le_nat_alt)

lemma good_unlink_head:
  assumes g: "pending c (p # ys)" and e: "msg_store c p = Some e"
  shows "pending (c\<lparr>msgs := l_next e, msg_store := (msg_store c)(p := None), num_msgs := num_msgs c - 1\<rparr>) ys"
proof -
  have r: "p \<notin> set ys" "distinct ys" "seg l_next (msg_store c) (l_next e) ys None" "dom (msg_store c) = set (p # ys)"
      "\<forall>x e. msg_store c x = Some e \<longrightarrow> has_hdr (l_msg e) \<and> length (l_addr e) = ETH_ALEN"
    using g e unfolding pending_def list_rep_def by auto
  have "seg l_next ((msg_store c)(p := None)) (l_next e) ys None" using r(1,3) by (subst seg_cong [of _ _ _ "msg_store c"]) auto
  then show ?thesis using r good_less [of ys "p # ys" c, OF _ g] by (auto simp: pending_def list_rep_def split: if_splits)
qed

lemma rep_unlink:
  assumes g: "list_rep c (xs @ q # p # ys)" and e: "msg_store c p = Some e" "msg_store c q = Some qe"
  shows "list_rep (c\<lparr>msg_store := (msg_store c)(q \<mapsto> put_next (l_next e) qe, p := None)\<rparr>) (xs @ q # ys)"
proof -
  let ?st = "(msg_store c)(q \<mapsto> put_next (l_next e) qe, p := None)"
  have r: "distinct (xs @ q # p # ys)" "seg l_next (msg_store c) (msgs c) xs (Some q)" "seg l_next (msg_store c) (l_next e) ys None"
      "dom (msg_store c) = set (xs @ q # p # ys)"
      "\<And>x e. msg_store c x = Some e \<Longrightarrow> has_hdr (l_msg e) \<and> length (l_addr e) = ETH_ALEN"
    using g e unfolding list_rep_def by (auto simp: seg_append)
  have "seg l_next ?st (msgs c) xs (Some q)" "seg l_next ?st (l_next e) ys None"
    using r(1,2,3) by (subst seg_cong [of _ _ _ "msg_store c"]; auto)+
  then have "seg l_next ?st (msgs c) (xs @ q # ys) None" using r(1) by (auto simp: seg_append)
  moreover have "dom ?st = set (xs @ q # ys)" using r(1,4) by auto
  moreover have "has_hdr (l_msg e') \<and> length (l_addr e') = ETH_ALEN" if "?st x = Some e'" for x e'
    using that r(5) [of x] r(5) [OF e(2)] by (auto split: if_splits)
  ultimately show ?thesis using r(1) by (simp add: list_rep_def)
qed

lemma good_unlink:
  assumes g: "pending c (xs @ q # p # ys)" and e: "msg_store c p = Some e" "msg_store c q = Some qe"
  shows "pending (c\<lparr>msg_store := (msg_store c)(q \<mapsto> put_next (l_next e) qe, p := None), num_msgs := num_msgs c - 1\<rparr>) (xs @ q # ys)"
proof -
  have "list_rep c (xs @ q # p # ys)" using g by (simp add: pending_def)
  from rep_unlink [OF this e] good_less [of "xs @ q # ys" "xs @ q # p # ys" c, OF _ g] show ?thesis
    by (simp add: pending_def list_rep_def)
qed

lemma good_dom: "pending c L \<Longrightarrow> msg_store c x = Some e \<Longrightarrow> x \<in> set L"
  by (auto simp: pending_def list_rep_def)

lemma good_distinct: "pending c L \<Longrightarrow> distinct L"
  by (simp add: pending_def list_rep_def)

lemma good_filter: "pending c (filter K L) \<Longrightarrow> msg_store c x = Some e \<Longrightarrow> K x"
  by (auto dest: good_dom)

lemma good_seg_next:
  "pending c (xs @ p # ys) \<Longrightarrow> msg_store c p = Some e \<Longrightarrow> l_next e = (case ys of [] \<Rightarrow> None | y # _ \<Rightarrow> Some y)"
  unfolding pending_def list_rep_def by (cases ys) (auto simp: seg_append)

definition at_pos :: "nat option \<Rightarrow> nat option \<Rightarrow> nat list \<Rightarrow> nat list \<Rightarrow> bool" where
  "at_pos prev entry xs ys \<longleftrightarrow> prev = (if xs = [] then None else Some (last xs)) \<and> entry = (case ys of [] \<Rightarrow> None | y # _ \<Rightarrow> Some y)"

lemma evolves_sub: "evolves c (filter K L) \<Longrightarrow> evolves c L"
  unfolding evolves_def by (metis filter_filter)

lemma good_start: "pending c L \<Longrightarrow> at_pos None (msgs c) [] L"
  by (cases L) (auto simp: at_pos_def pending_def list_rep_def)


lemma remove_entry_pos:
  assumes g: "pending c (filter K (xs @ p # zs))" and d: "distinct (xs @ p # zs)" and p: "at_pos prev (Some p) xs (p # zs)"
    and r: "remove_entry prev p c = Some (nx, c')"
  shows "\<exists>us vs. pending c' (us @ vs) \<and> at_pos prev nx us vs \<and> us @ vs = filter (\<lambda>x. K x \<and> x \<noteq> p) (xs @ p # zs) \<and> num_msgs c' = num_msgs c - 1"
proof -
  obtain e where e: "msg_store c p = Some e" "nx = l_next e" using r by (auto simp: remove_entry_def bind_eq_Some_conv)
  then have k: "K p" using good_filter [OF g] by simp
  then have g': "pending c (filter K xs @ p # filter K zs)" using g by simp
  have nx: "nx = (case filter K zs of [] \<Rightarrow> None | y # _ \<Rightarrow> Some y)" using good_seg_next [OF g' e(1)] e(2) by simp
  have sub: "filter K xs @ filter K zs = filter (\<lambda>x. K x \<and> x \<noteq> p) (xs @ p # zs)" 
  proof -
    have "filter (\<lambda>x. K x \<and> x \<noteq> p) l = filter K l" if "p \<notin> set l" for l
      using that by (intro filter_cong) auto
    then show ?thesis using d by simp
  qed
  show ?thesis
  proof (cases prev)
    case None
    then have xs: "xs = []" using p by (auto simp: at_pos_def split: if_splits)
    have c': "c' = c\<lparr>msgs := l_next e, msg_store := (msg_store c)(p := None), num_msgs := num_msgs c - 1\<rparr>"
      using r e None by (simp add: remove_entry_def)
    show ?thesis
      using good_unlink_head [of c p "filter K zs" e] g' e(1) xs sub nx c' None
      by (intro exI [of _ "[]"] exI [of _ "filter K zs"]) (simp add: at_pos_def)
  next
    case (Some q)
    then obtain us where xs: "xs = us @ [q]" using p by (cases xs rule: rev_cases) (auto simp: at_pos_def split: if_splits)
    obtain qe where qe: "msg_store c q = Some qe"
        "c' = c\<lparr>msg_store := (msg_store c)(q \<mapsto> put_next (l_next e) qe, p := None), num_msgs := num_msgs c - 1\<rparr>"
      using r e Some by (auto simp: remove_entry_def bind_eq_Some_conv)
    then have "K q" using good_filter [OF g] by simp
    then show ?thesis
      using good_unlink [of c "filter K us" q p "filter K zs" e qe] g' e(1) qe xs sub nx Some
      by (intro exI [of _ "filter K us @ [q]"] exI [of _ "filter K zs"]) (simp add: at_pos_def)
  qed
qed

lemma timer_loop_evolves:
  "timer_loop env now prev entry first c = Some r \<Longrightarrow> pending c (xs @ ys) \<Longrightarrow> at_pos prev entry xs ys \<Longrightarrow> evolves (snd r) (xs @ ys)"
proof (induction arbitrary: xs ys rule: timer_loop.raw_induct [rotated 1, consumes 1])
  case (1 loop env now prev entry first c r)
  note IH = 1(1)
  show ?case
  proof (cases ys)
    case Nil
    then show ?thesis using 1(2-4) by (auto simp: at_pos_def good_evolves)
  next
    case (Cons p zs)
    then have p: "entry = Some p" using 1(4) by (simp add: at_pos_def)
    have g: "pending c (xs @ p # zs)" using 1(3) Cons by simp
    obtain e remove c' where e: "msg_store c p = Some e" and
        c': "(if fst now \<ge> l_next_try e then radius_client_retransmit env p now c else Some (False, c)) = Some (remove, c')"
      using 1(2) p by (auto split: option.splits)
    have "shrinks c c'" using c' shrinks_retransmit [of env p now c] by (auto split: if_splits)
    then obtain K where K: "pending c' (filter K (xs @ p # zs))" using g by (auto simp: shrinks_def evolves_def)
    have rest: "(if remove then (case remove_entry prev p c' of None \<Rightarrow> None | Some (nx, c'') \<Rightarrow> loop env now prev nx first c'')
            else if num_msgs c' \<noteq> num_msgs c then loop env now None (msgs c') first c'
            else (case msg_store c' p of None \<Rightarrow> None | Some e \<Rightarrow> loop env now (Some p) (l_next e) (earliest e first) c')) = Some r"
      using 1(2) p e c' by simp
    consider (remove) nx c'' where "remove_entry prev p c' = Some (nx, c'')" "loop env now prev nx first c'' = Some r"
      | (restart) "loop env now None (msgs c') first c' = Some r"
      | (next_entry) e' where "msg_store c' p = Some e'" "loop env now (Some p) (l_next e') (earliest e' first) c' = Some r"
      using rest by (auto split: option.splits if_splits)
    then show ?thesis
    proof cases
      case remove
      obtain us vs where u: "pending c'' (us @ vs)" "at_pos prev nx us vs" "us @ vs = filter (\<lambda>x. K x \<and> x \<noteq> p) (xs @ p # zs)"
        using remove_entry_pos [OF K good_distinct [OF g] _ remove(1)] 1(4) Cons p by blast
      show ?thesis unfolding Cons by (rule evolves_sub, rule IH [OF remove(2) u(1,2), unfolded u(3)])
    next
      case restart
      from IH [OF this, of "[]" "filter K (xs @ p # zs)"] show ?thesis
        unfolding Cons using K good_start [OF K] evolves_sub [of _ K "xs @ p # zs"] by simp
    next
      case next_entry
      then have "K p" using good_filter [OF K] by simp
      then have K': "pending c' (filter K xs @ p # filter K zs)" using K by simp
      from IH [OF next_entry(2), of "filter K xs @ [p]" "filter K zs"] show ?thesis
        unfolding Cons using K' good_seg_next [OF K' next_entry(1)] \<open>K p\<close> evolves_sub [of _ K "xs @ p # zs"] by (simp add: at_pos_def)
    qed
  qed
qed

lemma shrinks_timer: "radius_client_timer env now c = Some c' \<Longrightarrow> shrinks c c'"
proof -
  assume h: "radius_client_timer env now c = Some c'"
  show ?thesis
  proof (cases "msgs c = None")
    case True
    then show ?thesis using h by (simp add: radius_client_timer_def)
  next
    case False
    then obtain a b c1 c2 f c3 where
        c1: "(if a then failover_side env True c else Some c) = Some c1" and c2: "(if b then failover_side env False c1 else Some c1) = Some c2"
      and c3: "timer_loop env now None (msgs c2) 0 c2 = Some (f, c3)" and c': "c' = (if msgs c3 \<noteq> None then register_timer f (fst now) c3 else c3)"
      using h unfolding radius_client_timer_def bind_eq_Some_conv by (auto simp: bind_eq_Some_conv)
    have "shrinks c c1" using c1 shrinks_failover_side by (auto split: if_splits)
    also have "shrinks c1 c2" using c2 shrinks_failover_side by (auto split: if_splits)
    also have "shrinks c2 c3" unfolding shrinks_def using timer_loop_evolves [OF c3, of "[]"] good_start by fastforce
    also have "shrinks c3 c'" unfolding c' by (auto simp: register_timer_def intro!: shrinks_out)
    finally show ?thesis .
  qed
qed

end
