(* ===== verification/Radius_Client_Theorems.thy ===== *)
theory Radius_Client_Theorems
  imports Radius_Client_Steps Radius_Md5
begin

text \<open>
  The addition of requests and the delivery of responses, the invariant of all histories of the RADIUS
  client (\<open>client_reach\<close>), and the properties of the component.
\<close>

section \<open>Requests are added\<close>

lemma update_timeout_ok:
  assumes "seg l_next (msg_store c) (msgs c) L None"
  shows "\<exists>c'. radius_client_update_timeout now c = Some c' \<and> same_list c c' \<and> auth_side c' = auth_side c \<and> acct_side c' = acct_side c"
  using fold_list_seg [OF assms, of earliest 0]
  by (auto simp: radius_client_update_timeout_def register_timer_def client_out_def same_list_def)

lemma rep_push:
  assumes "list_rep c L" "msg_store c a = None" "has_hdr (l_msg e)" "length (l_addr e) = ETH_ALEN" "l_next e = msgs c"
  shows "list_rep (c\<lparr>msg_store := (msg_store c)(a \<mapsto> e), msgs := Some a\<rparr>) (a # L)"
proof -
  have r: "distinct L" "seg l_next (msg_store c) (msgs c) L None" "dom (msg_store c) = set L"
    "\<forall>x e. msg_store c x = Some e \<longrightarrow> has_hdr (l_msg e) \<and> length (l_addr e) = ETH_ALEN" using assms(1) by (auto simp: list_rep_def)
  then have a: "a \<notin> set L" using assms(2) by auto
  then have "seg l_next ((msg_store c)(a \<mapsto> e)) (msgs c) L None" using r(2) by (subst seg_cong [of _ _ _ "msg_store c"]) auto
  then show ?thesis using a r assms(3-5) by (auto simp: list_rep_def)
qed

lemma list_add_ok:
  assumes g: "pending c L" and a: "msg_store c a = None" and m: "has_hdr msg" "pred_option (\<lambda>d. ETH_ALEN \<le> length d) addr"
  defines "M \<equiv> a # (if num_msgs c \<ge> RADIUS_CLIENT_MAX_ENTRIES then butlast L else L)"
  shows "\<exists>c'. radius_client_list_add False (Some a) now msg t secret addr c = Some c' \<and> pending c' M
    \<and> num_msgs c' = (if num_msgs c \<ge> RADIUS_CLIENT_MAX_ENTRIES then num_msgs c else num_msgs c + 1)
    \<and> auth_side c' = auth_side c \<and> acct_side c' = acct_side c"
proof -
  define e where "e = \<lparr>l_addr = (case addr of Some d \<Rightarrow> take ETH_ALEN d | None \<Rightarrow> replicate ETH_ALEN 0), l_msg = msg, l_msg_type = t,
                       l_first_try = fst now, l_next_try = fst now + RADIUS_CLIENT_FIRST_WAIT, l_attempts = 1, l_accu_attempts = 1,
                       l_next_wait = cap_wait (RADIUS_CLIENT_FIRST_WAIT * 2), l_last_attempt = now, l_shared_secret = secret,
                       l_next = msgs c\<rparr>"
  define c1 where "c1 = c\<lparr>msg_store := (msg_store c)(a \<mapsto> e), msgs := Some a\<rparr>"
  have "list_rep c L" "length L \<le> unat (num_msgs c)" "num_msgs c \<le> RADIUS_CLIENT_MAX_ENTRIES" using g by (simp_all add: pending_def)
  then have r1: "list_rep c1 (a # L)" unfolding c1_def using a m by (intro rep_push) (auto simp: e_def ETH_ALEN_def split: option.splits)
  then obtain c2 where c2: "radius_client_update_timeout now c1 = Some c2" "same_list c1 c2" "auth_side c2 = auth_side c1" "acct_side c2 = acct_side c1"
    using update_timeout_ok [of c1 "a # L" now] by (auto simp: list_rep_def)
  have r2: "list_rep c2 (a # L)" "num_msgs c2 = num_msgs c" "msgs c2 = Some a" using r1 c2(2) by (auto simp: list_rep_def same_list_def c1_def)
  have add: "radius_client_list_add False (Some a) now msg t secret addr c =
      (if num_msgs c2 \<ge> RADIUS_CLIENT_MAX_ENTRIES then do {
            (prev, last) \<leftarrow> find_last l_next (msg_store c2) None a;
            case prev of None \<Rightarrow> Some c2
            | Some p \<Rightarrow> do { pe \<leftarrow> msg_store c2 p; Some (c2\<lparr>msg_store := (msg_store c2)(p \<mapsto> put_next None pe, last := None)\<rparr>) } }
          else Some (c2\<lparr>num_msgs := num_msgs c2 + 1\<rparr>))"
    using c2(1) by (simp add: radius_client_list_add_def e_def [symmetric] c1_def [symmetric])
  show ?thesis
  proof (cases "num_msgs c \<ge> RADIUS_CLIENT_MAX_ENTRIES")
    case False
    then have lt: "unat (num_msgs c) < 30" by (simp add: RADIUS_CLIENT_MAX_ENTRIES_def word_le_nat_alt)
    then have "unat (num_msgs c) + unat (1 :: u64) < 2 ^ LENGTH(64)" by simp
    then have "unat (num_msgs c + 1) = unat (num_msgs c) + 1" using iffD1 [OF unat_add_lem, of "num_msgs c" 1] by simp
    then have "pending (c2\<lparr>num_msgs := num_msgs c2 + 1\<rparr>) (a # L)"
      using r2 \<open>length L \<le> unat (num_msgs c)\<close> lt by (simp add: pending_def list_rep_def word_le_nat_alt RADIUS_CLIENT_MAX_ENTRIES_def)
    then show ?thesis using add False r2(2) c2(3,4) by (simp add: M_def c1_def)
  next
    case True
    have fl: "find_last l_next (msg_store c2) None a = Some (if L = [] then None else Some (last (a # butlast L)), last (a # L))"
      using find_last_seg [of l_next "msg_store c2" a L None] r2(1,3) by (simp add: list_rep_def)
    have n: "unat (num_msgs c) = 30" using True \<open>num_msgs c \<le> RADIUS_CLIENT_MAX_ENTRIES\<close> by (simp add: word_le_nat_alt RADIUS_CLIENT_MAX_ENTRIES_def)
    show ?thesis
    proof (cases "L = []")
      case Lnil: True
      have "pending c2 [a]" using r2 Lnil True n \<open>num_msgs c \<le> RADIUS_CLIENT_MAX_ENTRIES\<close> by (simp add: pending_def)
      then show ?thesis using add True r2(2) fl Lnil c2(3,4) by (simp add: M_def c1_def)
    next
      case False
      define p z us where "p = last (a # butlast L)" and "z = last L" and "us = butlast (a # butlast L)"
      have al: "a # L = us @ p # z # []" "a # butlast L = us @ [p]" 
      proof -
        show "a # butlast L = us @ [p]" unfolding us_def p_def by (rule append_butlast_last_id [symmetric]) simp
        then show "a # L = us @ p # z # []" unfolding z_def using append_butlast_last_id [OF False]
          by (metis append_Cons append_Nil append_assoc)
      qed
      obtain pe ze where e: "msg_store c2 p = Some pe" "msg_store c2 z = Some ze" 
        using list_rep_in [OF r2(1), of p] list_rep_in [OF r2(1), of z] unfolding al(1) by auto
      define c3 where "c3 = c2\<lparr>msg_store := (msg_store c2)(p \<mapsto> put_next None pe, z := None)\<rparr>"
      have "l_next ze = None" using r2(1) e al(1) by (auto simp: list_rep_def seg_append)
      then have "list_rep c3 (us @ [p])" using rep_unlink [OF r2(1) [unfolded al(1)] e(2,1)] by (simp add: c3_def)
      moreover have "length (us @ [p]) \<le> 30"
      proof -
        have "0 < length L" using False by simp
        then show ?thesis unfolding al(2) [symmetric] using n \<open>length L \<le> unat (num_msgs c)\<close> by simp
      qed
      ultimately have "pending c3 (us @ [p])" using r2(2) n \<open>num_msgs c \<le> RADIUS_CLIENT_MAX_ENTRIES\<close> by (simp add: pending_def c3_def)
      then show ?thesis using add True r2(2) fl False c2(3,4) e al(2) by (simp add: M_def c1_def c3_def p_def [symmetric] z_def [symmetric])
    qed
  qed
qed


text \<open>A message with a header keeps it when it is finished.\<close>

definition sendable :: "radius_msg \<Rightarrow> bool" where
  "sendable m \<longleftrightarrow> wf_wpabuf (rbuf m) \<and> sizeof_radius_hdr \<le> unat (used (rbuf m)) \<and> unat (used (rbuf m)) \<le> 0xffff"

lemma sendable_hdr: "sendable m \<Longrightarrow> has_hdr m"
  by (simp add: sendable_def has_hdr_def wf_wpabuf_def word_le_nat_alt)

lemma hdr_length: "length (bdata (rbuf m')) = length (bdata (rbuf m)) \<Longrightarrow> has_hdr m' = has_hdr m"
  by (simp add: has_hdr_def)

lemma put_bdata: "wpabuf_put b n = Ok (b', i) \<Longrightarrow> bdata b' = bdata b"
  by (auto simp: wpabuf_put_def Let_def split: if_splits)

lemma put_data_length: "wpabuf_put_data b d = Ok b' \<Longrightarrow> length (bdata b') = length (bdata b)"
  by (auto simp: wpabuf_put_data_def put_at_def bindR_eq_Ok memcpy_at_def put_bdata split: option.splits if_splits prod.splits dest!: put_bdata)

lemma resize_hdr:
  assumes m: "sendable m" and n: "unat n \<le> 300" and r: "wpabuf_resize malloc junk (Some (rbuf m)) n = Ok (x, Some b)"
  shows "has_hdr (m\<lparr>rbuf := b\<rparr>)"
proof -
  have "unat (used (rbuf m)) + unat n + 32 < PTRDIFF_LIMIT" using m n by (simp add: sendable_def PTRDIFF_LIMIT_def)
  then have "b = rbuf m \<or> wf_wpabuf b \<and> wpabuf_content b = wpabuf_content (rbuf m)"
    using wpabuf_resize_spec [of "rbuf m" n malloc junk] m r by (auto simp: sendable_def)
  moreover have "length (wpabuf_content b) \<le> length (bdata b)" by (simp add: wpabuf_content_def wpabuf_head_def)
  ultimately show ?thesis
    using sendable_hdr [OF m] content_length [of "rbuf m"] m by (auto simp: has_hdr_def sendable_def wpabuf_len_def)
qed

lemma add_attr_hdr:
  assumes m: "sendable m" and r: "radius_msg_add_attr env m t d = Ok (a, m')"
  shows "has_hdr m'"
proof (cases "length d > RADIUS_MAX_ATTR_LEN")
  case True
  then show ?thesis using r sendable_hdr [OF m] by (simp add: radius_msg_add_attr_def)
next
  case False
  define n :: u64 where "n = word_of_nat (sizeof_radius_attr_hdr + length d)"
  have "unat n \<le> 300" using False unat_word_of_nat_small [of "sizeof_radius_attr_hdr + length d"]
    by (simp add: n_def RADIUS_MAX_ATTR_LEN_def sizeof_radius_attr_hdr_def PTRDIFF_LIMIT_def)
  define R where "R = (if wpabuf_tailroom (rbuf m) < n
      then bindR (wpabuf_resize (rmalloc env) (rjunk env) (Some (rbuf m)) n) (\<lambda>(r, b).
        if r < 0 then Ok None else Ok (map_option (\<lambda>b. m\<lparr>rbuf := b\<rparr>) b)) else Ok (Some m))"
  have R: "has_hdr m1" if "R = Ok (Some m1)" for m1
    using that resize_hdr [OF m \<open>unat n \<le> 300\<close>] sendable_hdr [OF m] by (auto simp: R_def bindR_eq_Ok split: if_splits)
  have r': "bindR R (\<lambda>r. case r of
           None \<Rightarrow> Ok (None, m)
         | Some msg \<Rightarrow>
           bindR (wpabuf_put (rbuf msg) (word_of_nat sizeof_radius_attr_hdr)) (\<lambda>(b, attr).
           bindR (radius_write (msg\<lparr>rbuf := b\<rparr>) attr [t, word_of_nat (sizeof_radius_attr_hdr + length d)]) (\<lambda>msg.
           bindR (wpabuf_put_data (rbuf msg) d) (\<lambda>b.
             let msg = msg\<lparr>rbuf := b\<rparr> in
             case radius_msg_add_attr_to_array env msg attr of
               None \<Rightarrow> Ok (None, msg)
             | Some msg \<Rightarrow> Ok (Some attr, msg))))) = Ok (a, m')"
    using r unfolding radius_msg_add_attr_def if_not_P [OF False] Let_def R_def n_def .
  then consider "R = Ok None" "m' = m"
    | m1 b i m2 b2 where "R = Ok (Some m1)" "wpabuf_put (rbuf m1) (word_of_nat sizeof_radius_attr_hdr) = Ok (b, i)"
        "radius_write (m1\<lparr>rbuf := b\<rparr>) i [t, word_of_nat (sizeof_radius_attr_hdr + length d)] = Ok m2"
        "wpabuf_put_data (rbuf m2) d = Ok b2" "rbuf m' = b2"
    unfolding bindR_eq_Ok
    by (fastforce simp: bindR_eq_Ok radius_msg_add_attr_to_array_def Let_def split: option.splits if_splits)
  then show ?thesis
  proof cases
    case 1
    then show ?thesis using sendable_hdr [OF m] by simp
  next
    case 2
    then have "length (bdata (rbuf m')) = length (bdata (rbuf m1))"
      using write_length [OF 2(3)] put_bdata [OF 2(2)] put_data_length [OF 2(4)] by simp
    then show ?thesis using R [OF 2(1)] by (simp add: has_hdr_def)
  qed
qed

lemma finish_hdr: "sendable m \<Longrightarrow> radius_msg_finish env m (Some secret) = Ok (r, m') \<Longrightarrow> has_hdr m'"
  unfolding radius_msg_finish_def add_zero_authenticator_def
  by (auto simp: bindR_eq_Ok split: option.splits if_splits dest!: add_attr_hdr store_mac_length set_hdr_length_length hdr_length)

lemma evolves_fresh: "evolves c L \<Longrightarrow> a \<notin> set L \<Longrightarrow> msg_store c a = None"
  by (auto simp: evolves_def pending_def list_rep_def dom_def)

lemma send_ok:
  assumes h: "radius_client_send env terminated new now msg t addr c = Some (r, c')" and g: "pending c L"
    and m: "sendable msg" "pred_option (\<lambda>d. ETH_ALEN \<le> length d) addr" "\<And>a. new = Some a \<Longrightarrow> msg_store c a = None"
  shows "\<exists>M. pending c' M \<and> set M \<subseteq> set L \<union> set_option new"
proof -
  define auth where "auth = (\<not> is_acct t)"
  obtain c1 where c1: "(if server (side auth c) \<noteq> None \<and> cur_sock (side auth c) < 0 then map_option snd (init_side env auth c) else Some c) = Some c1"
    using h unfolding radius_client_send_def Let_def auth_def [symmetric] bind_eq_Some_conv by blast
  have s1: "shrinks c c1" using c1 shrinks_init_side [of env auth c] by (auto split: if_splits)
  show ?thesis
  proof (cases "c' = c1")
    case True
    obtain K where "pending c1 (filter K L)" using s1 g by (auto simp: shrinks_def evolves_def)
    then show ?thesis using True by (intro exI [of _ "filter K L"]) auto
  next
    case False
    have h1: "(case server (side auth c1) of
          None \<Rightarrow> Some (-1, c1)
        | Some i \<Rightarrow>
          (case srv_secret (servers (side auth c1) ! i) of
             None \<Rightarrow> Some (-1, c1)
           | Some secret \<Rightarrow>
             if cur_sock (side auth c1) < 0 then Some (-1, c1)
             else do {
               msg \<leftarrow> (if auth then map_option snd (run_ub (radius_msg_finish (c_radius env) msg (Some secret)))
                       else run_ub (radius_msg_finish_acct (c_radius env) msg secret));
               c \<leftarrow> on_server auth (\<lambda>s. s\<lparr>srv_requests := srv_requests s + 1\<rparr>) c1;
               let (res, c) = transmit env (cur_sock (side auth c)) msg c;
               c \<leftarrow> (case res of
                       Sent \<Rightarrow> Some c
                     | Send_Failed reconnect \<Rightarrow> map_option snd (radius_client_handle_send_error env reconnect t c));
               c \<leftarrow> radius_client_list_add terminated new now msg t secret addr c;
               Some (0, c) })) = Some (r, c')"
      using h unfolding radius_client_send_def Let_def auth_def [symmetric] c1 bind.bind_lunit .
    obtain secret m1 c2 where
        m1: "(if auth then map_option snd (run_ub (radius_msg_finish (c_radius env) msg (Some secret)))
              else run_ub (radius_msg_finish_acct (c_radius env) msg secret)) = Some m1"
      and c2: "on_server auth (\<lambda>s. s\<lparr>srv_requests := srv_requests s + 1\<rparr>) c1 = Some c2"
      and h2: "(let (res, c) = transmit env (cur_sock (side auth c2)) m1 c2 in do {
               c \<leftarrow> (case res of
                       Sent \<Rightarrow> Some c
                     | Send_Failed reconnect \<Rightarrow> map_option snd (radius_client_handle_send_error env reconnect t c));
               c \<leftarrow> radius_client_list_add terminated new now m1 t secret addr c;
               Some (0, c) }) = Some (r, c')"
    proof (cases "server (side auth c1)")
      case (Some i)
      then obtain secret where sec: "srv_secret (servers (side auth c1) ! i) = Some secret" "\<not> cur_sock (side auth c1) < 0"
        using h1 False by (cases "srv_secret (servers (side auth c1) ! i)") (auto split: if_splits)
      show ?thesis using h1 that unfolding Some sec(1) option.case if_not_P [OF sec(2)] bind_eq_Some_conv by blast
    qed (use h1 False in simp)
    obtain res c3 where c3: "transmit env (cur_sock (side auth c2)) m1 c2 = (res, c3)" by fastforce
    obtain c4 where c4: "(case res of Sent \<Rightarrow> Some c3 | Send_Failed b \<Rightarrow> map_option snd (radius_client_handle_send_error env b t c3)) = Some c4"
      and c': "radius_client_list_add terminated new now m1 t secret addr c4 = Some c'"
      using h2 unfolding c3 Let_def prod.case bind_eq_Some_conv by blast
    have "shrinks c c2" using s1 same_list_shrinks [OF same_list_server [OF c2]] shrinks_trans by blast
    also have "shrinks c2 c3" by (rule same_list_shrinks [OF same_list_transmit [OF c3]])
    also have "shrinks c3 c4" using c4 shrinks_send_error [of env _ t c3] by (auto split: send_result.splits)
    finally obtain K where K: "pending c4 (filter K L)" using g by (auto simp: shrinks_def evolves_def)
    have hm: "has_hdr m1"
    proof (cases auth)
      case True
      then show ?thesis using m1 finish_hdr [OF m(1)] by auto
    next
      case False
      then show ?thesis using m1 hdr_length [OF finish_acct_length] sendable_hdr [OF m(1)] by auto
    qed
    show ?thesis
    proof (cases "terminated \<or> new = None")
      case True
      then have "c' = c4" using c' by (cases terminated) (simp_all add: radius_client_list_add_def)
      then show ?thesis using K by auto
    next
      case False
      then obtain a where a: "new = Some a" "\<not> terminated" by auto
      have "a \<notin> set L" using m(3) [OF a(1)] list_rep_in [of c L a] g by (auto simp: pending_def)
      then have f: "msg_store c4 a = None" using K by (intro evolves_fresh [of c4 L]) (auto simp: evolves_def)
      from list_add_ok [OF K f hm m(2), where now = now and t = t and secret = secret]
      have "pending c' (a # (if num_msgs c4 \<ge> RADIUS_CLIENT_MAX_ENTRIES then butlast (filter K L) else filter K L))" using c' a by simp
      then show ?thesis using a
        by (intro exI [of _ "a # (if num_msgs c4 \<ge> RADIUS_CLIENT_MAX_ENTRIES then butlast (filter K L) else filter K L)"]) (auto dest: in_set_butlastD)
    qed
  qed
qed


section \<open>Responses\<close>

definition has_server :: "bool \<Rightarrow> 'w radius_client_data \<Rightarrow> bool" where
  "has_server auth c \<longleftrightarrow> (\<exists>i. server (side auth c) = Some i \<and> i < length (servers (side auth c)))"

lemma on_server_ok:
  "has_server auth c \<Longrightarrow> \<exists>c'. on_server auth f c = Some c' \<and> has_server auth c' \<and> same_list c c' \<and> rx_handlers (side b c') = rx_handlers (side b c)
     \<and> next_radius_identifier c' = next_radius_identifier c"
  by (auto simp: has_server_def on_server_def on_side_def side_def same_list_def)

lemma remove_entry_ok:
  assumes g: "pending c (as @ x # bs)"
  shows "\<exists>c'. remove_entry (if as = [] then None else Some (last as)) x c = Some (case bs of [] \<Rightarrow> None | y # _ \<Rightarrow> Some y, c') \<and> pending c' (as @ bs)
    \<and> num_msgs c' = num_msgs c - 1 \<and> (\<forall>y \<in> set (as @ bs). map_option body (msg_store c' y) = map_option body (msg_store c y))"
proof -
  let ?prev = "if as = [] then None else Some (last as)"
  have r: "list_rep c (as @ x # bs)" and d: "x \<notin> set as" "x \<notin> set bs" using g by (auto simp: pending_def list_rep_def)
  obtain e where e: "msg_store c x = Some e" using list_rep_in [OF r, of x] by auto
  have q: "\<exists>qe. msg_store c (last as) = Some qe" if "as \<noteq> []" using list_rep_in [OF r, of "last as"] that by auto
  obtain nx c' where c': "remove_entry ?prev x c = Some (nx, c')" using e q by (fastforce simp: remove_entry_def)
  have p: "at_pos ?prev (Some x) as (x # bs)" by (simp add: at_pos_def)
  obtain us vs where u: "pending c' (us @ vs)" "at_pos ?prev nx us vs" "us @ vs = filter (\<lambda>y. True \<and> y \<noteq> x) (as @ x # bs)" "num_msgs c' = num_msgs c - 1"
    using remove_entry_pos [OF _ good_distinct [OF g] p c', of "\<lambda>_. True"] g by auto
  have uv: "us @ vs = as @ bs" 
  proof -
    have "filter (\<lambda>y. True \<and> y \<noteq> x) l = l" if "x \<notin> set l" for l using that by (induction l) auto
    then show ?thesis using u(3) d by simp
  qed
  have "map_option body (msg_store c' y) = map_option body (msg_store c y)" if "y \<in> set (as @ bs)" for y
  proof -
    have "y \<noteq> x" using that d by auto
    then show ?thesis using c' e by (auto simp: remove_entry_def bind_eq_Some_conv split: if_splits)
  qed
  moreover have "nx = (case bs of [] \<Rightarrow> None | y # _ \<Rightarrow> Some y)" using good_seg_next [OF g e] c' e by (auto simp: remove_entry_def bind_eq_Some_conv)
  ultimately show ?thesis using c' u(1,4) unfolding uv by auto
qed

lemma run_handlers_ok:
  "\<forall>h \<in> set hs. \<forall>m r s w. \<exists>y. h m r s w = Ok y \<Longrightarrow> \<exists>b i w'. run_handlers hs msg req secret invalid w = Some (b, i, w')"
proof (induction hs arbitrary: msg invalid w)
  case (Cons h hs)
  then obtain r m1 w1 where "h msg req secret w = Ok (r, m1, w1)" by (metis list.set_intros(1) surj_pair)
  then show ?case using Cons by (cases r) (auto simp: run_ub_def)
qed auto

lemma deliver_ok:
  assumes g: "pending c (as @ x # bs)" and e: "msg_store c x = Some e"
    and h: "deliver auth now msg (if as = [] then None else Some (last as)) x c w = Some (c', w')"
  shows "pending c' (as @ bs) \<and> (\<exists>b i. run_handlers (rx_handlers (side auth c)) msg (l_msg e) (l_shared_secret e) False w = Some (b, i, w'))
    \<and> num_msgs c' = num_msgs c - 1 \<and> (\<forall>y \<in> set (as @ bs). map_option body (msg_store c' y) = map_option body (msg_store c y))"
proof -
  let ?prev = "if as = [] then None else Some (last as)"
  obtain c1 c2 b i c4 where c1: "on_server auth (\<lambda>s. s\<lparr>srv_round_trip_time := roundtrip now e\<rparr>) c = Some c1"
    and c2: "(case ?prev of None \<Rightarrow> Some (c1\<lparr>msgs := l_next e\<rparr>)
      | Some p \<Rightarrow> do { pe \<leftarrow> msg_store c1 p; Some (c1\<lparr>msg_store := (msg_store c1)(p \<mapsto> put_next (l_next e) pe)\<rparr>) }) = Some c2"
    and r: "run_handlers (rx_handlers (side auth (c2\<lparr>num_msgs := num_msgs c2 - 1\<rparr>))) msg (l_msg e) (l_shared_secret e) False w = Some (b, i, w')"
    and c4: "(if b then Some (c2\<lparr>num_msgs := num_msgs c2 - 1\<rparr>) else on_server auth (\<lambda>s. if i then s\<lparr>srv_bad_authenticators := srv_bad_authenticators s + 1\<rparr>
                                   else s\<lparr>srv_unknown_types := srv_unknown_types s + 1\<rparr>) (c2\<lparr>num_msgs := num_msgs c2 - 1\<rparr>)) = Some c4"
    and c': "c' = c4\<lparr>msg_store := (msg_store c4)(x := None)\<rparr>"
    using h unfolding deliver_def e bind.bind_lunit Let_def bind_eq_Some_conv split_paired_Ex prod.case by blast
  have s1: "same_list c c1" by (rule same_list_server [OF c1])
  have g1: "pending c1 (as @ x # bs)" and e1: "msg_store c1 x = Some e" using g e s1 same_list_good [OF s1] by (auto simp: same_list_def)
  obtain c3 where c3: "remove_entry ?prev x c1 = Some (case bs of [] \<Rightarrow> None | y # _ \<Rightarrow> Some y, c3)" "pending c3 (as @ bs)" "num_msgs c3 = num_msgs c1 - 1"
      "\<forall>y \<in> set (as @ bs). map_option body (msg_store c3 y) = map_option body (msg_store c1 y)"
    using remove_entry_ok [OF g1] by blast
  have c32: "c3 = c2\<lparr>msg_store := (msg_store c2)(x := None), num_msgs := num_msgs c2 - 1\<rparr>"
    using c3(1) unfolding remove_entry_def e1 bind.bind_lunit c2 by simp
  have "same_list (c2\<lparr>num_msgs := num_msgs c2 - 1\<rparr>) c4" using c4 same_list_server by (cases b) auto
  then have s3: "same_list c3 c'" using c32 c' by (simp add: same_list_def)
  have "pending c' (as @ bs)" using c3(2) same_list_good [OF s3] by blast
  moreover have "rx_handlers (side auth (c2\<lparr>num_msgs := num_msgs c2 - 1\<rparr>)) = rx_handlers (side auth c)"
    using c2 c1 by (auto simp: on_server_def on_side_def side_def bind_eq_Some_conv split: if_splits option.splits)
  moreover have "num_msgs c' = num_msgs c - 1" "\<forall>y \<in> set (as @ bs). map_option body (msg_store c' y) = map_option body (msg_store c y)"
    using c3(3,4) s1 s3 by (simp_all add: same_list_def)
  ultimately show ?thesis using r by metis
qed

lemma deliver_total:
  assumes g: "pending c (as @ x # bs)" and s: "has_server auth c"
    and h: "\<forall>h \<in> set (rx_handlers (side auth c)). \<forall>m r s w. \<exists>y. h m r s w = Ok y"
  shows "deliver auth now msg (if as = [] then None else Some (last as)) x c w \<noteq> None"
proof -
  let ?prev = "if as = [] then None else Some (last as)"
  have r: "list_rep c (as @ x # bs)" using g by (simp add: pending_def)
  obtain e where e: "msg_store c x = Some e" using list_rep_in [OF r, of x] by auto
  obtain c1 where c1: "on_server auth (\<lambda>s. s\<lparr>srv_round_trip_time := roundtrip now e\<rparr>) c = Some c1" "has_server auth c1" "same_list c c1"
      "rx_handlers (side auth c1) = rx_handlers (side auth c)"
    using on_server_ok [OF s, of _ auth] by blast
  have "\<exists>qe. msg_store c1 (last as) = Some qe" if "as \<noteq> []" using list_rep_in [OF r, of "last as"] that c1(3) by (auto simp: same_list_def)
  then obtain c2 where c2: "(case ?prev of None \<Rightarrow> Some (c1\<lparr>msgs := l_next e\<rparr>)
      | Some p \<Rightarrow> do { pe \<leftarrow> msg_store c1 p; Some (c1\<lparr>msg_store := (msg_store c1)(p \<mapsto> put_next (l_next e) pe)\<rparr>) }) = Some c2" by (cases "as = []") auto
  define d where "d = c2\<lparr>num_msgs := num_msgs c2 - 1\<rparr>"
  have sd: "has_server auth d" "rx_handlers (side auth d) = rx_handlers (side auth c)"
    using c2 c1(2,4) by (auto simp: d_def has_server_def side_def bind_eq_Some_conv split: if_splits option.splits)
  obtain b i w' where r: "run_handlers (rx_handlers (side auth c)) msg (l_msg e) (l_shared_secret e) False w = Some (b, i, w')" using run_handlers_ok [OF h] by blast
  obtain c4 where c4: "(if b then Some d else on_server auth (\<lambda>s. if i then s\<lparr>srv_bad_authenticators := srv_bad_authenticators s + 1\<rparr>
                                   else s\<lparr>srv_unknown_types := srv_unknown_types s + 1\<rparr>) d) = Some c4"
    using on_server_ok [OF sd(1), of "\<lambda>s. if i then s\<lparr>srv_bad_authenticators := srv_bad_authenticators s + 1\<rparr>
        else s\<lparr>srv_unknown_types := srv_unknown_types s + 1\<rparr>" auth] by (cases b) auto
  show ?thesis unfolding deliver_def e bind.bind_lunit c1(1) c2 Let_def d_def [symmetric] sd(2) r prod.case c4 by simp
qed

text \<open>The request a response belongs to: the first one of its type with its identifier.\<close>

definition answered_by :: "RadiusType \<Rightarrow> radius_msg \<Rightarrow> 'w radius_client_data \<Rightarrow> nat \<Rightarrow> bool" where
  "answered_by t msg c x \<longleftrightarrow> (case msg_store c x of None \<Rightarrow> False
     | Some e \<Rightarrow> (l_msg_type e = t \<or> l_msg_type e = RADIUS_ACCT_INTERIM \<and> t = RADIUS_ACCT) \<and> hdr_identifier (l_msg e) = hdr_identifier msg)"

lemma find_request:
  assumes g: "pending c L" and i: "hdr_identifier msg = Some ident"
  shows "(find_req l_next (answers t ident) (msg_store c) None (msgs c) = Some None \<and> (\<forall>x \<in> set L. \<not> answered_by t msg c x))
    \<or> (\<exists>as x bs. L = as @ x # bs \<and> answered_by t msg c x \<and> (\<forall>y \<in> set as. \<not> answered_by t msg c y)
        \<and> find_req l_next (answers t ident) (msg_store c) None (msgs c) = Some (Some (if as = [] then None else Some (last as), x)))"
proof -
  have r: "list_rep c L" using g by (simp add: pending_def)
  have "answers t ident (the (msg_store c x)) = Some (answered_by t msg c x)" if x: "x \<in> set L" for x
  proof -
    obtain e where e: "msg_store c x = Some e" "has_hdr (l_msg e)" using list_rep_in [OF r x] by blast
    then obtain j where "hdr_identifier (l_msg e) = Some j" using has_hdr_identifier by blast
    then show ?thesis using e i by (auto simp: answers_def answered_by_def)
  qed
  then show ?thesis using r by (intro find_req_seg) (auto simp: list_rep_def)
qed

lemma answered_same: "same_list c c' \<Longrightarrow> answered_by t msg c' x = answered_by t msg c x"
  by (simp add: answered_by_def same_list_def)

lemma receive_msg:
  fixes t :: RadiusType
  assumes g: "pending c L" and m: "radius_msg_parse (c_radius env) (Some buf) = Ok (Some msg)" "has_hdr msg"
  defines "auth \<equiv> t \<noteq> RADIUS_ACCT"
  obtains (none) "\<forall>x \<in> set L. \<not> answered_by t msg c x"
      "radius_client_receive env now t (Rx buf) c w =
        map_option (\<lambda>c'. (c', w)) (if counted (the (hdr_code msg)) then on_server auth (count_response (the (hdr_code msg))) c else Some c)"
  | (matched) as x bs where "L = as @ x # bs" "answered_by t msg c x" "\<forall>y \<in> set as. \<not> answered_by t msg c y"
      "radius_client_receive env now t (Rx buf) c w =
        do { c' \<leftarrow> (if counted (the (hdr_code msg)) then on_server auth (count_response (the (hdr_code msg))) c else Some c);
             deliver auth now msg (if as = [] then None else Some (last as)) x c' w }"
proof -
  obtain code ident where hd: "hdr_code msg = Some code" "hdr_identifier msg = Some ident"

  proof -
    have "0 < length (bdata (rbuf msg))" "1 < length (bdata (rbuf msg))" using m(2) by (auto simp: has_hdr_def sizeof_radius_hdr_def)
    then show ?thesis using that by (simp add: hdr_code_def hdr_identifier_def peek_def)
  qed
  define C where "C = (if counted code then on_server auth (count_response code) c else Some c)"
  have C: "same_list c c'" if "C = Some c'" for c' using that same_list_server by (auto simp: C_def split: if_splits)
  have R: "radius_client_receive env now t (Rx buf) c w = do {
      c \<leftarrow> C;
      r \<leftarrow> find_req l_next (answers t ident) (msg_store c) None (msgs c);
      case r of None \<Rightarrow> Some (c, w) | Some (prev_req, req) \<Rightarrow> deliver auth now msg prev_req req c w }"
    unfolding radius_client_receive_def Let_def C_def auth_def using m(1) hd by (simp add: run_ub_def)
  have find: "find_req l_next (answers t ident) (msg_store c') None (msgs c') = find_req l_next (answers t ident) (msg_store c) None (msgs c)"
    if "C = Some c'" for c' using C [OF that] by (simp add: same_list_def)
  from find_request [OF g hd(2), of t] show ?thesis
  proof (elim disjE exE conjE)
    assume f: "find_req l_next (answers t ident) (msg_store c) None (msgs c) = Some None" "\<forall>x \<in> set L. \<not> answered_by t msg c x"
    have "radius_client_receive env now t (Rx buf) c w = map_option (\<lambda>c'. (c', w)) C" unfolding R using find f(1) by (cases C) simp_all
    then show ?thesis using none f(2) hd by (simp add: C_def)
  next
    fix as x bs
    assume f: "L = as @ x # bs" "answered_by t msg c x" "\<forall>y \<in> set as. \<not> answered_by t msg c y"
      "find_req l_next (answers t ident) (msg_store c) None (msgs c) = Some (Some (if as = [] then None else Some (last as), x))"
    have "radius_client_receive env now t (Rx buf) c w = do { c' \<leftarrow> C; deliver auth now msg (if as = [] then None else Some (last as)) x c' w }"
      unfolding R using find f(4) by (cases C) simp_all
    then show ?thesis using matched f(1-3) hd by (simp add: C_def)
  qed
qed


lemma parsed_hdr: "radius_msg_parse env (Some d) = Ok (Some msg) \<Longrightarrow> has_hdr msg"
  using parse_some [of env d] by (auto simp: parsed_def has_hdr_def)

lemma receive_pending:
  assumes h: "radius_client_receive env now t p c w = Some (c', w')" and g: "pending c L"
  shows "\<exists>M. pending c' M"
proof (cases p)
  case (Rx buf)
  then obtain m where m: "radius_msg_parse (c_radius env) (Some buf) = Ok m"
    using h by (auto simp: radius_client_receive_def Let_def bind_eq_Some_conv)
  show ?thesis
  proof (cases m)
    case None
    then obtain f where "on_server (t \<noteq> RADIUS_ACCT) f c = Some c'" using h m Rx by (auto simp: radius_client_receive_def run_ub_def Let_def bind_eq_Some_conv)
    then show ?thesis using g same_list_good [OF same_list_server] by blast
  next
    case (Some msg)
    have C: "same_list c c1" if "(if counted k then on_server b (count_response k) c else Some c) = Some c1" for c1 k b
      using that same_list_server by (auto split: if_splits)
    show ?thesis
    proof (rule receive_msg [OF g m [unfolded Some] parsed_hdr [OF m [unfolded Some]], of t now w])
      assume "radius_client_receive env now t (Rx buf) c w = map_option (\<lambda>c'. (c', w))
        (if counted (the (hdr_code msg)) then on_server (t \<noteq> RADIUS_ACCT) (count_response (the (hdr_code msg))) c else Some c)"
      then have "same_list c c'" using h Rx C [of "the (hdr_code msg)" "t \<noteq> RADIUS_ACCT"] by auto
      then show ?thesis using g same_list_good by blast
    next
      fix as x bs
      assume l: "L = as @ x # bs" "radius_client_receive env now t (Rx buf) c w = do {
        c' \<leftarrow> (if counted (the (hdr_code msg)) then on_server (t \<noteq> RADIUS_ACCT) (count_response (the (hdr_code msg))) c else Some c);
        deliver (t \<noteq> RADIUS_ACCT) now msg (if as = [] then None else Some (last as)) x c' w }"
      then obtain c1 where c1: "same_list c c1" "deliver (t \<noteq> RADIUS_ACCT) now msg (if as = [] then None else Some (last as)) x c1 w = Some (c', w')"
        using h Rx C by (auto simp: bind_eq_Some_conv)
      have g1: "pending c1 (as @ x # bs)" using g l(1) same_list_good [OF c1(1)] by simp
      then obtain e where "msg_store c1 x = Some e" using list_rep_in [of c1 "as @ x # bs" x] by (auto simp: pending_def)
      then show ?thesis using deliver_ok [OF g1 _ c1(2)] by blast
    qed
  qed
qed (use h g in \<open>auto simp: radius_client_receive_def\<close>)

section \<open>Histories\<close>

text \<open>
  A client from its creation on, with the operations in any order. The environment may differ from call
  to call. A message that is sent has a header, a station address has six bytes, and the allocator returns
  an address that is not in use.
\<close>

inductive client_reach :: "'w radius_client_data \<Rightarrow> bool" where
  init: "radius_client_init env True as ai cs ci = Some (Some c) \<Longrightarrow> client_reach c"
| register: "client_reach c \<Longrightarrow> client_reach (snd (radius_client_register ok t h c))"
| interim: "client_reach c \<Longrightarrow> client_reach (radius_client_set_interim_error_cb b c)"
| reconfig: "client_reach c \<Longrightarrow> client_reach (radius_client_reconfig as ai cs ci c)"
| get_id: "client_reach c \<Longrightarrow> radius_client_get_id c = Some (i, c') \<Longrightarrow> client_reach c'"
| send: "client_reach c \<Longrightarrow> sendable msg \<Longrightarrow> pred_option (\<lambda>d. ETH_ALEN \<le> length d) addr \<Longrightarrow> pred_option (\<lambda>a. msg_store c a = None) new
    \<Longrightarrow> radius_client_send env terminated new now msg t addr c = Some (r, c') \<Longrightarrow> client_reach c'"
| receive: "client_reach c \<Longrightarrow> radius_client_receive env now t p c w = Some (c', w') \<Longrightarrow> client_reach c'"
| timer: "client_reach c \<Longrightarrow> radius_client_timer env now c = Some c' \<Longrightarrow> client_reach c'"
| retry: "client_reach c \<Longrightarrow> radius_retry_primary_timer env c = Some c' \<Longrightarrow> client_reach c'"
| flush: "client_reach c \<Longrightarrow> radius_client_flush only_auth c = Some c' \<Longrightarrow> client_reach c'"
| flush_auth: "client_reach c \<Longrightarrow> length addr = ETH_ALEN \<Longrightarrow> radius_client_flush_auth addr c = Some c' \<Longrightarrow> client_reach c'"

lemma shrinks_flush_auth: "length addr = ETH_ALEN \<Longrightarrow> radius_client_flush_auth addr c = Some c' \<Longrightarrow> shrinks c c'"
  unfolding shrinks_def
proof (intro allI impI)
  fix L
  assume a: "length addr = ETH_ALEN" and h: "radius_client_flush_auth addr c = Some c'" and g: "pending c L"
  let ?match = "\<lambda>e. if l_msg_type e = RADIUS_AUTH then mem_equal (l_addr e) addr ETH_ALEN else Some False"
  let ?m = "\<lambda>e. l_msg_type e = RADIUS_AUTH \<and> l_addr e = addr"
  let ?M = "filter (\<lambda>x. \<not> ?m (the (msg_store c x))) L"
  have r: "list_rep c L" using g by (simp add: pending_def)
  obtain c1 where c1: "remove_msgs ?match c = Some (length L - length ?M, c1)" "list_rep c1 ?M" "c1 = c\<lparr>msgs := msgs c1, msg_store := msg_store c1\<rparr>"

  proof -
    have "?match e = Some (?m e)" if "has_hdr (l_msg e)" "length (l_addr e) = ETH_ALEN" for e using that a by (simp add: mem_equal_iff)
    from remove_msgs_ok [where match = ?match and m = ?m, OF r this] that show ?thesis by simp blast
  qed
  have "num_msgs c1 = num_msgs c" by (subst c1(3)) simp
  then have "c' = c1\<lparr>num_msgs := num_msgs c - word_of_nat (length L - length ?M)\<rparr>" using h c1(1) by (simp add: radius_client_flush_auth_def)
  then have "pending c' ?M" using c1(2) by (intro good_removed [OF g]) (simp_all add: list_rep_def)
  then show "evolves c' L" by (auto simp: evolves_def)
qed

lemma pending_new: "pending \<lparr>auth_side = a, acct_side = b, msg_store = (\<lambda>_. None), msgs = None, num_msgs = 0, next_radius_identifier = i,
    interim_error_cb = cb, client_outs = l, io_count = n\<rparr> []"
  by (simp add: pending_def list_rep_def RADIUS_CLIENT_MAX_ENTRIES_def)

lemma shrinks_pending: "shrinks c c' \<Longrightarrow> \<exists>L. pending c L \<Longrightarrow> \<exists>L. pending c' L"
  by (auto simp: shrinks_def evolves_def)

lemma init_pending:
  fixes c :: "'w radius_client_data"
  assumes h: "radius_client_init env True as ai cs ci = Some (Some c)"
  shows "\<exists>L. pending c L"
proof -
  let ?c = "\<lparr>auth_side = new_side as ai, acct_side = new_side cs ci, msg_store = (\<lambda>_. None),
                 msgs = None, num_msgs = 0, next_radius_identifier = 0, interim_error_cb = False, client_outs = [], io_count = 0\<rparr> :: 'w radius_client_data"
  define A where "A = (if ai \<noteq> None then radius_client_init_auth env ?c else Some (0, ?c))"
  have h1: "do { (r, c) \<leftarrow> A;
        if r \<noteq> 0 then do { _ \<leftarrow> radius_client_deinit c; Some None }
        else do {
          (r, c) \<leftarrow> (if ci \<noteq> None then radius_client_init_acct env c else Some (0, c));
          if r \<noteq> 0 then do { _ \<leftarrow> radius_client_deinit c; Some None }
          else Some (Some (if retry_primary_interval env \<noteq> 0 then client_out (Register_Retry (retry_primary_interval env)) c else c)) } } = Some (Some c)"
    using h unfolding radius_client_init_def Let_def A_def by simp
  obtain r1 c1 where c1: "A = Some (r1, c1)" using h1 by (cases A) auto
  have r1: "r1 = 0" using h1 c1 by (cases "radius_client_deinit c1") (auto split: if_splits)
  obtain r2 c2 where c2: "(if ci \<noteq> None then radius_client_init_acct env c1 else Some (0, c1)) = Some (r2, c2)"
    using h1 unfolding c1 r1 bind.bind_lunit prod.case by (cases "if ci \<noteq> None then radius_client_init_acct env c1 else Some (0, c1)") auto
  have c: "c = (if retry_primary_interval env \<noteq> 0 then client_out (Register_Retry (retry_primary_interval env)) c2 else c2)"
    using h1 unfolding c1 r1 bind.bind_lunit prod.case c2 by (cases "radius_client_deinit c2") (auto split: if_splits)
  have "shrinks ?c c1" using c1 shrinks_open_sockets by (auto simp: A_def radius_client_init_auth_def split: if_splits)
  also have "shrinks c1 c2" using c2 shrinks_open_sockets by (auto simp: radius_client_init_acct_def split: if_splits)
  also have "shrinks c2 c" unfolding c by (auto intro: shrinks_out)
  finally show ?thesis using shrinks_pending pending_new by blast
qed

lemma reach_pending: "client_reach c \<Longrightarrow> \<exists>L. pending c L"
proof (induction rule: client_reach.induct)
  case (init env as ai cs ci c)
  then show ?case by (rule init_pending)
next
  case (register c ok t h)
  have "same_list c (snd (radius_client_register ok t h c))" by (auto simp: radius_client_register_def)
  then show ?case using register same_list_good by blast
next
  case (interim c b)
  have "same_list c (radius_client_set_interim_error_cb b c)" by (simp add: radius_client_set_interim_error_cb_def same_list_def)
  then show ?case using interim same_list_good by blast
next
  case (reconfig c as ai cs ci)
  have "same_list c (radius_client_reconfig as ai cs ci c)" by (simp add: radius_client_reconfig_def on_side_def same_list_def)
  then show ?case using reconfig same_list_good by blast
next
  case (send c msg addr new env terminated now t r c')
  then show ?case using send_ok [OF send(5)] by fastforce
next
  case (receive c env now t p w c' w')
  then obtain L where "pending c L" by blast
  then show ?case by (rule receive_pending [OF receive(2)])
qed (metis shrinks_pending shrinks_get_id shrinks_timer shrinks_retry shrinks_flush shrinks_flush_auth)+


section \<open>Properties\<close>

text \<open>
  C14. On every history of the RADIUS client its pending requests are well formed: the list holds every
  allocated entry exactly once and ends, every entry has a message with a complete header and a station
  address of six bytes, and the list is never longer than \<open>num_msgs\<close>, which never exceeds 30.
\<close>

theorem client_well_formed:
  "client_reach c \<Longrightarrow> \<exists>L. distinct L \<and> seg l_next (msg_store c) (msgs c) L None \<and> dom (msg_store c) = set L
     \<and> (\<forall>x e. msg_store c x = Some e \<longrightarrow> sizeof_radius_hdr \<le> length (bdata (rbuf (l_msg e))) \<and> length (l_addr e) = ETH_ALEN)
     \<and> length L \<le> unat (num_msgs c) \<and> num_msgs c \<le> 30"
  using reach_pending [of c] by (auto simp: pending_def list_rep_def has_hdr_def RADIUS_CLIENT_MAX_ENTRIES_def)

lemma find_split: "L = as @ x # bs \<Longrightarrow> P x \<Longrightarrow> \<forall>y \<in> set as. \<not> P y \<Longrightarrow> List.find P L = Some x"
  by (induction as arbitrary: L) auto

text \<open>
  C15. A response that parses is delivered exactly once: it belongs to the first pending request of the
  side it came from with its identifier. That request is taken from the list, with no other one touched,
  and the handlers run with the request and its shared secret until one takes the response; without
  such a request the list, its entries, their number and the state of the handlers stay as they were. A server
  is configured for the side, and the handlers registered for it return.
\<close>

theorem client_response_matched:
  assumes g: "pending c L" and s: "has_server (t \<noteq> RADIUS_ACCT) c"
    and h: "\<forall>h \<in> set (rx_handlers (side (t \<noteq> RADIUS_ACCT) c)). \<forall>m r s w. \<exists>y. h m r s w = Ok y"
    and m: "radius_msg_parse (c_radius env) (Some buf) = Ok (Some msg)"
  shows "\<exists>c' w'. radius_client_receive env now t (Rx buf) c w = Some (c', w') \<and>
    (case List.find (answered_by t msg c) L of
       None \<Rightarrow> w' = w \<and> msgs c' = msgs c \<and> msg_store c' = msg_store c \<and> num_msgs c' = num_msgs c
     | Some x \<Rightarrow> pending c' (remove1 x L) \<and> num_msgs c' = num_msgs c - 1
         \<and> (\<forall>y \<in> set (remove1 x L). map_option body (msg_store c' y) = map_option body (msg_store c y))
         \<and> (\<exists>b i. run_handlers (rx_handlers (side (t \<noteq> RADIUS_ACCT) c)) msg (l_msg (the (msg_store c x)))
                    (l_shared_secret (the (msg_store c x))) False w = Some (b, i, w')))"
proof -
  let ?auth = "t \<noteq> RADIUS_ACCT"
  let ?C = "if counted (the (hdr_code msg)) then on_server ?auth (count_response (the (hdr_code msg))) c else Some c"
  obtain c1 where c1: "?C = Some c1" "same_list c c1" "has_server ?auth c1" "rx_handlers (side ?auth c1) = rx_handlers (side ?auth c)"
    using on_server_ok [OF s, of "count_response (the (hdr_code msg))" ?auth] s by (cases "counted (the (hdr_code msg))") auto
  show ?thesis
  proof (rule receive_msg [OF g m parsed_hdr [OF m], of t now w])
    assume n: "\<forall>x \<in> set L. \<not> answered_by t msg c x" "radius_client_receive env now t (Rx buf) c w = map_option (\<lambda>c'. (c', w)) ?C"
    have "List.find (answered_by t msg c) L = None" using n(1) by (simp add: find_None_iff)
    moreover have "radius_client_receive env now t (Rx buf) c w = Some (c1, w)" unfolding n(2) c1(1) by simp
    ultimately show ?thesis using c1(2) by (simp add: same_list_def)
  next
    fix as x bs
    assume n: "L = as @ x # bs" "answered_by t msg c x" "\<forall>y \<in> set as. \<not> answered_by t msg c y"
      "radius_client_receive env now t (Rx buf) c w = do { c' \<leftarrow> ?C; deliver ?auth now msg (if as = [] then None else Some (last as)) x c' w }"
    have g1: "pending c1 (as @ x # bs)" using g n(1) same_list_good [OF c1(2)] by simp
    obtain e where e: "msg_store c x = Some e" using n(2) by (auto simp: answered_by_def split: option.splits)
    have e1: "msg_store c1 x = Some e" using e c1(2) by (simp add: same_list_def)
    obtain c' w' where d: "deliver ?auth now msg (if as = [] then None else Some (last as)) x c1 w = Some (c', w')"
      using deliver_total [OF g1 c1(3), unfolded c1(4), OF h, of now msg w] by auto
    have r: "remove1 x L = as @ bs" using good_distinct [OF g] n(1) by (simp add: remove1_append)
    have "msg_store c1 = msg_store c" "num_msgs c1 = num_msgs c" using c1(2) by (simp_all add: same_list_def)
    then show ?thesis using deliver_ok [OF g1 e1 d] n(4) d e c1(1,4) find_split [OF n(1-3)] by (auto simp: e r)
  qed
qed

text \<open>
  C17. \<open>radius_client_get_id\<close> returns an identifier that no pending request has afterwards: it removes exactly
  the requests with that identifier and leaves the others in their order. \<open>num_msgs\<close> keeps its value even when
  requests are removed, so that from then on it counts more requests than there are.
\<close>

theorem client_get_id_unique:
  "client_reach c \<Longrightarrow> pending c L \<Longrightarrow> \<exists>c'. radius_client_get_id c = Some (next_radius_identifier c, c')
     \<and> pending c' (filter (\<lambda>x. pending_id c x \<noteq> Some (next_radius_identifier c)) L) \<and> num_msgs c' = num_msgs c
     \<and> (\<forall>x \<in> dom (msg_store c'). pending_id c' x \<noteq> Some (next_radius_identifier c) \<and> pending_id c' x = pending_id c x)"
proof -
  assume g: "pending c L"
  let ?M = "filter (\<lambda>x. pending_id c x \<noteq> Some (next_radius_identifier c)) L"
  obtain c' where c': "radius_client_get_id c = Some (next_radius_identifier c, c')" "pending c' ?M" "num_msgs c' = num_msgs c"
      "\<forall>x \<in> set ?M. map_option body (msg_store c' x) = map_option body (msg_store c x)"
    using get_id_ok [OF g] by blast
  have "pending_id c' x = pending_id c x" if x: "x \<in> set ?M" for x
  proof -
    obtain e e' where "msg_store c x = Some e" "msg_store c' x = Some e'"
      using list_rep_in [of c L x] list_rep_in [of c' ?M x] x g c'(2) by (auto simp: pending_def)
    moreover from this have "body e' = body e" using c'(4) x by fastforce
    ultimately obtain e e' where "msg_store c x = Some e" "msg_store c' x = Some e'" "body e' = body e" by blast
    then show ?thesis using body_eqD [of e' e] by (simp add: pending_id_def)
  qed
  moreover have "dom (msg_store c') = set ?M" using c'(2) by (simp add: pending_def list_rep_def)
  ultimately show ?thesis using c'(1-3) by auto
qed


text \<open>
  A history for the examples: a client with one accounting server, whose system calls succeed, sends an
  Accounting-Request with its Acct-Delay-Time attribute and the identifier 0.
\<close>

definition demo_server :: hostapd_radius_server where
  "demo_server = \<lparr>srv_af = AF_INET, srv_secret = Some [115], srv_round_trip_time = 0, srv_requests = 0, srv_retransmissions = 0,
     srv_access_accepts = 0, srv_access_rejects = 0, srv_access_challenges = 0, srv_responses = 0, srv_malformed_responses = 0,
     srv_bad_authenticators = 0, srv_timeouts = 0, srv_unknown_types = 0\<rparr>"

definition demo_client_env :: client_env where
  "demo_client_env = \<lparr>c_radius = demo_radius, config_ipv6 = False, sys_socket = (\<lambda>_. 5), sys_connect = (\<lambda>_. True), sys_bind = (\<lambda>_. True),
     sys_register = (\<lambda>_. True), sys_send = (\<lambda>_. Sent), force_client_addr = None, retry_primary_interval = 0\<rparr>"

definition demo_acct_msg :: radius_msg where
  "demo_acct_msg = \<lparr>rbuf = \<lparr>bsize = 26, used = 26, bdata = [4, 0, 0, 26] @ replicate 16 0 @ [41, 6, 0, 0, 0, 0], bflags = 0\<rparr>,
     attr_pos = [20], attr_size = 16\<rparr>"

definition demo_client :: "unit radius_client_data" where
  "demo_client = (case radius_client_init demo_client_env True [] None [demo_server] (Some 0) of Some (Some c) \<Rightarrow>
     (case radius_client_get_id c of Some (_, c) \<Rightarrow>
       (case radius_client_send demo_client_env False (Some 0) (10, 0) demo_acct_msg RADIUS_ACCT None c of Some (_, c) \<Rightarrow> c | None \<Rightarrow> c)
      | None \<Rightarrow> c))"


text \<open>
  The retransmission of an entry whose identifier is the next one: the socket is open, the server there, and
  the new identifier releases the entry.
\<close>

lemma retransmit_uaf:
  assumes g: "pending c [x]" and e: "msg_store c x = Some e" "l_msg_type e = RADIUS_ACCT" "hdr_identifier (l_msg e) = Some (next_radius_identifier c)"
    and a: "radius_msg_get_attr_ptr (l_msg e) RADIUS_ATTR_ACCT_DELAY_TIME None = Some (Some (pos, 4))"
    and t: "l_next_try e \<le> fst now" "l_attempts e < RADIUS_CLIENT_NUM_FAILOVER" "0 \<le> cur_sock (acct_side c)" and s: "has_server False c"
  obtains c1 c2 where "choose_socket env False c = Some (num_msgs c, c)" "on_server False (count_attempt e) c = Some c1"
    "msg_store c1 x = Some e" "radius_client_get_id c1 = Some (next_radius_identifier c, c2)" "msg_store c2 x = None"
    "radius_client_retransmit env x now c = None" "radius_client_timer env now c = None"
proof -
  have m: "msgs c = Some x" and sg: "seg l_next (msg_store c) (msgs c) [x] None" using g by (auto simp: pending_def list_rep_def)
  have acct: "is_acct RADIUS_ACCT" by (simp add: is_acct_def)
  have cs: "choose_socket env False c = Some (num_msgs c, c)" using t(3) by (simp add: choose_socket_def side_def)
  obtain c1 where c1: "on_server False (count_attempt e) c = Some c1" "same_list c c1" "next_radius_identifier c1 = next_radius_identifier c"
    using on_server_ok [OF s, of "count_attempt e"] by blast
  have g1: "pending c1 [x]" and e1: "msg_store c1 x = Some e" using g e(1) same_list_good [OF c1(2)] c1(2) by (auto simp: same_list_def)
  have "pending_id c1 x = Some (next_radius_identifier c1)" using e1 e(3) c1(3) by (simp add: pending_id_def)
  then obtain c2 where c2: "radius_client_get_id c1 = Some (next_radius_identifier c1, c2)" "pending c2 []" using get_id_ok [OF g1] by auto
  have gone: "msg_store c2 x = None" using c2(2) by (simp add: pending_def list_rep_def)
  then have "refresh_acct env x (fst now) c1 = None" unfolding refresh_acct_def using e1 e(2) a c2(1) by simp
  then have r: "radius_client_retransmit env x now c = None"
    unfolding radius_client_retransmit_def using e t(3) c1(1) acct cs by (simp add: side_def Let_def)
  then have l: "timer_loop env now None (Some x) 0 c = None" using e(1) t(1) by (subst timer_loop.simps) simp
  have "failover_wanted (fst now) c b e = False" for b using e(2) t acct by (cases b) (auto simp: failover_wanted_def side_def)
  then have "fold_list l_next (\<lambda>e (p, q). (p \<or> failover_wanted (fst now) c True e, q \<or> failover_wanted (fst now) c False e)) (msgs c) (msg_store c) (False, False) = Some (False, False)"
    unfolding fold_list_seg [OF sg] using e(1) by simp
  then have "radius_client_timer env now c = None" unfolding radius_client_timer_def using m l by simp
  with that cs c1(1,3) e1 c2(1) gone r show ?thesis by simp
qed

lemma demo_sendable: "sendable demo_acct_msg"
  by (simp add: sendable_def demo_acct_msg_def wf_wpabuf_def sizeof_radius_hdr_def PTRDIFF_LIMIT_def)

lemma demo_client_reach: "client_reach demo_client"
proof -
  let ?i = "radius_client_init demo_client_env True [] None [demo_server] (Some 0) :: unit radius_client_data option ub"
  have "(case ?i of Some (Some c) \<Rightarrow> (case radius_client_get_id c of Some (_, c) \<Rightarrow> msg_store c 0 = None \<and>
      (case radius_client_send demo_client_env False (Some 0) (10, 0) demo_acct_msg RADIUS_ACCT None c of Some _ \<Rightarrow> True | None \<Rightarrow> False) | None \<Rightarrow> False) | _ \<Rightarrow> False)"
    by code_simp
  then obtain c0 i c1 r c2 where c: "?i = Some (Some c0)" "radius_client_get_id c0 = Some (i, c1)" "msg_store c1 0 = None"
      "radius_client_send demo_client_env False (Some 0) (10, 0) demo_acct_msg RADIUS_ACCT None c1 = Some (r, c2)"
    by (auto split: option.splits)
  have "client_reach c1" by (rule client_reach.get_id [OF client_reach.init [OF c(1)] c(2)])
  then have "client_reach c2" using client_reach.send [OF _ demo_sendable _ _ c(4)] c(3) by simp
  then show ?thesis using c by (simp add: demo_client_def)
qed

text \<open>The identifiers are used up: 255 more are taken, as by exchanges with the authentication server.\<close>

definition next_id :: "unit radius_client_data \<Rightarrow> unit radius_client_data" where
  "next_id c = snd (the (radius_client_get_id c))"

lemma demo_client_facts:
  "pending demo_client [0]" "next_radius_identifier demo_client = 1" "pending_id demo_client 0 = Some 0" "0 \<le> cur_sock (acct_side demo_client)"
  "has_server False demo_client"
  "map_option (\<lambda>e. (l_msg_type e, l_next_try e, l_attempts e, radius_msg_get_attr_ptr (l_msg e) RADIUS_ATTR_ACCT_DELAY_TIME None)) (msg_store demo_client 0)
     = Some (RADIUS_ACCT, 13, 1, Some (Some (22, 4)))"
proof -
  show "next_radius_identifier demo_client = 1" "pending_id demo_client 0 = Some 0" "0 \<le> cur_sock (acct_side demo_client)" by code_simp+
  have "(case server (acct_side demo_client) of Some i \<Rightarrow> i < length (servers (acct_side demo_client)) | None \<Rightarrow> False)" by code_simp
  then show "has_server False demo_client" by (auto simp: has_server_def side_def split: option.splits)
  show "map_option (\<lambda>e. (l_msg_type e, l_next_try e, l_attempts e, radius_msg_get_attr_ptr (l_msg e) RADIUS_ATTR_ACCT_DELAY_TIME None)) (msg_store demo_client 0)
     = Some (RADIUS_ACCT, 13, 1, Some (Some (22, 4)))" by code_simp
  obtain L where L: "pending demo_client L" using reach_pending [OF demo_client_reach] by blast
  have "msgs demo_client = Some 0" "map_option l_next (msg_store demo_client 0) = Some None" by code_simp+
  then have "L = [0]" using L by (cases L rule: list.exhaust [case_names nil cons]; cases "tl L") (auto simp: pending_def list_rep_def)
  then show "pending demo_client [0]" using L by simp
qed

lemma demo_ids:
  "n \<le> 255 \<Longrightarrow> (let c = (next_id ^^ n) demo_client in client_reach c \<and> pending c [0] \<and> next_radius_identifier c = word_of_nat (Suc n)
     \<and> map_option body (msg_store c 0) = map_option body (msg_store demo_client 0) \<and> acct_side c = acct_side demo_client
     \<and> num_msgs c = num_msgs demo_client)"
proof (induction n)
  case 0
  then show ?case using demo_client_reach demo_client_facts(1,2) by simp
next
  case (Suc n)
  define c where "c = (next_id ^^ n) demo_client"
  have c: "client_reach c" "pending c [0]" "next_radius_identifier c = word_of_nat (Suc n)"
      "map_option body (msg_store c 0) = map_option body (msg_store demo_client 0)" "acct_side c = acct_side demo_client" "num_msgs c = num_msgs demo_client"
    using Suc by (auto simp: c_def Let_def)
  have "pending_id c 0 = Some 0"
  proof -
    obtain e e' where "msg_store c 0 = Some e" "msg_store demo_client 0 = Some e'" "body e = body e'" using c(4) demo_client_facts(6)
      by (cases "msg_store c 0"; cases "msg_store demo_client 0") auto
    then show ?thesis using demo_client_facts(3) body_eqD [of e e'] by (simp add: pending_id_def)
  qed
  moreover have "(word_of_nat (Suc n) :: u8) \<noteq> 0" using Suc.prems by (simp add: word_of_nat_eq_0_iff nat_dvd_not_less del: of_nat_Suc)
  ultimately have "filter (\<lambda>x. pending_id c x \<noteq> Some (next_radius_identifier c)) [0] = [0]" using c(3) by (simp del: of_nat_Suc)
  with get_id_ok [OF c(2)] obtain c' where c': "radius_client_get_id c = Some (next_radius_identifier c, c')" "pending c' [0]"
      "map_option body (msg_store c' 0) = map_option body (msg_store c 0)" "acct_side c' = acct_side c"
      "next_radius_identifier c' = next_radius_identifier c + 1" "num_msgs c' = num_msgs c"
    by auto
  have "(next_id ^^ Suc n) demo_client = c'" using c'(1) by (simp add: next_id_def c_def)
  then show ?case using c' c client_reach.get_id [OF c(1) c'(1)] by (simp add: Let_def add.commute)
qed

text \<open>
  C18. The retransmission of an Accounting-Request takes a new identifier with \<open>radius_client_get_id\<close>, which
  releases every pending request that has it. When the identifiers have come round, that request is the
  one being retransmitted. There is a reachable client with one pending request \<open>x\<close>, with its socket open and its
  server configured, on which this happens: at the call of \<open>radius_client_get_id\<close> in \<open>radius_client_retransmit\<close> the entry is
  allocated, when the call returns it is released, and the code behind the call, which writes the identifier into the
  message of the entry, faults; so does \<open>radius_client_timer\<close>.
\<close>

theorem client_timer_use_after_free:
  "\<exists>(c :: unit radius_client_data) c1 c2 x e i. client_reach c \<and> num_msgs c = 1 \<and> has_server False c
     \<and> msg_store c x = Some e \<and> l_msg_type e = RADIUS_ACCT
     \<and> radius_msg_get_attr_ptr (l_msg e) RADIUS_ATTR_ACCT_DELAY_TIME None = Some (Some (22, 4))
     \<and> choose_socket demo_client_env False c = Some (num_msgs c, c) \<and> 0 \<le> cur_sock (acct_side c)
     \<and> on_server False (count_attempt e) c = Some c1 \<and> msg_store c1 x = Some e
     \<and> radius_client_get_id c1 = Some (i, c2) \<and> msg_store c2 x = None
     \<and> radius_client_retransmit demo_client_env x (13, 0) c = None
     \<and> radius_client_timer demo_client_env (13, 0) c = None"
proof -
  define c where "c = (next_id ^^ 255) demo_client"
  have c: "client_reach c" "pending c [0]" "next_radius_identifier c = 0" "map_option body (msg_store c 0) = map_option body (msg_store demo_client 0)"
      "acct_side c = acct_side demo_client" "num_msgs c = num_msgs demo_client"
    using demo_ids [of 255] unfolding c_def [symmetric] Let_def by simp_all
  obtain e e' where e: "msg_store c 0 = Some e" "msg_store demo_client 0 = Some e'" "body e = body e'"
    using c(4) demo_client_facts(6) by (cases "msg_store c 0"; cases "msg_store demo_client 0") auto
  have "l_next_try (body e) = l_next_try (body e')" "l_attempts (body e) = l_attempts (body e')" using e(3) by simp_all
  then have b: "l_next_try e = l_next_try e'" "l_attempts e = l_attempts e'" by (simp_all add: body_def)
  note m = body_eqD [OF e(3)]
  have f: "l_msg_type e = RADIUS_ACCT" "radius_msg_get_attr_ptr (l_msg e) RADIUS_ATTR_ACCT_DELAY_TIME None = Some (Some (22, 4))"
    "l_next_try e \<le> fst (13 :: int, 0 :: int)" "l_attempts e < RADIUS_CLIENT_NUM_FAILOVER"
    using demo_client_facts(6) e(2) m b by (simp_all add: RADIUS_CLIENT_NUM_FAILOVER_def)
  have i: "hdr_identifier (l_msg e) = Some (next_radius_identifier c)" using demo_client_facts(3) e(2) m c(3) by (simp add: pending_id_def)
  have s: "0 \<le> cur_sock (acct_side c)" "has_server False c" using demo_client_facts(4,5) c(5) by (simp_all add: has_server_def side_def)
  have "num_msgs demo_client = 1" by code_simp
  then show ?thesis
    using retransmit_uaf [OF c(2) e(1) f(1) i f(2-4) s, of demo_client_env] c(1,6) e(1) f(1,2) s by metis
qed


text \<open>Examples for the properties with hypotheses: the client above gets a handler and a response.\<close>

definition demo_handled :: "unit radius_client_data" where
  "demo_handled = snd (radius_client_register True RADIUS_ACCT (\<lambda>msg req secret w. Ok (RADIUS_RX_PROCESSED, msg, w)) demo_client)"

definition demo_response :: bytes where
  "demo_response = [5, 0, 0, 20] @ replicate 16 1"

definition demo_response_msg :: radius_msg where
  "demo_response_msg = \<lparr>rbuf = \<lparr>bsize = 20, used = 20, bdata = demo_response, bflags = 0\<rparr>, attr_pos = [], attr_size = 16\<rparr>"

lemma demo_handled_same: "same_list demo_client demo_handled"
  by (simp add: demo_handled_def radius_client_register_def)

lemma client_well_formed_witness:
  "client_reach demo_client \<and> (\<exists>L. distinct L \<and> dom (msg_store demo_client) = set L \<and> length L \<le> 1)"
proof -
  have "unat (num_msgs demo_client) = 1" by code_simp
  then show ?thesis using client_well_formed [OF demo_client_reach] demo_client_reach by auto
qed

lemma client_response_matched_witness:
  "\<exists>c'. radius_client_receive demo_client_env (11, 0) RADIUS_ACCT (Rx demo_response) demo_handled () = Some (c', ()) \<and> pending c' [] \<and> num_msgs c' = 0"
proof -
  have m: "radius_msg_parse (c_radius demo_client_env) (Some demo_response) = Ok (Some demo_response_msg)"
    "List.find (answered_by RADIUS_ACCT demo_response_msg demo_handled) [0] = Some 0" "num_msgs demo_handled = 1" by code_simp+
  have p: "pending demo_handled [0]" using demo_client_facts(1) same_list_good [OF demo_handled_same] by blast
  have s: "has_server (RADIUS_ACCT \<noteq> RADIUS_ACCT) demo_handled"
    "\<forall>h \<in> set (rx_handlers (side (RADIUS_ACCT \<noteq> RADIUS_ACCT) demo_handled)). \<forall>m r s w. \<exists>y. h m r s w = Ok y"
  proof -
    have "rx_handlers (acct_side demo_client) = []"
    proof -
      have "length (rx_handlers (acct_side demo_client)) = 0" by code_simp
      then show ?thesis by simp
    qed
    then show "has_server (RADIUS_ACCT \<noteq> RADIUS_ACCT) demo_handled"
      "\<forall>h \<in> set (rx_handlers (side (RADIUS_ACCT \<noteq> RADIUS_ACCT) demo_handled)). \<forall>m r s w. \<exists>y. h m r s w = Ok y"
      using demo_client_facts(5) by (simp_all add: demo_handled_def radius_client_register_def on_side_def has_server_def side_def)
  qed
  show ?thesis using client_response_matched [OF p s m(1), of "(11, 0)" "()"] m(2,3) by auto
qed

lemma client_get_id_unique_witness:
  "\<exists>c'. radius_client_get_id demo_client = Some (1, c') \<and> pending c' [0] \<and> num_msgs c' = num_msgs demo_client"
  using client_get_id_unique [OF demo_client_reach demo_client_facts(1)] demo_client_facts(2,3) by auto

end
