(* ===== verification/Radius_Client_Timer.thy ===== *)
theory Radius_Client_Timer
  imports Radius_Client_Theorems
begin

text \<open>
  The retransmission timer returns. Its loop starts again whenever the number of messages has changed, and
  the entries it holds may be released under it; both are safe as long as no Accounting-Request is pending
  (for those see \<open>client_timer_use_after_free\<close>). \<open>calm\<close> is what every operation called by the timer keeps
  then: it removes entries only together with a change of \<open>num_msgs\<close>.
\<close>

section \<open>Operations of the timer\<close>

definition kind :: "'w radius_client_data \<Rightarrow> nat \<Rightarrow> RadiusType option" where
  "kind c x = map_option l_msg_type (msg_store c x)"

definition calm :: "'w radius_client_data \<Rightarrow> nat list \<Rightarrow> 'w radius_client_data \<Rightarrow> nat list \<Rightarrow> bool" where
  "calm c L c' L' \<longleftrightarrow> pending c' L' \<and> (\<exists>K. L' = filter K L) \<and> (\<forall>x \<in> set L'. kind c' x = kind c x)
     \<and> (\<forall>b. has_server b c \<longrightarrow> has_server b c') \<and> num_msgs c' \<le> num_msgs c \<and> (num_msgs c' = num_msgs c \<longrightarrow> L' = L)"

definition quiet :: "'w radius_client_data \<Rightarrow> nat list \<Rightarrow> bool" where
  "quiet c L \<longleftrightarrow> pending c L \<and> (\<forall>x \<in> set L. \<forall>t. kind c x = Some t \<longrightarrow> t \<noteq> RADIUS_ACCT \<and> has_server (\<not> is_acct t) c)"

lemma calm_trans [trans]:
  assumes "calm c L c1 M" "calm c1 M c2 N"
  shows "calm c L c2 N"
proof -
  obtain K K' where k: "M = filter K L" "N = filter K' M" using assms unfolding calm_def by blast
  then have "N = filter (\<lambda>x. K x \<and> K' x) L" by simp
  moreover have "\<forall>x \<in> set N. kind c2 x = kind c x" using assms k by (auto simp: calm_def)
  moreover have "num_msgs c2 = num_msgs c \<longrightarrow> N = L" using assms unfolding calm_def by (metis order_antisym)
  ultimately show ?thesis using assms unfolding calm_def by (metis order_trans)
qed

lemma calm_refl: "pending c L \<Longrightarrow> calm c L c L"
  unfolding calm_def by (auto intro!: exI [of _ "\<lambda>_. True"])

lemma calm_pending: "calm c L c' L' \<Longrightarrow> pending c' L'"
  by (simp add: calm_def)

lemma quiet_pending: "quiet c L \<Longrightarrow> pending c L"
  by (simp add: quiet_def)

lemma quiet_calm: "quiet c L \<Longrightarrow> calm c L c' L' \<Longrightarrow> quiet c' L'"
  unfolding quiet_def calm_def by auto

lemma calm_same:
  assumes "pending c L" "same_list c c'" "\<And>b. has_server b c \<Longrightarrow> has_server b c'"
  shows "calm c L c' L"
proof -
  have "pending c' L" using assms(1) same_list_good [OF assms(2)] by blast
  then show ?thesis using assms(2,3) unfolding calm_def by (auto simp: same_list_def kind_def intro!: exI [of _ "\<lambda>_. True"])
qed

lemma has_server_on_side:
  "(\<And>s. servers (f s) = servers s \<and> server (f s) = server s) \<Longrightarrow> has_server b (on_side a f c) = has_server b c"
  by (simp add: has_server_def on_side_def side_def)

lemma has_server_simps [simp]:
  "has_server b (client_out e c) = has_server b c" "has_server b (close_sockets a c) = has_server b c"
  "has_server b (snd (sys_call g c)) = has_server b c" "has_server b (c\<lparr>msg_store := st\<rparr>) = has_server b c"
  "has_server b (c\<lparr>msgs := h\<rparr>) = has_server b c" "has_server b (c\<lparr>num_msgs := n\<rparr>) = has_server b c"
  by (simp_all add: has_server_def client_out_def close_sockets_def on_side_def sys_call_def side_def)

lemma on_server_calm: "pending c L \<Longrightarrow> has_server a c \<Longrightarrow> \<exists>c'. on_server a f c = Some c' \<and> calm c L c' L \<and> cur_sock (side a c') = cur_sock (side a c)"
proof -
  assume p: "pending c L" and s: "has_server a c"
  then obtain c' where c': "on_server a f c = Some c'" "same_list c c'" using on_server_ok [OF s] by blast
  have "has_server b c \<Longrightarrow> has_server b c'" for b using c'(1)
    by (auto simp: on_server_def has_server_def on_side_def side_def split: option.splits if_splits)
  moreover have "cur_sock (side a c') = cur_sock (side a c)" using c'(1) by (auto simp: on_server_def on_side_def side_def split: option.splits if_splits)
  ultimately show ?thesis using c' calm_same [OF p c'(2)] by blast
qed

lemma kind_body: "map_option body (msg_store c' x) = map_option body (msg_store c x) \<Longrightarrow> kind c' x = kind c x"
proof -
  assume b: "map_option body (msg_store c' x) = map_option body (msg_store c x)"
  show ?thesis
  proof (cases "msg_store c x")
    case None
    then show ?thesis using b by (simp add: kind_def)
  next
    case (Some e)
    then obtain e' where "msg_store c' x = Some e'" "body e' = body e" using b by (cases "msg_store c' x") auto
    then show ?thesis using Some body_eqD [of e' e] by (simp add: kind_def)
  qed
qed

lemma flush_calm: "pending c L \<Longrightarrow> \<exists>c' L'. radius_client_flush b c = Some c' \<and> calm c L c' L'"
proof -
  assume g: "pending c L"
  let ?K = "\<lambda>x. \<not> (\<not> b \<or> l_msg_type (the (msg_store c x)) = RADIUS_AUTH)"
  let ?M = "filter ?K L"
  have r: "list_rep c L" using g by (simp add: pending_def)
  obtain c1 where c1: "remove_msgs (\<lambda>e. Some (\<not> b \<or> l_msg_type e = RADIUS_AUTH)) c = Some (length L - length ?M, c1)" "list_rep c1 ?M"
      "c1 = c\<lparr>msgs := msgs c1, msg_store := msg_store c1\<rparr>" "\<forall>x \<in> set ?M. map_option body (msg_store c1 x) = map_option body (msg_store c x)"
    using remove_msgs_ok [OF r, of "\<lambda>e. Some (\<not> b \<or> l_msg_type e = RADIUS_AUTH)" "\<lambda>e. \<not> b \<or> l_msg_type e = RADIUS_AUTH"] by auto
  define c2 where "c2 = c1\<lparr>num_msgs := num_msgs c1 - word_of_nat (length L - length ?M)\<rparr>"
  have n: "num_msgs c1 = num_msgs c" "has_server a c1 = has_server a c" for a by (subst c1(3), simp)+
  have p: "pending c2 ?M" using c1(2) n by (intro good_removed [OF g]) (simp_all add: c2_def list_rep_def)
  have l: "length ?M \<le> length L" "length L \<le> unat (num_msgs c)" using g by (auto simp: pending_def)
  then have u: "unat (num_msgs c2) = unat (num_msgs c) - (length L - length ?M)" using unat_minus_nat [of "length L - length ?M" "num_msgs c"] n(1) by (simp add: c2_def)
  have c2: "calm c L c2 ?M" unfolding calm_def
  proof (intro conjI)
    show "num_msgs c2 = num_msgs c \<longrightarrow> ?M = L"
    proof
      assume "num_msgs c2 = num_msgs c"
      then have "length ?M = length L" using u l by simp
      then show "?M = L" by (metis filter_id_conv length_filter_less nless_le)
    qed
    show "\<exists>K. ?M = filter K L" by blast
    show "\<forall>x \<in> set ?M. kind c2 x = kind c x"
    proof
      fix x
      assume "x \<in> set ?M"
      then have "map_option body (msg_store c2 x) = map_option body (msg_store c x)" using c1(4) by (simp add: c2_def)
      then show "kind c2 x = kind c x" by (rule kind_body)
    qed
    show "\<forall>b. has_server b c \<longrightarrow> has_server b c2" using n(2) by (simp add: c2_def)
    show "num_msgs c2 \<le> num_msgs c" unfolding word_le_nat_alt u by (rule diff_le_self)
  qed (rule p)
  moreover have "radius_client_flush b c = Some (if msgs c2 = None then client_out Cancel_Timer c2 else c2)"
    using c1(1) by (simp add: radius_client_flush_def c2_def Let_def)
  moreover have "calm c L (client_out e c2) ?M" for e by (rule calm_trans [OF c2], rule calm_same [OF p]) simp_all
  ultimately show ?thesis using c2 by (cases "msgs c2 = None") auto
qed


lemma update_acct_calm: "quiet c L \<Longrightarrow> \<exists>c'. radius_client_update_acct_msgs env secret c = Some c' \<and> calm c L c' L"
proof -
  assume q: "quiet c L"
  let ?f = "\<lambda>e. if l_msg_type e = RADIUS_ACCT
            then do { m \<leftarrow> run_ub (radius_msg_finish_acct (c_radius env) (l_msg e) secret); Some (e\<lparr>l_shared_secret := secret, l_msg := m\<rparr>) }
            else Some e"
  have g: "pending c L" using q by (rule quiet_pending)
  then have r: "seg l_next (msg_store c) (msgs c) L None" "distinct L" "dom (msg_store c) = set L" by (auto simp: pending_def list_rep_def)
  have f: "?f (the (msg_store c x)) = msg_store c x" if x: "x \<in> set L" for x
  proof -
    obtain e where e: "msg_store c x = Some e" using list_rep_in [of c L x] g x by (auto simp: pending_def)
    then have "l_msg_type e \<noteq> RADIUS_ACCT" using q x by (auto simp: quiet_def kind_def)
    then show ?thesis using e by simp
  qed
  have "\<exists>e'. ?f (the (msg_store c x)) = Some e' \<and> l_next e' = l_next (the (msg_store c x))" if x: "x \<in> set L" for x
    using f [OF x] list_rep_in [of c L x] g x by (auto simp: pending_def)
  then obtain st where st: "for_each l_next ?f (msgs c) (msg_store c) = Some st" "\<forall>x. st x = (if x \<in> set L then ?f (the (msg_store c x)) else msg_store c x)"
    using for_each_seg [OF r(1,2), of ?f] by blast
  have "st = msg_store c"
  proof
    fix x
    show "st x = msg_store c x" using st(2) f [of x] by presburger
  qed
  then have "radius_client_update_acct_msgs env secret c = Some c" unfolding radius_client_update_acct_msgs_def st(1) by simp
  then show ?thesis using calm_refl [OF g] by blast
qed

lemma reset_calm:
  assumes g: "pending c L" and f: "\<And>e. f e = Some (h e)" "\<And>e. entry_keeps e (h e)" "\<And>e. l_msg_type (h e) = l_msg_type e"
  shows "\<exists>st. for_each l_next f (msgs c) (msg_store c) = Some st \<and> calm c L (c\<lparr>msg_store := st\<rparr>) L"
proof -
  have r: "seg l_next (msg_store c) (msgs c) L None" "distinct L" using g by (auto simp: pending_def list_rep_def)
  have "\<exists>e'. f (the (msg_store c x)) = Some e' \<and> l_next e' = l_next (the (msg_store c x))" for x
    using f(1,2) by (auto simp: entry_keeps_def)
  then obtain st where st: "for_each l_next f (msgs c) (msg_store c) = Some st" "\<forall>x. st x = (if x \<in> set L then f (the (msg_store c x)) else msg_store c x)"
    using for_each_seg [OF r, of f] by blast
  have p: "pending (c\<lparr>msg_store := st\<rparr>) L" using f by (intro good_for_each [OF g st(1)]) auto
  have "kind (c\<lparr>msg_store := st\<rparr>) x = kind c x" if x: "x \<in> set L" for x
  proof -
    obtain e where "msg_store c x = Some e" using list_rep_in [of c L x] g x by (auto simp: pending_def)
    then show ?thesis using st(2) x f(1,3) by (simp add: kind_def)
  qed
  then have "calm c L (c\<lparr>msg_store := st\<rparr>) L" using p unfolding calm_def by (auto intro!: exI [of _ "\<lambda>_. True"])
  then show ?thesis using st(1) by blast
qed

lemma out_calm: "calm c L c' M \<Longrightarrow> calm c L (client_out e c') M"
  by (rule calm_trans, assumption, rule calm_same) (auto simp: calm_def)

lemma change_messages_calm:
  assumes q: "quiet c L"
  shows "\<exists>c' L'. change_messages env auth n oserv c = Some c' \<and> calm c L c' L' \<and> (oserv = None \<longrightarrow> num_msgs c' = num_msgs c)"
proof -
  have g: "pending c L" using q by (rule quiet_pending)
  obtain c1 L1 where c1: "(if oserv = Some n \<and> auth then radius_client_flush True c else Some c) = Some c1" "calm c L c1 L1" "oserv = None \<longrightarrow> c1 = c"
    using flush_calm [OF g, of True] calm_refl [OF g] by (cases "oserv = Some n \<and> auth") auto
  have q1: "quiet c1 L1" by (rule quiet_calm [OF q c1(2)])
  define C where "C = (case oserv of None \<Rightarrow> Some c1 | Some i \<Rightarrow>
             if i \<noteq> n \<and> secret_bytes (servers (side auth c1) ! n) \<noteq> secret_bytes (servers (side auth c1) ! i)
             then if auth then radius_client_flush True c1 else radius_client_update_acct_msgs env (secret_bytes (servers (side auth c1) ! n)) c1
             else Some c1)"
  obtain c2 L2 where c2: "C = Some c2" "calm c1 L1 c2 L2" "oserv = None \<longrightarrow> c2 = c1"
  proof (cases oserv)
    case None
    then show ?thesis using that calm_refl [OF quiet_pending [OF q1]] by (simp add: C_def)
  next
    case (Some i)
    let ?n = "secret_bytes (servers (side auth c1) ! n)"
    obtain cf Lf where f: "radius_client_flush True c1 = Some cf" "calm c1 L1 cf Lf" using flush_calm [OF quiet_pending [OF q1]] by blast
    obtain cu where u: "radius_client_update_acct_msgs env ?n c1 = Some cu" "calm c1 L1 cu L1" using update_acct_calm [OF q1] by blast
    have "C = Some c1 \<or> C = Some cf \<or> C = Some cu" unfolding C_def Let_def Some option.case using f(1) u(1) by (cases auth) simp_all
    then show ?thesis using that Some f(2) u(2) calm_refl [OF quiet_pending [OF q1]] by blast
  qed
  let ?f = "\<lambda>e. if l_msg_type e \<noteq> (if auth then RADIUS_AUTH else RADIUS_ACCT) then e
                   else e\<lparr>l_next_try := l_first_try e + RADIUS_CLIENT_FIRST_WAIT, l_attempts := 0, l_next_wait := RADIUS_CLIENT_FIRST_WAIT * 2\<rparr>"
  obtain st where st: "for_each l_next (\<lambda>e. Some (?f e)) (msgs c2) (msg_store c2) = Some st" "calm c2 L2 (c2\<lparr>msg_store := st\<rparr>) L2"

  proof -
    have "entry_keeps e (?f e)" "l_msg_type (?f e) = l_msg_type e" for e by (simp_all add: entry_keeps_def)
    from reset_calm [OF calm_pending [OF c2(2)] refl this] that show ?thesis by blast
  qed
  obtain st' where st': "(if oserv = None then Some (msg_store c2) else for_each l_next (\<lambda>e. Some (?f e)) (msgs c2) (msg_store c2)) = Some st'"
      "calm c2 L2 (c2\<lparr>msg_store := st'\<rparr>) L2"
    using st calm_refl [OF calm_pending [OF c2(2)]] by (cases "oserv = None") auto
  let ?c = "c2\<lparr>msg_store := st'\<rparr>"
  let ?c' = "if msgs ?c \<noteq> None then client_out (Register_Timer RADIUS_CLIENT_FIRST_WAIT) (client_out Cancel_Timer ?c) else ?c"
  have "calm c L ?c L2" by (rule calm_trans [OF calm_trans [OF c1(2) c2(2)] st'(2)])
  then have "calm c L ?c' L2" by (simp add: out_calm)
  moreover have "change_messages env auth n oserv c = Some ?c'"
    unfolding change_messages_def c1(1) bind.bind_lunit C_def [symmetric] c2(1) st'(1) Let_def ..
  moreover have "oserv = None \<longrightarrow> num_msgs ?c' = num_msgs c" using c1(3) c2(3) by (simp add: client_out_def)
  ultimately show ?thesis by blast
qed


lemma connect_calm: "pending c L \<Longrightarrow> calm c L (snd (connect_server env auth n c)) L"
proof -
  assume p: "pending c L"
  have "same_list c (snd (connect_server env auth n c))" using same_list_connect [of env auth n c] by (cases "connect_server env auth n c") simp
  moreover have "has_server b c \<Longrightarrow> has_server b (snd (connect_server env auth n c))" for b
    by (auto simp: connect_server_def Let_def sys_call_def has_server_def on_side_def side_def split: option.splits if_splits prod.splits)
  ultimately show ?thesis using calm_same [OF p] by blast
qed

lemma change_server_calm:
  assumes q: "quiet c L"
  shows "\<exists>r c' L'. radius_change_server env auth n oserv c = Some (r, c') \<and> calm c L c' L' \<and> (oserv = None \<longrightarrow> L' = L)"
proof -
  obtain c1 L1 where c1: "change_messages env auth n oserv c = Some c1" "calm c L c1 L1" "oserv = None \<longrightarrow> num_msgs c1 = num_msgs c"
    using change_messages_calm [OF q] by blast
  have "calm c L (snd (connect_server env auth n c1)) L1" by (rule calm_trans [OF c1(2) connect_calm [OF calm_pending [OF c1(2)]]])
  moreover have "oserv = None \<longrightarrow> L1 = L" using c1(2,3) by (simp add: calm_def)
  ultimately show ?thesis unfolding radius_change_server_def c1(1) bind.bind_lunit
    by (cases "connect_server env auth n c1") auto
qed

lemma open_calm:
  assumes q: "quiet c L" and s: "has_server auth c"
  shows "\<exists>r c'. open_sockets env auth c = Some (r, c') \<and> calm c L c' L"
proof -
  obtain s4 c4 where p4: "sys_call (sys_socket env) (close_sockets auth c) = (s4, c4)" by fastforce
  obtain s6 c6 where p6: "(if config_ipv6 env then sys_call (sys_socket env) c4 else (-1, c4)) = (s6, c6)" by fastforce
  define c1 where "c1 = on_side auth (\<lambda>s. s\<lparr>serv_sock := s4, serv_sock6 := s6\<rparr>) c6"
  have c1: "calm c L c1 L"
  proof (rule calm_same [OF quiet_pending [OF q]])
    show "same_list c c1" using p4 p6 unfolding c1_def
      by (auto simp: same_list_def on_side_def sys_call_def close_sockets_def split: if_splits)
    show "has_server b c \<Longrightarrow> has_server b c1" for b using p4 p6 unfolding c1_def
      by (auto simp: has_server_def side_def on_side_def sys_call_def close_sockets_def split: if_splits)
  qed
  then obtain i where i: "server (side auth c1) = Some i" using s by (auto simp: calm_def has_server_def)
  obtain y c2 where c2: "radius_change_server env auth i None c1 = Some (y, c2)" "calm c1 L c2 L" using change_server_calm [OF quiet_calm [OF q c1]] by blast
  have cl: "calm c L c2 L" by (rule calm_trans [OF c1 c2(2)])
  have "calm c L (snd (sys_call g c')) L \<and> calm c L (close_sockets auth c') L" if "calm c L c' L" for g :: "nat \<Rightarrow> bool" and c'
    using that calm_pending [OF that] by (auto intro!: calm_trans [OF that calm_same])
  then have st: "calm c L c' L" if "sys_call g c'' = (b, c')" "calm c L c'' L" for g :: "nat \<Rightarrow> bool" and b c' c''
    using that by (metis snd_conv)
  have cs: "calm c L (close_sockets auth c') L" if "calm c L c' L" for c'
    using that calm_pending [OF that] by (auto intro!: calm_trans [OF that calm_same])
  obtain ok4 c3 where c3: "(if s4 \<ge> 0 then sys_call (sys_register env) c2 else (True, c2)) = (ok4, c3)" by fastforce
  have k3: "calm c L c3 L" using c3 st cl by (auto split: if_splits)
  obtain ok6 c5 where c5: "(if s6 \<ge> 0 then sys_call (sys_register env) c3 else (True, c3)) = (ok6, c5)" by fastforce
  have k5: "calm c L c5 L" using c5 st k3 by (auto split: if_splits)
  have "open_sockets env auth c = (if s4 < 0 \<and> s6 < 0 then Some (-1, c1) else if \<not> ok4 then Some (-1, close_sockets auth c3)
      else Some (if \<not> ok6 then (-1, close_sockets auth c5) else (0, c5)))"
    unfolding open_sockets_def Let_def p4 prod.case p6 c1_def [symmetric] i option.case c2(1) bind.bind_lunit c3 c5 ..
  then show ?thesis using c1 cs [OF k3] cs [OF k5] k5 by auto
qed

lemma init_side_calm: "quiet c L \<Longrightarrow> has_server auth c \<Longrightarrow> \<exists>r c'. init_side env auth c = Some (r, c') \<and> calm c L c' L"
  using open_calm [of c L auth env] by (cases auth) (simp_all add: init_side_def radius_client_init_auth_def radius_client_init_acct_def)

lemma failover_calm:
  assumes q: "quiet c L" and s: "has_server auth c"
  shows "\<exists>c' L'. failover_side env auth c = Some c' \<and> calm c L c' L'"
proof -
  have g: "pending c L" using q by (rule quiet_pending)
  obtain k :: nat where k: "fold_list l_next (\<lambda>e k. if is_acct (l_msg_type e) = auth then k else k + 1) (msgs c) (msg_store c) 0 = Some k"

  proof -
    have "seg l_next (msg_store c) (msgs c) L None" using g by (simp add: pending_def list_rep_def)
    from fold_list_seg [OF this] show ?thesis by (rule that)
  qed
  obtain old where old: "server (side auth c) = Some old" "old < length (servers (side auth c))" using s by (auto simp: has_server_def)
  obtain c1 where c1: "on_server auth (\<lambda>s. s\<lparr>srv_timeouts := srv_timeouts s + word_of_nat k\<rparr>) c = Some c1" "calm c L c1 L" using on_server_calm [OF g s] by blast
  define new where "new = (if old + 1 \<ge> length (servers (side auth c1)) then 0 else old + 1)"
  define c2 where "c2 = on_side auth (\<lambda>s. s\<lparr>server := Some new\<rparr>) c1"
  have "0 < length (servers (side auth c1))" using c1(2) s by (auto simp: calm_def has_server_def)
  then have "calm c1 L c2 L" by (intro calm_same [OF calm_pending [OF c1(2)]]) (auto simp: c2_def new_def has_server_def on_side_def side_def same_list_def)
  then have k2: "calm c L c2 L" by (rule calm_trans [OF c1(2)])
  obtain r c3 L' where c3: "radius_change_server env auth new (Some old) c2 = Some (r, c3)" "calm c2 L c3 L'"
    using change_server_calm [OF quiet_calm [OF q k2]] by blast
  have "failover env auth c = Some c3"
    unfolding failover_def k bind.bind_lunit old(1) c1(1) Let_def new_def [symmetric] c2_def [symmetric] c3(1) by simp
  then show ?thesis using calm_trans [OF k2 c3(2)]
    by (auto simp: failover_side_def radius_client_auth_failover_def radius_client_acct_failover_def)
qed

lemma choose_calm:
  assumes q: "quiet c L" and s: "has_server auth c"
  shows "\<exists>n c' L'. choose_socket env auth c = Some (n, c') \<and> calm c L c' L' \<and> (num_msgs c' = n \<longrightarrow> L' = L)"
proof -
  obtain c1 where c1: "(if cur_sock (side auth c) < 0 then map_option snd (init_side env auth c) else Some c) = Some c1" "calm c L c1 L"
    using init_side_calm [OF q s, of env] calm_refl [OF quiet_pending [OF q]] by (cases "cur_sock (side auth c) < 0") auto
  have "has_server auth c1" using c1(2) s by (simp add: calm_def)
  then obtain c2 L' where c2: "failover_side env auth c1 = Some c2" "calm c1 L c2 L'" using failover_calm [OF quiet_calm [OF q c1(2)]] by blast
  show ?thesis
  proof (cases "cur_sock (side auth c1) < 0 \<and> length (servers (side auth c1)) > 1")
    case True
    then have "choose_socket env auth c = Some (num_msgs c1, c2)" unfolding choose_socket_def c1(1) bind.bind_lunit if_P [OF True] c2(1) by simp
    moreover have "num_msgs c2 = num_msgs c1 \<longrightarrow> L' = L" using c2(2) by (simp add: calm_def)
    ultimately show ?thesis using calm_trans [OF c1(2) c2(2)] by blast
  next
    case False
    have "choose_socket env auth c = Some (num_msgs c1, c1)" unfolding choose_socket_def c1(1) bind.bind_lunit if_not_P [OF False] ..
    then show ?thesis using c1(2) by blast
  qed
qed


lemma send_error_calm:
  assumes q: "quiet c L" and s: "has_server (\<not> is_acct t) c"
  shows "\<exists>r c'. radius_client_handle_send_error env b t c = Some (r, c') \<and> calm c L c' L"
  using open_calm [OF q s, of env] calm_refl [OF quiet_pending [OF q]]
  by (cases "is_acct t") (auto simp: radius_client_handle_send_error_def radius_client_init_auth_def radius_client_init_acct_def)

lemma put_calm:
  assumes g: "pending c L" and e: "msg_store c x = Some e" "entry_keeps e e'" "l_msg_type e' = l_msg_type e"
  shows "calm c L (c\<lparr>msg_store := (msg_store c)(x \<mapsto> e')\<rparr>) L"
  unfolding calm_def using good_put [OF g e(1,2)] e(1,3) by (auto simp: kind_def intro!: exI [of _ "\<lambda>_. True"])

lemma pending_entry: "pending c L \<Longrightarrow> x \<in> set L \<Longrightarrow> \<exists>e. msg_store c x = Some e"
  using list_rep_in [of c L x] by (auto simp: pending_def)

lemma send_again_calm:
  assumes q: "quiet c L" and x: "x \<in> set L" and k: "kind c x = Some t"
  shows "\<exists>c'. send_again env x now s c = Some (False, c') \<and> calm c L c' L"
proof -
  obtain e where e: "msg_store c x = Some e" "l_msg_type e = t" using k by (auto simp: kind_def)
  define e1 where "e1 = e\<lparr>l_attempts := l_attempts e + 1, l_accu_attempts := l_accu_attempts e + 1, l_last_attempt := now\<rparr>"
  let ?c0 = "c\<lparr>msg_store := (msg_store c)(x \<mapsto> e1)\<rparr>"
  have k0: "calm c L ?c0 L" by (rule put_calm [OF quiet_pending [OF q] e(1)]) (simp_all add: e1_def entry_keeps_def)
  obtain res c1 where t: "transmit env s (l_msg e1) ?c0 = (res, c1)" by fastforce
  have "calm ?c0 L c1 L"
  proof (rule calm_same [OF calm_pending [OF k0] same_list_transmit [OF t]])
    show "has_server b ?c0 \<Longrightarrow> has_server b c1" for b
      using t by (auto simp: transmit_def sys_call_def client_out_def has_server_def side_def)
  qed
  then have k1: "calm c L c1 L" by (rule calm_trans [OF k0])
  have "has_server (\<not> is_acct t) c" using q x k by (auto simp: quiet_def)
  then have s1: "has_server (\<not> is_acct t) c1" using k1 by (simp add: calm_def)
  obtain f c2 where c2: "(case res of Sent \<Rightarrow> Some (0, c1) | Send_Failed b \<Rightarrow> radius_client_handle_send_error env b (l_msg_type e1) c1) = Some (f, c2)" "calm c1 L c2 L"
  proof (cases res)
    case Sent
    then show ?thesis using that calm_refl [OF calm_pending [OF k1]] by simp
  next
    case (Send_Failed b)
    have "l_msg_type e1 = t" using e(2) by (simp add: e1_def)
    then show ?thesis using that send_error_calm [OF quiet_calm [OF q k1] s1, of env b] Send_Failed by auto
  qed
  have k2: "calm c L c2 L" by (rule calm_trans [OF k1 c2(2)])
  obtain e2 where e2: "msg_store c2 x = Some e2" using pending_entry [OF calm_pending [OF k2] x] by blast
  let ?e3 = "e2\<lparr>l_next_try := fst now + l_next_wait e2, l_next_wait := cap_wait (l_next_wait e2 * 2)\<rparr>"
  have "calm c2 L (c2\<lparr>msg_store := (msg_store c2)(x \<mapsto> ?e3)\<rparr>) L" by (rule put_calm [OF calm_pending [OF k2] e2]) (simp_all add: entry_keeps_def)
  then have k3: "calm c L (c2\<lparr>msg_store := (msg_store c2)(x \<mapsto> ?e3)\<rparr>) L" by (rule calm_trans [OF k2])
  have "send_again env x now s c = (if f > 0 then Some (False, c2) else Some (False, c2\<lparr>msg_store := (msg_store c2)(x \<mapsto> ?e3)\<rparr>))"
    unfolding send_again_def e(1) bind.bind_lunit Let_def e1_def [symmetric] t prod.case c2(1) e2 ..
  then show ?thesis using k2 k3 by auto
qed

lemma retransmit_calm:
  assumes q: "quiet c L" and x: "x \<in> set L"
  shows "\<exists>r c' L'. radius_client_retransmit env x now c = Some (r, c') \<and> calm c L c' L' \<and> (r \<longrightarrow> L' = L)"
proof -
  obtain e where e: "msg_store c x = Some e" using pending_entry [OF quiet_pending [OF q] x] by blast
  define t where "t = l_msg_type e"
  have t: "kind c x = Some t" "t \<noteq> RADIUS_ACCT" "has_server (\<not> is_acct t) c" using q x e by (auto simp: t_def kind_def quiet_def)
  obtain n c1 L1 where c1: "choose_socket env (\<not> is_acct t) c = Some (n, c1)" "calm c L c1 L1" "num_msgs c1 = n \<longrightarrow> L1 = L"
    using choose_calm [OF q t(3)] by blast
  show ?thesis
  proof (cases "num_msgs c1 = n")
    case False
    then have "radius_client_retransmit env x now c = Some (False, c1)"
      unfolding radius_client_retransmit_def e bind.bind_lunit Let_def t_def [symmetric] c1(1) prod.case by simp
    then show ?thesis using c1(2) by blast
  next
    case True
    then have k1: "calm c L c1 L" using c1 by simp
    obtain e1 where e1: "msg_store c1 x = Some e1" using pending_entry [OF calm_pending [OF k1] x] by blast
    have s1: "has_server (\<not> is_acct t) c1" using k1 t(3) by (simp add: calm_def)
    obtain c2 where c2: "on_server (\<not> is_acct t) (count_attempt e1) c1 = Some c2" "calm c1 L c2 L" using on_server_calm [OF calm_pending [OF k1] s1] by blast
    have k2: "calm c L c2 L" by (rule calm_trans [OF k1 c2(2)])
    have q2: "quiet c2 L" by (rule quiet_calm [OF q k2])
    have kx: "kind c2 x = Some t" using k2 t(1) x by (simp add: calm_def)
    then obtain e2 where e2: "msg_store c2 x = Some e2" "l_msg_type e2 = t" by (auto simp: kind_def)
    have rf: "refresh_acct env x (fst now) c2 = Some c2" unfolding refresh_acct_def e2(1) using e2(2) t(2) by simp
    obtain c3 where c3: "send_again env x now (cur_sock (side (\<not> is_acct t) c1)) c2 = Some (False, c3)" "calm c2 L c3 L" using send_again_calm [OF q2 x kx] by blast
    have r: "radius_client_retransmit env x now c =
        (if t = RADIUS_ACCT_INTERIM then Some (True, if interim_error_cb c2 then client_out (Interim_Error (l_addr e1)) c2 else c2)
         else if cur_sock (side (\<not> is_acct t) c1) < 0 then Some (True, c2)
         else if l_accu_attempts e2 \<ge> RADIUS_CLIENT_MAX_FAILOVER * RADIUS_CLIENT_NUM_FAILOVER * int (length (servers (side (\<not> is_acct t) c2)))
         then Some (True, c2) else Some (False, c3))"
      unfolding radius_client_retransmit_def e bind.bind_lunit Let_def t_def [symmetric] c1(1) prod.case if_not_P [OF not_not [THEN iffD2, OF True]]
        e1 c2(1) rf e2(1) c3(1) ..
    have "calm c L (client_out (Interim_Error (l_addr e1)) c2) L" by (rule out_calm [OF k2])
    then show ?thesis unfolding r using k2 calm_trans [OF k2 c3(2)] by auto
  qed
qed


section \<open>The loop\<close>

lemma timer_loop_calm:
  assumes "quiet c (xs @ ys)" "at_pos prev entry xs ys"
  shows "\<exists>f c' L'. timer_loop env now prev entry first c = Some (f, c') \<and> pending c' L'"
  using assms
proof (induction "unat (num_msgs c) * 31 + length ys" arbitrary: c xs ys prev entry first rule: less_induct)
  case less
  have g: "pending c (xs @ ys)" using less.prems(1) by (rule quiet_pending)
  show ?case
  proof (cases ys)
    case Nil
    then have "timer_loop env now prev entry first c = Some (first, c)" using less.prems(2) by (subst timer_loop.simps) (simp add: at_pos_def)
    then show ?thesis using g by blast
  next
    case (Cons p zs)
    have p: "entry = Some p" "prev = (if xs = [] then None else Some (last xs))" using less.prems(2) Cons by (simp_all add: at_pos_def)
    obtain e where e: "msg_store c p = Some e" using pending_entry [OF g, of p] Cons by auto
    define R where "R = (if fst now \<ge> l_next_try e then radius_client_retransmit env p now c else Some (False, c))"
    obtain remove c' M where c': "R = Some (remove, c')" "calm c (xs @ ys) c' M" "remove \<longrightarrow> M = xs @ ys"
    proof (cases "fst now \<ge> l_next_try e")
      case True
      have "p \<in> set (xs @ ys)" using Cons by simp
      from retransmit_calm [OF less.prems(1) this, of env now] that show ?thesis unfolding R_def if_P [OF True] by blast
    next
      case False
      then show ?thesis using that calm_refl [OF g] unfolding R_def by simp
    qed
    have q': "quiet c' M" by (rule quiet_calm [OF less.prems(1) c'(2)])
    have b: "length M \<le> unat (num_msgs c')" "unat (num_msgs c') \<le> 30" using quiet_pending [OF q'] by (auto simp: pending_def RADIUS_CLIENT_MAX_ENTRIES_def word_le_nat_alt)
    have le: "unat (num_msgs c') \<le> unat (num_msgs c)" using c'(2) by (simp add: calm_def word_le_nat_alt)
    show ?thesis
    proof (cases remove)
      case True
      then have M: "M = xs @ p # zs" using c'(3) Cons by simp
      obtain c'' where c'': "remove_entry prev p c' = Some (case zs of [] \<Rightarrow> None | y # _ \<Rightarrow> Some y, c'')" "pending c'' (xs @ zs)" "num_msgs c'' = num_msgs c' - 1"
          "\<forall>y \<in> set (xs @ zs). map_option body (msg_store c'' y) = map_option body (msg_store c' y)"
        using remove_entry_ok [of c' xs p zs] quiet_pending [OF q'] unfolding M p(2) by blast
      have u: "unat (num_msgs c'') = unat (num_msgs c') - 1" "0 < unat (num_msgs c')" using unat_pred [of "num_msgs c'"] b(1) c''(3) M by auto
      have hs: "has_server b c''" if "has_server b c'" for b
        using that c''(1) by (auto simp: remove_entry_def bind_eq_Some_conv split: option.splits)
      have "quiet c'' (xs @ zs)" unfolding quiet_def
      proof (intro conjI ballI allI impI)
        fix x t
        assume x: "x \<in> set (xs @ zs)" "kind c'' x = Some t"
        then have "kind c' x = Some t" using kind_body [of c'' x c'] c''(4) by simp
        then show "t \<noteq> RADIUS_ACCT" "has_server (\<not> is_acct t) c''" using q' x(1) hs unfolding quiet_def M by auto
      qed (rule c''(2))
      moreover have "at_pos prev (case zs of [] \<Rightarrow> None | y # _ \<Rightarrow> Some y) xs zs" using p(2) by (simp add: at_pos_def)
      moreover have "unat (num_msgs c'') * 31 + length zs < unat (num_msgs c) * 31 + length ys"
        using u le Cons by (intro add_less_le_mono) simp_all
      ultimately have "\<exists>f d L'. timer_loop env now prev (case zs of [] \<Rightarrow> None | y # _ \<Rightarrow> Some y) first c'' = Some (f, d) \<and> pending d L'" by (intro less.hyps)
      moreover have "timer_loop env now prev entry first c = timer_loop env now prev (case zs of [] \<Rightarrow> None | y # _ \<Rightarrow> Some y) first c''"
        using p(1) e c'(1) True c''(1) by (subst timer_loop.simps) (simp add: R_def)
      ultimately show ?thesis by metis
    next
      case False
      show ?thesis
      proof (cases "num_msgs c' = num_msgs c")
        case eq: True
        then have M: "M = xs @ p # zs" using c'(2) Cons by (simp add: calm_def)
        obtain e' where e': "msg_store c' p = Some e'" using pending_entry [OF quiet_pending [OF q'], of p] M by auto
        have "l_next e' = (case zs of [] \<Rightarrow> None | y # _ \<Rightarrow> Some y)" using good_seg_next [OF _ e', of xs zs] quiet_pending [OF q'] M by simp
        then have "at_pos (Some p) (l_next e') (xs @ [p]) zs" by (simp add: at_pos_def)
        moreover have "quiet c' ((xs @ [p]) @ zs)" using q' M by simp
        moreover have "unat (num_msgs c') * 31 + length zs < unat (num_msgs c) * 31 + length ys" using eq Cons by simp
        ultimately have "\<exists>f d L'. timer_loop env now (Some p) (l_next e') (earliest e' first) c' = Some (f, d) \<and> pending d L'" by (intro less.hyps)
        moreover have "timer_loop env now prev entry first c = timer_loop env now (Some p) (l_next e') (earliest e' first) c'"
          using p(1) e c'(1) False eq e' by (subst timer_loop.simps) (simp add: R_def)
        ultimately show ?thesis by metis
      next
        case neq: False
        then have lt: "unat (num_msgs c') < unat (num_msgs c)" using le by (metis nat_less_le unsigned_word_eqI)
        have "unat (num_msgs c') * 31 + length M < unat (num_msgs c) * 31 + length ys" using lt b by linarith
        moreover have "at_pos None (msgs c') [] M" by (rule good_start [OF quiet_pending [OF q']])
        moreover have "quiet c' ([] @ M)" using q' by simp
        ultimately have "\<exists>f d L'. timer_loop env now None (msgs c') first c' = Some (f, d) \<and> pending d L'" by (intro less.hyps)
        moreover have "timer_loop env now prev entry first c = timer_loop env now None (msgs c') first c'"
          using p(1) e c'(1) False neq by (subst timer_loop.simps) (simp add: R_def)
        ultimately show ?thesis by metis
      qed
    qed
  qed
qed

lemma fold_or: "fold (\<lambda>e (x, y). (x \<or> P e, y \<or> Q e)) es (p, q) = (p \<or> (\<exists>e \<in> set es. P e), q \<or> (\<exists>e \<in> set es. Q e))"
  by (induction es arbitrary: p q) auto

text \<open>
  C16. On every reachable client on which no pending request is a (final) Accounting-Request and a server is configured
  for the side of every pending request, \<open>radius_client_timer\<close> returns: it neither uses a released entry nor runs
  forever, whatever the system calls return, although it changes servers, flushes requests and starts again while it
  goes through the list. Both conditions are needed: a pending Accounting-Request may be released under the
  timer, and a reconfiguration may take the server away from pending requests (\<open>client_reconfig_null_server\<close>).
\<close>

theorem client_timer_returns:
  assumes "client_reach c" "\<And>x e. msg_store c x = Some e \<Longrightarrow> l_msg_type e \<noteq> RADIUS_ACCT \<and> has_server (\<not> is_acct (l_msg_type e)) c"
  shows "\<exists>c'. radius_client_timer env now c = Some c' \<and> client_reach c'"
proof -
  obtain L where g: "pending c L" using reach_pending [OF assms(1)] by blast
  have q: "quiet c L" using g assms(2) by (auto simp: quiet_def kind_def)
  have "\<exists>c'. radius_client_timer env now c = Some c'"
  proof (cases "msgs c = None")
    case True
    then show ?thesis by (simp add: radius_client_timer_def)
  next
    case False
    let ?f = "\<lambda>e (x, y). (x \<or> failover_wanted (fst now) c True e, y \<or> failover_wanted (fst now) c False e)"
    have "seg l_next (msg_store c) (msgs c) L None" using g by (simp add: pending_def list_rep_def)
    then have fl: "fold_list l_next ?f (msgs c) (msg_store c) (False, False)
        = Some (\<exists>e \<in> set (map (\<lambda>x. the (msg_store c x)) L). failover_wanted (fst now) c True e, \<exists>e \<in> set (map (\<lambda>x. the (msg_store c x)) L). failover_wanted (fst now) c False e)"
      (is "_ = Some (?w True, ?w False)")
      unfolding fold_list_seg [OF \<open>seg l_next (msg_store c) (msgs c) L None\<close>] fold_or by simp
    have w: "has_server b c" if w: "?w b" for b
    proof -
      obtain x where x: "x \<in> set L" "failover_wanted (fst now) c b (the (msg_store c x))" using w by auto
      obtain e where e: "msg_store c x = Some e" using pending_entry [OF g x(1)] by blast
      then have "is_acct (l_msg_type e) \<noteq> b" using x(2) by (simp add: failover_wanted_def)
      then have "(\<not> is_acct (l_msg_type e)) = b" by blast
      then show ?thesis using assms(2) [OF e] by simp
    qed
    obtain c1 L1 where c1: "(if ?w True then failover_side env True c else Some c) = Some c1" "calm c L c1 L1"
      using failover_calm [where auth = True and env = env, OF q w] calm_refl [OF g] by (cases "?w True") auto
    have q1: "quiet c1 L1" by (rule quiet_calm [OF q c1(2)])
    have w1: "has_server False c1" if "?w False" using w [OF that] c1(2) by (simp add: calm_def)
    obtain c2 L2 where c2: "(if ?w False then failover_side env False c1 else Some c1) = Some c2" "calm c1 L1 c2 L2"
      using failover_calm [where auth = False and env = env, OF q1 w1] calm_refl [OF quiet_pending [OF q1]] by (cases "?w False") auto
    have q2: "quiet c2 ([] @ L2)" using quiet_calm [OF q1 c2(2)] by simp
    obtain f c3 where "timer_loop env now None (msgs c2) 0 c2 = Some (f, c3)"
      using timer_loop_calm [OF q2 good_start] quiet_pending [OF q2] by fastforce
    then show ?thesis unfolding radius_client_timer_def fl bind.bind_lunit prod.case c1(1) c2(1) using False by simp
  qed
  then show ?thesis using client_reach.timer [OF assms(1)] by blast
qed


text \<open>Example: an interim update is pending and its time has come.\<close>

definition demo_interim :: "unit radius_client_data" where
  "demo_interim = (case radius_client_init demo_client_env True [] None [demo_server] (Some 0) of Some (Some c) \<Rightarrow>
     (case radius_client_send demo_client_env False (Some 0) (10, 0) demo_acct_msg RADIUS_ACCT_INTERIM None c of Some (_, c) \<Rightarrow> c | None \<Rightarrow> c))"

lemma demo_interim_reach: "client_reach demo_interim"
proof -
  let ?i = "radius_client_init demo_client_env True [] None [demo_server] (Some 0) :: unit radius_client_data option ub"
  have "(case ?i of Some (Some c) \<Rightarrow> msg_store c 0 = None \<and>
      (case radius_client_send demo_client_env False (Some 0) (10, 0) demo_acct_msg RADIUS_ACCT_INTERIM None c of Some _ \<Rightarrow> True | None \<Rightarrow> False) | _ \<Rightarrow> False)"
    by code_simp
  then obtain c0 r c1 where c: "?i = Some (Some c0)" "msg_store c0 0 = None"
      "radius_client_send demo_client_env False (Some 0) (10, 0) demo_acct_msg RADIUS_ACCT_INTERIM None c0 = Some (r, c1)"
    by (auto split: option.splits)
  have "client_reach c1" using client_reach.send [OF client_reach.init [OF c(1)] demo_sendable _ _ c(3)] c(2) by simp
  then show ?thesis using c by (simp add: demo_interim_def)
qed

lemma client_timer_returns_witness: "\<exists>c'. radius_client_timer demo_client_env (13, 0) demo_interim = Some c' \<and> client_reach c'"
proof (rule client_timer_returns [OF demo_interim_reach])
  fix x e
  assume e: "msg_store demo_interim x = Some e"
  obtain L where L: "pending demo_interim L" using reach_pending [OF demo_interim_reach] by blast
  have f: "msgs demo_interim = Some 0" "map_option (\<lambda>e. (l_next e, l_msg_type e)) (msg_store demo_interim 0) = Some (None, RADIUS_ACCT_INTERIM)" by code_simp+
  then have "L = [0]" using L by (cases L rule: list.exhaust [case_names nil cons]; cases "tl L") (auto simp: pending_def list_rep_def)
  then have "x = 0" using good_dom [OF L e] by simp
  then have t: "l_msg_type e = RADIUS_ACCT_INTERIM" using e f(2) by simp
  have "(case server (acct_side demo_interim) of Some i \<Rightarrow> i < length (servers (acct_side demo_interim)) | None \<Rightarrow> False)" by code_simp
  then have "has_server False demo_interim" by (auto simp: has_server_def side_def split: option.splits)
  then show "l_msg_type e \<noteq> RADIUS_ACCT \<and> has_server (\<not> is_acct (l_msg_type e)) demo_interim" using t by (simp add: is_acct_def)
qed

text \<open>
  After \<open>radius_client_reconfig\<close> to a configuration with no accounting server the pending request of the example is
  still retransmitted, and the counter of the server is updated through the NULL pointer.
\<close>

lemma client_reconfig_null_server:
  "\<exists>c :: unit radius_client_data. client_reach c \<and> num_msgs c = 1 \<and> server (acct_side c) = None
     \<and> choose_socket demo_client_env False c = Some (num_msgs c, c) \<and> (\<forall>f. on_server False f c = None)
     \<and> radius_client_timer demo_client_env (13, 0) c = None"
proof -
  let ?c = "radius_client_reconfig [] None [] None demo_interim"
  have "client_reach ?c" by (rule client_reach.reconfig [OF demo_interim_reach])
  moreover have "num_msgs ?c = 1" "0 \<le> cur_sock (acct_side ?c)" by code_simp+
  moreover have "server (acct_side ?c) = None" by (simp add: radius_client_reconfig_def on_side_def)
  moreover from this have "on_server False f ?c = None" for f by (simp add: on_server_def side_def)
  moreover have "radius_client_timer demo_client_env (13, 0) ?c = None" by code_simp
  moreover from calculation(3) have "choose_socket demo_client_env False ?c = Some (num_msgs ?c, ?c)" by (simp add: choose_socket_def side_def)
  ultimately show ?thesis by blast
qed

end
