(* ===== verification/Spec2Isabelle.thy ===== *)
theory Spec2Isabelle
  imports Byte_Order Hex_Strings Base64 Eap_Theorems Radius_Keys Radius_Md5 Station_Theorems Pmksa_Theorems Radius_Client_Timer
begin

text \<open>
  Verification of the access-point side of hostap 2.10 (\<open>src/hostap-2.10\<close>), the 802.1X/EAP/RADIUS
  authentication of \<open>hostapd\<close>, with the byte-level utilities it is built on.

  \<^bold>\<open>The program.\<close> A station associates (\<open>src/ap\<close>), sends EAPOL frames to the access point
  (\<open>ieee802_1x_receive\<close>), which hands EAP packets to the IEEE 802.1X state machines of the
  station (\<open>src/eapol_auth\<close>). These drive the EAP authenticator (\<open>src/eap_server\<close>), which either
  runs a local method or relays the EAP messages in RADIUS packets (\<open>src/radius\<close>) to a server;
  the server's verdict comes back through \<open>ieee802_1x_receive_auth\<close>, and the state machines
  open or close the controlled port.

  \<^bold>\<open>The theories.\<close>
  \<^item> \<open>Prelude\<close>: machine types, the conversions to C's \<open>int\<close> and \<open>unsigned\<close> (\<open>c_int\<close>, \<open>c_unsigned\<close>), checked memory
    access (\<open>None\<close> of type \<open>ub\<close> is a fault), C strings, the locales \<open>codec\<close> and \<open>fixed_codec\<close> of encoders and decoders.
  \<^item> \<open>Byte_Order\<close> (\<open>utils/common.h\<close>), \<open>Hex_Strings\<close> (\<open>utils/common.c\<close>), \<open>Base64\<close>
    (\<open>utils/base64.c\<close>), \<open>Wpabuf\<close> (\<open>utils/wpabuf.[ch]\<close>): accessors, text conversions and message
    buffers; round trips, memory safety, refinement of the buffer by its content. \<open>Wpabuf\<close> also has
    the result type \<open>run\<close>: \<open>Ok\<close>, \<open>Abort\<close> for a deliberate \<open>abort ()\<close>, \<open>Fault\<close> for undefined behaviour.
  \<^item> \<open>Eap_Common\<close> (\<open>eap_common/eap_common.c\<close>): EAP headers and ERP TLVs.
  \<^item> \<open>Eap_Server\<close> (\<open>eap_server/eap_server.c\<close>): the EAP authenticator; the record \<open>eap_sm\<close> is \<open>struct
    eap_sm\<close>, each \<open>enter_X\<close> is \<open>SM_STATE(EAP, X)\<close>, \<open>sm_EAP_Step\<close> is \<open>SM_STEP(EAP)\<close>, \<open>eap_server_sm_step\<close>
    its driver loop. \<open>Eap_Server_Inv\<close> has its invariant, a rank that bounds the driver loop, and the
    locale \<open>eap_authenticator\<close> of environments whose methods keep their contract; \<open>Eap_Identity\<close> models
    the Identity method and interprets that locale for the relaying access point; \<open>Eap_Theorems\<close> has
    the properties.
  \<^item> \<open>Eapol_Auth\<close> (\<open>eapol_auth/eapol_auth_sm.c\<close>): the six 802.1X state machines, their driver
    \<open>eapol_sm_step_run\<close>, timers, creation and control. Calls out of the module are recorded in the
    list \<open>outs\<close>. \<open>Eapol_Inv\<close> shows what every machine keeps of the port, through the locale
    \<open>sub_machine\<close>, and what a run keeps, in the locale \<open>eapol_authenticator\<close>, which extends
    \<open>eap_authenticator\<close>.
  \<^item> \<open>Radius\<close> (\<open>radius/radius.c\<close>): RADIUS messages over \<open>Wpabuf\<close>. \<open>Radius_Attrs\<close> relates a message to
    its header and list of attributes (\<open>radius_rep\<close>) and shows every operation on that level;
    \<open>Radius_Theorems\<close> and \<open>Radius_Keys\<close> have the properties. The stack buffer of \<open>radius_msg_get_vlanid\<close> is
    checked memory, a field of \<open>vlan_state\<close>.
  \<^item> \<open>Md5\<close> (\<open>crypto/md5-internal.c\<close>, \<open>crypto/md5.c\<close>): incremental MD5 and HMAC-MD5, with their reference
    definitions; \<open>Radius_Md5\<close> makes them the hash functions of the RADIUS messages.
  \<^item> \<open>Ieee8021x\<close> and \<open>Ieee8021x_Radius\<close> (\<open>ap/ieee802_1x.c\<close>): EAPOL frames, association, end of a
    station, Access-Requests, and the processing of responses.
  \<^item> \<open>Station\<close>: all events of a station as one step function, \<open>sta_step\<close>, with the lemmas on what each
    event keeps; the locale \<open>event_system\<close> carries them to histories. \<open>Station_Theorems\<close> has the
    properties of histories and a complete authentication as the example.
  \<^item> \<open>Pmksa_Cache\<close> (\<open>ap/pmksa_cache_auth.c\<close>): the cache of pairwise master keys, two kinds of linked lists
    through the same entries in an explicit store. \<open>Pmksa_Inv\<close> relates a cache to the list of its entries
    (\<open>cache_rep\<close>); \<open>Pmksa_Theorems\<close> shows every operation on that level, the invariant of all histories
    (\<open>cache_reach\<close>), and the limit on the histories without opportunistic entries (\<open>capped_reach\<close>).
  \<^item> \<open>Linked_List\<close>: the loops of the C code over singly linked lists, in an explicit store, with their
    lemmas; the locale \<open>link_field\<close> is the link field of an entry.
  \<^item> \<open>Radius_Client\<close> (\<open>radius/radius_client.c\<close>): the list of pending requests, sending, retransmission,
    identifiers, the change of servers, and the delivery of responses; the system calls are parameters.
    \<open>Radius_Client_Inv\<close> relates a client to the list of its requests (\<open>pending\<close>), \<open>Radius_Client_Steps\<close> shows that
    every operation but the addition of a request only removes entries (\<open>shrinks\<close>), and
    \<open>Radius_Client_Theorems\<close> has the invariant of all histories (\<open>client_reach\<close>) and the properties;
    \<open>Radius_Client_Timer\<close> shows when the retransmission timer returns.

  \<^bold>\<open>What is shown.\<close> The port of a station in a relaying access point is open only for a reason, and its status
  is the one last reported through the callback \<open>set_port_authorized\<close> (\<open>ap_port_safety\<close>,
  \<open>ap_port_consistent\<close>); no received frame faults (\<open>ap_receive_total\<close>), and no run or timer faults or hangs,
  as long as the Identity method can be created and EAP-Initiate/Re-auth-Start is off (\<open>ap_run_returns\<close>, \<open>eap_step_returns\<close>); responses are accepted exactly
  when they are authentic (\<open>radius_verify_iff_authentic\<close>, and with the program's MD5 \<open>radius_verify_rfc\<close>); what one side encodes the other decodes
  (the round trips); the PMKSA cache keeps its lists and its count, and without opportunistic
  entries its limit of 1024 entries, finds what was added and removes exactly what has expired or is named; the RADIUS client keeps its list of at most 30 requests and
  delivers a response with exactly the request it answers, and its timer returns when no Accounting-Request is pending
  and every pending request has a server configured (\<open>client_timer_returns\<close>); and where the code departs from its intention the departure is proved on
  concrete inputs or characterised (the properties of kind error, \<open>pmksa_okc_over_limit\<close> and
  \<open>client_reconfig_null_server\<close>).

  \<^bold>\<open>Bounds.\<close> The driver loop of the EAP authenticator has no bound in the code; it is a partial
  function, and \<open>eap_step_returns\<close> shows that it returns. So is the loop of \<open>PROPOSE_METHOD\<close> over its passes
  (\<open>try_method_pass\<close>); \<open>try_passes\<close> makes a number of them, so that a loop that goes on forever is told from a fault. The loop of \<open>eapol_sm_step_run\<close> is bounded by
  100 in the code. The loops over the lists of the PMKSA cache and of the
  RADIUS client are partial functions; those of the cache are shown to return on every cache, and the timer of the client, which starts
  again when its list has changed, by a measure on the number of messages and the position. All other loops are structural or have a measure. Sizes of C structures are those
  of a 64-bit build. Memory allocation is a parameter that may fail at any call, except that in the
  environment \<open>relay_env\<close> of the relaying access point the private data of the Identity method can always be allocated:
  without memory for it \<open>PROPOSE_METHOD\<close> does not end (\<open>eap_propose_identity_loops\<close>).

  \<^bold>\<open>Parameters.\<close> The hash functions of \<open>Radius\<close> (instantiated in \<open>Radius_Md5\<close>), the random source, the clock, the station table, the VLAN functions
  and the common RADIUS attributes.

  \<^bold>\<open>Not modelled.\<close> EAP methods other than Identity, ERP, the RADIUS server, the WPA key handshakes, WPS, P2P, DPP, drivers, what the access point does with the
  reported port status (\<open>ieee802_1x_set_sta_authorized\<close>) and when it disconnects a station on its own, the supplicant, configuration files
  and control interfaces; logging and text dumps; the release of memory. Outside hostap: glibc,
  libnl, iw and the wireless tools.
\<close>

end
